(* ===== verification/Prelude.thy ===== *)
theory Prelude
  imports Complex_Main "HOL-Library.Word"
begin

text \<open>
  What every component shares: fallible results and how the code sequences them (the question
  mark operator and \<open>bail!\<close>), UTF-8 strings as the byte lists Rust stores with the
  operations the code uses on them (\<open>len\<close>, \<open>chars\<close>, \<open>trim\<close>,
  \<open>is_control\<close>), the 64-bit floats that carry cursors on the wire, \<open>u32\<close>
  arithmetic, and list lemmas about keyed tables, sorting and bounded prefixes.
\<close>

named_theorems result_simps "characteristic equations of sequencing and guards"
named_theorems table_simps "lookup and update of keyed tables"

section \<open>Fallible results\<close>

text \<open>
  \<open>Result<T, E>\<close> is a sum: \<open>Inl\<close> carries the error, \<open>Inr\<close> the value.
  \<open>and_then m k\<close> is \<open>k(m?)\<close>; \<open>ensure c e\<close> is
  \<open>if !c { bail!(e) }\<close>; \<open>of_option e o\<close> is \<open>o.context(e)?\<close>.
\<close>

definition and_then :: "'e + 'a \<Rightarrow> ('a \<Rightarrow> 'e + 'b) \<Rightarrow> 'e + 'b" where
  "and_then m k = (case m of Inl e \<Rightarrow> Inl e | Inr x \<Rightarrow> k x)"

definition ensure :: "bool \<Rightarrow> 'e \<Rightarrow> 'e + unit" where
  "ensure c e = (if c then Inr () else Inl e)"

definition of_option :: "'e \<Rightarrow> 'a option \<Rightarrow> 'e + 'a" where
  "of_option e v = (case v of None \<Rightarrow> Inl e | Some x \<Rightarrow> Inr x)"

lemma and_then_simps [simp, result_simps]:
  "and_then (Inl e) k = Inl e"
  "and_then (Inr x) k = k x"
  by (simp_all add: and_then_def)

lemma and_then_eq_Inr [result_simps]:
  "and_then m k = Inr y \<longleftrightarrow> (\<exists>x. m = Inr x \<and> k x = Inr y)"
  by (cases m) auto

lemma and_then_eq_Inl [result_simps]:
  "and_then m k = Inl e \<longleftrightarrow> m = Inl e \<or> (\<exists>x. m = Inr x \<and> k x = Inl e)"
  by (cases m) auto

lemma ensure_simps [simp, result_simps]:
  "ensure True e = Inr ()"
  "ensure False e = Inl e"
  by (simp_all add: ensure_def)

lemma ensure_eq [result_simps]:
  "ensure c e = Inr u \<longleftrightarrow> c"
  "ensure c e = Inl e' \<longleftrightarrow> \<not> c \<and> e' = e"
  by (auto simp: ensure_def)

lemma of_option_simps [simp, result_simps]:
  "of_option e None = Inl e"
  "of_option e (Some x) = Inr x"
  by (simp_all add: of_option_def)

lemma of_option_eq [result_simps]:
  "of_option e v = Inr x \<longleftrightarrow> v = Some x"
  "of_option e v = Inl e' \<longleftrightarrow> v = None \<and> e' = e"
  by (auto simp: of_option_def split: option.splits)

fun is_ok :: "'e + 'a \<Rightarrow> bool" where
  "is_ok (Inr _) = True"
| "is_ok (Inl _) = False"

lemma is_ok_iff: "is_ok r \<longleftrightarrow> (\<exists>x. r = Inr x)"
  by (cases r) auto

text \<open>A loop over a collection whose body may fail stops at the first error.\<close>

fun for_each :: "('s \<Rightarrow> 'a \<Rightarrow> 'e + 's) \<Rightarrow> 's \<Rightarrow> 'a list \<Rightarrow> 'e + 's" where
  "for_each f s [] = Inr s"
| "for_each f s (x # xs) = and_then (f s x) (\<lambda>s'. for_each f s' xs)"

lemma for_each_invariant:
  assumes "for_each f s xs = Inr s'" and "P s"
    and "\<And>s x s'. x \<in> set xs \<Longrightarrow> P s \<Longrightarrow> f s x = Inr s' \<Longrightarrow> P s'"
  shows "P s'"
  using assms
proof (induction xs arbitrary: s)
  case Nil
  then show ?case by simp
next
  case (Cons x xs)
  then obtain t where t: "f s x = Inr t" "for_each f t xs = Inr s'"
    by (auto simp: result_simps)
  have "P t" using Cons.prems(2,3) t(1) by auto
  then show ?case
    using Cons.IH [OF t(2)] Cons.prems(3) by (meson list.set_intros(2))
qed

lemma for_each_append:
  "for_each f s (xs @ ys) = and_then (for_each f s xs) (\<lambda>s'. for_each f s' ys)"
proof (induction xs arbitrary: s)
  case Nil
  then show ?case by simp
next
  case (Cons x xs)
  then show ?case by (cases "f s x") auto
qed

section \<open>UTF-8 strings\<close>

text \<open>
  A Rust \<open>String\<close> is a UTF-8 byte sequence and a HOL \<open>string\<close> is a list of 8-bit
  characters, so \<open>s.len()\<close> is \<open>length s\<close>. \<open>chars\<close> cuts the bytes into the
  encodings of the successive code points (a string that is not valid UTF-8, which Rust excludes,
  is cut in the same total way), and the predicates on code points are those of \<open>core\<close>.
\<close>

definition byte :: "char \<Rightarrow> nat" where
  "byte c = of_char c"

definition utf8_width :: "char \<Rightarrow> nat" where
  "utf8_width c =
     (let b = byte c in if b < 192 then 1 else if b < 224 then 2 else if b < 240 then 3 else 4)"

function (sequential) chars :: "string \<Rightarrow> string list" where
  "chars [] = []"
| "chars (c # cs) = (c # take (utf8_width c - 1) cs) # chars (drop (utf8_width c - 1) cs)"
  by pat_completeness auto
termination
  by (relation "measure length") auto

lemma concat_chars [simp]: "concat (chars s) = s"
  by (induction s rule: chars.induct) auto

lemma chars_eq_Nil [simp]: "chars s = [] \<longleftrightarrow> s = []"
  by (cases s) auto

lemma length_chars_le: "length (chars s) \<le> length s"
  by (induction s rule: chars.induct) auto

fun code_point :: "string \<Rightarrow> nat" where
  "code_point [a] = byte a"
| "code_point [a, b] = (byte a - 192) * 64 + (byte b - 128)"
| "code_point [a, b, c] = (byte a - 224) * 4096 + (byte b - 128) * 64 + (byte c - 128)"
| "code_point [a, b, c, d] =
     (byte a - 240) * 262144 + (byte b - 128) * 4096 + (byte c - 128) * 64 + (byte d - 128)"
| "code_point _ = 0"

text \<open>\<open>char::is_whitespace\<close> is the Unicode property White_Space; \<open>char::is_control\<close> is
  the category Cc.\<close>

definition is_whitespace :: "string \<Rightarrow> bool" where
  "is_whitespace c =
     (let p = code_point c
      in p \<in> {9, 10, 11, 12, 13, 32, 133, 160, 5760, 8232, 8233, 8239, 8287, 12288}
         \<or> (8192 \<le> p \<and> p \<le> 8202))"

definition is_control :: "string \<Rightarrow> bool" where
  "is_control c = (let p = code_point c in p < 32 \<or> (127 \<le> p \<and> p \<le> 159))"

definition trim :: "string \<Rightarrow> string" where
  "trim s = concat (rev (dropWhile is_whitespace (rev (dropWhile is_whitespace (chars s)))))"

definition chars_count :: "string \<Rightarrow> nat" where
  "chars_count s = length (chars s)"

definition any_control :: "string \<Rightarrow> bool" where
  "any_control s = list_ex is_control (chars s)"

text \<open>\<open>text.chars().take(n).collect()\<close>\<close>

definition take_chars :: "nat \<Rightarrow> string \<Rightarrow> string" where
  "take_chars n s = concat (take n (chars s))"

lemma trim_Nil [simp]: "trim [] = []"
  by (simp add: trim_def)

lemma length_concat_le_if_sublist:
  "length (concat (dropWhile p xs)) \<le> length (concat xs)"
  by (induction xs) auto

lemma length_trim_le: "length (trim s) \<le> length s"
proof -
  let ?d = "dropWhile is_whitespace"
  have rev_len: "length (concat (rev xs)) = length (concat xs)" for xs :: "string list"
    by (induction xs) auto
  have "length (trim s) = length (concat (?d (rev (?d (chars s)))))"
    by (simp only: trim_def rev_len)
  also have "\<dots> \<le> length (concat (rev (?d (chars s))))"
    by (rule length_concat_le_if_sublist)
  also have "\<dots> = length (concat (?d (chars s)))" by (rule rev_len)
  also have "\<dots> \<le> length (concat (chars s))" by (rule length_concat_le_if_sublist)
  finally show ?thesis by simp
qed

text \<open>
  \<open>strip_prefix\<close>, \<open>split_once\<close>, \<open>rfind\<close> and \<open>splitn\<close> on bytes; the
  patterns are valid UTF-8, for which matching bytes and matching characters agree.
\<close>

fun strip_prefix :: "'a list \<Rightarrow> 'a list \<Rightarrow> 'a list option" where
  "strip_prefix [] s = Some s"
| "strip_prefix (p # ps) [] = None"
| "strip_prefix (p # ps) (c # cs) = (if p = c then strip_prefix ps cs else None)"

lemma strip_prefix_Some: "strip_prefix p s = Some r \<longleftrightarrow> s = p @ r"
  by (induction p s rule: strip_prefix.induct) auto

fun starts_with :: "'a list \<Rightarrow> 'a list \<Rightarrow> bool" where
  "starts_with [] s = True"
| "starts_with (p # ps) [] = False"
| "starts_with (p # ps) (c # cs) = (p = c \<and> starts_with ps cs)"

lemma starts_with_iff: "starts_with p s \<longleftrightarrow> (\<exists>r. s = p @ r)"
  by (induction p s rule: starts_with.induct) auto

fun split_once :: "string \<Rightarrow> string \<Rightarrow> (string \<times> string) option" where
  "split_once pat [] = (if pat = [] then Some ([], []) else None)"
| "split_once pat (c # cs) =
     (case strip_prefix pat (c # cs) of
        Some rest \<Rightarrow> Some ([], rest)
      | None \<Rightarrow> map_option (\<lambda>(a, b). (c # a, b)) (split_once pat cs))"

lemma split_once_Some: "split_once pat s = Some (a, b) \<Longrightarrow> s = a @ pat @ b"
proof (induction s arbitrary: a)
  case Nil
  then show ?case by (simp split: if_splits)
next
  case (Cons c cs)
  then show ?case
    by (auto simp: strip_prefix_Some split: option.splits)
qed

fun split_on :: "'a \<Rightarrow> 'a list \<Rightarrow> 'a list list" where
  "split_on x [] = [[]]"
| "split_on x (c # cs) =
     (if c = x then [] # split_on x cs
      else case split_on x cs of [] \<Rightarrow> [[c]] | w # ws \<Rightarrow> (c # w) # ws)"

lemma split_on_ne [simp]: "split_on x s \<noteq> []"
  by (induction s) (auto split: list.splits)

lemma split_on_append:
  "x \<notin> set w \<Longrightarrow> split_on x (w @ x # s) = w # split_on x s"
  by (induction w) auto

lemma split_on_no_sep: "x \<notin> set w \<Longrightarrow> split_on x w = [w]"
  by (induction w) auto

section \<open>Keyed tables\<close>

text \<open>
  A database table is the list of its rows in insertion order. \<open>update_where\<close> is SQL's
  \<open>UPDATE ... WHERE\<close>, \<open>count_where\<close> is \<open>COUNT(*)\<close>, \<open>find\<close> is a query for
  at most one row.
\<close>

definition update_where :: "('r \<Rightarrow> bool) \<Rightarrow> ('r \<Rightarrow> 'r) \<Rightarrow> 'r list \<Rightarrow> 'r list" where
  "update_where p f = map (\<lambda>r. if p r then f r else r)"

definition count_where :: "('r \<Rightarrow> bool) \<Rightarrow> 'r list \<Rightarrow> nat" where
  "count_where p rs = length (filter p rs)"

lemma update_where_simps [simp, table_simps]:
  "update_where p f [] = []"
  "update_where p f (r # rs) = (if p r then f r else r) # update_where p f rs"
  by (simp_all add: update_where_def)

lemma length_update_where [simp]: "length (update_where p f rs) = length rs"
  by (simp add: update_where_def)

lemma update_where_append [table_simps]:
  "update_where p f (xs @ ys) = update_where p f xs @ update_where p f ys"
  by (simp add: update_where_def)

lemma map_update_where [table_simps]:
  "(\<And>r. g (f r) = g r) \<Longrightarrow> map g (update_where p f rs) = map g rs"
  by (induction rs) auto

lemma update_where_none [table_simps]:
  "(\<And>r. r \<in> set rs \<Longrightarrow> \<not> p r) \<Longrightarrow> update_where p f rs = rs"
  by (induction rs) auto

lemma in_set_update_where:
  "x \<in> set (update_where p f rs) \<longleftrightarrow>
     (\<exists>r \<in> set rs. x = (if p r then f r else r))"
  by (auto simp: update_where_def)

lemma filter_update_where_other [table_simps]:
  "(\<And>r. p r \<Longrightarrow> q (f r) = q r) \<Longrightarrow>
   filter q (update_where p f rs) = update_where p f (filter q rs)"
  by (induction rs) auto

lemma filter_update_where_disjoint:
  "(\<And>r. p r \<Longrightarrow> \<not> q r \<and> \<not> q (f r)) \<Longrightarrow> filter q (update_where p f rs) = filter q rs"
  by (induction rs) auto

lemma count_where_simps [simp, table_simps]:
  "count_where p [] = 0"
  "count_where p (r # rs) = (if p r then Suc (count_where p rs) else count_where p rs)"
  "count_where p (xs @ ys) = count_where p xs + count_where p ys"
  by (simp_all add: count_where_def)

lemma count_where_mono:
  "(\<And>r. r \<in> set rs \<Longrightarrow> p r \<Longrightarrow> q r) \<Longrightarrow> count_where p rs \<le> count_where q rs"
  by (induction rs) (auto simp: le_SucI)

lemma count_update_where_le:
  "(\<And>r. p r \<Longrightarrow> q (f r) \<Longrightarrow> q r) \<Longrightarrow> count_where q (update_where p f rs) \<le> count_where q rs"
  by (induction rs) (auto simp: le_SucI)

lemma count_where_update_same:
  "(\<And>r. p r \<Longrightarrow> q (f r) = q r) \<Longrightarrow> count_where q (update_where p f rs) = count_where q rs"
  by (induction rs) auto

lemma count_where_filter_le: "count_where p (filter q rs) \<le> count_where p rs"
  by (induction rs) (auto simp: le_SucI)

lemma find_Some_in: "List.find p xs = Some x \<Longrightarrow> x \<in> set xs \<and> p x"
  by (auto simp: find_Some_iff)

lemma find_None: "List.find p xs = None \<longleftrightarrow> (\<forall>x \<in> set xs. \<not> p x)"
  by (auto simp: find_None_iff)

lemma find_append [table_simps]:
  "List.find p (xs @ ys) = (case List.find p xs of None \<Rightarrow> List.find p ys | Some x \<Rightarrow> Some x)"
  by (induction xs) auto

lemma find_update_where_same [table_simps]:
  assumes "\<And>r. q r \<Longrightarrow> p r \<and> q (f r)" and "\<And>r. p r \<Longrightarrow> q (f r) \<Longrightarrow> q r"
  shows "List.find q (update_where p f rs) = map_option f (List.find q rs)"
proof (induction rs)
  case Nil
  then show ?case by simp
next
  case (Cons r rs)
  consider "q r" "p r" "q (f r)" | "\<not> q r" "p r" "\<not> q (f r)" | "\<not> q r" "\<not> p r"
    using assms [of r] by blast
  then show ?case using Cons.IH by cases simp_all
qed

lemma find_update_where_other:
  assumes "\<And>r. p r \<Longrightarrow> \<not> q r \<and> \<not> q (f r)"
  shows "List.find q (update_where p f rs) = List.find q rs"
proof (induction rs)
  case Nil
  then show ?case by simp
next
  case (Cons r rs)
  show ?case using Cons.IH assms [of r] by (cases "p r") simp_all
qed

text \<open>A key that no two rows share.\<close>

lemma distinct_key_find:
  "distinct (map k rs) \<Longrightarrow> r \<in> set rs \<Longrightarrow> List.find (\<lambda>x. k x = k r) rs = Some r"
  by (induction rs) force+

lemma distinct_key_unique:
  "distinct (map k rs) \<Longrightarrow> r \<in> set rs \<Longrightarrow> r' \<in> set rs \<Longrightarrow> k r = k r' \<Longrightarrow> r = r'"
  by (metis distinct_map inj_onD)

lemma sort_key_append_max:
  fixes k :: "'a \<Rightarrow> 'k :: linorder"
  assumes "\<And>y. y \<in> set xs \<Longrightarrow> k y < k x"
  shows "sort_key k (xs @ [x]) = sort_key k xs @ [x]"
  using assms
proof (induction xs)
  case Nil
  then show ?case by simp
next
  case (Cons a xs)
  have ins: "insort_key k a (ys @ [x]) = insort_key k a ys @ [x]" if "k a < k x" for ys
    using that by (induction ys) auto
  have "k a < k x" using Cons.prems by simp
  then have "insort_key k a (sort_key k xs @ [x]) = insort_key k a (sort_key k xs) @ [x]"
    by (rule ins)
  moreover have "sort_key k (xs @ [x]) = sort_key k xs @ [x]"
    using Cons.IH Cons.prems by simp
  ultimately show ?case by simp
qed

text \<open>Rows in strictly increasing key order, as an \<open>ORDER BY\<close> over a unique key gives them.\<close>

definition increasing :: "('a \<Rightarrow> 'k :: linorder) \<Rightarrow> 'a list \<Rightarrow> bool" where
  "increasing k xs \<longleftrightarrow> sorted_wrt (\<lambda>x y. k x < k y) xs"

lemma increasing_simps [simp]:
  "increasing k []"
  "increasing k (x # xs) \<longleftrightarrow> (\<forall>y \<in> set xs. k x < k y) \<and> increasing k xs"
  "increasing k (xs @ ys) \<longleftrightarrow>
     increasing k xs \<and> increasing k ys \<and> (\<forall>x \<in> set xs. \<forall>y \<in> set ys. k x < k y)"
  by (auto simp: increasing_def sorted_wrt_append)

lemma increasing_filter: "increasing k xs \<Longrightarrow> increasing k (filter p xs)"
  by (induction xs) auto

lemma increasing_sort_key:
  assumes "increasing k xs"
  shows "sort_key k xs = xs"
proof (rule sort_key_id_if_sorted)
  from assms show "sorted (map k xs)" by (induction xs) (auto simp: less_imp_le)
qed

lemma increasing_distinct: "increasing k xs \<Longrightarrow> distinct (map k xs)"
  by (induction xs) auto

lemma increasing_drop:
  assumes "increasing k xs" and "i < length xs"
  shows "filter (\<lambda>x. k (xs ! i) < k x) xs = drop (Suc i) xs"
  using assms
proof (induction xs arbitrary: i)
  case Nil
  then show ?case by simp
next
  case (Cons x xs)
  show ?case
  proof (cases i)
    case 0
    with Cons.prems show ?thesis by (auto simp: filter_id_conv)
  next
    case (Suc j)
    with Cons.prems have "k x < k (xs ! j)" by auto
    with Cons Suc show ?thesis by (auto dest: less_not_sym)
  qed
qed

lemma take_take_same: "take k (take n xs) = take k xs" if "k \<le> length (take n xs)"
proof -
  from that have "k \<le> n" by simp
  then show ?thesis by (simp add: take_take min.absorb1)
qed

end
