(* ===== verification/Protocol.thy ===== *)
theory Protocol
  imports Prelude
begin

text \<open>
  The wire and storage types of \<open>crates/latte-work-protocol/src/lib.rs\<close> and
  \<open>lifecycle.rs\<close>, one record per struct and one datatype per enum, with the field and
  variant names of the source behind a prefix that keeps the records apart. A finite \<open>f64\<close>
  (a timestamp in milliseconds, a sequence number, a token count) is its rational value; a cursor a
  client sends can be any \<open>f64\<close>, so it is a value of type \<open>f64\<close>. A JSON document is a
  \<open>json\<close> value. Where an optional field is skipped when absent, absence is \<open>None\<close>.
\<close>

section \<open>Numbers and JSON values\<close>

datatype (plugins only: code size) f64 = Fin rat | PosInf | NegInf | NaN

text \<open>\<open>!v.is_finite() || v < 0.0\<close>: the cursor test of every paged request.\<close>

fun bad_cursor :: "f64 \<Rightarrow> bool" where
  "bad_cursor (Fin r) = (r < 0)"
| "bad_cursor _ = True"

fun finite_value :: "f64 \<Rightarrow> rat" where
  "finite_value (Fin r) = r"
| "finite_value _ = 0"

datatype (plugins only: code size) json =
    JNull
  | JBool bool
  | JNumber rat
  | JString string
  | JArray "json list"
  | JObject "(string \<times> json) list"

text \<open>Indexing a JSON value with a key that is absent, or a value that is no object, yields null.\<close>

fun json_field :: "json \<Rightarrow> string \<Rightarrow> json" where
  "json_field (JObject kvs) k = (case map_of kvs k of None \<Rightarrow> JNull | Some v \<Rightarrow> v)"
| "json_field _ k = JNull"

fun json_str :: "json \<Rightarrow> string option" where
  "json_str (JString s) = Some s"
| "json_str _ = None"

type_synonym u32 = "32 word"

text \<open>\<open>checked_add\<close> and \<open>saturating_add\<close> on \<open>u32\<close>.\<close>

definition checked_add :: "u32 \<Rightarrow> u32 \<Rightarrow> u32 option" where
  "checked_add a b = (if unat a + unat b < 2 ^ 32 then Some (a + b) else None)"

definition saturating_add :: "u32 \<Rightarrow> u32 \<Rightarrow> u32" where
  "saturating_add a b = (if unat a + unat b < 2 ^ 32 then a + b else 4294967295)"

lemma unat_checked_add: "checked_add a b = Some c \<Longrightarrow> unat c = unat a + unat b"
  by (auto simp: checked_add_def unat_word_ariths split: if_splits)

lemma checked_add_one: "checked_add a 1 = Some c \<Longrightarrow> unat c = Suc (unat a)"
  by (drule unat_checked_add) simp

lemma checked_add_one_neq: "checked_add a 1 = Some c \<Longrightarrow> c \<noteq> a"
  by (auto dest: checked_add_one)

lemma unat_saturating_add: "unat (saturating_add a b) = min (unat a + unat b) (2 ^ 32 - 1)"
proof (cases "unat a + unat b < 2 ^ 32")
  case True
  then show ?thesis by (simp add: saturating_add_def unat_word_ariths)
next
  case False
  then show ?thesis by (simp add: saturating_add_def min_def)
qed

section \<open>Sessions, projects and turns\<close>

record project =
  prj_id :: string
  prj_name :: string
  prj_path :: string

datatype (plugins only: code size) status =
  Ready | Running | Waiting | Completed | Failed | Stopped | Unknown

fun status_active :: "status \<Rightarrow> bool" where
  "status_active Running = True"
| "status_active Waiting = True"
| "status_active _ = False"

datatype (plugins only: code size) effort = Low | Medium | High | Xhigh | MaxEffort

fun effort_as_str :: "effort \<Rightarrow> string" where
  "effort_as_str Low = ''low''"
| "effort_as_str Medium = ''medium''"
| "effort_as_str High = ''high''"
| "effort_as_str Xhigh = ''xhigh''"
| "effort_as_str MaxEffort = ''max''"

lemma effort_as_str_inject [simp]: "effort_as_str a = effort_as_str b \<longleftrightarrow> a = b"
  by (cases a; cases b) auto

record session =
  ses_id :: string
  ses_project_id :: string
  ses_title :: string
  ses_agent :: string
  ses_native_id :: "string option"
  ses_model :: "string option"
  ses_effort :: "effort option"
  ses_permission_mode :: "string option"
  ses_status :: status
  ses_created_at :: rat
  ses_custom_title :: bool
  ses_pinned_at :: "rat option"
  ses_unread :: bool
  ses_archived :: bool
  ses_agent_session_open :: "bool option"
  ses_agent_session_busy :: "bool option"

record recent_cursor =
  rc_updated_at :: f64
  rc_id :: string

record recent_session =
  rs_session :: session
  rs_updated_at :: rat

record terminal_info =
  ti_id :: string
  ti_project_id :: string
  ti_title :: string
  ti_exited :: bool
  ti_exit_code :: "u32 option"

record queued_message =
  qm_request_id :: string
  qm_text :: string
  qm_model :: "string option"
  qm_effort :: "effort option"
  qm_permission_mode :: "string option"
  qm_revision :: u32
  qm_created_at :: rat

record file_entry =
  fe_name :: string
  fe_path :: string
  fe_directory :: bool

section \<open>Questions\<close>

record question_option =
  qo_label :: string
  qo_description :: string

record user_question =
  uq_id :: string
  uq_header :: string
  uq_text :: string
  uq_options :: "question_option list"
  uq_multi_select :: bool

record question_answer =
  qa_question_id :: string
  qa_option_indices :: "u32 list"
  qa_text :: "string option"

section \<open>Subagents, changes and events\<close>

datatype (plugins only: code size) execution_phase = PhaseWaiting | PhaseThinking | PhaseReplying

record context_usage =
  cu_model :: string
  cu_used_tokens :: rat
  cu_window_tokens :: "rat option"

record turn_usage =
  tu_input_tokens :: "rat option"
  tu_cache_read_tokens :: "rat option"
  tu_cache_write_tokens :: "rat option"
  tu_output_tokens :: "rat option"
  tu_model_time_ms :: "rat option"
  tu_steps :: "rat option"

datatype (plugins only: code size) subagent_status =
  SubRunning | SubPaused | SubCompleted | SubFailed | SubStopped | SubUnknown

fun subagent_active :: "subagent_status \<Rightarrow> bool" where
  "subagent_active SubRunning = True"
| "subagent_active SubPaused = True"
| "subagent_active _ = False"

record subagent_update =
  su_id :: string
  su_tool_use_id :: "string option"
  su_title :: "string option"
  su_agent_type :: "string option"
  su_status :: "subagent_status option"
  su_summary :: "string option"
  su_last_tool :: "string option"

record subagent =
  sa_id :: string
  sa_native_id :: string
  sa_tool_use_id :: "string option"
  sa_title :: string
  sa_agent_type :: "string option"
  sa_status :: subagent_status
  sa_summary :: "string option"
  sa_last_tool :: "string option"
  sa_started_at :: "rat option"
  sa_updated_at :: rat

record task_change =
  tc_path :: string
  tc_status :: string
  tc_added :: "u32 option"
  tc_removed :: "u32 option"

record change_summary =
  cs_entries :: "task_change list"
  cs_total_files :: "u32 option"
  cs_next_offset :: "u32 option"
  cs_offset :: "u32 option"
  cs_added :: u32
  cs_removed :: u32
  cs_binary_files :: u32
  cs_truncated :: bool
  cs_baseline_at :: "rat option"
  cs_unavailable :: "string option"

datatype (plugins only: code size) turn_undo_status = UndoReady | UndoReverted | UndoUnknown

record turn_changes =
  tch_request_id :: string
  tch_summary :: change_summary
  tch_interrupted :: bool
  tch_background_pending :: bool
  tch_undo :: turn_undo_status

datatype (plugins only: code size) event_kind =
    TurnChanges turn_changes
  | SubagentEv subagent_update
  | Progress execution_phase
  | Usage "context_usage option" "turn_usage option"
  | User string string                  \<comment> \<open>text, request_id\<close>
  | QueuedMessageSent string string     \<comment> \<open>text, request_id\<close>
  | Text string
  | Tool string string json             \<comment> \<open>id, name, input\<close>
  | ToolResult string json bool         \<comment> \<open>id, content, is_error\<close>
  | Question string "string option" "user_question list"
  | QuestionResolved string "question_answer list option"
  | Approval string "string option" string json
  | ApprovalResolved string bool
  | State status "string option"
  | Notice string

record event =
  ev_seq :: rat
  ev_session_id :: string
  ev_at :: rat
  ev_event :: event_kind

section \<open>Sources\<close>

datatype (plugins only: code size) source_kind = FileSource | DirectorySource | ToolSource | ConnectorSource

record task_source =
  ts_id :: string
  ts_name :: string
  ts_kind :: source_kind
  ts_path :: "string option"
  ts_mime_type :: "string option"
  ts_tools :: "string list"
  ts_uses :: u32

section \<open>Git changes\<close>

datatype (plugins only: code size) change_section = Unstaged | Staged | Untracked

record git_change =
  gc_path :: string
  gc_previous_path :: "string option"
  gc_section :: change_section
  gc_status :: string

section \<open>Providers\<close>

datatype (plugins only: code size) provider_protocol = AnthropicMessages | OpenaiChat | OpenaiResponses

datatype (plugins only: code size) provider_auth = AuthNone | Bearer | ApiKey

record provider =
  pv_id :: string
  pv_name :: string
  pv_protocol :: provider_protocol
  pv_base_url :: string
  pv_model :: string
  pv_models :: "string list"
  pv_model_labels :: "(string \<times> string) list"
  pv_models_1m :: "string list"
  pv_auth :: provider_auth
  pv_has_credential :: bool
  pv_revision :: string

section \<open>Responses of the queue and of the terminals\<close>

text \<open>The variants of \<open>Response\<close> that the modelled handlers return.\<close>

datatype (plugins only: code size) response =
    Terminals "terminal_info list"
  | Terminal terminal_info
  | TerminalOutput terminal_info "8 word list" rat bool bool
  | QueuedMessageTaken queued_message
  | MessageQueued bool
  | MessageQueue "queued_message list" bool "string option"
  | Accepted bool
  | RespOk

section \<open>The lifecycle protocol\<close>

datatype (plugins only: code size) resource = AgentSession string | TerminalResource string

fun resource_id :: "resource \<Rightarrow> string" where
  "resource_id (AgentSession i) = i"
| "resource_id (TerminalResource i) = i"

datatype (plugins only: code size) lifecycle_request =
    ServerStatusReq
  | PrepareUpgrade string
  | ClaimResources string "resource list"
  | AdoptResources string string string "resource list"
      \<comment> \<open>server_id, previous_owner_id, owner_id, resources\<close>
  | CloseOwnedResources string string "resource list"

datatype (plugins only: code size) lifecycle_response =
    ServerStatus string string bool
  | UpgradeReady
  | ResourcesClaimed
  | ResourcesClosed
  | ResourcesAdopted "resource list"

end
