(* ===== verification/Snapshots.thy ===== *)
theory Snapshots
  imports Protocol
begin

text \<open>
  The data of \<open>snapshot_storage.rs\<close> and of the snapshots of \<open>task_changes.rs\<close>: a
  reference to an immutable stored object, the contents of a captured file (bytes of an older
  record, or such a reference), the snapshot of a worktree and the frozen turn. A
  \<open>BTreeMap\<close> is an association list in key order. SHA-256 and the private object directory
  are parameters: \<open>digest\<close> maps bytes to their hexadecimal digest and \<open>stored\<close> is the
  contents the directory holds under a root and a key.
\<close>

type_synonym bytes = "8 word list"

definition RECORD_LIMIT :: nat where
  "RECORD_LIMIT = 256 * 1024"

record snap_object =
  ob_key :: string
  ob_size :: nat
  ob_root :: string

datatype (plugins only: code size) contents = Legacy bytes | Object snap_object

definition contents_object :: "contents \<Rightarrow> snap_object option" where
  "contents_object c = (case c of Object ob \<Rightarrow> Some ob | Legacy _ \<Rightarrow> None)"

definition contents_digest :: "(bytes \<Rightarrow> string) \<Rightarrow> contents \<Rightarrow> string" where
  "contents_digest digest c = (case c of Legacy b \<Rightarrow> digest b | Object ob \<Rightarrow> ob_key ob)"

definition contents_len :: "contents \<Rightarrow> nat" where
  "contents_len c = (case c of Legacy b \<Rightarrow> length b | Object ob \<Rightarrow> ob_size ob)"

text \<open>Two byte records are compared byte by byte; anything else by digest.\<close>

definition contents_eq :: "(bytes \<Rightarrow> string) \<Rightarrow> contents \<Rightarrow> contents \<Rightarrow> bool" where
  "contents_eq digest a b =
     (case (a, b) of
        (Legacy x, Legacy y) \<Rightarrow> x = y
      | _ \<Rightarrow> contents_digest digest a = contents_digest digest b)"

definition contents_attach :: "string \<Rightarrow> contents \<Rightarrow> contents" where
  "contents_attach rt c = (case c of Object ob \<Rightarrow> Object (ob\<lparr>ob_root := rt\<rparr>) | Legacy b \<Rightarrow> Legacy b)"

record snapshot =
  sn_at :: rat
  sn_root_identity :: "(nat \<times> nat) option"
  sn_files :: "(string \<times> contents option) list"
  sn_manifest :: "snap_object option"
  sn_storage :: "string option"
  sn_modes :: "(string \<times> u32) list"
  sn_truncated :: bool
  sn_unavailable :: "string option"

definition snapshot_unavailable :: "rat \<Rightarrow> string \<Rightarrow> snapshot" where
  "snapshot_unavailable now message =
     \<lparr>sn_at = now, sn_root_identity = None, sn_files = [], sn_manifest = None, sn_storage = None,
      sn_modes = [], sn_truncated = False, sn_unavailable = Some message\<rparr>"

definition snapshot_attach :: "string \<Rightarrow> snapshot \<Rightarrow> snapshot" where
  "snapshot_attach storage s =
     s\<lparr>sn_storage := Some storage,
       sn_manifest := map_option (\<lambda>ob. ob\<lparr>ob_root := storage\<rparr>) (sn_manifest s),
       sn_files := map (\<lambda>(p, c). (p, map_option (contents_attach storage) c)) (sn_files s)\<rparr>"

datatype (plugins only: code size) summary_data = SummaryObject snap_object | SummaryInline change_summary

record frozen_turn =
  ft_full_summary :: "summary_data option"
  ft_changes :: turn_changes
  ft_before :: snapshot
  ft_after :: snapshot

lemma contents_eq_refl [simp]: "contents_eq digest c c"
  by (cases c) (simp_all add: contents_eq_def)

lemma contents_eq_sym: "contents_eq digest a b \<longleftrightarrow> contents_eq digest b a"
  by (cases a; cases b) (auto simp: contents_eq_def)

lemma contents_digest_attach [simp]:
  "contents_digest digest (contents_attach rt c) = contents_digest digest c"
  by (cases c) (simp_all add: contents_digest_def contents_attach_def)

end
