(* ===== verification/Store.thy ===== *)
theory Store
  imports Snapshots
    "HOL-Library.List_Lexorder" "HOL-Library.Char_ord" "HOL-Library.Product_Lexorder"
begin

text \<open>
  The SQLite database of \<open>store.rs\<close>: one row record per table, the store record with every
  table the modelled operations touch, the primitives that read the clock and write rows, and the
  operations on projects and sessions. A table is a list in \<open>rowid\<close> order, so
  \<open>ORDER BY rowid DESC\<close> is \<open>rev\<close>; a column that holds the serde encoding of a value holds
  the value. An \<open>AUTOINCREMENT\<close> key is one more than the largest ever used, which the store
  keeps beside the table. Two things come from outside: the wall clock, whose k-th reading is
  \<open>db_clock k\<close> (the store counts the readings), and the random identifiers, which are
  arguments. An operation that fails returns the error and the transaction it opened is rolled
  back, so an \<open>Inl\<close> result leaves the database as it was.
\<close>

section \<open>Errors\<close>

datatype (plugins only: code size) error =
    SqlNoRow | SqlForeignKey | SqlUnique
  | ProjectMissing | ProjectNameInvalid | ProjectPathRelative | ProjectDirMissing
  | ProjectNotDirectory | ProjectPathNotUtf8 | ProjectBusy
  | SessionMissing | SessionTitleInvalid | SessionArchivedPin | SessionPinLimit | SessionActiveArchive
  | RecentCursorInvalid
  | SubagentMissing | SubagentUnlinked | SubagentToolIdTooLong | SubagentEventUnsupported
  | SubagentSessionMismatch | SubagentCacheLimit | SubagentCursorInvalid | SubagentPromptTooLong
  | SubagentEventTooLong
  | EventCursorInvalid | RecordTooLarge
  | RequestInvalid | RequestIdReused | RequestProviderChanged | SessionBusy | SessionArchivedSend
  | TurnMissing | ReferenceLimit
  | QueueRequestReused | QueueTaken | QueueCancelled | QueueMessageInvalid | QueueOtherProvider
  | QueueFull | QueueSizeLimit | QueueEntryGone | QueueEntryChanged | QueueRevisionOverflow
  | QueueOrderInvalid | QueueOrderIncomplete | QueueOrderChanged

section \<open>Tables\<close>

record session_row =
  sr_id :: string
  sr_project_id :: string
  sr_data :: session

record event_row =
  er_seq :: nat
  er_session_id :: string
  er_at :: rat
  er_data :: event_kind

record subagent_row =
  sbr_session_id :: string
  sbr_id :: string
  sbr_native_id :: string
  sbr_tool_use_id :: "string option"
  sbr_active :: bool
  sbr_at :: rat
  sbr_data :: subagent

record subagent_event_row =
  ser_seq :: nat
  ser_session_id :: string
  ser_task_id :: string
  ser_at :: rat
  ser_data :: event_kind
  ser_truncated :: bool

text \<open>The full history of a child: its rows, the read position in its native transcript, and a
  cached native transcript.\<close>

record child_history_row =
  ch_session_id :: string
  ch_task_id :: string
  ch_source :: string
  ch_seq :: rat
  ch_at :: rat
  ch_data :: event_kind

record child_cursor =
  cc_offset :: nat
  cc_identity :: string
  cc_has_more :: bool
  cc_pending_tail :: bool
  cc_handbacks :: "(string \<times> string) list"

record child_cursor_row =
  ccr_session_id :: string
  ccr_task_id :: string
  ccr_cursor :: child_cursor

record child_transcript_row =
  ctr_session_id :: string
  ctr_task_id :: string
  ctr_data :: "event list \<times> bool"

record request_row =
  rq_id :: string
  rq_session_id :: string
  rq_text :: string
  rq_model :: "string option"
  rq_effort :: "string option"
  rq_provider_fingerprint :: "string option"
  rq_permission_mode :: "string option"

datatype (plugins only: code size) queue_status =
  Pending | Forwarded | Dispatched | Uncertain | Cancelled | Taken

record queue_row =
  q_position :: nat
  q_request_id :: string
  q_session_id :: string
  q_admission :: queued_message
  q_data :: queued_message
  q_fingerprint :: "string option"
  q_status :: queue_status
  q_sort_order :: int

record queue_state_row =
  qs_session_id :: string
  qs_paused :: bool
  qs_reason :: "string option"

record source_row =
  sor_session_id :: string
  sor_id :: string
  sor_data :: task_source
  sor_at :: rat

record reference_row =
  rf_project_id :: string
  rf_path :: string
  rf_directory :: bool

record turn_row =
  tr_session_id :: string
  tr_request_id :: string
  tr_baseline :: "snapshot option"
  tr_data :: "frozen_turn option"

record store =
  db_projects :: "project list"
  db_hidden_projects :: "string list"
  db_sessions :: "session_row list"
  db_events :: "event_row list"
  db_event_seq :: nat
  db_subagents :: "subagent_row list"
  db_subagent_events :: "subagent_event_row list"
  db_subagent_event_seq :: nat
  db_child_history :: "child_history_row list"
  db_child_cursors :: "child_cursor_row list"
  db_child_transcripts :: "child_transcript_row list"
  db_requests :: "request_row list"
  db_queue :: "queue_row list"
  db_queue_position :: nat
  db_queue_state :: "queue_state_row list"
  db_turn_changes :: "turn_row list"
  db_task_baselines :: "(string \<times> snapshot) list"
  db_task_sources :: "source_row list"
  db_observed_tools :: "(string \<times> string) list"
  db_reference_access :: "reference_row list"
  db_clock :: "nat \<Rightarrow> rat"
  db_clock_reads :: nat

definition empty_store :: "(nat \<Rightarrow> rat) \<Rightarrow> store" where
  "empty_store clock =
     \<lparr>db_projects = [], db_hidden_projects = [], db_sessions = [], db_events = [],
      db_event_seq = 0, db_subagents = [], db_subagent_events = [], db_subagent_event_seq = 0,
      db_child_history = [], db_child_cursors = [], db_child_transcripts = [],
      db_requests = [], db_queue = [], db_queue_position = 0, db_queue_state = [],
      db_turn_changes = [], db_task_baselines = [], db_task_sources = [], db_observed_tools = [],
      db_reference_access = [], db_clock = clock, db_clock_reads = 0\<rparr>"

section \<open>Primitives\<close>

definition read_clock :: "store \<Rightarrow> rat \<times> store" where
  "read_clock st = (db_clock st (db_clock_reads st), st\<lparr>db_clock_reads := Suc (db_clock_reads st)\<rparr>)"

definition session_exists :: "store \<Rightarrow> string \<Rightarrow> bool" where
  "session_exists st i = (\<exists>r \<in> set (db_sessions st). sr_id r = i)"

text \<open>\<open>INSERT INTO events(session_id,at,data)\<close>; the foreign key needs the session.\<close>

definition insert_event :: "store \<Rightarrow> string \<Rightarrow> rat \<Rightarrow> event_kind \<Rightarrow> error + store" where
  "insert_event st i t e =
     and_then (ensure (session_exists st i) SqlForeignKey) (\<lambda>_.
       Inr (st\<lparr>db_events := db_events st @
                 [\<lparr>er_seq = Suc (db_event_seq st), er_session_id = i, er_at = t, er_data = e\<rparr>],
               db_event_seq := Suc (db_event_seq st)\<rparr>))"

section \<open>Projects\<close>

text \<open>What the operations ask of the host file system.\<close>

record host_fs =
  fs_canonicalize :: "string \<Rightarrow> string option"
  fs_is_dir :: "string \<Rightarrow> bool"
  fs_utf8 :: "string \<Rightarrow> bool"
  fs_file_name :: "string \<Rightarrow> string"

definition all_projects :: "store \<Rightarrow> project list" where
  "all_projects st = sort_key prj_name (db_projects st)"

definition projects :: "store \<Rightarrow> project list" where
  "projects st = filter (\<lambda>p. prj_id p \<notin> set (db_hidden_projects st)) (all_projects st)"

definition project_by_id :: "store \<Rightarrow> string \<Rightarrow> error + project" where
  "project_by_id st i = of_option ProjectMissing (List.find (\<lambda>p. prj_id p = i) (all_projects st))"

definition is_absolute :: "string \<Rightarrow> bool" where
  "is_absolute path = starts_with ''/'' path"

definition add_named_project ::
  "host_fs \<Rightarrow> string \<Rightarrow> store \<Rightarrow> string \<Rightarrow> string option \<Rightarrow> error + (project \<times> store)" where
  "add_named_project fs uuid st path name =
     (let name = (case map_option trim name of Some v \<Rightarrow> if v = [] then None else Some v | None \<Rightarrow> None)
      in and_then (ensure (\<not> (case name of None \<Rightarrow> False
                              | Some v \<Rightarrow> chars_count v > 100 \<or> any_control v)) ProjectNameInvalid) (\<lambda>_.
         and_then (ensure (is_absolute path) ProjectPathRelative) (\<lambda>_.
         and_then (of_option ProjectDirMissing (fs_canonicalize fs path)) (\<lambda>canonical.
         and_then (ensure (fs_is_dir fs canonical) ProjectNotDirectory) (\<lambda>_.
         and_then (ensure (fs_utf8 fs canonical) ProjectPathNotUtf8) (\<lambda>_.
           case List.find (\<lambda>p. prj_path p = canonical) (all_projects st) of
             Some existing \<Rightarrow>
               Inr (existing, st\<lparr>db_hidden_projects :=
                                   filter (\<lambda>h. h \<noteq> prj_id existing) (db_hidden_projects st)\<rparr>)
           | None \<Rightarrow>
               let p = \<lparr>prj_id = uuid,
                        prj_name = (case name of Some v \<Rightarrow> v | None \<Rightarrow> fs_file_name fs canonical),
                        prj_path = canonical\<rparr>
               in and_then (ensure (uuid \<notin> set (map prj_id (db_projects st))) SqlUnique) (\<lambda>_.
                    Inr (p, st\<lparr>db_projects := db_projects st @ [p]\<rparr>))))))))"

definition rename_project :: "store \<Rightarrow> string \<Rightarrow> string \<Rightarrow> error + (project \<times> store)" where
  "rename_project st i name =
     (let name = trim name
      in and_then (ensure (\<not> (name = [] \<or> chars_count name > 100 \<or> any_control name))
                     ProjectNameInvalid) (\<lambda>_.
         and_then (project_by_id st i) (\<lambda>p.
           Inr (p\<lparr>prj_name := name\<rparr>,
                st\<lparr>db_projects :=
                     update_where (\<lambda>r. prj_id r = i) (\<lambda>r. r\<lparr>prj_name := name\<rparr>) (db_projects st)\<rparr>))))"

definition all_sessions :: "store \<Rightarrow> session list" where
  "all_sessions st = map sr_data (rev (db_sessions st))"

definition remove_project :: "store \<Rightarrow> string \<Rightarrow> error + store" where
  "remove_project st i =
     and_then (project_by_id st i) (\<lambda>_.
     and_then (ensure (\<not> list_ex (\<lambda>s. ses_project_id s = i \<and> status_active (ses_status s)) (all_sessions st))
                 ProjectBusy) (\<lambda>_.
       Inr (if i \<in> set (db_hidden_projects st) then st
            else st\<lparr>db_hidden_projects := db_hidden_projects st @ [i]\<rparr>)))"

definition has_active_sessions :: "store \<Rightarrow> bool" where
  "has_active_sessions st = list_ex (\<lambda>r. status_active (ses_status (sr_data r))) (db_sessions st)"

section \<open>Sessions\<close>

definition sessions :: "store \<Rightarrow> string \<Rightarrow> error + session list" where
  "sessions st pid =
     and_then (project_by_id st pid) (\<lambda>_.
       Inr (take 500 (filter (\<lambda>s. ses_project_id s = pid) (all_sessions st))))"

definition session_by_id :: "store \<Rightarrow> string \<Rightarrow> error + session" where
  "session_by_id st i =
     of_option SessionMissing (map_option sr_data (List.find (\<lambda>r. sr_id r = i) (db_sessions st)))"

definition save :: "store \<Rightarrow> session \<Rightarrow> store" where
  "save st s =
     st\<lparr>db_sessions :=
          update_where (\<lambda>r. sr_id r = ses_id s) (\<lambda>r. r\<lparr>sr_data := s\<rparr>) (db_sessions st)\<rparr>"

text \<open>\<open>UPDATE sessions SET data=?2 WHERE id=?1\<close> with the id passed separately.\<close>

definition save_as :: "store \<Rightarrow> string \<Rightarrow> session \<Rightarrow> store" where
  "save_as st i s =
     st\<lparr>db_sessions := update_where (\<lambda>r. sr_id r = i) (\<lambda>r. r\<lparr>sr_data := s\<rparr>) (db_sessions st)\<rparr>"

text \<open>The default title of a new session, three code points of three bytes each.\<close>

definition new_task_title :: string where
  "new_task_title = map char_of [0xE6::nat, 0x96, 0xB0, 0xE4, 0xBB, 0xBB, 0xE5, 0x8A, 0xA1]"

definition create_session ::
  "string \<Rightarrow> store \<Rightarrow> string \<Rightarrow> string \<Rightarrow> error + (session \<times> store)" where
  "create_session uuid st pid agent =
     and_then (project_by_id st pid) (\<lambda>_.
       let (t, st') = read_clock st;
           s = \<lparr>ses_id = uuid, ses_project_id = pid, ses_title = new_task_title, ses_agent = agent,
                ses_native_id = None, ses_model = None, ses_effort = None,
                ses_permission_mode = None, ses_status = Ready, ses_created_at = t,
                ses_custom_title = False, ses_pinned_at = None, ses_unread = False,
                ses_archived = False, ses_agent_session_open = None, ses_agent_session_busy = None\<rparr>
       in and_then (ensure (uuid \<notin> set (map sr_id (db_sessions st'))) SqlUnique) (\<lambda>_.
            Inr (s, st'\<lparr>db_sessions := db_sessions st' @
                          [\<lparr>sr_id = uuid, sr_project_id = pid, sr_data = s\<rparr>]\<rparr>)))"

definition project_hidden :: "store \<Rightarrow> string \<Rightarrow> bool" where
  "project_hidden st pid = (pid \<in> set (db_hidden_projects st))"

definition pin_key :: "session_row \<Rightarrow> rat" where
  "pin_key r = (case ses_pinned_at (sr_data r) of Some t \<Rightarrow> t | None \<Rightarrow> 0)"

definition pinned_rows :: "store \<Rightarrow> session_row list" where
  "pinned_rows st =
     filter (\<lambda>r. ses_pinned_at (sr_data r) \<noteq> None \<and> \<not> ses_archived (sr_data r)
               \<and> \<not> project_hidden st (sr_project_id r)) (db_sessions st)"

definition pinned_sessions :: "store \<Rightarrow> session list" where
  "pinned_sessions st = map sr_data (take 100 (sort_key (\<lambda>r. - pin_key r) (pinned_rows st)))"

definition sync_native_title :: "store \<Rightarrow> string \<Rightarrow> string \<Rightarrow> bool \<Rightarrow> error + (session \<times> store)" where
  "sync_native_title st i title custom =
     and_then (session_by_id st i) (\<lambda>s.
       if trim title = [] \<or> chars_count title > 200 \<or> any_control title then Inr (s, st)
       else if ses_custom_title s \<and> \<not> custom then Inr (s, st)
       else if ses_title s \<noteq> title \<or> (custom \<and> \<not> ses_custom_title s) then
         let s' = s\<lparr>ses_title := title, ses_custom_title := (ses_custom_title s \<or> custom)\<rparr>
         in Inr (s', save st s')
       else Inr (s, st))"

definition sync_live_native_title :: "store \<Rightarrow> string \<Rightarrow> string \<Rightarrow> error + (session \<times> store)" where
  "sync_live_native_title st i title = sync_native_title st i title True"

definition validate_session_title :: "string \<Rightarrow> error + string" where
  "validate_session_title title =
     (let title = trim title
      in and_then (ensure (\<not> (title = [] \<or> chars_count title > 100 \<or> any_control title))
                     SessionTitleInvalid) (\<lambda>_. Inr title))"

definition rename_session :: "store \<Rightarrow> string \<Rightarrow> string \<Rightarrow> error + (session \<times> store)" where
  "rename_session st i title =
     and_then (validate_session_title title) (\<lambda>title.
     and_then (session_by_id st i) (\<lambda>s.
       let s' = s\<lparr>ses_title := title, ses_custom_title := True\<rparr> in Inr (s', save st s')))"

definition pin_session :: "store \<Rightarrow> string \<Rightarrow> bool \<Rightarrow> error + (session \<times> store)" where
  "pin_session st i pinned =
     and_then (session_by_id st i) (\<lambda>s.
     and_then (ensure (\<not> (pinned \<and> ses_archived s)) SessionArchivedPin) (\<lambda>_.
     and_then (ensure (\<not> (pinned \<and> ses_pinned_at s = None \<and> length (pinned_sessions st) \<ge> 100))
                 SessionPinLimit) (\<lambda>_.
       let (p, st') =
             (if pinned then
                (case ses_pinned_at s of
                   Some t \<Rightarrow> (Some t, st)
                 | None \<Rightarrow> (let (t, st') = read_clock st in (Some t, st')))
              else (None, st));
           s' = s\<lparr>ses_pinned_at := p\<rparr>
       in Inr (s', save st' s'))))"

definition mark_session_unread :: "store \<Rightarrow> string \<Rightarrow> bool \<Rightarrow> error + (session \<times> store)" where
  "mark_session_unread st i unread =
     and_then (session_by_id st i) (\<lambda>s.
       let s' = s\<lparr>ses_unread := unread\<rparr> in Inr (s', save st s'))"

definition archive_session :: "store \<Rightarrow> string \<Rightarrow> bool \<Rightarrow> error + (session \<times> store)" where
  "archive_session st i archived =
     and_then (session_by_id st i) (\<lambda>s.
     and_then (ensure (\<not> (archived \<and> status_active (ses_status s))) SessionActiveArchive) (\<lambda>_.
       let s' = s\<lparr>ses_archived := archived\<rparr>;
           s'' = (if archived then s'\<lparr>ses_pinned_at := None\<rparr> else s')
       in Inr (s'', save st s'')))"

text \<open>\<open>state\<close>: a turn that leaves the running states for a final one marks the session unread.\<close>

definition set_state :: "store \<Rightarrow> string \<Rightarrow> status \<Rightarrow> string option \<Rightarrow> error + store" where
  "set_state st i status message =
     and_then (session_by_id st i) (\<lambda>s.
       let s' = (if status_active (ses_status s) \<and> status \<in> {Completed, Failed, Stopped}
                 then s\<lparr>ses_unread := True\<rparr> else s);
           s'' = s'\<lparr>ses_status := status\<rparr>;
           st1 = save_as st i s'';
           (t, st2) = read_clock st1
       in insert_event st2 i t (State status message))"

end
