(* ===== verification/Paths.thy ===== *)
theory Paths
  imports Prelude
begin

text \<open>
  \<open>std::path\<close> on Unix, as far as the code uses it: the components of a path (repeated
  separators and inner dots vanish, a leading dot stays), whether it is absolute, its file name
  and extension, and the containment test \<open>starts_with\<close>, which compares whole components.
\<close>

datatype component = RootDir | CurDir | ParentDir | Normal string

fun segment_components :: "string list \<Rightarrow> component list" where
  "segment_components [] = []"
| "segment_components (s # ss) =
     (if s = [] \<or> s = ''.'' then segment_components ss
      else (if s = ''..'' then ParentDir else Normal s) # segment_components ss)"

definition components :: "string \<Rightarrow> component list" where
  "components p =
     (let ss = split_on (CHR ''/'') p
      in if starts_with ''/'' p then RootDir # segment_components ss
         else (if hd ss = ''.'' then [CurDir] else []) @ segment_components ss)"

definition path_is_absolute :: "string \<Rightarrow> bool" where
  "path_is_absolute p = starts_with ''/'' p"

definition file_name :: "string \<Rightarrow> string option" where
  "file_name p =
     (case rev (components p) of Normal s # _ \<Rightarrow> Some s | _ \<Rightarrow> None)"

text \<open>The text after the last dot of the file name, when something comes before that dot.\<close>

definition path_extension :: "string \<Rightarrow> string option" where
  "path_extension p =
     (case file_name p of
        None \<Rightarrow> None
      | Some f \<Rightarrow>
          (let ws = split_on (CHR ''.'') f
           in if length ws < 2 \<or> butlast ws = [[]] then None else Some (last ws)))"

definition path_starts_with :: "string \<Rightarrow> string \<Rightarrow> bool" where
  "path_starts_with p base = starts_with (components base) (components p)"

fun component_normal :: "component \<Rightarrow> bool" where
  "component_normal (Normal _) = True"
| "component_normal _ = False"

lemma set_segment_components:
  "c \<in> set (segment_components ss) \<Longrightarrow> c = ParentDir \<or> (\<exists>s. c = Normal s \<and> s \<noteq> [] \<and> s \<noteq> ''.'' \<and> s \<noteq> ''..'')"
  by (induction ss) (auto split: if_splits)

lemma path_starts_with_refl [simp]: "path_starts_with p p"
  by (simp add: path_starts_with_def starts_with_iff)

lemma path_starts_with_trans:
  "path_starts_with p q \<Longrightarrow> path_starts_with q r \<Longrightarrow> path_starts_with p r"
  by (auto simp: path_starts_with_def starts_with_iff)

lemma relative_not_absolute: "RootDir \<notin> set (components p) \<Longrightarrow> \<not> path_is_absolute p"
  by (auto simp: components_def path_is_absolute_def Let_def)

end
