(* ===== verification/Sources.thy ===== *)
theory Sources
  imports Store Paths
begin

text \<open>
  \<open>sources.rs\<close>: the inventory of a task's sources comes only from the reference manifest a
  prompt ends with and from the tools observed. \<open>references\<close> reads the manifest (the JSON
  decoder is the argument \<open>parse\<close>), \<open>tool_source\<close> names the tool or the connector
  behind a tool, \<open>mime\<close> sniffs the type of a preview from its first bytes and
  \<open>preview\<close> serves a directory listing or one chunk of a file. Timeouts and read errors of the
  host are not modelled: a preview is a function of what is on disk.
\<close>

section \<open>References and tools\<close>

definition MARKER :: string where
  "MARKER = map char_of
     [10 :: nat, 230, 150, 135, 228, 187, 182, 229, 188, 149, 231, 148, 168, 239, 188, 136, 231, 155,
      184, 229, 175, 185, 232, 183, 175, 229, 190, 132, 229, 159, 186, 228, 186, 142, 229,
      189, 147, 229, 137, 141, 233, 161, 185, 231, 155, 174, 230, 160, 185, 231, 155, 174,
      229, 189, 149, 239, 188, 155, 231, 187, 157, 229, 175, 185, 232, 183, 175, 229, 190,
      132, 228, 189, 141, 228, 186, 142, 229, 189, 147, 229, 137, 141, 230, 137, 167, 232,
      161, 140, 228, 184, 187, 230, 156, 186, 227, 128, 130, 228, 187, 133, 229, 188, 149,
      231, 148, 168, 232, 183, 175, 229, 190, 132, 239, 188, 140, 230, 140, 137, 229, 189,
      147, 229, 137, 141, 230, 157, 131, 233, 153, 144, 232, 175, 187, 229, 143, 150, 239,
      188, 137, 239, 188, 154, 10]"

definition COMPACT_MARKER :: string where
  "COMPACT_MARKER = map char_of
     [10 :: nat, 229, 188, 149, 231, 148, 168, 239, 188, 136, 231, 155, 184, 229, 175, 185, 233, 161,
      185, 231, 155, 174, 239, 188, 155, 231, 187, 157, 229, 175, 185, 232, 183, 175, 229,
      190, 132, 229, 156, 168, 229, 189, 147, 229, 137, 141, 228, 184, 187, 230, 156, 186,
      239, 188, 140, 230, 140, 137, 231, 142, 176, 230, 156, 137, 230, 157, 131, 233, 153,
      144, 232, 175, 187, 229, 143, 150, 239, 188, 137, 239, 188, 154, 10]"

fun rfind :: "string \<Rightarrow> string \<Rightarrow> nat option" where
  "rfind pat [] = (if pat = [] then Some 0 else None)"
| "rfind pat (c # cs) =
     (case rfind pat cs of
        Some i \<Rightarrow> Some (Suc i)
      | None \<Rightarrow> if starts_with pat (c # cs) then Some 0 else None)"

lemma rfind_Some: "rfind pat s = Some i \<Longrightarrow> \<exists>a b. s = a @ pat @ b \<and> length a = i"
proof (induction s arbitrary: i)
  case Nil
  then show ?case by (auto split: if_splits)
next
  case (Cons c cs)
  show ?case
  proof (cases "rfind pat cs")
    case None
    with Cons.prems have "starts_with pat (c # cs)" "i = 0" by (auto split: if_splits)
    then show ?thesis by (auto simp: starts_with_iff)
  next
    case (Some j)
    with Cons obtain a b where "cs = a @ pat @ b" "length a = j" by blast
    with Some Cons.prems have "c # cs = (c # a) @ pat @ b" "length (c # a) = i" by auto
    then show ?thesis by blast
  qed
qed

definition filter_option :: "('a \<Rightarrow> bool) \<Rightarrow> 'a option \<Rightarrow> 'a option" where
  "filter_option p v = (case v of Some x \<Rightarrow> if p x then Some x else None | None \<Rightarrow> None)"

text \<open>The last of the two markers in the text; its position and itself.\<close>

definition last_marker :: "string \<Rightarrow> (nat \<times> string) option" where
  "last_marker text =
     (case (rfind MARKER text, rfind COMPACT_MARKER text) of
        (None, None) \<Rightarrow> None
      | (Some i, None) \<Rightarrow> Some (i, MARKER)
      | (None, Some j) \<Rightarrow> Some (j, COMPACT_MARKER)
      | (Some i, Some j) \<Rightarrow> if i \<le> j then Some (j, COMPACT_MARKER) else Some (i, MARKER))"

definition last_segment :: "string \<Rightarrow> string" where
  "last_segment path = last (split_on (CHR ''/'') path)"

definition reference_source :: "json \<Rightarrow> task_source option" where
  "reference_source r =
     (case filter_option (\<lambda>p. p \<noteq> [] \<and> length p \<le> 4096 \<and> CHR 0x00 \<notin> set p)
             (json_str (json_field r ''path'')) of
        None \<Rightarrow> None
      | Some path \<Rightarrow>
          (case (case json_str (json_field r ''type'') of
                   None \<Rightarrow> None
                 | Some t \<Rightarrow> if t = ''file'' then Some FileSource
                             else if t = ''directory'' then Some DirectorySource else None) of
             None \<Rightarrow> None
           | Some kind \<Rightarrow>
               Some \<lparr>ts_id = ''file:'' @ path,
                     ts_name =
                       (case filter_option (\<lambda>s. s \<noteq> [] \<and> length s \<le> 256)
                               (json_str (json_field r ''name'')) of
                          Some s \<Rightarrow> s | None \<Rightarrow> last_segment path),
                     ts_kind = kind,
                     ts_path = Some path,
                     ts_mime_type =
                       filter_option (\<lambda>s. length s \<le> 128) (json_str (json_field r ''mime_type'')),
                     ts_tools = [],
                     ts_uses = 0\<rparr>))"

definition references :: "(string \<Rightarrow> json option) \<Rightarrow> string \<Rightarrow> task_source list" where
  "references parse text =
     (case last_marker text of
        None \<Rightarrow> []
      | Some (i, marker) \<Rightarrow>
          (case parse (drop (i + length marker) text) of
             Some (JArray refs) \<Rightarrow> List.map_filter reference_source (take 20 refs)
           | _ \<Rightarrow> []))"

definition tool_connector :: "string \<Rightarrow> string option" where
  "tool_connector name =
     (case strip_prefix ''mcp__'' name of
        None \<Rightarrow> None
      | Some s \<Rightarrow> map_option fst (split_once ''__'' s))"

definition tool_source :: "string \<Rightarrow> task_source option" where
  "tool_source name =
     (if name = [] \<or> length name > 256 then None
      else
        (let connector = tool_connector name;
             shown = (case connector of Some server \<Rightarrow> server | None \<Rightarrow> name)
         in Some \<lparr>ts_id = (if connector \<noteq> None then ''connector'' else ''tool'') @ '':'' @ shown,
                  ts_name = map (\<lambda>c. if c = CHR ''_'' then CHR '' '' else c) shown,
                  ts_kind = (if connector \<noteq> None then ConnectorSource else ToolSource),
                  ts_path = None, ts_mime_type = None, ts_tools = [name], ts_uses = 1\<rparr>))"

definition event_sources :: "(string \<Rightarrow> json option) \<Rightarrow> event_kind \<Rightarrow> task_source list" where
  "event_sources parse e =
     (case e of
        User text _ \<Rightarrow> references parse text
      | QueuedMessageSent text _ \<Rightarrow> references parse text
      | Tool _ name _ \<Rightarrow> (case tool_source name of Some s \<Rightarrow> [s] | None \<Rightarrow> [])
      | _ \<Rightarrow> [])"

lemma length_references: "length (references parse text) \<le> 20"
proof -
  have "length (List.map_filter f xs) \<le> length xs" for f :: "json \<Rightarrow> task_source option" and xs
    by (induction xs) (auto simp: List.map_filter_simps split: option.splits)
  from this [of reference_source] have "length (List.map_filter reference_source (take 20 refs)) \<le> 20" for refs
    by (metis length_take le_trans min.cobounded2)
  then show ?thesis
    by (auto simp: references_def split: option.splits prod.splits json.splits)
qed

lemma reference_source_path:
  "reference_source r = Some s \<Longrightarrow>
     \<exists>p. ts_path s = Some p \<and> ts_id s = ''file:'' @ p \<and> p \<noteq> [] \<and> length p \<le> 4096 \<and>
         ts_kind s \<in> {FileSource, DirectorySource} \<and> ts_uses s = 0 \<and> ts_tools s = []"
  by (auto simp: reference_source_def filter_option_def split: option.splits if_splits)

lemma tool_source_fields:
  "tool_source name = Some s \<Longrightarrow>
     ts_tools s = [name] \<and> ts_uses s = 1 \<and> ts_path s = None \<and> ts_kind s \<in> {ToolSource, ConnectorSource}"
  by (auto simp: tool_source_def Let_def split: if_splits)

section \<open>Content sniffing\<close>

datatype (plugins only: code size) utf8_result = Utf8Valid | Utf8Incomplete | Utf8Invalid

definition continuation :: "nat \<Rightarrow> bool" where
  "continuation b = (128 \<le> b \<and> b \<le> 191)"

text \<open>
  \<open>std::str::from_utf8\<close>: the bytes are valid, or invalid at some point, or they end inside
  a sequence that is valid so far (the error without an \<open>error_len\<close>).
\<close>

definition second_ok :: "nat \<Rightarrow> nat \<Rightarrow> bool" where
  "second_ok a b =
     (if a = 224 then 160 \<le> b \<and> b \<le> 191
      else if a = 237 then 128 \<le> b \<and> b \<le> 159
      else if a = 240 then 144 \<le> b \<and> b \<le> 191
      else if a = 244 then 128 \<le> b \<and> b \<le> 143
      else continuation b)"

fun sequence_length :: "nat \<Rightarrow> nat" where
  "sequence_length a =
     (if a < 128 then 1 else if 194 \<le> a \<and> a \<le> 223 then 2 else if 224 \<le> a \<and> a \<le> 239 then 3
      else if 240 \<le> a \<and> a \<le> 244 then 4 else 0)"

fun tail_ok :: "nat \<Rightarrow> nat list \<Rightarrow> utf8_result" where
  "tail_ok 0 bs = Utf8Valid"
| "tail_ok (Suc n) [] = Utf8Incomplete"
| "tail_ok (Suc n) (b # bs) = (if continuation b then tail_ok n bs else Utf8Invalid)"

definition sequence_ok :: "nat \<Rightarrow> nat list \<Rightarrow> utf8_result" where
  "sequence_ok a bs =
     (case sequence_length a of
        0 \<Rightarrow> Utf8Invalid
      | Suc 0 \<Rightarrow> Utf8Valid
      | Suc (Suc n) \<Rightarrow>
          (case bs of
             [] \<Rightarrow> Utf8Incomplete
           | b # bs' \<Rightarrow> if second_ok a b then tail_ok n bs' else Utf8Invalid))"

function from_utf8 :: "nat list \<Rightarrow> utf8_result" where
  "from_utf8 [] = Utf8Valid"
| "from_utf8 (a # bs) =
     (case sequence_ok a bs of
        Utf8Valid \<Rightarrow> from_utf8 (drop (sequence_length a - 1) bs)
      | r \<Rightarrow> r)"
  by pat_completeness auto
termination
  by (relation "measure length") auto

definition mime :: "nat list \<Rightarrow> string \<Rightarrow> string" where
  "mime b path =
     (if starts_with [0x89, 0x50, 0x4E, 0x47, 0x0D, 0x0A, 0x1A, 0x0A] b then ''image/png''
      else if starts_with [0xff, 0xd8, 0xff] b then ''image/jpeg''
      else if starts_with (map of_char ''GIF87a'') b \<or> starts_with (map of_char ''GIF89a'') b
        then ''image/gif''
      else if starts_with (map of_char ''RIFF'') b \<and> 12 \<le> length b \<and> take 4 (drop 8 b) = map of_char ''WEBP''
        then ''image/webp''
      else if starts_with (map of_char ''%PDF-'') b then ''application/pdf''
      else if 8 \<le> length b \<and> take 4 (drop 4 b) = map of_char ''ftyp''
           \<and> path_extension path \<notin> {Some ''heic'', Some ''heif'', Some ''avif''}
        then ''video/mp4''
      else if starts_with [0x1a, 0x45, 0xdf, 0xa3] b \<and> path_extension path = Some ''webm''
        then ''video/webm''
      else if 0 \<notin> set b \<and> from_utf8 b \<noteq> Utf8Invalid then ''text/plain''
      else ''application/octet-stream'')"

section \<open>Previews\<close>

datatype (plugins only: code size) preview_error =
  DirectoryOffset | PreviewPathNotUtf8 | PreviewUnsupported | PreviewOffsetInvalid

datatype (plugins only: code size) entry_kind = RegularFile | DirectoryEntry | SymlinkEntry | OtherEntry

record dir_entry =
  de_name :: string
  de_path :: string
  de_path_utf8 :: bool
  de_kind :: entry_kind

datatype (plugins only: code size) disk_node =
  DirectoryNode "dir_entry list" | FileNode "nat list" | SpecialNode

datatype (plugins only: code size) preview_result =
    SourceDirectory "file_entry list" bool
  | SourcePreview "nat list" string nat nat bool   \<comment> \<open>data, mime_type, size, next, has_more\<close>

fun preview_entries :: "dir_entry list \<Rightarrow> file_entry list \<Rightarrow> preview_error + (file_entry list \<times> bool)" where
  "preview_entries [] acc = Inr (acc, False)"
| "preview_entries (e # es) acc =
     (if length acc \<ge> 1000 then Inr (acc, True)
      else if de_name e \<in> {''.git'', ''node_modules'', ''target'', ''.DS_Store''} then preview_entries es acc
      else if de_kind e = SymlinkEntry then preview_entries es acc
      else if de_kind e = OtherEntry then preview_entries es acc
      else if \<not> de_path_utf8 e then Inl PreviewPathNotUtf8
      else preview_entries es
             (acc @ [\<lparr>fe_name = de_name e, fe_path = de_path e, fe_directory = (de_kind e = DirectoryEntry)\<rparr>]))"

definition preview :: "string \<Rightarrow> disk_node \<Rightarrow> nat \<Rightarrow> preview_error + preview_result" where
  "preview path node offset =
     (case node of
        DirectoryNode es \<Rightarrow>
          and_then (ensure (offset = 0) DirectoryOffset) (\<lambda>_.
          and_then (preview_entries es []) (\<lambda>(entries, truncated).
            Inr (SourceDirectory (sort_key (\<lambda>e. (\<not> fe_directory e, fe_name e)) entries) truncated)))
      | SpecialNode \<Rightarrow> Inl PreviewUnsupported
      | FileNode content \<Rightarrow>
          and_then (ensure (length content \<le> 64 * 1024 * 1024) PreviewUnsupported) (\<lambda>_.
          and_then (ensure (offset \<le> length content) PreviewOffsetInvalid) (\<lambda>_.
            let mime_type = mime (take 512 content) path;
                data = take 65536 (drop offset content);
                next = offset + length data
            in Inr (SourcePreview data mime_type (length content) next (next < length content)))))"

end
