(* ===== verification/Indexing.thy ===== *)
theory Indexing
  imports Sources
begin

text \<open>
  The source inventory kept in the database (\<open>index_event\<close>, \<open>index_tool\<close>,
  \<open>index_source\<close>, \<open>observe_tool\<close>, \<open>sources\<close> of \<open>store.rs\<close>): one row per
  source of a session, its use count added up with saturation, its tools joined up to 64; a tool
  call is counted once, by its id; a session keeps at most 512 sources.
\<close>

definition merge_tools :: "string list \<Rightarrow> string list \<Rightarrow> string list" where
  "merge_tools tools previous =
     foldl (\<lambda>ts t. if t \<notin> set ts \<and> length ts < 64 then ts @ [t] else ts) tools previous"

definition source_row_of :: "string \<Rightarrow> string \<Rightarrow> source_row \<Rightarrow> bool" where
  "source_row_of i sid r = (sor_session_id r = i \<and> sor_id r = sid)"

definition upsert_source :: "store \<Rightarrow> string \<Rightarrow> task_source \<Rightarrow> store" where
  "upsert_source st i s =
     (let (t, st') = read_clock st
      in if list_ex (source_row_of i (ts_id s)) (db_task_sources st')
         then st'\<lparr>db_task_sources :=
                    update_where (source_row_of i (ts_id s)) (\<lambda>r. r\<lparr>sor_data := s, sor_at := t\<rparr>)
                      (db_task_sources st')\<rparr>
         else st'\<lparr>db_task_sources := db_task_sources st' @
                    [\<lparr>sor_session_id = i, sor_id = ts_id s, sor_data = s, sor_at = t\<rparr>]\<rparr>)"

definition index_source :: "store \<Rightarrow> string \<Rightarrow> task_source \<Rightarrow> error + store" where
  "index_source st i s =
     (case List.find (source_row_of i (ts_id s)) (db_task_sources st) of
        Some r \<Rightarrow>
          (let previous = sor_data r;
               s' = s\<lparr>ts_uses := saturating_add (ts_uses previous) (ts_uses s),
                      ts_tools := merge_tools (ts_tools s) (ts_tools previous)\<rparr>
           in Inr (upsert_source st i s'))
      | None \<Rightarrow>
          (if count_where (\<lambda>r. sor_session_id r = i) (db_task_sources st) \<ge> 512 then Inr st
           else and_then (ensure (session_exists st i) SqlForeignKey) (\<lambda>_.
                  Inr (upsert_source st i s))))"

definition index_tool :: "store \<Rightarrow> string \<Rightarrow> string \<Rightarrow> string \<Rightarrow> error + store" where
  "index_tool st i tid name =
     (if tid = [] \<or> length tid > 512 then Inr st
      else if (i, tid) \<in> set (db_observed_tools st) then Inr st
      else and_then (ensure (session_exists st i) SqlForeignKey) (\<lambda>_.
             let st' = st\<lparr>db_observed_tools := db_observed_tools st @ [(i, tid)]\<rparr>
             in case tool_source name of
                  Some s \<Rightarrow> index_source st' i s
                | None \<Rightarrow> Inr st'))"

definition index_event :: "(string \<Rightarrow> json option) \<Rightarrow> store \<Rightarrow> string \<Rightarrow> event_kind \<Rightarrow> error + store" where
  "index_event parse st i e =
     (case e of
        Tool tid name _ \<Rightarrow> index_tool st i tid name
      | _ \<Rightarrow> for_each (\<lambda>st s. index_source st i s) st (event_sources parse e))"

definition observe_tool :: "store \<Rightarrow> string \<Rightarrow> string \<Rightarrow> string \<Rightarrow> error + store" where
  "observe_tool st i tid name = index_tool st i tid name"

fun source_history_kind :: "event_kind \<Rightarrow> bool" where
  "source_history_kind (User _ _) = True"
| "source_history_kind (QueuedMessageSent _ _) = True"
| "source_history_kind (Tool _ _ _) = True"
| "source_history_kind _ = False"

text \<open>
  \<open>sources\<close> re-indexes the last 256 relevant events, oldest first, then lists at most 128
  sources, newest first and by id within one instant.
\<close>

definition sources ::
  "(string \<Rightarrow> json option) \<Rightarrow> store \<Rightarrow> string \<Rightarrow> error + ((task_source list \<times> bool) \<times> store)" where
  "sources parse st i =
     and_then (session_by_id st i) (\<lambda>_.
       let history = take 257 (rev (filter (\<lambda>r. er_session_id r = i \<and> source_history_kind (er_data r))
                                      (db_events st)));
           partial = (length history > 256)
       in and_then (for_each (\<lambda>st r. index_event parse st i (er_data r)) st (rev (take 256 history))) (\<lambda>st'.
            let rows = take 129 (sort_key (\<lambda>r. (- sor_at r, sor_id r))
                                   (filter (\<lambda>r. sor_session_id r = i) (db_task_sources st')))
            in Inr ((map sor_data (take 128 rows), partial \<or> length rows > 128), st')))"

section \<open>What indexing keeps\<close>

text \<open>Indexing writes the inventory, the observed tools and the clock position only.\<close>

definition same_but_sources :: "store \<Rightarrow> store \<Rightarrow> bool" where
  "same_but_sources st st' \<longleftrightarrow>
     st' = st\<lparr>db_task_sources := db_task_sources st', db_observed_tools := db_observed_tools st',
              db_clock_reads := db_clock_reads st'\<rparr>"

lemma same_but_sources_refl [simp]: "same_but_sources st st"
  by (simp add: same_but_sources_def)

lemma same_but_sources_trans:
  "same_but_sources a b \<Longrightarrow> same_but_sources b c \<Longrightarrow> same_but_sources a c"
  by (cases a; cases b; cases c) (simp add: same_but_sources_def)

lemma upsert_source_frame: "same_but_sources st (upsert_source st i s)"
  by (simp add: same_but_sources_def upsert_source_def read_clock_def Let_def)

lemma index_source_frame: "index_source st i s = Inr st' \<Longrightarrow> same_but_sources st st'"
  by (auto simp: index_source_def Let_def upsert_source_frame result_simps
      split: option.splits if_splits)

lemma index_tool_frame:
  assumes "index_tool st i tid name = Inr st'"
  shows "same_but_sources st st'"
proof -
  have "same_but_sources st (st\<lparr>db_observed_tools := os\<rparr>)" for os
    by (simp add: same_but_sources_def)
  with assms show ?thesis
    by (auto simp: index_tool_def Let_def result_simps split: option.splits if_splits
        dest!: index_source_frame intro: same_but_sources_trans)
qed

lemma index_event_frame: "index_event parse st i e = Inr st' \<Longrightarrow> same_but_sources st st'"
proof -
  assume a: "index_event parse st i e = Inr st'"
  have loop: "for_each (\<lambda>st s. index_source st i s) st ss = Inr st' \<Longrightarrow> same_but_sources st st'" for ss
    by (rule for_each_invariant) (auto dest: index_source_frame intro: same_but_sources_trans)
  from a loop show ?thesis
    by (auto simp: index_event_def dest: index_tool_frame split: event_kind.splits)
qed

end
