(* ===== verification/Samples.thy ===== *)
theory Samples
  imports Store
begin

text \<open>Small concrete states on which the witnesses evaluate the theorems.\<close>

definition sample_session :: session where
  "sample_session =
     \<lparr>ses_id = ''s'', ses_project_id = ''p'', ses_title = ''t'', ses_agent = ''claude'',
      ses_native_id = None, ses_model = None, ses_effort = None, ses_permission_mode = None,
      ses_status = Ready, ses_created_at = 0, ses_custom_title = False, ses_pinned_at = None,
      ses_unread = False, ses_archived = False, ses_agent_session_open = None,
      ses_agent_session_busy = None\<rparr>"

definition sample_store :: store where
  "sample_store =
     (empty_store of_nat)
       \<lparr>db_projects := [\<lparr>prj_id = ''p'', prj_name = ''work'', prj_path = ''/w''\<rparr>],
        db_sessions := [\<lparr>sr_id = ''s'', sr_project_id = ''p'', sr_data = sample_session\<rparr>]\<rparr>"

text \<open>The sample session with two user events behind one of another session.\<close>

definition sample_log :: store where
  "sample_log = sample_store
     \<lparr>db_events := [\<lparr>er_seq = 1, er_session_id = ''o'', er_at = 1, er_data = Notice ''a''\<rparr>,
                   \<lparr>er_seq = 2, er_session_id = ''s'', er_at = 2, er_data = Notice ''b''\<rparr>,
                   \<lparr>er_seq = 3, er_session_id = ''s'', er_at = 3, er_data = Text ''c''\<rparr>],
      db_event_seq := 3\<rparr>"

lemma sample_session_by_id [simp]: "session_by_id sample_store ''s'' = Inr sample_session"
  "session_by_id sample_log ''s'' = Inr sample_session"
  by (simp_all add: session_by_id_def sample_store_def sample_log_def)

lemma sample_log_increasing [simp]: "increasing er_seq (db_events sample_log)"
  by (simp add: sample_log_def)

end
