(* ===== verification/Requests.thy ===== *)
theory Requests
  imports Indexing Samples
begin

text \<open>
  Admission of a turn (\<open>already_accepted\<close>, \<open>begin\<close>, \<open>latest_request\<close>,
  \<open>first_request\<close> of \<open>store.rs\<close>): the durable request table decides whether a request
  id is new, an exact repetition or a conflicting reuse; a new one is recorded together with the
  running state, the user event, the state event and the dispatch of its queue row, in one
  transaction.
\<close>

definition find_request :: "store \<Rightarrow> string \<Rightarrow> request_row option" where
  "find_request st rid = List.find (\<lambda>r. rq_id r = rid) (db_requests st)"

definition already_accepted ::
  "store \<Rightarrow> string \<Rightarrow> string \<Rightarrow> string \<Rightarrow> string option \<Rightarrow> effort option \<Rightarrow> string option
     \<Rightarrow> string option \<Rightarrow> error + bool" where
  "already_accepted st i rid text model effort fingerprint permission =
     and_then (ensure (\<not> (rid = [] \<or> length rid > 100 \<or> trim text = [] \<or> length text > 128 * 1024))
                 RequestInvalid) (\<lambda>_.
       case find_request st rid of
         None \<Rightarrow> Inr False
       | Some r \<Rightarrow>
           and_then (ensure (\<not> (rq_session_id r \<noteq> i \<or> rq_text r \<noteq> text \<or> rq_model r \<noteq> model
                               \<or> rq_effort r \<noteq> map_option effort_as_str effort
                               \<or> rq_permission_mode r \<noteq> permission)) RequestIdReused) (\<lambda>_.
           and_then (ensure (rq_provider_fingerprint r = fingerprint) RequestProviderChanged) (\<lambda>_.
             Inr True)))"

definition running_session ::
  "session \<Rightarrow> string \<Rightarrow> string option \<Rightarrow> effort option \<Rightarrow> string option \<Rightarrow> session" where
  "running_session s text model effort permission =
     (let s = s\<lparr>ses_status := Running, ses_model := model, ses_effort := effort,
                ses_permission_mode := permission\<rparr>
      in if \<not> ses_custom_title s \<and> ses_title s = new_task_title
         then s\<lparr>ses_title := take_chars 48 text\<rparr> else s)"

definition record_event ::
  "(string \<Rightarrow> json option) \<Rightarrow> string \<Rightarrow> store \<Rightarrow> event_kind \<Rightarrow> error + store" where
  "record_event parse i st e =
     (let (t, st') = read_clock st
      in and_then (insert_event st' i t e) (\<lambda>st''. index_event parse st'' i e))"

definition dispatch_row :: "string \<Rightarrow> string \<Rightarrow> queue_row list \<Rightarrow> queue_row list" where
  "dispatch_row i rid =
     update_where (\<lambda>q. q_request_id q = rid \<and> q_session_id q = i \<and> q_status q \<in> {Pending, Forwarded})
       (\<lambda>q. q\<lparr>q_status := Dispatched\<rparr>)"

definition begin_turn ::
  "(string \<Rightarrow> json option) \<Rightarrow> store \<Rightarrow> string \<Rightarrow> string \<Rightarrow> string \<Rightarrow> string option \<Rightarrow> effort option
     \<Rightarrow> string option \<Rightarrow> string option \<Rightarrow> error + (bool \<times> store)" where
  "begin_turn parse st i rid text model effort fingerprint permission =
     and_then (already_accepted st i rid text model effort fingerprint permission) (\<lambda>dup.
       if dup then Inr (False, st)
       else
         and_then (session_by_id st i) (\<lambda>s.
         and_then (ensure (\<not> status_active (ses_status s)) SessionBusy) (\<lambda>_.
         and_then (ensure (\<not> ses_archived s) SessionArchivedSend) (\<lambda>_.
           let s' = running_session s text model effort permission;
               st1 = st\<lparr>db_requests := db_requests st @
                          [\<lparr>rq_id = rid, rq_session_id = i, rq_text = text, rq_model = model,
                            rq_effort = map_option effort_as_str effort,
                            rq_provider_fingerprint = fingerprint,
                            rq_permission_mode = permission\<rparr>]\<rparr>;
               st2 = save_as st1 i s'
           in and_then (for_each (record_event parse i) st2 [User text rid, State Running None]) (\<lambda>st3.
                Inr (True, st3\<lparr>db_queue := dispatch_row i rid (db_queue st3)\<rparr>))))))"

definition latest_request :: "store \<Rightarrow> string \<Rightarrow> error + string" where
  "latest_request st i =
     of_option SqlNoRow
       (map_option rq_id (List.find (\<lambda>r. rq_session_id r = i) (rev (db_requests st))))"

definition first_request :: "store \<Rightarrow> string \<Rightarrow> bool" where
  "first_request st i = (count_where (\<lambda>r. rq_session_id r = i) (db_requests st) = 1)"

section \<open>What a begun turn leaves behind\<close>

lemma insert_event_Inr:
  "insert_event st i t e = Inr st' \<longleftrightarrow>
     session_exists st i \<and>
     st' = st\<lparr>db_events := db_events st @
                 [\<lparr>er_seq = Suc (db_event_seq st), er_session_id = i, er_at = t, er_data = e\<rparr>],
              db_event_seq := Suc (db_event_seq st)\<rparr>"
  by (auto simp: insert_event_def result_simps)

lemma record_event_frame:
  assumes "record_event parse i st e = Inr st'"
  shows "\<exists>t. same_but_sources
               (st\<lparr>db_events := db_events st @
                     [\<lparr>er_seq = Suc (db_event_seq st), er_session_id = i, er_at = t, er_data = e\<rparr>],
                   db_event_seq := Suc (db_event_seq st)\<rparr>) st'"
proof -
  from assms obtain st1 where
    "insert_event (snd (read_clock st)) i (fst (read_clock st)) e = Inr st1"
    and ix: "index_event parse st1 i e = Inr st'"
    by (auto simp: record_event_def result_simps split: prod.splits)
  then have st1: "same_but_sources
       (st\<lparr>db_events := db_events st @
             [\<lparr>er_seq = Suc (db_event_seq st), er_session_id = i, er_at = fst (read_clock st), er_data = e\<rparr>],
           db_event_seq := Suc (db_event_seq st)\<rparr>) st1"
    by (auto simp: insert_event_Inr read_clock_def same_but_sources_def)
  from this index_event_frame [OF ix] show ?thesis by (blast intro: same_but_sources_trans)
qed

lemma same_but_sources_fields:
  assumes "same_but_sources st st'"
  shows "db_projects st' = db_projects st" "db_hidden_projects st' = db_hidden_projects st"
    "db_sessions st' = db_sessions st" "db_events st' = db_events st"
    "db_event_seq st' = db_event_seq st" "db_subagents st' = db_subagents st"
    "db_subagent_events st' = db_subagent_events st"
    "db_subagent_event_seq st' = db_subagent_event_seq st"
    "db_child_history st' = db_child_history st" "db_child_cursors st' = db_child_cursors st"
    "db_child_transcripts st' = db_child_transcripts st"
    "db_requests st' = db_requests st" "db_queue st' = db_queue st"
    "db_queue_position st' = db_queue_position st" "db_queue_state st' = db_queue_state st"
    "db_turn_changes st' = db_turn_changes st" "db_task_baselines st' = db_task_baselines st"
    "db_reference_access st' = db_reference_access st" "db_clock st' = db_clock st"
proof -
  have eq: "st' = st\<lparr>db_task_sources := db_task_sources st',
              db_observed_tools := db_observed_tools st', db_clock_reads := db_clock_reads st'\<rparr>"
    using assms by (simp add: same_but_sources_def)
  show "db_projects st' = db_projects st" by (subst eq) simp
  show "db_hidden_projects st' = db_hidden_projects st" by (subst eq) simp
  show "db_sessions st' = db_sessions st" by (subst eq) simp
  show "db_events st' = db_events st" by (subst eq) simp
  show "db_event_seq st' = db_event_seq st" by (subst eq) simp
  show "db_subagents st' = db_subagents st" by (subst eq) simp
  show "db_subagent_events st' = db_subagent_events st" by (subst eq) simp
  show "db_subagent_event_seq st' = db_subagent_event_seq st" by (subst eq) simp
  show "db_child_history st' = db_child_history st" by (subst eq) simp
  show "db_child_cursors st' = db_child_cursors st" by (subst eq) simp
  show "db_child_transcripts st' = db_child_transcripts st" by (subst eq) simp
  show "db_requests st' = db_requests st" by (subst eq) simp
  show "db_queue st' = db_queue st" by (subst eq) simp
  show "db_queue_position st' = db_queue_position st" by (subst eq) simp
  show "db_queue_state st' = db_queue_state st" by (subst eq) simp
  show "db_turn_changes st' = db_turn_changes st" by (subst eq) simp
  show "db_task_baselines st' = db_task_baselines st" by (subst eq) simp
  show "db_reference_access st' = db_reference_access st" by (subst eq) simp
  show "db_clock st' = db_clock st" by (subst eq) simp
qed

lemma record_event_fields:
  assumes "record_event parse i st e = Inr st'"
  shows "db_projects st' = db_projects st" "db_hidden_projects st' = db_hidden_projects st"
    "db_sessions st' = db_sessions st" "db_event_seq st' = Suc (db_event_seq st)"
    "db_subagents st' = db_subagents st" "db_requests st' = db_requests st"
    "db_queue st' = db_queue st" "db_queue_position st' = db_queue_position st"
    "db_queue_state st' = db_queue_state st" "db_turn_changes st' = db_turn_changes st"
    "db_reference_access st' = db_reference_access st"
    "\<exists>t. db_events st' = db_events st @
       [\<lparr>er_seq = Suc (db_event_seq st), er_session_id = i, er_at = t, er_data = e\<rparr>]"
  using record_event_frame [OF assms] by (auto dest: same_but_sources_fields)

lemma begin_turn_new:
  assumes "begin_turn parse st i rid text model effort fingerprint permission = Inr (True, st')"
  obtains s t1 t2 where
    "already_accepted st i rid text model effort fingerprint permission = Inr False"
    "session_by_id st i = Inr s" "\<not> status_active (ses_status s)" "\<not> ses_archived s"
    "db_sessions st' = db_sessions (save_as st i (running_session s text model effort permission))"
    "db_requests st' = db_requests st @
       [\<lparr>rq_id = rid, rq_session_id = i, rq_text = text, rq_model = model,
         rq_effort = map_option effort_as_str effort, rq_provider_fingerprint = fingerprint,
         rq_permission_mode = permission\<rparr>]"
    "db_events st' = db_events st @
       [\<lparr>er_seq = Suc (db_event_seq st), er_session_id = i, er_at = t1, er_data = User text rid\<rparr>,
        \<lparr>er_seq = Suc (Suc (db_event_seq st)), er_session_id = i, er_at = t2, er_data = State Running None\<rparr>]"
    "db_event_seq st' = Suc (Suc (db_event_seq st))"
    "db_queue st' = dispatch_row i rid (db_queue st)"
    "db_queue_position st' = db_queue_position st" "db_queue_state st' = db_queue_state st"
    "db_projects st' = db_projects st" "db_hidden_projects st' = db_hidden_projects st"
    "db_turn_changes st' = db_turn_changes st" "db_subagents st' = db_subagents st"
    "db_reference_access st' = db_reference_access st"
proof -
  from assms obtain s st2 st3 st4 where acc:
    "already_accepted st i rid text model effort fingerprint permission = Inr False"
    "session_by_id st i = Inr s" "\<not> status_active (ses_status s)" "\<not> ses_archived s"
    and st2: "st2 = save_as (st\<lparr>db_requests := db_requests st @
       [\<lparr>rq_id = rid, rq_session_id = i, rq_text = text, rq_model = model,
         rq_effort = map_option effort_as_str effort, rq_provider_fingerprint = fingerprint,
         rq_permission_mode = permission\<rparr>]\<rparr>) i (running_session s text model effort permission)"
    and e1: "record_event parse i st2 (User text rid) = Inr st3"
    and e2: "record_event parse i st3 (State Running None) = Inr st4"
    and fin: "st' = st4\<lparr>db_queue := dispatch_row i rid (db_queue st4)\<rparr>"
    by (auto simp: begin_turn_def result_simps split: if_splits)
  note f1 = record_event_fields [OF e1] and f2 = record_event_fields [OF e2]
  show thesis
    using f1(12) f2(12)
    by (elim exE, intro that [OF acc]) (simp_all add: fin f1(1-11) f2(1-11) st2 save_as_def)
qed

section \<open>Exactly-once admission\<close>

lemma find_request_append:
  "find_request st rid = None \<Longrightarrow> db_requests st' = db_requests st @ r # rs \<Longrightarrow> rq_id r = rid \<Longrightarrow>
   find_request st' rid = Some r"
  by (simp add: find_request_def find_append)

lemma already_accepted_new:
  "already_accepted st i rid text model effort fp perm = Inr False \<longleftrightarrow>
     \<not> (rid = [] \<or> length rid > 100 \<or> trim text = [] \<or> length text > 128 * 1024) \<and>
     find_request st rid = None"
  by (auto simp: already_accepted_def result_simps split: option.splits)

text \<open>C5: the durable request table makes admission exactly-once. Once a turn has been begun, in every
  later state whose request table still starts with the rows of that moment, repeating the request
  is answered as accepted and changes nothing, and reusing its id for another conversation, text,
  model, effort or permission mode is refused.\<close>

theorem begin_turn_exactly_once:
  assumes "begin_turn parse st i rid text model effort fp perm = Inr (True, st')"
    and "db_requests later = db_requests st' @ rows"
  shows "begin_turn parse later i rid text model effort fp perm = Inr (False, later) \<and>
    ((i', text', model', effort', perm') \<noteq> (i, text, model, effort, perm) \<and>
       trim text' \<noteq> [] \<and> length text' \<le> 128 * 1024 \<longrightarrow>
       begin_turn parse later i' rid text' model' effort' fp' perm' = Inl RequestIdReused)"
proof -
  let ?r = "\<lparr>rq_id = rid, rq_session_id = i, rq_text = text, rq_model = model,
            rq_effort = map_option effort_as_str effort, rq_provider_fingerprint = fp,
            rq_permission_mode = perm\<rparr>"
  from begin_turn_new [OF assms(1)]
  have new: "already_accepted st i rid text model effort fp perm = Inr False"
    and reqs: "db_requests st' = db_requests st @ [?r]" by auto
  have "find_request later rid = Some ?r"
    by (rule find_request_append [of st _ _ _ rows]) (use new assms(2) reqs in \<open>simp_all add: already_accepted_new\<close>)
  moreover have "map_option effort_as_str effort = map_option effort_as_str effort' \<longleftrightarrow> effort = effort'"
    by (cases effort; cases effort') auto
  ultimately show ?thesis using new
    by (auto simp: begin_turn_def already_accepted_def result_simps)
qed

text \<open>Indexing an event that is no tool call touches only the sources of its session.\<close>

definition own_sources :: "string \<Rightarrow> store \<Rightarrow> store \<Rightarrow> bool" where
  "own_sources i a b \<longleftrightarrow> same_but_sources a b \<and> db_observed_tools b = db_observed_tools a \<and>
     filter (\<lambda>r. sor_session_id r \<noteq> i) (db_task_sources b) = filter (\<lambda>r. sor_session_id r \<noteq> i) (db_task_sources a)"

lemma own_sources_trans: "own_sources i a b \<Longrightarrow> own_sources i b c \<Longrightarrow> own_sources i a c"
  unfolding own_sources_def using same_but_sources_trans by metis

lemma own_sources_refl [simp]: "own_sources i st st"
  by (simp add: own_sources_def)

lemma upsert_source_own: "own_sources i st (upsert_source st i s)"
  using upsert_source_frame [of st i s]
  by (simp add: own_sources_def)
     (auto simp: upsert_source_def read_clock_def Let_def source_row_of_def intro!: filter_update_where_disjoint)

lemma index_source_own: "index_source st i s = Inr st' \<Longrightarrow> own_sources i st st'"
  by (auto simp: index_source_def Let_def result_simps upsert_source_own split: option.splits if_splits)

definition event_added :: "string \<Rightarrow> rat \<Rightarrow> event_kind \<Rightarrow> store \<Rightarrow> store" where
  "event_added i t e st = st\<lparr>db_clock_reads := Suc (db_clock_reads st),
     db_events := db_events st @ [\<lparr>er_seq = Suc (db_event_seq st), er_session_id = i, er_at = t, er_data = e\<rparr>],
     db_event_seq := Suc (db_event_seq st)\<rparr>"

lemma record_event_own:
  assumes "record_event parse i st e = Inr st'" and "\<forall>tid name detail. e \<noteq> Tool tid name detail"
  shows "\<exists>t. own_sources i (event_added i t e st) st'"
proof -
  let ?st = "event_added i (fst (read_clock st)) e st"
  have "index_event parse ?st i e = Inr st'"
    using assms(1) by (auto simp: record_event_def read_clock_def result_simps insert_event_Inr event_added_def Let_def)
  then have "for_each (\<lambda>st s. index_source st i s) ?st (event_sources parse e) = Inr st'"
    using assms(2) by (cases e) (auto simp: index_event_def)
  then have "own_sources i ?st st'"
    by (rule for_each_invariant) (auto intro: own_sources_trans index_source_own)
  then show ?thesis by blast
qed

text \<open>C29: a turn that is begun leaves exactly this behind, and nothing else in the database changes. The session was not
  active and not archived; it is now running with the chosen model, effort and permission mode, its title is set from the
  text if it still had the default one, and all else about it and every other session row is untouched. The full request
  row, the user event and the running event are appended in that order. Of the queue exactly the pending or forwarded
  entry with the same id becomes dispatched. Besides these tables only the source inventory of this session may change.\<close>

theorem begin_turn_effects:
  assumes "begin_turn parse st i rid text model effort fp perm = Inr (True, st')"
  shows "(\<exists>s title. session_by_id st i = Inr s \<and> \<not> status_active (ses_status s) \<and> \<not> ses_archived s \<and>
            title = (if \<not> ses_custom_title s \<and> ses_title s = new_task_title then take_chars 48 text else ses_title s) \<and>
            db_sessions st' = map (\<lambda>r. if sr_id r = i
              then r\<lparr>sr_data := s\<lparr>ses_status := Running, ses_model := model, ses_effort := effort, ses_permission_mode := perm,
                                   ses_title := title\<rparr>\<rparr> else r) (db_sessions st)) \<and>
         db_requests st' = db_requests st @
           [\<lparr>rq_id = rid, rq_session_id = i, rq_text = text, rq_model = model, rq_effort = map_option effort_as_str effort,
             rq_provider_fingerprint = fp, rq_permission_mode = perm\<rparr>] \<and>
         (\<exists>t1 t2. db_events st' = db_events st @
           [\<lparr>er_seq = db_event_seq st + 1, er_session_id = i, er_at = t1, er_data = User text rid\<rparr>,
            \<lparr>er_seq = db_event_seq st + 2, er_session_id = i, er_at = t2, er_data = State Running None\<rparr>]) \<and>
         db_queue st' = map (\<lambda>q. if q_request_id q = rid \<and> q_session_id q = i \<and> q_status q \<in> {Pending, Forwarded}
                                 then q\<lparr>q_status := Dispatched\<rparr> else q) (db_queue st) \<and>
         filter (\<lambda>r. sor_session_id r \<noteq> i) (db_task_sources st') = filter (\<lambda>r. sor_session_id r \<noteq> i) (db_task_sources st) \<and>
         st' = st\<lparr>db_sessions := db_sessions st', db_requests := db_requests st', db_events := db_events st',
                  db_event_seq := db_event_seq st + 2, db_queue := db_queue st', db_task_sources := db_task_sources st',
                  db_clock_reads := db_clock_reads st'\<rparr>"
proof -
  let ?r = "\<lparr>rq_id = rid, rq_session_id = i, rq_text = text, rq_model = model,
         rq_effort = map_option effort_as_str effort, rq_provider_fingerprint = fp, rq_permission_mode = perm\<rparr>"
  from assms obtain s st2 st3 st4 where acc:
    "session_by_id st i = Inr s" "\<not> status_active (ses_status s)" "\<not> ses_archived s"
    and st2: "st2 = save_as (st\<lparr>db_requests := db_requests st @ [?r]\<rparr>) i (running_session s text model effort perm)"
    and e1: "record_event parse i st2 (User text rid) = Inr st3"
    and e2: "record_event parse i st3 (State Running None) = Inr st4"
    and fin: "st' = st4\<lparr>db_queue := dispatch_row i rid (db_queue st4)\<rparr>"
    by (auto simp: begin_turn_def result_simps split: if_splits)
  from record_event_own [OF e1] obtain t1 where s3: "own_sources i (event_added i t1 (User text rid) st2) st3" by auto
  from record_event_own [OF e2] obtain t2 where s4: "own_sources i (event_added i t2 (State Running None) st3) st4" by auto
  have sources: "filter (\<lambda>r. sor_session_id r \<noteq> i) (db_task_sources st') = filter (\<lambda>r. sor_session_id r \<noteq> i) (db_task_sources st)"
    "db_observed_tools st' = db_observed_tools st"
    using s3 s4 by (simp_all add: own_sources_def fin st2 save_as_def event_added_def)
  note f3 = s3 [unfolded own_sources_def, THEN conjunct1] and f4 = s4 [unfolded own_sources_def, THEN conjunct1]
  note fields = same_but_sources_fields [OF f3] same_but_sources_fields [OF f4] event_added_def
  have rest: "st' = st\<lparr>db_sessions := db_sessions st', db_requests := db_requests st', db_events := db_events st',
      db_event_seq := db_event_seq st + 2, db_queue := db_queue st', db_task_sources := db_task_sources st',
      db_clock_reads := db_clock_reads st'\<rparr>"
    using sources(2) by (intro store.equality) (simp_all add: fin fields, simp_all add: st2 save_as_def)
  have queue: "db_queue st' = map (\<lambda>q. if q_request_id q = rid \<and> q_session_id q = i \<and> q_status q \<in> {Pending, Forwarded}
                                 then q\<lparr>q_status := Dispatched\<rparr> else q) (db_queue st)"
    by (simp add: fin fields st2 save_as_def dispatch_row_def update_where_def)
  have sessions: "db_sessions st' = map (\<lambda>r. if sr_id r = i
      then r\<lparr>sr_data := s\<lparr>ses_status := Running, ses_model := model, ses_effort := effort, ses_permission_mode := perm,
        ses_title := (if \<not> ses_custom_title s \<and> ses_title s = new_task_title then take_chars 48 text else ses_title s)\<rparr>\<rparr> else r) (db_sessions st)"
    by (simp add: fin fields st2 save_as_def update_where_def running_session_def Let_def)
  have "db_requests st' = db_requests st @ [?r]" by (simp add: fin fields st2 save_as_def)
  moreover have "db_events st' = db_events st @
       [\<lparr>er_seq = db_event_seq st + 1, er_session_id = i, er_at = t1, er_data = User text rid\<rparr>,
        \<lparr>er_seq = db_event_seq st + 2, er_session_id = i, er_at = t2, er_data = State Running None\<rparr>]"
    by (simp add: fin fields st2 save_as_def)
  ultimately show ?thesis using acc sessions queue sources(1) rest by blast
qed

lemma upsert_source_sessions [simp]: "session_exists (upsert_source st i s) j = session_exists st j"
  by (simp add: upsert_source_def session_exists_def read_clock_def Let_def)

lemma index_source_total: "session_exists st i \<Longrightarrow> \<exists>st'. index_source st i s = Inr st' \<and> session_exists st' i"
  by (auto simp: index_source_def Let_def split: option.splits)

lemma index_sources_total:
  "session_exists st i \<Longrightarrow> \<exists>st'. for_each (\<lambda>st s. index_source st i s) st ss = Inr st' \<and> session_exists st' i"
proof (induction ss arbitrary: st)
  case Nil
  then show ?case by simp
next
  case (Cons s ss)
  from index_source_total [OF Cons.prems, of s] Cons.IH show ?case by fastforce
qed

lemma index_event_total: "session_exists st i \<Longrightarrow> \<exists>st'. index_event parse st i e = Inr st' \<and> session_exists st' i"
proof -
  assume ex: "session_exists st i"
  have "session_exists (st\<lparr>db_observed_tools := os\<rparr>) i" for os using ex by (simp add: session_exists_def)
  then have "\<exists>st'. index_tool st i tid name = Inr st' \<and> session_exists st' i" for tid name
    using ex index_source_total by (auto simp: index_tool_def Let_def split: option.splits)
  with index_sources_total [OF ex] show ?thesis by (auto simp: index_event_def split: event_kind.splits)
qed

lemma record_event_total:
  assumes "session_exists st i"
  shows "\<exists>st'. record_event parse i st e = Inr st' \<and> session_exists st' i"
proof -
  let ?st = "st\<lparr>db_clock_reads := Suc (db_clock_reads st),
    db_events := db_events st @ [\<lparr>er_seq = Suc (db_event_seq st), er_session_id = i,
      er_at = db_clock st (db_clock_reads st), er_data = e\<rparr>], db_event_seq := Suc (db_event_seq st)\<rparr>"
  have "record_event parse i st e = index_event parse ?st i e"
    using assms by (simp add: record_event_def read_clock_def insert_event_def session_exists_def)
  moreover have "session_exists ?st i" using assms by (simp add: session_exists_def)
  ultimately show ?thesis using index_event_total by simp
qed

lemma session_by_id_exists: "session_by_id st i = Inr s \<Longrightarrow> session_exists st i"
  by (auto simp: session_by_id_def session_exists_def result_simps dest: find_Some_in)

lemma save_as_exists: "session_exists (save_as st i s) j = session_exists st j"
proof -
  have ids: "session_exists st j \<longleftrightarrow> j \<in> set (map sr_id (db_sessions st))" for st
    by (auto simp: session_exists_def)
  show ?thesis unfolding ids by (simp add: save_as_def map_update_where)
qed

lemma begin_turn_total:
  assumes "already_accepted st i rid text model effort fp perm = Inr False"
    and "session_by_id st i = Inr s" and "\<not> status_active (ses_status s)" and "\<not> ses_archived s"
  shows "\<exists>st'. begin_turn parse st i rid text model effort fp perm = Inr (True, st')"
proof -
  let ?st = "save_as (st\<lparr>db_requests := db_requests st @
       [\<lparr>rq_id = rid, rq_session_id = i, rq_text = text, rq_model = model,
         rq_effort = map_option effort_as_str effort, rq_provider_fingerprint = fp,
         rq_permission_mode = perm\<rparr>]\<rparr>) i (running_session s text model effort perm)"
  have "session_exists ?st i" using session_by_id_exists [OF assms(2)]
    by (simp add: save_as_exists) (simp add: session_exists_def)
  from record_event_total [OF this] obtain st1 where
    1: "record_event parse i ?st (User text rid) = Inr st1" "session_exists st1 i" by blast
  from record_event_total [OF this(2)] obtain st2 where
    "record_event parse i st1 (State Running None) = Inr st2" by blast
  with assms 1 show ?thesis by (simp add: begin_turn_def Let_def)
qed


section \<open>Witnesses\<close>

lemma begin_turn_sample:
  "\<exists>st'. begin_turn (\<lambda>_. None) sample_store ''s'' ''r'' ''hi'' None None None None = Inr (True, st')"
  by (rule begin_turn_total [where s = sample_session])
     (simp_all add: already_accepted_def find_request_def trim_def is_whitespace_def utf8_width_def
        byte_def sample_store_def empty_store_def sample_session_def session_by_id_def)

lemma begin_turn_exactly_once_witness:
  "\<exists>st'. begin_turn (\<lambda>_. None) sample_store ''s'' ''r'' ''hi'' None None None None = Inr (True, st') \<and>
     begin_turn (\<lambda>_. None) st' ''s'' ''r'' ''hi'' None None None None = Inr (False, st') \<and>
     begin_turn (\<lambda>_. None) st' ''s'' ''r'' ''ho'' None None None None = Inl RequestIdReused"
proof -
  obtain st' where b: "begin_turn (\<lambda>_. None) sample_store ''s'' ''r'' ''hi'' None None None None = Inr (True, st')"
    using begin_turn_sample by blast
  have "trim ''ho'' \<noteq> []" by (simp add: trim_def is_whitespace_def utf8_width_def byte_def)
  with b begin_turn_exactly_once [OF b, of st' "[]" "''s''" "''ho''" None None None None] show ?thesis by simp
qed

lemma begin_turn_effects_witness:
  "\<exists>st'. begin_turn (\<lambda>_. None) sample_store ''s'' ''r'' ''hi'' None None None None = Inr (True, st') \<and>
     map (\<lambda>r. ses_status (sr_data r)) (db_sessions st') = [Running] \<and> db_queue st' = []"
proof -
  obtain st' where b: "begin_turn (\<lambda>_. None) sample_store ''s'' ''r'' ''hi'' None None None None = Inr (True, st')"
    using begin_turn_sample by blast
  have sample: "db_queue sample_store = []" "map sr_id (db_sessions sample_store) = [''s'']"
    by (simp_all add: sample_store_def empty_store_def)
  note effects = begin_turn_effects [OF b]
  from effects have "db_queue st' = map (\<lambda>q. if q_request_id q = ''r'' \<and> q_session_id q = ''s'' \<and>
      q_status q \<in> {Pending, Forwarded} then q\<lparr>q_status := Dispatched\<rparr> else q) (db_queue sample_store)" by (elim conjE)
  with sample(1) have q: "db_queue st' = []" by simp
  from effects obtain s title where "db_sessions st' = map (\<lambda>r. if sr_id r = ''s''
      then r\<lparr>sr_data := s\<lparr>ses_status := Running, ses_model := None, ses_effort := None, ses_permission_mode := None,
        ses_title := title\<rparr>\<rparr> else r) (db_sessions sample_store)" by (elim conjE exE) (rule that)
  with sample(2) have "map (\<lambda>r. ses_status (sr_data r)) (db_sessions st') = [Running]" by (auto simp: map_eq_Cons_conv)
  then show ?thesis by (intro exI [of _ st'] conjI b q)
qed

end
