(* ===== verification/Paging.thy ===== *)
theory Paging
  imports Prelude
begin

text \<open>
  The contract of every bounded reader of the program (event polling, recent sessions, summaries,
  file chunks): a page is a prefix of what remains after the cursor, and the reader either says
  that nothing follows or hands out a cursor behind the page. \<open>collect\<close> is the client that
  follows the cursors; the locale proves once that it gets everything, in order, and that as many
  requests as there are rows suffice.
\<close>

fun collect :: "nat \<Rightarrow> ('c \<Rightarrow> 'e + ('a list \<times> 'c option)) \<Rightarrow> 'c \<Rightarrow> 'a list option" where
  "collect 0 page c = None"
| "collect (Suc fuel) page c =
     (case page c of
        Inl _ \<Rightarrow> None
      | Inr (xs, None) \<Rightarrow> Some xs
      | Inr (xs, Some c') \<Rightarrow> map_option (\<lambda>ys. xs @ ys) (collect fuel page c'))"

locale pager =
  fixes good :: "'s \<Rightarrow> 'c \<Rightarrow> bool"
    and remaining :: "'s \<Rightarrow> 'c \<Rightarrow> 'a list"
    and page :: "'s \<Rightarrow> 'c \<Rightarrow> 'e + ('a list \<times> 'c option)"
  assumes page_ok: "good s c \<Longrightarrow> \<exists>xs n. page s c = Inr (xs, n)"
    and page_last: "good s c \<Longrightarrow> page s c = Inr (xs, None) \<Longrightarrow> remaining s c = xs"
    and page_more: "good s c \<Longrightarrow> page s c = Inr (xs, Some c') \<Longrightarrow>
                      xs \<noteq> [] \<and> good s c' \<and> remaining s c = xs @ remaining s c'"
begin

lemma collect_complete:
  "good s c \<Longrightarrow> length (remaining s c) < fuel \<Longrightarrow> collect fuel (page s) c = Some (remaining s c)"
proof (induction fuel arbitrary: c)
  case 0
  then show ?case by simp
next
  case (Suc fuel)
  from page_ok [OF Suc.prems(1)] obtain xs n where p: "page s c = Inr (xs, n)" by blast
  show ?case
  proof (cases n)
    case None
    with p page_last [OF Suc.prems(1)] show ?thesis by simp
  next
    case (Some c')
    with p page_more [OF Suc.prems(1)]
    have m: "xs \<noteq> []" "good s c'" "remaining s c = xs @ remaining s c'" by auto
    then have "length (remaining s c') < fuel" using Suc.prems(2) by (cases xs) auto
    with Suc.IH m(2) have "collect fuel (page s) c' = Some (remaining s c')" by blast
    with p Some m(3) show ?thesis by simp
  qed
qed

lemma page_prefix: "good s c \<Longrightarrow> page s c = Inr (xs, n) \<Longrightarrow> \<exists>ys. remaining s c = xs @ ys"
  using page_last page_more by (cases n) fastforce+

end

end
