(* ===== verification/ToolContent.thy ===== *)
theory ToolContent
  imports Protocol
begin

text \<open>
  How the Claude adapter (\<open>agents/claude.rs\<close>) turns native tool output into the neutral
  contract: \<open>tool_content\<close> keeps at most four supported images within one byte budget and
  replaces every other native image by a notice, \<open>normalize_history_event\<close> of
  \<open>agents/mod.rs\<close> applies it to stored results, and \<open>confirmed_child_report\<close> accepts a
  child's report only when its hand-over is confirmed. A JSON object is its list of fields.
\<close>

definition json_has :: "json \<Rightarrow> string \<Rightarrow> bool" where
  "json_has v k = (case v of JObject kvs \<Rightarrow> map_of kvs k \<noteq> None | _ \<Rightarrow> False)"

definition str_or_empty :: "json \<Rightarrow> string" where
  "str_or_empty v = (case json_str v of Some s \<Rightarrow> s | None \<Rightarrow> [])"

definition base64_char :: "char \<Rightarrow> bool" where
  "base64_char c =
     (let b = byte c
      in (48 \<le> b \<and> b \<le> 57) \<or> (65 \<le> b \<and> b \<le> 90) \<or> (97 \<le> b \<and> b \<le> 122) \<or> c \<in> set ''+/='')"

definition image_types :: "string list" where
  "image_types = [''image/png'', ''image/jpeg'', ''image/gif'', ''image/webp'']"

definition IMAGE_BUDGET :: nat where
  "IMAGE_BUDGET = 384 * 1024"

text \<open>The notice that stands for an image that is not shown.\<close>

definition image_omitted :: string where
  "image_omitted = map char_of
     [229 :: nat, 155, 190, 231, 137, 135, 230, 156, 170, 229, 177, 149, 231, 164, 186, 239, 188, 154, 230,
      160, 188, 229, 188, 143, 228, 184, 141, 230, 148, 175, 230, 140, 129, 230, 136, 150, 229, 134, 133, 229,
      174, 185, 232, 182, 133, 232, 191, 135, 233, 162, 132, 232, 167, 136, 228, 184, 138, 233, 153, 144, 227,
      128, 130]"

definition native_image :: "json \<Rightarrow> bool" where
  "native_image b = (json_field b ''type'' = JString ''image'' \<and> json_has b ''source'')"

definition image_supported :: "nat \<Rightarrow> nat \<Rightarrow> json \<Rightarrow> bool" where
  "image_supported remaining images b =
     (let source = json_field b ''source'';
          mime = str_or_empty (json_field source ''media_type'');
          data = str_or_empty (json_field source ''data'')
      in json_field source ''type'' = JString ''base64'' \<and> mime \<in> set image_types \<and> data \<noteq> []
         \<and> length data \<le> remaining \<and> images < 4 \<and> list_all base64_char data)"

definition image_data :: "json \<Rightarrow> string" where
  "image_data b = str_or_empty (json_field (json_field b ''source'') ''data'')"

definition shown_image :: "json \<Rightarrow> json" where
  "shown_image b =
     JObject [(''type'', JString ''image''),
              (''mime_type'', JString (str_or_empty (json_field (json_field b ''source'') ''media_type''))),
              (''data_base64'', JString (image_data b))]"

definition omitted_image :: json where
  "omitted_image = JObject [(''type'', JString ''text''), (''text'', JString image_omitted)]"

fun tool_blocks :: "nat \<Rightarrow> nat \<Rightarrow> json list \<Rightarrow> json list" where
  "tool_blocks remaining images [] = []"
| "tool_blocks remaining images (b # bs) =
     (if \<not> native_image b then b # tool_blocks remaining images bs
      else if image_supported remaining images b
        then shown_image b # tool_blocks (remaining - length (image_data b)) (Suc images) bs
      else omitted_image # tool_blocks remaining images bs)"

definition tool_content :: "json \<Rightarrow> json" where
  "tool_content content =
     (case content of JArray blocks \<Rightarrow> JArray (tool_blocks IMAGE_BUDGET 0 blocks) | _ \<Rightarrow> content)"

definition normalize_history_event :: "string \<Rightarrow> event_kind \<Rightarrow> event_kind" where
  "normalize_history_event agent e =
     (case e of
        ToolResult i content err \<Rightarrow>
          if agent = ''claude'' then ToolResult i (tool_content content) err else e
      | _ \<Rightarrow> e)"

definition report_success :: "(string \<Rightarrow> json option) \<Rightarrow> string \<Rightarrow> bool" where
  "report_success parse text =
     (case parse text of Some v \<Rightarrow> json_field v ''success'' = JBool True | None \<Rightarrow> False)"

definition handback_delivered :: "(string \<Rightarrow> json option) \<Rightarrow> json \<Rightarrow> bool \<Rightarrow> bool" where
  "handback_delivered parse content is_error =
     (\<not> is_error \<and>
      (case content of
         JString text \<Rightarrow> report_success parse text
       | JArray blocks \<Rightarrow>
           list_ex (\<lambda>part. json_field part ''type'' = JString ''text'' \<and>
                           (case json_str (json_field part ''text'') of
                              Some t \<Rightarrow> report_success parse t | None \<Rightarrow> False)) blocks
       | _ \<Rightarrow> False))"

definition confirmed_child_report ::
  "(string \<Rightarrow> json option) \<Rightarrow> event_kind \<Rightarrow> event_kind \<Rightarrow> string option" where
  "confirmed_child_report parse tool result =
     (case tool of
        Tool i name input \<Rightarrow>
          (case result of
             ToolResult ri content is_error \<Rightarrow>
               if name \<noteq> ''SubagentHandback'' \<or> i \<noteq> ri \<or> \<not> handback_delivered parse content is_error
               then None else json_str (json_field input ''message'')
           | _ \<Rightarrow> None)
      | _ \<Rightarrow> None)"

section \<open>The image contract\<close>

text \<open>The images of the neutral contract: an image block without a native source.\<close>

definition neutral_image :: "json \<Rightarrow> bool" where
  "neutral_image b = (json_field b ''type'' = JString ''image'' \<and> json_has b ''data_base64'' \<and> \<not> json_has b ''source'')"

lemma shown_image_not_native [simp]: "\<not> native_image (shown_image b)"
  by (simp add: native_image_def shown_image_def json_has_def)

lemma omitted_image_not_native [simp]: "\<not> native_image omitted_image"
  by (simp add: native_image_def omitted_image_def)

lemma tool_blocks_no_native: "b \<in> set (tool_blocks r n bs) \<Longrightarrow> \<not> native_image b"
  by (induction r n bs rule: tool_blocks.induct) (auto split: if_splits)

lemma tool_blocks_id: "(\<And>b. b \<in> set bs \<Longrightarrow> \<not> native_image b) \<Longrightarrow> tool_blocks r n bs = bs"
  by (induction r n bs rule: tool_blocks.induct) auto

lemma length_tool_blocks [simp]: "length (tool_blocks r n bs) = length bs"
  by (induction r n bs rule: tool_blocks.induct) auto

text \<open>Bytes and number of the images a run of \<open>tool_blocks\<close> converts.\<close>

fun converted :: "nat \<Rightarrow> nat \<Rightarrow> json list \<Rightarrow> json list" where
  "converted remaining images [] = []"
| "converted remaining images (b # bs) =
     (if native_image b \<and> image_supported remaining images b
      then b # converted (remaining - length (image_data b)) (Suc images) bs
      else converted remaining images bs)"

lemma converted_budget:
  "n \<le> 4 \<Longrightarrow> sum_list (map (length \<circ> image_data) (converted r n bs)) \<le> r \<and> length (converted r n bs) + n \<le> 4"
proof (induction r n bs rule: converted.induct)
  case (1 r n)
  then show ?case by simp
next
  case (2 r n b bs)
  show ?case
  proof (cases "native_image b \<and> image_supported r n b")
    case True
    then have "length (image_data b) \<le> r" "n < 4"
      by (auto simp: image_supported_def image_data_def Let_def)
    with 2 True show ?thesis by auto
  next
    case False
    with 2 show ?thesis by auto
  qed
qed

end
