(* ===== verification/Events.thy ===== *)
theory Events
  imports Requests Paging ToolContent Samples
begin

text \<open>
  Replayable events (\<open>event\<close>, \<open>end_subagents\<close>, \<open>subagents\<close>,
  \<open>bounded_subagent_event\<close>, \<open>subagent_event\<close>, \<open>events\<close> and
  \<open>presentation_event\<close> of \<open>store.rs\<close>). A subagent event also updates the row of the
  task it belongs to, which is found by its id, its native id or its tool call. The serde encoder
  is the argument \<open>enc\<close> (\<open>jenc\<close> for a bare JSON value); the code uses it for lengths and
  for one substring test.
\<close>

section \<open>Subagent state\<close>

definition subagent_matches :: "string \<Rightarrow> string \<Rightarrow> string option \<Rightarrow> subagent_row \<Rightarrow> bool" where
  "subagent_matches i uid tool r =
     (sbr_session_id r = i \<and>
      (sbr_id r = uid \<or> sbr_native_id r = uid \<or>
       (sbr_tool_use_id r \<noteq> None \<and> sbr_tool_use_id r = tool)))"

definition latest_subagent :: "(subagent_row \<Rightarrow> bool) \<Rightarrow> store \<Rightarrow> subagent_row option" where
  "latest_subagent p st =
     (case sort_key (\<lambda>r. - sbr_at r) (filter p (db_subagents st)) of
        [] \<Rightarrow> None | r # _ \<Rightarrow> Some r)"

text \<open>The default title of a task that has not been named.\<close>

definition subagent_title :: string where
  "subagent_title = map char_of
     [229 :: nat, 173, 144, 230, 153, 186, 232, 131, 189, 228, 189, 147]"

definition new_subagent :: "subagent_update \<Rightarrow> rat \<Rightarrow> subagent" where
  "new_subagent u t =
     \<lparr>sa_id = su_id u, sa_native_id = su_id u, sa_tool_use_id = su_tool_use_id u,
      sa_title = subagent_title, sa_agent_type = None, sa_status = SubUnknown, sa_summary = None,
      sa_last_tool = None, sa_started_at = None, sa_updated_at = t\<rparr>"

definition or_else :: "'a option \<Rightarrow> 'a option \<Rightarrow> 'a option" where
  "or_else a b = (case a of Some x \<Rightarrow> Some x | None \<Rightarrow> b)"

definition update_subagent :: "subagent \<Rightarrow> subagent_update \<Rightarrow> rat \<Rightarrow> subagent" where
  "update_subagent task u t =
     (let task = task\<lparr>sa_native_id := su_id u,
                      sa_tool_use_id := or_else (su_tool_use_id u) (sa_tool_use_id task),
                      sa_title := (case su_title u of Some x \<Rightarrow> x | None \<Rightarrow> sa_title task),
                      sa_agent_type := or_else (su_agent_type u) (sa_agent_type task)\<rparr>;
          task = (case su_status u of
                    None \<Rightarrow> task
                  | Some s \<Rightarrow>
                      (let task = (if subagent_active (sa_status task) \<or> sa_status task = SubUnknown
                                      \<or> \<not> subagent_active s
                                   then task\<lparr>sa_status := s\<rparr> else task)
                       in if subagent_active s \<and> sa_started_at task = None
                          then task\<lparr>sa_started_at := Some t\<rparr> else task));
          task = task\<lparr>sa_summary := or_else (su_summary u) (sa_summary task),
                      sa_last_tool := or_else (su_last_tool u) (sa_last_tool task)\<rparr>
      in task\<lparr>sa_updated_at := t\<rparr>)"

definition upsert_subagent :: "store \<Rightarrow> string \<Rightarrow> subagent \<Rightarrow> rat \<Rightarrow> store" where
  "upsert_subagent st i task t =
     (let key = (\<lambda>r. sbr_session_id r = i \<and> sbr_id r = sa_id task);
          write = (\<lambda>r. r\<lparr>sbr_native_id := sa_native_id task, sbr_tool_use_id := sa_tool_use_id task,
                         sbr_active := subagent_active (sa_status task), sbr_at := t, sbr_data := task\<rparr>)
      in if list_ex key (db_subagents st)
         then st\<lparr>db_subagents := update_where key write (db_subagents st)\<rparr>
         else st\<lparr>db_subagents := db_subagents st @
                   [\<lparr>sbr_session_id = i, sbr_id = sa_id task, sbr_native_id = sa_native_id task,
                     sbr_tool_use_id = sa_tool_use_id task,
                     sbr_active = subagent_active (sa_status task), sbr_at = t, sbr_data = task\<rparr>]\<rparr>)"

definition track_subagent :: "store \<Rightarrow> string \<Rightarrow> rat \<Rightarrow> subagent_update \<Rightarrow> error + (subagent \<times> store)" where
  "track_subagent st i t u =
     (let task = (case latest_subagent (subagent_matches i (su_id u) (su_tool_use_id u)) st of
                    Some r \<Rightarrow> sbr_data r
                  | None \<Rightarrow> new_subagent u t);
          task = update_subagent task u t
      in and_then (ensure (session_exists st i) SqlForeignKey) (\<lambda>_.
           Inr (task, upsert_subagent st i task t)))"

section \<open>Recording an event\<close>

definition store_event ::
  "(event_kind \<Rightarrow> string) \<Rightarrow> (string \<Rightarrow> json option) \<Rightarrow> store \<Rightarrow> string \<Rightarrow> event_kind \<Rightarrow> error + store" where
  "store_event enc parse st i e =
     and_then (ensure (\<not> (case e of TurnChanges _ \<Rightarrow> length (enc e) > RECORD_LIMIT | _ \<Rightarrow> False)) RecordTooLarge) (\<lambda>_.
       let (t, st) = read_clock st
       in and_then (case e of
                      SubagentEv u \<Rightarrow>
                        and_then (track_subagent st i t u) (\<lambda>(task, st).
                          Inr (SubagentEv (u\<lparr>su_id := sa_id task\<rparr>), st))
                    | _ \<Rightarrow> Inr (e, st)) (\<lambda>(e, st).
          and_then (insert_event st i t e) (\<lambda>st. index_event parse st i e)))"

definition end_update :: "subagent \<Rightarrow> subagent_status \<Rightarrow> subagent_update" where
  "end_update task s =
     \<lparr>su_id = sa_native_id task, su_tool_use_id = sa_tool_use_id task, su_title = None,
      su_agent_type = None, su_status = Some s, su_summary = None, su_last_tool = None\<rparr>"

definition end_subagents ::
  "(event_kind \<Rightarrow> string) \<Rightarrow> (string \<Rightarrow> json option) \<Rightarrow> store \<Rightarrow> string \<Rightarrow> subagent_status \<Rightarrow> error + store" where
  "end_subagents enc parse st i s =
     for_each (\<lambda>st task. store_event enc parse st i (SubagentEv (end_update task s))) st
       (map sbr_data (filter (\<lambda>r. sbr_session_id r = i \<and> sbr_active r) (db_subagents st)))"

definition subagents :: "store \<Rightarrow> string \<Rightarrow> subagent list \<times> bool" where
  "subagents st i =
     (let tasks = take 129 (sort_key (\<lambda>r. (\<not> sbr_active r, - sbr_at r, sbr_id r))
                              (filter (\<lambda>r. sbr_session_id r = i) (db_subagents st)))
      in (map sbr_data (take 128 tasks), length tasks > 128))"

definition subagent_by_id :: "store \<Rightarrow> string \<Rightarrow> string \<Rightarrow> error + subagent" where
  "subagent_by_id st i tid =
     and_then (session_by_id st i) (\<lambda>_.
       of_option SubagentMissing
         (map_option sbr_data
            (List.find (\<lambda>r. sbr_session_id r = i \<and> sbr_id r = tid) (db_subagents st))))"

definition native_subagent :: "store \<Rightarrow> string \<Rightarrow> string \<Rightarrow> error + subagent" where
  "native_subagent st i nid =
     of_option SubagentMissing
       (map_option sbr_data
          (latest_subagent (\<lambda>r. sbr_session_id r = i \<and> (sbr_native_id r = nid \<or> sbr_id r = nid)) st))"

section \<open>Bounded child events\<close>

fun floor_boundary :: "string \<Rightarrow> nat \<Rightarrow> nat" where
  "floor_boundary s 0 = 0"
| "floor_boundary s (Suc n) =
     (if Suc n \<ge> length s \<or> \<not> continuation (byte (s ! Suc n)) then Suc n else floor_boundary s n)"

definition truncated_suffix :: string where
  "truncated_suffix = map char_of
     [10 :: nat, 226, 128, 166, 239, 188, 136, 229, 134, 133, 229, 174, 185, 229, 183, 178, 230, 136, 170,
      230, 150, 173, 239, 188, 137]"

definition clip :: "string \<Rightarrow> nat \<Rightarrow> string \<times> bool" where
  "clip text limit =
     (if length text \<le> limit then (text, False)
      else (take (floor_boundary text limit) text @ truncated_suffix, True))"

definition clip_value :: "(json \<Rightarrow> string) \<Rightarrow> json \<Rightarrow> json \<times> bool" where
  "clip_value jenc v =
     (let encoded = jenc v
      in if length encoded \<le> 32 * 1024 then (v, False)
         else (JString (fst (clip encoded (16 * 1024))), True))"

definition clip_text :: "(json \<Rightarrow> string) \<Rightarrow> string \<Rightarrow> string \<times> bool" where
  "clip_text jenc text =
     (if length (jenc (JString text)) > 32 * 1024 then (fst (clip text (16 * 1024)), True)
      else (text, False))"

definition bounded_subagent_event :: "(json \<Rightarrow> string) \<Rightarrow> event_kind \<Rightarrow> error + (event_kind \<times> bool)" where
  "bounded_subagent_event jenc e =
     (case e of
        Text text \<Rightarrow> (let (text, b) = clip_text jenc text in Inr (Text text, b))
      | Notice text \<Rightarrow> (let (text, b) = clip_text jenc text in Inr (Notice text, b))
      | Tool i name input \<Rightarrow>
          and_then (ensure (length i \<le> 256) SubagentToolIdTooLong) (\<lambda>_.
            let (name, a) = clip name 256; (input, b) = clip_value jenc input
            in Inr (Tool i name input, a \<or> b))
      | ToolResult i content err \<Rightarrow>
          and_then (ensure (length i \<le> 256) SubagentToolIdTooLong) (\<lambda>_.
            let (content, b) = clip_value jenc content in Inr (ToolResult i content err, b))
      | Progress p \<Rightarrow> Inr (Progress p, False)
      | _ \<Rightarrow> Inl SubagentEventUnsupported)"

section \<open>Presentation\<close>

text \<open>The stand-in for a stored event of more than 512 KiB: its JSON text and its value.\<close>

definition omitted_text :: string where
  "omitted_text = map char_of
     [230 :: nat, 151, 167, 228, 186, 139, 228, 187, 182, 232, 191, 135, 229, 164, 167, 239, 188, 140, 229,
      183, 178, 231, 156, 129, 231, 149, 165, 229, 177, 149, 231, 164, 186, 239, 188, 155, 229, 142, 159, 229,
      167, 139, 232, 174, 176, 229, 189, 149, 228, 191, 157, 231, 149, 153, 227, 128, 130]"

definition omitted_json :: string where
  "omitted_json =
     ''{'' @ [CHR 0x22] @ ''kind'' @ [CHR 0x22] @ '':'' @ [CHR 0x22] @ ''notice'' @ [CHR 0x22] @ '','' @
     [CHR 0x22] @ ''text'' @ [CHR 0x22] @ '':'' @ [CHR 0x22] @ omitted_text @ [CHR 0x22] @ ''}''"

definition presentation_data :: "(event_kind \<Rightarrow> string) \<Rightarrow> event_kind \<Rightarrow> string \<times> event_kind" where
  "presentation_data enc e =
     (if length (enc e) > 524288 then (omitted_json, Notice omitted_text) else (enc e, e))"

definition presentation_event :: "store \<Rightarrow> string \<Rightarrow> string \<times> event_kind \<Rightarrow> error + event_kind" where
  "presentation_event st i d =
     (case snd d of
        ToolResult _ _ _ \<Rightarrow>
          if rfind ([CHR 0x22] @ ''source'' @ [CHR 0x22]) (fst d) \<noteq> None
          then and_then (session_by_id st i) (\<lambda>s. Inr (normalize_history_event (ses_agent s) (snd d)))
          else Inr (snd d)
      | _ \<Rightarrow> Inr (snd d))"

fun events_loop ::
  "(event_kind \<Rightarrow> string) \<Rightarrow> store \<Rightarrow> string \<Rightarrow> event_row list \<Rightarrow> event list \<Rightarrow> nat \<Rightarrow> error + (event list \<times> bool)" where
  "events_loop enc st i [] acc bytes = Inr (acc, False)"
| "events_loop enc st i (r # rs) acc bytes =
     (let d = presentation_data enc (er_data r);
          size = length (fst d) + length i + 96
      in if length acc = 200 \<or> bytes + size > 1024 * 1024 then Inr (acc, True)
         else and_then (presentation_event st i d) (\<lambda>e.
                events_loop enc st i rs
                  (acc @ [\<lparr>ev_seq = of_nat (er_seq r), ev_session_id = i, ev_at = er_at r, ev_event = e\<rparr>])
                  (bytes + size)))"

definition events_after :: "store \<Rightarrow> string \<Rightarrow> rat \<Rightarrow> event_row list" where
  "events_after st i after =
     sort_key er_seq (filter (\<lambda>r. er_session_id r = i \<and> of_nat (er_seq r) > after) (db_events st))"

definition events :: "(event_kind \<Rightarrow> string) \<Rightarrow> store \<Rightarrow> string \<Rightarrow> f64 \<Rightarrow> error + (event list \<times> bool)" where
  "events enc st i after =
     and_then (ensure (\<not> bad_cursor after) EventCursorInvalid) (\<lambda>_.
       events_loop enc st i (take 201 (events_after st i (finite_value after))) [] 0)"

section \<open>Polling gets every event\<close>

text \<open>How a row is shown; the session exists, so its agent is known.\<close>

definition shown_kind :: "(event_kind \<Rightarrow> string) \<Rightarrow> store \<Rightarrow> string \<Rightarrow> event_kind \<Rightarrow> event_kind" where
  "shown_kind enc st i e =
     (case presentation_event st i (presentation_data enc e) of Inr e' \<Rightarrow> e' | Inl _ \<Rightarrow> e)"

definition shown_event :: "(event_kind \<Rightarrow> string) \<Rightarrow> store \<Rightarrow> string \<Rightarrow> event_row \<Rightarrow> event" where
  "shown_event enc st i r =
     \<lparr>ev_seq = of_nat (er_seq r), ev_session_id = i, ev_at = er_at r,
      ev_event = shown_kind enc st i (er_data r)\<rparr>"

lemma presentation_event_ok:
  "session_by_id st i = Inr s \<Longrightarrow>
   presentation_event st i (presentation_data enc e) = Inr (shown_kind enc st i e)"
  by (auto simp: shown_kind_def presentation_event_def split: event_kind.splits)

lemma events_loop_prefix:
  assumes "session_by_id st i = Inr s" and "length acc \<le> 200"
  shows "\<exists>k \<le> length rs. length acc + k \<le> 200 \<and>
           events_loop enc st i rs acc bytes = Inr (acc @ map (shown_event enc st i) (take k rs), k < length rs)"
  using assms(2)
proof (induction rs arbitrary: acc bytes)
  case Nil
  then show ?case by simp
next
  case (Cons r rs)
  let ?d = "presentation_data enc (er_data r)"
  let ?size = "length (fst ?d) + length i + 96"
  show ?case
  proof (cases "length acc = 200 \<or> bytes + ?size > 1024 * 1024")
    case True
    then show ?thesis using Cons.prems by (intro exI [of _ 0]) (auto simp: Let_def)
  next
    case False
    let ?acc = "acc @ [shown_event enc st i r]"
    from False Cons.prems have "length ?acc \<le> 200" by simp
    from Cons.IH [OF this, of "bytes + ?size"] obtain k where
      k: "k \<le> length rs" "length ?acc + k \<le> 200"
      "events_loop enc st i rs ?acc (bytes + ?size) =
         Inr (?acc @ map (shown_event enc st i) (take k rs), k < length rs)" by blast
    moreover have "events_loop enc st i (r # rs) acc bytes = events_loop enc st i rs ?acc (bytes + ?size)"
      using False by (simp add: presentation_event_ok [OF assms(1)] shown_event_def Let_def)
    ultimately show ?thesis by (intro exI [of _ "Suc k"]) auto
  qed
qed

lemma length_omitted_json: "length omitted_json < 524288"
  by (simp add: omitted_json_def omitted_text_def)

lemma presentation_data_bounded: "length (fst (presentation_data enc e)) \<le> 524288"
  using length_omitted_json by (auto simp: presentation_data_def)

lemma events_loop_progress:
  assumes "session_by_id st i = Inr s" and "length i \<le> 1024" and "rs \<noteq> []"
    and "events_loop enc st i rs [] 0 = Inr (es, b)"
  shows "es \<noteq> []"
proof -
  obtain r rs' where rs: "rs = r # rs'" using assms(3) by (cases rs) auto
  let ?d = "presentation_data enc (er_data r)"
  let ?size = "length (fst ?d) + length i + 96"
  have "\<not> ?size > 1024 * 1024" using presentation_data_bounded [of enc "er_data r"] assms(2) by simp
  then have e: "events_loop enc st i rs [] 0 = events_loop enc st i rs' [shown_event enc st i r] ?size"
    by (simp add: rs presentation_event_ok [OF assms(1)] shown_event_def Let_def)
  have "length [shown_event enc st i r] \<le> 200" by simp
  from events_loop_prefix [OF assms(1) this, of rs' enc ?size] e assms(4)
  show ?thesis by auto
qed

text \<open>The cursor a polling client uses next: the last sequence number it has received.\<close>

definition poll_page ::
  "(event_kind \<Rightarrow> string) \<Rightarrow> store \<times> string \<Rightarrow> rat \<Rightarrow> error + (event list \<times> rat option)" where
  "poll_page enc si after =
     and_then (events enc (fst si) (snd si) (Fin after)) (\<lambda>(es, more).
       Inr (es, if more then Some (case rev es of [] \<Rightarrow> after | e # _ \<Rightarrow> ev_seq e) else None))"

definition poll_good :: "store \<times> string \<Rightarrow> rat \<Rightarrow> bool" where
  "poll_good si after \<longleftrightarrow>
     after \<ge> 0 \<and> length (snd si) \<le> 1024 \<and> is_ok (session_by_id (fst si) (snd si)) \<and>
     increasing er_seq (db_events (fst si))"

definition poll_remaining :: "(event_kind \<Rightarrow> string) \<Rightarrow> store \<times> string \<Rightarrow> rat \<Rightarrow> event list" where
  "poll_remaining enc si after = map (shown_event enc (fst si) (snd si)) (events_after (fst si) (snd si) after)"

lemma events_after_increasing:
  "increasing er_seq (db_events st) \<Longrightarrow>
   events_after st i after = filter (\<lambda>r. er_session_id r = i \<and> of_nat (er_seq r) > after) (db_events st) \<and>
   increasing er_seq (events_after st i after)"
  by (simp add: events_after_def increasing_sort_key increasing_filter)

lemma events_after_drop:
  assumes "increasing er_seq (db_events st)" and "k < length (events_after st i c)"
  shows "events_after st i (of_nat (er_seq (events_after st i c ! k))) = drop (Suc k) (events_after st i c)"
proof -
  let ?rows = "events_after st i c"
  let ?n = "er_seq (?rows ! k)"
  have rows: "?rows = filter (\<lambda>r. er_session_id r = i \<and> of_nat (er_seq r) > c) (db_events st)"
    "increasing er_seq ?rows"
    using events_after_increasing [OF assms(1), of i c] by blast+
  have "?rows ! k \<in> set ?rows" using assms(2) by simp
  then have c: "c < of_nat ?n" using rows(1) by auto
  have "events_after st i (of_nat ?n) = filter (\<lambda>r. er_session_id r = i \<and> er_seq r > ?n) (db_events st)"
    using events_after_increasing [OF assms(1), of i "of_nat ?n"] by simp
  also have "\<dots> = filter (\<lambda>r. ?n < er_seq r) ?rows"
  proof -
    have "c < of_nat m" if "?n < m" for m using c that by (meson less_trans of_nat_less_iff)
    then show ?thesis by (subst rows(1)) (auto simp: filter_filter intro!: filter_cong)
  qed
  also have "\<dots> = drop (Suc k) ?rows" using increasing_drop [OF rows(2) assms(2)] .
  finally show ?thesis .
qed

interpretation polling: pager poll_good "poll_remaining enc" "poll_page enc" for enc
proof unfold_locales
  fix si :: "store \<times> string" and after
  assume g: "poll_good si after"
  obtain st i where si: "si = (st, i)" by (cases si)
  from g si obtain s where s: "session_by_id st i = Inr s"
    and inc: "increasing er_seq (db_events st)" and after: "after \<ge> 0" and li: "length i \<le> 1024"
    by (auto simp: poll_good_def is_ok_iff)
  let ?rows = "events_after st i after"
  obtain k where k: "k \<le> length (take 201 ?rows)" "k \<le> 200"
    "events_loop enc st i (take 201 ?rows) [] 0 =
       Inr (map (shown_event enc st i) (take k (take 201 ?rows)), k < length (take 201 ?rows))"
    using events_loop_prefix [OF s, of "[]" "take 201 ?rows" enc 0] by auto
  let ?es = "map (shown_event enc st i) (take k ?rows)"
  have tk: "take k (take 201 ?rows) = take k ?rows" using k(1) by (rule take_take_same)
  have ev: "events enc st i (Fin after) = Inr (?es, k < length (take 201 ?rows))"
    using after k(3) tk by (simp add: events_def)
  show "\<exists>xs n. poll_page enc si after = Inr (xs, n)" by (simp add: si poll_page_def ev)
  fix xs
  { assume "poll_page enc si after = Inr (xs, None)"
    then have "xs = ?es" "\<not> k < length (take 201 ?rows)" by (auto simp: si poll_page_def ev split: if_splits)
    with k show "poll_remaining enc si after = xs" by (auto simp: si poll_remaining_def) }
  { fix c' assume p: "poll_page enc si after = Inr (xs, Some c')"
    then have xs: "xs = ?es" and more: "k < length (take 201 ?rows)"
      by (auto simp: si poll_page_def ev split: if_splits)
    from more have ne: "take 201 ?rows \<noteq> []" by auto
    from events_loop_progress [OF s li ne k(3)] tk have "?es \<noteq> []" by simp
    then obtain j where j: "k = Suc j" by (cases k) auto
    with more have jl: "j < length ?rows" by simp
    have "last ?es = shown_event enc st i (?rows ! j)"
      using jl \<open>?es \<noteq> []\<close> by (simp add: last_map j take_Suc_conv_app_nth)
    then obtain ys where "rev ?es = shown_event enc st i (?rows ! j) # ys"
      using \<open>?es \<noteq> []\<close> by (metis append_butlast_last_id rev.simps(2) rev_append rev_rev_ident append_Cons append_Nil)
    with p xs more have c': "c' = of_nat (er_seq (?rows ! j))"
      by (auto simp: si poll_page_def ev shown_event_def split: if_splits)
    have "poll_remaining enc si after = xs @ poll_remaining enc si c'"
      using events_after_drop [OF inc jl] by (simp add: si poll_remaining_def xs c' j flip: map_append)
    moreover have "poll_good si c'" using g by (simp add: poll_good_def c' si)
    ultimately show "xs \<noteq> [] \<and> poll_good si c' \<and> poll_remaining enc si after = xs @ poll_remaining enc si c'"
      using \<open>?es \<noteq> []\<close> xs by simp }
qed

text \<open>C27: a client that polls with the last sequence number it has received gets every event of the
  session after its cursor, once and in order, in at most as many requests as there are events,
  whatever the page limits cut.\<close>

theorem polling_complete:
  assumes "session_by_id st i = Inr s" and "length i \<le> 1024" and "0 \<le> after"
    and "increasing er_seq (db_events st)"
    and "count_where (\<lambda>r. er_session_id r = i \<and> after < of_nat (er_seq r)) (db_events st) < fuel"
  shows "collect fuel (poll_page enc (st, i)) after =
     Some (map (shown_event enc st i)
            (filter (\<lambda>r. er_session_id r = i \<and> after < of_nat (er_seq r)) (db_events st)))"
proof -
  have good: "poll_good (st, i) after" using assms(1-4) by (simp add: poll_good_def is_ok_iff)
  have rem: "poll_remaining enc (st, i) after = map (shown_event enc st i)
      (filter (\<lambda>r. er_session_id r = i \<and> after < of_nat (er_seq r)) (db_events st))"
    using events_after_increasing [OF assms(4), of i after] by (simp add: poll_remaining_def)
  have "length (poll_remaining enc (st, i) after) < fuel"
    using assms(5) by (simp add: rem count_where_def)
  from polling.collect_complete [OF good this] show ?thesis by (simp only: rem)
qed

section \<open>A finished subagent stays finished\<close>

definition subagent_settled :: "subagent_status \<Rightarrow> bool" where
  "subagent_settled s \<longleftrightarrow> s \<in> {SubCompleted, SubFailed, SubStopped}"

definition subagent_rows_ok :: "store \<Rightarrow> bool" where
  "subagent_rows_ok st \<longleftrightarrow>
     (\<forall>r \<in> set (db_subagents st). sbr_id r = sa_id (sbr_data r) \<and>
        sbr_active r = subagent_active (sa_status (sbr_data r))) \<and>
     distinct (map (\<lambda>r. (sbr_session_id r, sbr_id r)) (db_subagents st))"

definition settled_row :: "store \<Rightarrow> string \<Rightarrow> string \<Rightarrow> bool" where
  "settled_row st i tid \<longleftrightarrow>
     (\<exists>r \<in> set (db_subagents st). sbr_session_id r = i \<and> sbr_id r = tid \<and> \<not> sbr_active r \<and>
        subagent_settled (sa_status (sbr_data r)))"

lemma update_subagent_id [simp]: "sa_id (update_subagent task u t) = sa_id task"
  by (simp add: update_subagent_def Let_def split: option.splits)

lemma update_subagent_settled:
  "subagent_settled (sa_status task) \<Longrightarrow> su_status u \<noteq> Some SubUnknown \<Longrightarrow>
   subagent_settled (sa_status (update_subagent task u t))"
  by (auto simp: update_subagent_def subagent_settled_def Let_def split: option.splits)
     (case_tac x2, auto)+

lemma settled_inactive: "subagent_settled s \<Longrightarrow> \<not> subagent_active s"
  by (cases s) (auto simp: subagent_settled_def)

lemma upsert_subagent_cases:
  "db_subagents (upsert_subagent st i task t) =
     (if \<exists>r \<in> set (db_subagents st). sbr_session_id r = i \<and> sbr_id r = sa_id task
      then update_where (\<lambda>r. sbr_session_id r = i \<and> sbr_id r = sa_id task)
             (\<lambda>r. r\<lparr>sbr_native_id := sa_native_id task, sbr_tool_use_id := sa_tool_use_id task,
                    sbr_active := subagent_active (sa_status task), sbr_at := t, sbr_data := task\<rparr>)
             (db_subagents st)
      else db_subagents st @
             [\<lparr>sbr_session_id = i, sbr_id = sa_id task, sbr_native_id = sa_native_id task,
               sbr_tool_use_id = sa_tool_use_id task,
               sbr_active = subagent_active (sa_status task), sbr_at = t, sbr_data = task\<rparr>])"
  by (auto simp: upsert_subagent_def Let_def list_ex_iff)

lemma upsert_subagent_ok:
  assumes "subagent_rows_ok st"
  shows "subagent_rows_ok (upsert_subagent st i task t)"
proof (cases "\<exists>r \<in> set (db_subagents st). sbr_session_id r = i \<and> sbr_id r = sa_id task")
  case True
  then show ?thesis using assms
    by (auto simp: subagent_rows_ok_def upsert_subagent_cases in_set_update_where map_update_where)
next
  case False
  then show ?thesis using assms by (auto simp: subagent_rows_ok_def upsert_subagent_cases)
qed

lemma latest_subagent_in: "latest_subagent p st = Some r \<Longrightarrow> r \<in> set (db_subagents st) \<and> p r"
proof -
  assume "latest_subagent p st = Some r"
  then obtain ys where "sort_key (\<lambda>r. - sbr_at r) (filter p (db_subagents st)) = r # ys"
    by (auto simp: latest_subagent_def split: list.splits)
  then have "r \<in> set (sort_key (\<lambda>r. - sbr_at r) (filter p (db_subagents st)))"
    by (metis list.set_intros(1))
  then show ?thesis by simp
qed

text \<open>The task an update applies to: when the row of that id is settled, it is that row.\<close>

lemma track_subagent_settled:
  assumes "subagent_rows_ok st" and "settled_row st j tid"
    and "su_status u \<noteq> Some SubUnknown" and "track_subagent st i t u = Inr (task, st')"
  shows "subagent_rows_ok st' \<and> settled_row st' j tid"
proof -
  from assms(4) have st': "st' = upsert_subagent st i task t"
    and task: "task = update_subagent
      (case latest_subagent (subagent_matches i (su_id u) (su_tool_use_id u)) st of
         Some r \<Rightarrow> sbr_data r | None \<Rightarrow> new_subagent u t) u t"
    by (auto simp: track_subagent_def result_simps Let_def)
  obtain r where r: "r \<in> set (db_subagents st)" "sbr_session_id r = j" "sbr_id r = tid"
    "\<not> sbr_active r" "subagent_settled (sa_status (sbr_data r))"
    using assms(2) by (auto simp: settled_row_def)
  have "settled_row st' j tid"
  proof (cases "i = j \<and> sa_id task = tid")
    case False
    then show ?thesis using r
      by (auto simp: settled_row_def st' upsert_subagent_cases in_set_update_where intro!: bexI [of _ r])
  next
    case True
    have "\<exists>q. latest_subagent (subagent_matches i (su_id u) (su_tool_use_id u)) st = Some q"
    proof (rule ccontr)
      assume none: "\<nexists>q. latest_subagent (subagent_matches i (su_id u) (su_tool_use_id u)) st = Some q"
      then have "tid = su_id u" using True by (auto simp: task new_subagent_def split: option.splits)
      then have "r \<in> set (filter (subagent_matches i (su_id u) (su_tool_use_id u)) (db_subagents st))"
        using r True by (simp add: subagent_matches_def)
      then have "sort_key (\<lambda>r. - sbr_at r)
          (filter (subagent_matches i (su_id u) (su_tool_use_id u)) (db_subagents st)) \<noteq> []"
        by (metis length_pos_if_in_set less_numeral_extra(3) list.size(3) set_sort)
      with none show False by (auto simp: latest_subagent_def split: list.splits)
    qed
    then obtain q where q: "latest_subagent (subagent_matches i (su_id u) (su_tool_use_id u)) st = Some q" by blast
    from latest_subagent_in [OF q] have qin: "q \<in> set (db_subagents st)" "sbr_session_id q = i"
      by (auto simp: subagent_matches_def)
    then have "sbr_id q = tid" using True q assms(1) by (auto simp: task subagent_rows_ok_def)
    then have "q = r" using qin r True assms(1)
      by (auto simp: subagent_rows_ok_def distinct_map inj_on_def)
    then have "subagent_settled (sa_status task)" using q r(5) assms(3)
      by (simp add: task update_subagent_settled)
    let ?r = "r\<lparr>sbr_native_id := sa_native_id task, sbr_tool_use_id := sa_tool_use_id task,
                 sbr_active := subagent_active (sa_status task), sbr_at := t, sbr_data := task\<rparr>"
    have "?r \<in> set (db_subagents st')"
      using r True by (auto simp: st' upsert_subagent_cases in_set_update_where intro!: bexI [of _ r])
    with r True \<open>subagent_settled (sa_status task)\<close> show ?thesis
      by (auto simp: settled_row_def settled_inactive intro!: bexI [of _ ?r])
  qed
  then show ?thesis using upsert_subagent_ok [OF assms(1)] by (simp add: st')
qed

lemma store_event_subagents:
  assumes "store_event enc parse st i e = Inr st'"
  shows "case e of
           SubagentEv u \<Rightarrow> \<exists>t task st0 st1. track_subagent st0 i t u = Inr (task, st1) \<and>
             db_subagents st0 = db_subagents st \<and> db_subagents st' = db_subagents st1
         | _ \<Rightarrow> db_subagents st' = db_subagents st"
proof -
  have ins: "db_subagents st2 = db_subagents st0" if "insert_event st0 i t e' = Inr st2" for st0 t e' st2
    using that by (auto simp: insert_event_Inr)
  have ix: "db_subagents st2 = db_subagents st0" if "index_event parse st0 i e' = Inr st2" for st0 e' st2
    using same_but_sources_fields(6) [OF index_event_frame [OF that]] .
  have rd: "db_subagents (snd (read_clock st)) = db_subagents st" by (simp add: read_clock_def)
  show ?thesis
    using assms rd
    by (cases e) (auto simp: store_event_def result_simps split: prod.splits dest!: ins ix, metis)
qed

lemma settled_row_cong:
  "db_subagents st' = db_subagents st \<Longrightarrow> settled_row st' = settled_row st \<and> subagent_rows_ok st' = subagent_rows_ok st"
  by (simp add: settled_row_def subagent_rows_ok_def fun_eq_iff)

lemma store_event_settled:
  assumes "store_event enc parse st i e = Inr st'" and "subagent_rows_ok st" and "settled_row st j tid"
    and "\<And>u. e = SubagentEv u \<Longrightarrow> su_status u \<noteq> Some SubUnknown"
  shows "subagent_rows_ok st' \<and> settled_row st' j tid"
proof (cases "\<exists>u. e = SubagentEv u")
  case True
  then obtain u where u: "e = SubagentEv u" by blast
  with store_event_subagents [OF assms(1)] obtain t task st0 st1 where
    tr: "track_subagent st0 i t u = Inr (task, st1)" and eq: "db_subagents st0 = db_subagents st"
    "db_subagents st' = db_subagents st1" by auto
  have "subagent_rows_ok st0" "settled_row st0 j tid"
    using assms(2,3) settled_row_cong [OF eq(1)] by simp_all
  from track_subagent_settled [OF this assms(4) [OF u] tr] settled_row_cong [OF eq(2)]
  show ?thesis by simp
next
  case False
  then have "db_subagents st' = db_subagents st"
    using store_event_subagents [OF assms(1)] by (cases e) auto
  with assms(2,3) settled_row_cong show ?thesis by metis
qed

text \<open>C28: once a subagent has completed, failed or been stopped, no later event of the session puts
  it back among the running ones, in whatever order the native updates arrive; only an update that
  reports the unknown status could.\<close>

theorem subagent_not_revived:
  assumes "subagent_rows_ok st" and "settled_row st i tid"
    and "for_each (\<lambda>st (j, e). store_event enc parse st j e) st es = Inr st'"
    and "\<forall>(j, e) \<in> set es. case e of SubagentEv u \<Rightarrow> su_status u \<noteq> Some SubUnknown | _ \<Rightarrow> True"
  shows "settled_row st' i tid"
proof -
  have "subagent_rows_ok st' \<and> settled_row st' i tid"
  proof (rule for_each_invariant [OF assms(3), where P = "\<lambda>st. subagent_rows_ok st \<and> settled_row st i tid"])
    show "subagent_rows_ok st \<and> settled_row st i tid" using assms(1,2) ..
  next
    fix st0 x st1
    assume x: "x \<in> set es" and P: "subagent_rows_ok st0 \<and> settled_row st0 i tid"
      and step: "(case x of (j, e) \<Rightarrow> store_event enc parse st0 j e) = Inr st1"
    obtain j e where je: "x = (j, e)" by (cases x)
    with x assms(4) have "su_status u \<noteq> Some SubUnknown" if "e = SubagentEv u" for u using that by auto
    with P step je show "subagent_rows_ok st1 \<and> settled_row st1 i tid"
      using store_event_settled [of enc parse st0 j e st1 i tid] by auto
  qed
  then show ?thesis ..
qed

lemma polling_complete_witness:
  "collect 3 (poll_page (\<lambda>_. ''{}'') (sample_log, ''s'')) 1 =
     Some (map (shown_event (\<lambda>_. ''{}'') sample_log ''s'')
            (filter (\<lambda>r. er_session_id r = ''s'' \<and> 1 < (of_nat (er_seq r) :: rat)) (db_events sample_log)))"
  by (rule polling_complete [of sample_log _ sample_session]) (simp_all, simp add: sample_log_def)

text \<open>A store whose only task has completed, and a late report that it is running.\<close>

definition sample_tasks :: store where
  "sample_tasks = sample_store
     \<lparr>db_subagents := [\<lparr>sbr_session_id = ''s'', sbr_id = ''a'', sbr_native_id = ''n'', sbr_tool_use_id = None,
        sbr_active = False, sbr_at = 1, sbr_data =
          \<lparr>sa_id = ''a'', sa_native_id = ''n'', sa_tool_use_id = None, sa_title = ''t'',
           sa_agent_type = None, sa_status = SubCompleted, sa_summary = None, sa_last_tool = None,
           sa_started_at = Some 0, sa_updated_at = 1\<rparr>\<rparr>]\<rparr>"

definition sample_update :: subagent_update where
  "sample_update =
     \<lparr>su_id = ''n'', su_tool_use_id = None, su_title = None, su_agent_type = None,
      su_status = Some SubRunning, su_summary = None, su_last_tool = None\<rparr>"

lemma subagent_not_revived_witness:
  "\<exists>st'. for_each (\<lambda>st (j, e). store_event (\<lambda>_. []) (\<lambda>_. None) st j e) sample_tasks
            [(''s'', SubagentEv sample_update)] = Inr st' \<and> settled_row st' ''s'' ''a''"
proof -
  have "is_ok (for_each (\<lambda>st (j, e). store_event (\<lambda>_. []) (\<lambda>_. None) st j e) sample_tasks
            [(''s'', SubagentEv sample_update)])"
    by (simp add: store_event_def sample_tasks_def sample_store_def sample_update_def read_clock_def
        empty_store_def track_subagent_def latest_subagent_def subagent_matches_def session_exists_def
        insert_event_def upsert_subagent_def update_subagent_def index_event_def event_sources_def Let_def)
  then obtain st' where ok: "for_each (\<lambda>st (j, e). store_event (\<lambda>_. []) (\<lambda>_. None) st j e) sample_tasks
            [(''s'', SubagentEv sample_update)] = Inr st'" by (auto simp: is_ok_iff)
  have "settled_row st' ''s'' ''a''"
    by (rule subagent_not_revived [OF _ _ ok])
       (simp_all add: subagent_rows_ok_def settled_row_def sample_tasks_def subagent_settled_def
          sample_update_def)
  with ok show ?thesis by blast
qed

end
