(* ===== verification/Children.thy ===== *)
theory Children
  imports Events
begin

text \<open>
  The output of a subagent (\<open>subagent_event\<close>, \<open>child_provider_fingerprint\<close>,
  \<open>child_history_cursor\<close>, \<open>cache_child_history\<close>, \<open>cache_subagent_transcript\<close>
  and \<open>subagent_transcript\<close> of \<open>store.rs\<close>): the full stream of a child, the bounded
  snapshot in which consecutive text fragments are joined, and the cached native transcript.
\<close>

section \<open>Operations\<close>

definition child_stream :: "store \<Rightarrow> string \<Rightarrow> string \<Rightarrow> child_history_row list" where
  "child_stream st i tid =
     filter (\<lambda>r. ch_session_id r = i \<and> ch_task_id r = tid \<and> ch_source r = ''stream'') (db_child_history st)"

definition next_child_seq :: "store \<Rightarrow> string \<Rightarrow> string \<Rightarrow> rat" where
  "next_child_seq st i tid = fold max (map ch_seq (tl (child_stream st i tid)))
     (case child_stream st i tid of [] \<Rightarrow> 0 | r # _ \<Rightarrow> ch_seq r) + 1"

definition insert_child_row ::
  "store \<Rightarrow> string \<Rightarrow> string \<Rightarrow> string \<Rightarrow> rat \<Rightarrow> rat \<Rightarrow> event_kind \<Rightarrow> store" where
  "insert_child_row st i tid src n t e =
     st\<lparr>db_child_history := db_child_history st @
          [\<lparr>ch_session_id = i, ch_task_id = tid, ch_source = src, ch_seq = n, ch_at = t, ch_data = e\<rparr>]\<rparr>"

text \<open>The latest streamed call with the id of a result.\<close>

definition stream_tool :: "store \<Rightarrow> string \<Rightarrow> string \<Rightarrow> string \<Rightarrow> event_kind option" where
  "stream_tool st i tid tool =
     (case sort_key (\<lambda>r. - ch_seq r)
             (filter (\<lambda>r. case ch_data r of Tool j _ _ \<Rightarrow> j = tool | _ \<Rightarrow> False) (child_stream st i tid)) of
        [] \<Rightarrow> None | r # _ \<Rightarrow> Some (ch_data r))"

definition stream_child_event ::
  "(string \<Rightarrow> json option) \<Rightarrow> store \<Rightarrow> string \<Rightarrow> string \<Rightarrow> event_kind \<Rightarrow> store" where
  "stream_child_event parse st i tid e =
     (let n = next_child_seq st i tid;
          (t, st) = read_clock st;
          st = insert_child_row st i tid ''stream'' n t e
      in case e of
           ToolResult j _ _ \<Rightarrow>
             (case stream_tool st i tid j of
                Some tool \<Rightarrow>
                  (case confirmed_child_report parse tool e of
                     Some text \<Rightarrow>
                       (let (t, st) = read_clock st
                        in insert_child_row st i tid ''stream'' (n + 1) t (Text text))
                   | None \<Rightarrow> st)
              | None \<Rightarrow> st)
         | _ \<Rightarrow> st)"

text \<open>The last row of the bounded snapshot of a task.\<close>

definition last_child_event :: "store \<Rightarrow> string \<Rightarrow> string \<Rightarrow> subagent_event_row option" where
  "last_child_event st i tid =
     List.find (\<lambda>r. ser_session_id r = i \<and> ser_task_id r = tid) (rev (db_subagent_events st))"

definition append_child_event ::
  "store \<Rightarrow> string \<Rightarrow> string \<Rightarrow> event_kind \<Rightarrow> bool \<Rightarrow> store" where
  "append_child_event st i tid e truncated =
     (let (t, st) = read_clock st
      in st\<lparr>db_subagent_events := db_subagent_events st @
              [\<lparr>ser_seq = Suc (db_subagent_event_seq st), ser_session_id = i, ser_task_id = tid,
                ser_at = t, ser_data = e, ser_truncated = truncated\<rparr>],
            db_subagent_event_seq := Suc (db_subagent_event_seq st)\<rparr>)"

definition replace_child_event :: "store \<Rightarrow> nat \<Rightarrow> event_kind \<Rightarrow> bool \<Rightarrow> store" where
  "replace_child_event st n e truncated =
     (let (t, st) = read_clock st
      in st\<lparr>db_subagent_events :=
              update_where (\<lambda>r. ser_seq r = n)
                (\<lambda>r. r\<lparr>ser_at := t, ser_data := e, ser_truncated := truncated\<rparr>) (db_subagent_events st)\<rparr>)"

definition snapshot_child_event ::
  "(json \<Rightarrow> string) \<Rightarrow> store \<Rightarrow> string \<Rightarrow> string \<Rightarrow> event_kind \<Rightarrow> error + store" where
  "snapshot_child_event jenc st i tid e =
     and_then (bounded_subagent_event jenc e) (\<lambda>(e, truncated).
       case e of
         Text text \<Rightarrow>
           (case last_child_event st i tid of
              Some r \<Rightarrow>
                (case ser_data r of
                   Text joined \<Rightarrow>
                     and_then (bounded_subagent_event jenc
                                 (Text (if ser_truncated r then joined else joined @ text))) (\<lambda>(e, b).
                       Inr (replace_child_event st (ser_seq r) e (truncated \<or> ser_truncated r \<or> b)))
                 | _ \<Rightarrow> Inr (append_child_event st i tid e truncated))
            | None \<Rightarrow> Inr (append_child_event st i tid e truncated))
       | _ \<Rightarrow> Inr (append_child_event st i tid e truncated))"

definition subagent_event ::
  "(json \<Rightarrow> string) \<Rightarrow> (string \<Rightarrow> json option) \<Rightarrow> store \<Rightarrow> string \<Rightarrow> string \<Rightarrow> event_kind \<Rightarrow> error + store" where
  "subagent_event jenc parse st i tool e =
     and_then (of_option SubagentUnlinked
        (map_option sbr_id (latest_subagent (\<lambda>r. sbr_session_id r = i \<and> sbr_tool_use_id r = Some tool) st)))
       (\<lambda>tid. snapshot_child_event jenc (stream_child_event parse st i tid e) i tid e)"

definition child_provider_fingerprint ::
  "store \<Rightarrow> string \<Rightarrow> string \<Rightarrow> error + string option option" where
  "child_provider_fingerprint st i tid =
     and_then (subagent_by_id st i tid) (\<lambda>task.
       case sa_started_at task of
         None \<Rightarrow> Inr None
       | Some started \<Rightarrow>
           Inr (case sort_key (\<lambda>r. - int (er_seq r))
                       (filter (\<lambda>e. er_session_id e = i \<and> er_at e \<le> started \<and>
                                    (case er_data e of
                                       User _ rid \<Rightarrow> list_ex (\<lambda>r. rq_session_id r = i \<and> rq_id r = rid) (db_requests st)
                                     | _ \<Rightarrow> False)) (db_events st)) of
                  [] \<Rightarrow> None
                | e # _ \<Rightarrow>
                    (case er_data e of
                       User _ rid \<Rightarrow>
                         map_option rq_provider_fingerprint
                           (List.find (\<lambda>r. rq_session_id r = i \<and> rq_id r = rid) (db_requests st))
                     | _ \<Rightarrow> None)))"

text \<open>\<open>ChildHistoryCursor::default()\<close>\<close>

definition default_cursor :: child_cursor where
  "default_cursor =
     \<lparr>cc_offset = 0, cc_identity = [], cc_has_more = False, cc_pending_tail = False, cc_handbacks = []\<rparr>"

definition find_child_cursor :: "store \<Rightarrow> string \<Rightarrow> string \<Rightarrow> child_cursor option" where
  "find_child_cursor st i tid =
     map_option ccr_cursor
       (List.find (\<lambda>r. ccr_session_id r = i \<and> ccr_task_id r = tid) (db_child_cursors st))"

definition child_history_cursor :: "store \<Rightarrow> string \<Rightarrow> string \<Rightarrow> error + child_cursor" where
  "child_history_cursor st i tid =
     and_then (subagent_by_id st i tid) (\<lambda>_.
       Inr (case find_child_cursor st i tid of Some c \<Rightarrow> c | None \<Rightarrow> default_cursor))"

definition cache_native_event :: "string \<Rightarrow> string \<Rightarrow> store \<Rightarrow> event \<Rightarrow> error + store" where
  "cache_native_event i tid st e =
     and_then (ensure (ev_session_id e = i) SubagentSessionMismatch) (\<lambda>_.
       Inr (if list_ex (\<lambda>r. ch_session_id r = i \<and> ch_task_id r = tid \<and> ch_source r = ''native''
                            \<and> ch_seq r = ev_seq e) (db_child_history st)
            then st
            else insert_child_row st i tid ''native'' (ev_seq e) (ev_at e) (ev_event e)))"

definition save_child_cursor :: "store \<Rightarrow> string \<Rightarrow> string \<Rightarrow> child_cursor \<Rightarrow> store" where
  "save_child_cursor st i tid c =
     st\<lparr>db_child_cursors :=
          (if list_ex (\<lambda>r. ccr_session_id r = i \<and> ccr_task_id r = tid) (db_child_cursors st)
           then update_where (\<lambda>r. ccr_session_id r = i \<and> ccr_task_id r = tid
                                  \<and> cc_offset (ccr_cursor r) \<le> cc_offset c)
                  (\<lambda>r. r\<lparr>ccr_cursor := c\<rparr>) (db_child_cursors st)
           else db_child_cursors st @ [\<lparr>ccr_session_id = i, ccr_task_id = tid, ccr_cursor = c\<rparr>])\<rparr>"

definition cache_child_history ::
  "store \<Rightarrow> string \<Rightarrow> string \<Rightarrow> event list \<Rightarrow> child_cursor \<Rightarrow> error + store" where
  "cache_child_history st i tid es c =
     and_then (subagent_by_id st i tid) (\<lambda>_.
     and_then (for_each (cache_native_event i tid) st es) (\<lambda>st.
       Inr (save_child_cursor st i tid c)))"

definition cache_subagent_transcript ::
  "(event list \<times> bool \<Rightarrow> string) \<Rightarrow> store \<Rightarrow> string \<Rightarrow> string \<Rightarrow> event list \<times> bool \<Rightarrow> error + store" where
  "cache_subagent_transcript tenc st i tid transcript =
     and_then (subagent_by_id st i tid) (\<lambda>_.
     and_then (ensure (\<not> list_ex (\<lambda>e. ev_session_id e \<noteq> i) (fst transcript)) SubagentSessionMismatch) (\<lambda>_.
     and_then (ensure (\<not> (length (tenc transcript) > 512 * 1024 \<or> length (fst transcript) > 500))
                 SubagentCacheLimit) (\<lambda>_.
       let key = (\<lambda>r. ctr_session_id r = i \<and> ctr_task_id r = tid)
       in Inr (st\<lparr>db_child_transcripts :=
                    (if list_ex key (db_child_transcripts st)
                     then update_where key (\<lambda>r. r\<lparr>ctr_data := transcript\<rparr>) (db_child_transcripts st)
                     else db_child_transcripts st @
                            [\<lparr>ctr_session_id = i, ctr_task_id = tid, ctr_data = transcript\<rparr>])\<rparr>))))"

fun transcript_loop ::
  "(event_kind \<Rightarrow> string) \<Rightarrow> store \<Rightarrow> string \<Rightarrow> subagent_event_row list \<Rightarrow> event list \<Rightarrow> nat \<Rightarrow> bool
     \<Rightarrow> error + (event list \<times> bool)" where
  "transcript_loop enc st i [] acc bytes truncated = Inr (acc, truncated)"
| "transcript_loop enc st i (r # rs) acc bytes truncated =
     (let data = enc (ser_data r)
      in if length acc = 500 \<or> bytes + length data + 128 > 256 * 1024 then Inr (acc, True)
         else and_then (presentation_event st i (data, ser_data r)) (\<lambda>e.
                transcript_loop enc st i rs
                  (acc @ [\<lparr>ev_seq = of_nat (ser_seq r), ev_session_id = i, ev_at = ser_at r, ev_event = e\<rparr>])
                  (bytes + length data + 128) (truncated \<or> ser_truncated r)))"

definition subagent_transcript ::
  "(event_kind \<Rightarrow> string) \<Rightarrow> store \<Rightarrow> string \<Rightarrow> string \<Rightarrow> error + (event list \<times> bool)" where
  "subagent_transcript enc st i tid =
     and_then (session_by_id st i) (\<lambda>_.
       case List.find (\<lambda>r. ctr_session_id r = i \<and> ctr_task_id r = tid) (db_child_transcripts st) of
         Some r \<Rightarrow> Inr (ctr_data r)
       | None \<Rightarrow>
           and_then (ensure (list_ex (\<lambda>r. sbr_session_id r = i \<and> sbr_id r = tid) (db_subagents st))
                       SubagentMissing) (\<lambda>_.
           and_then (transcript_loop enc st i
                       (take 501 (rev (filter (\<lambda>r. ser_session_id r = i \<and> ser_task_id r = tid)
                                         (sort_key ser_seq (db_subagent_events st))))) [] 0 False) (\<lambda>(es, b).
             Inr (rev es, b))))"

section \<open>The native cache\<close>

text \<open>What caching a page of native history keeps: the rows it had, in place, and their keys.\<close>

lemma cache_native_event_Inr:
  "cache_native_event i tid st e = Inr st' \<longleftrightarrow>
     ev_session_id e = i \<and>
     st' = (if list_ex (\<lambda>r. ch_session_id r = i \<and> ch_task_id r = tid \<and> ch_source r = ''native''
                            \<and> ch_seq r = ev_seq e) (db_child_history st)
            then st
            else insert_child_row st i tid ''native'' (ev_seq e) (ev_at e) (ev_event e))"
  by (auto simp: cache_native_event_def result_simps)

lemma cache_native_events_extend:
  assumes "for_each (cache_native_event i tid) st es = Inr st'"
  shows "\<exists>rows. st' = st\<lparr>db_child_history := db_child_history st @ rows\<rparr>"
  using assms
proof (induction es arbitrary: st)
  case Nil
  then show ?case by (intro exI [of _ "[]"]) simp
next
  case (Cons e es)
  then obtain st1 where st1: "cache_native_event i tid st e = Inr st1"
    and "for_each (cache_native_event i tid) st1 es = Inr st'" by (auto simp: result_simps)
  with Cons.IH obtain rows where "st' = st1\<lparr>db_child_history := db_child_history st1 @ rows\<rparr>" by blast
  moreover have "\<exists>rows'. st1 = st\<lparr>db_child_history := db_child_history st @ rows'\<rparr>"
  proof (cases "st1 = st")
    case True
    then show ?thesis by (intro exI [of _ "[]"]) simp
  next
    case False
    with st1 show ?thesis by (auto simp: cache_native_event_Inr insert_child_row_def split: if_splits)
  qed
  then obtain rows' where "st1 = st\<lparr>db_child_history := db_child_history st @ rows'\<rparr>" by blast
  ultimately show ?case by (intro exI [of _ "rows' @ rows"]) simp
qed

text \<open>The rows of a page: \<open>native_seqs\<close> are the positions already cached for the task, and \<open>new_events\<close> are the
  events of the page at other positions, in the order of the page, the first one where the page repeats a position.\<close>

definition native_seqs :: "store \<Rightarrow> string \<Rightarrow> string \<Rightarrow> rat set" where
  "native_seqs st i tid = ch_seq ` set (filter (\<lambda>r. ch_session_id r = i \<and> ch_task_id r = tid \<and> ch_source r = ''native'')
                                        (db_child_history st))"

definition new_events :: "rat set \<Rightarrow> event list \<Rightarrow> event list" where
  "new_events seen es = map (\<lambda>k. es ! k)
     (filter (\<lambda>k. ev_seq (es ! k) \<notin> seen \<union> ev_seq ` set (take k es)) [0..<length es])"

definition native_row :: "string \<Rightarrow> string \<Rightarrow> event \<Rightarrow> child_history_row" where
  "native_row i tid e = \<lparr>ch_session_id = i, ch_task_id = tid, ch_source = ''native'', ch_seq = ev_seq e,
     ch_at = ev_at e, ch_data = ev_event e\<rparr>"

lemma new_events_simps [simp]:
  "new_events seen [] = []"
  "new_events seen (e # es) =
     (if ev_seq e \<in> seen then new_events seen es else e # new_events (insert (ev_seq e) seen) es)"
proof -
  show "new_events seen [] = []" by (simp add: new_events_def)
  have "[0..<length (e # es)] = 0 # map Suc [0..<length es]"
    by (simp add: map_Suc_upt upt_conv_Cons del: upt_Suc)
  then show "new_events seen (e # es) =
     (if ev_seq e \<in> seen then new_events seen es else e # new_events (insert (ev_seq e) seen) es)"
    by (auto simp: new_events_def filter_map comp_def insert_absorb intro!: map_cong filter_cong)
qed

lemma native_seqs_append:
  "db_child_history st' = db_child_history st @ map (native_row i tid) es \<Longrightarrow>
   native_seqs st' i tid = native_seqs st i tid \<union> ev_seq ` set es"
  by (simp add: native_seqs_def filter_map comp_def native_row_def image_Un image_image)

lemma native_seqs_ex:
  "list_ex (\<lambda>r. ch_session_id r = i \<and> ch_task_id r = tid \<and> ch_source r = ''native'' \<and> ch_seq r = n) (db_child_history st)
     \<longleftrightarrow> n \<in> native_seqs st i tid"
  by (auto simp: native_seqs_def list_ex_iff)

lemma cache_native_events_rows:
  assumes "for_each (cache_native_event i tid) st es = Inr st'"
  shows "st' = st\<lparr>db_child_history := db_child_history st @ map (native_row i tid) (new_events (native_seqs st i tid) es)\<rparr>
         \<and> (\<forall>e \<in> set es. ev_session_id e = i)"
  using assms
proof (induction es arbitrary: st)
  case Nil
  then show ?case by simp
next
  case (Cons e es)
  then obtain st1 where st1: "cache_native_event i tid st e = Inr st1"
    and rest: "for_each (cache_native_event i tid) st1 es = Inr st'" by (auto simp: result_simps)
  from st1 have e: "ev_session_id e = i" "st1 = (if ev_seq e \<in> native_seqs st i tid then st
      else st\<lparr>db_child_history := db_child_history st @ [native_row i tid e]\<rparr>)"
    by (simp_all add: cache_native_event_Inr native_seqs_ex insert_child_row_def native_row_def)
  have "native_seqs st1 i tid = insert (ev_seq e) (native_seqs st i tid)" if "ev_seq e \<notin> native_seqs st i tid"
    using native_seqs_append [of st1 st i tid "[e]"] e that by simp
  with Cons.IH [OF rest] e show ?case by (cases "ev_seq e \<in> native_seqs st i tid") simp_all
qed

lemma cache_native_events_again:
  assumes "\<forall>e \<in> set es. ev_session_id e = i \<and> ev_seq e \<in> native_seqs st i tid"
  shows "for_each (cache_native_event i tid) st es = Inr st"
  using assms by (induction es) (auto simp: cache_native_event_def native_seqs_ex)

lemma new_events_cover: "e \<in> set es \<Longrightarrow> ev_seq e \<in> seen \<union> ev_seq ` set (new_events seen es)"
proof (induction es arbitrary: seen)
  case Nil
  then show ?case by simp
next
  case (Cons a es)
  from Cons.IH [of seen] Cons.IH [of "insert (ev_seq a) seen"] Cons.prems show ?case by auto
qed

lemma find_child_cursor_save:
  "find_child_cursor (save_child_cursor st i tid c) i tid =
     Some (case find_child_cursor st i tid of
             None \<Rightarrow> c | Some old \<Rightarrow> if cc_offset old \<le> cc_offset c then c else old)"
proof -
  let ?key = "\<lambda>r :: child_cursor_row. ccr_session_id r = i \<and> ccr_task_id r = tid"
  let ?upd = "update_where (\<lambda>r. ccr_session_id r = i \<and> ccr_task_id r = tid \<and> cc_offset (ccr_cursor r) \<le> cc_offset c) (\<lambda>r. r\<lparr>ccr_cursor := c\<rparr>)"
  have upd: "List.find ?key (?upd rs) =
          map_option (\<lambda>r. if cc_offset (ccr_cursor r) \<le> cc_offset c then r\<lparr>ccr_cursor := c\<rparr> else r)
            (List.find ?key rs)" for rs
    by (induction rs) auto
  have none: "list_ex ?key rs \<longleftrightarrow> List.find ?key rs \<noteq> None" for rs
    by (induction rs) auto
  show ?thesis
  proof (cases "List.find ?key (db_child_cursors st)")
    case None
    then show ?thesis by (simp add: find_child_cursor_def save_child_cursor_def none find_append)
  next
    case (Some r)
    then show ?thesis by (simp add: find_child_cursor_def save_child_cursor_def none upd)
  qed
qed

lemma save_child_cursor_again:
  "save_child_cursor (save_child_cursor st i tid c) i tid c = save_child_cursor st i tid c"
proof -
  let ?key = "\<lambda>r :: child_cursor_row. ccr_session_id r = i \<and> ccr_task_id r = tid"
  let ?p = "\<lambda>r :: child_cursor_row. ccr_session_id r = i \<and> ccr_task_id r = tid \<and> cc_offset (ccr_cursor r) \<le> cc_offset c"
  let ?f = "\<lambda>r. r\<lparr>ccr_cursor := c\<rparr>"
  have upd: "update_where ?p ?f (update_where ?p ?f rs) = update_where ?p ?f rs" for rs
    by (induction rs) auto
  have none: "update_where ?p ?f rs = rs" if "\<not> list_ex ?key rs" for rs
    using that by (induction rs) auto
  have ex: "list_ex ?key (update_where ?p ?f rs) = list_ex ?key rs" for rs
    by (induction rs) auto
  show ?thesis by (auto simp: save_child_cursor_def upd ex none table_simps)
qed

section \<open>Joined text\<close>

text \<open>The text fragments of one child reply become one row while they fit.\<close>

definition text_fits :: "(json \<Rightarrow> string) \<Rightarrow> string \<Rightarrow> bool" where
  "text_fits jenc text \<longleftrightarrow> length (jenc (JString text)) \<le> 32 * 1024"

lemma bounded_text: "text_fits jenc text \<Longrightarrow> bounded_subagent_event jenc (Text text) = Inr (Text text, False)"
  by (simp add: bounded_subagent_event_def clip_text_def text_fits_def)

definition child_rows_numbered :: "store \<Rightarrow> bool" where
  "child_rows_numbered st \<longleftrightarrow> (\<forall>r \<in> set (db_subagent_events st). ser_seq r \<le> db_subagent_event_seq st)"

definition open_text_row :: "store \<Rightarrow> subagent_event_row list \<Rightarrow> nat \<Rightarrow> string \<Rightarrow> string \<Rightarrow> string \<Rightarrow> bool" where
  "open_text_row st rows n i tid text \<longleftrightarrow>
     (\<exists>t. db_subagent_events st = rows @
        [\<lparr>ser_seq = n, ser_session_id = i, ser_task_id = tid, ser_at = t, ser_data = Text text,
          ser_truncated = False\<rparr>])"

lemma snapshot_text_open:
  assumes "case last_child_event st i tid of None \<Rightarrow> True | Some r \<Rightarrow> (\<forall>s. ser_data r \<noteq> Text s)"
    and "text_fits jenc text"
  shows "\<exists>st'. snapshot_child_event jenc st i tid (Text text) = Inr st' \<and>
           open_text_row st' (db_subagent_events st) (Suc (db_subagent_event_seq st)) i tid text"
  using assms(1)
  by (auto simp: snapshot_child_event_def bounded_text [OF assms(2)] append_child_event_def
        open_text_row_def read_clock_def split: option.splits event_kind.splits)

lemma snapshot_text_join:
  assumes "open_text_row st rows n i tid joined" and "\<forall>r \<in> set rows. ser_seq r < n"
    and "text_fits jenc text" and "text_fits jenc (joined @ text)"
  shows "\<exists>st'. snapshot_child_event jenc st i tid (Text text) = Inr st' \<and>
           open_text_row st' rows n i tid (joined @ text)"
proof -
  from assms(1) obtain t where rows: "db_subagent_events st = rows @
        [\<lparr>ser_seq = n, ser_session_id = i, ser_task_id = tid, ser_at = t, ser_data = Text joined,
          ser_truncated = False\<rparr>]" by (auto simp: open_text_row_def)
  moreover have "update_where (\<lambda>r. ser_seq r = n) f rows = rows" for f
    using assms(2) by (intro update_where_none) auto
  ultimately show ?thesis
    by (simp add: snapshot_child_event_def bounded_text assms(3,4) last_child_event_def
          replace_child_event_def read_clock_def open_text_row_def update_where_append)
qed

lemma snapshot_texts_join:
  assumes "open_text_row st rows n i tid joined" and "\<forall>r \<in> set rows. ser_seq r < n"
    and "\<forall>k \<le> length ts. text_fits jenc (joined @ concat (take k ts))" and "list_all (text_fits jenc) ts"
  shows "\<exists>st'. for_each (\<lambda>st text. snapshot_child_event jenc st i tid (Text text)) st ts = Inr st' \<and>
           open_text_row st' rows n i tid (joined @ concat ts)"
  using assms(1,3,4)
proof (induction ts arbitrary: st joined)
  case Nil
  then show ?case by simp
next
  case (Cons t ts)
  from Cons.prems(2) have "text_fits jenc (joined @ concat (take (Suc 0) (t # ts)))"
    by (metis le_add1 length_Cons One_nat_def add.commute plus_1_eq_Suc)
  then have "text_fits jenc (joined @ t)" by simp
  with snapshot_text_join [OF Cons.prems(1) assms(2), of jenc t] Cons.prems(3) obtain st1 where
    st1: "snapshot_child_event jenc st i tid (Text t) = Inr st1" "open_text_row st1 rows n i tid (joined @ t)"
    by auto
  have "\<forall>k \<le> length ts. text_fits jenc ((joined @ t) @ concat (take k ts))"
  proof (intro allI impI)
    fix k assume "k \<le> length ts"
    then have "text_fits jenc (joined @ concat (take (Suc k) (t # ts)))" using Cons.prems(2) by (metis Suc_le_mono length_Cons)
    then show "text_fits jenc ((joined @ t) @ concat (take k ts))" by simp
  qed
  with Cons.IH [OF st1(2)] Cons.prems(3) st1(1) show ?case by simp
qed

section \<open>The bounded snapshot\<close>

lemma transcript_loop_length:
  assumes "transcript_loop enc st i rs acc bytes t = Inr (es, b)" and "length acc \<le> 500"
  shows "length es \<le> 500"
  using assms
  by (induction enc st i rs acc bytes t rule: transcript_loop.induct)
     (auto simp: Let_def result_simps split: if_splits)

text \<open>C35: caching a page of a child's native history adds exactly the rows of its new events, each with the position, time
  and content of the event and in the order of the page (of events that repeat a position, the first), and leaves every row
  already cached as it was. The read position of the task becomes the page's unless that would move it back, those of other
  tasks stay, nothing else in the store changes, and caching the same page again changes nothing at all.\<close>

theorem cache_child_history_idempotent:
  assumes "cache_child_history st i tid es c = Inr st'"
  shows "st' = st\<lparr>db_child_history := db_child_history st @ map (native_row i tid) (new_events (native_seqs st i tid) es),
                  db_child_cursors := db_child_cursors st'\<rparr> \<and>
         find_child_cursor st' i tid =
           Some (case find_child_cursor st i tid of
                   None \<Rightarrow> c | Some old \<Rightarrow> if cc_offset old \<le> cc_offset c then c else old) \<and>
         filter (\<lambda>r. (ccr_session_id r, ccr_task_id r) \<noteq> (i, tid)) (db_child_cursors st') =
           filter (\<lambda>r. (ccr_session_id r, ccr_task_id r) \<noteq> (i, tid)) (db_child_cursors st) \<and>
         cache_child_history st' i tid es c = Inr st'"
proof -
  from assms obtain task st1 where sub: "subagent_by_id st i tid = Inr task"
    and loop: "for_each (cache_native_event i tid) st es = Inr st1"
    and st': "st' = save_child_cursor st1 i tid c"
    by (auto simp: cache_child_history_def result_simps)
  let ?rows = "map (native_row i tid) (new_events (native_seqs st i tid) es)"
  from cache_native_events_rows [OF loop]
  have rows: "st1 = st\<lparr>db_child_history := db_child_history st @ ?rows\<rparr>" and own: "\<forall>e \<in> set es. ev_session_id e = i" by auto
  have sub': "subagent_by_id st' i tid = Inr task"
    using sub by (simp add: st' rows save_child_cursor_def subagent_by_id_def session_by_id_def)
  have "native_seqs st' i tid = native_seqs st i tid \<union> ev_seq ` set (new_events (native_seqs st i tid) es)"
    by (rule native_seqs_append) (simp add: st' rows save_child_cursor_def)
  with own new_events_cover [of _ es "native_seqs st i tid"]
  have "\<forall>e \<in> set es. ev_session_id e = i \<and> ev_seq e \<in> native_seqs st' i tid" by simp
  from cache_native_events_again [OF this] sub' have "cache_child_history st' i tid es c = Inr (save_child_cursor st' i tid c)"
    by (simp add: cache_child_history_def)
  then have again: "cache_child_history st' i tid es c = Inr st'" by (simp add: st' save_child_cursor_again)
  have "find_child_cursor st1 i tid = find_child_cursor st i tid" by (simp add: rows find_child_cursor_def)
  moreover have "filter (\<lambda>r. (ccr_session_id r, ccr_task_id r) \<noteq> (i, tid)) (db_child_cursors st') =
      filter (\<lambda>r. (ccr_session_id r, ccr_task_id r) \<noteq> (i, tid)) (db_child_cursors st)"
    by (auto simp: st' rows save_child_cursor_def intro!: filter_update_where_disjoint)
  moreover have "st' = st\<lparr>db_child_history := db_child_history st @ ?rows, db_child_cursors := db_child_cursors st'\<rparr>"
    by (simp add: st' rows save_child_cursor_def)
  ultimately show ?thesis using again by (simp add: st' find_child_cursor_save)
qed

text \<open>A page of three events, two of them at the same position.\<close>

lemma cache_child_history_idempotent_witness:
  "\<exists>st'. cache_child_history sample_tasks ''s'' ''a''
           [\<lparr>ev_seq = 5, ev_session_id = ''s'', ev_at = 1, ev_event = Text ''x''\<rparr>,
            \<lparr>ev_seq = 6, ev_session_id = ''s'', ev_at = 2, ev_event = Text ''y''\<rparr>,
            \<lparr>ev_seq = 5, ev_session_id = ''s'', ev_at = 3, ev_event = Text ''z''\<rparr>] default_cursor = Inr st' \<and>
     map ch_data (db_child_history st') = [Text ''x'', Text ''y''] \<and>
     find_child_cursor st' ''s'' ''a'' = Some default_cursor"
proof -
  let ?es = "[\<lparr>ev_seq = 5, ev_session_id = ''s'', ev_at = 1, ev_event = Text ''x''\<rparr>,
            \<lparr>ev_seq = 6, ev_session_id = ''s'', ev_at = 2, ev_event = Text ''y''\<rparr>,
            \<lparr>ev_seq = 5, ev_session_id = ''s'', ev_at = 3, ev_event = Text ''z''\<rparr>]"
  have "is_ok (cache_child_history sample_tasks ''s'' ''a'' ?es default_cursor)"
    by (simp add: cache_child_history_def subagent_by_id_def session_by_id_def sample_tasks_def
        sample_store_def cache_native_event_def empty_store_def insert_child_row_def)
  then obtain st' where c: "cache_child_history sample_tasks ''s'' ''a'' ?es default_cursor = Inr st'"
    by (auto simp: is_ok_iff)
  have empty: "db_child_history sample_tasks = []" "find_child_cursor sample_tasks ''s'' ''a'' = None"
    by (simp_all add: find_child_cursor_def sample_tasks_def sample_store_def empty_store_def)
  from cache_child_history_idempotent [OF c]
  have st': "st' = sample_tasks\<lparr>db_child_history := db_child_history sample_tasks @
                map (native_row ''s'' ''a'') (new_events (native_seqs sample_tasks ''s'' ''a'') ?es),
              db_child_cursors := db_child_cursors st'\<rparr>"
    and cur: "find_child_cursor st' ''s'' ''a'' = Some default_cursor" by (simp_all add: empty)
  have none: "native_seqs sample_tasks ''s'' ''a'' = {}" by (simp add: native_seqs_def empty)
  have two: "new_events {} ?es = take 2 ?es" by simp
  have "db_child_history st' = map (native_row ''s'' ''a'') (take 2 ?es)"
    by (rule trans [OF arg_cong [OF st', of db_child_history]]) (simp add: empty none two del: new_events_simps)
  then have "map ch_data (db_child_history st') = [Text ''x'', Text ''y'']" by (simp add: native_row_def)
  then show ?thesis by (intro exI [of _ st'] conjI c cur)
qed

text \<open>the text fragments of one child reply, streamed one by one, are kept in the bounded snapshot
  as one row that holds their concatenation, as long as every prefix fits in 32 KiB.\<close>

theorem child_text_joined:
  assumes "child_rows_numbered st"
    and "case last_child_event st i tid of None \<Rightarrow> True | Some r \<Rightarrow> (\<forall>s. ser_data r \<noteq> Text s)"
    and "ts \<noteq> []" and "list_all (text_fits jenc) ts"
    and "\<forall>k \<le> length ts. text_fits jenc (concat (take k ts))"
  shows "\<exists>st' t. for_each (\<lambda>st s. snapshot_child_event jenc st i tid (Text s)) st ts = Inr st' \<and>
           db_subagent_events st' = db_subagent_events st @
             [\<lparr>ser_seq = Suc (db_subagent_event_seq st), ser_session_id = i, ser_task_id = tid, ser_at = t,
               ser_data = Text (concat ts), ser_truncated = False\<rparr>]"
proof -
  obtain x xs where ts: "ts = x # xs" using assms(3) by (cases ts) auto
  from snapshot_text_open [OF assms(2), of jenc x] assms(4) ts obtain st1 where
    st1: "snapshot_child_event jenc st i tid (Text x) = Inr st1"
    "open_text_row st1 (db_subagent_events st) (Suc (db_subagent_event_seq st)) i tid x" by auto
  have "\<forall>r \<in> set (db_subagent_events st). ser_seq r < Suc (db_subagent_event_seq st)"
    using assms(1) by (auto simp: child_rows_numbered_def)
  moreover have "\<forall>k \<le> length xs. text_fits jenc (x @ concat (take k xs))"
  proof (intro allI impI)
    fix k assume "k \<le> length xs"
    then have "text_fits jenc (concat (take (Suc k) ts))" using assms(5) ts by (metis Suc_le_mono length_Cons)
    then show "text_fits jenc (x @ concat (take k xs))" by (simp add: ts)
  qed
  ultimately obtain st' where
    "for_each (\<lambda>st s. snapshot_child_event jenc st i tid (Text s)) st1 xs = Inr st'"
    "open_text_row st' (db_subagent_events st) (Suc (db_subagent_event_seq st)) i tid (x @ concat xs)"
    using snapshot_texts_join [OF st1(2), of xs jenc] assms(4) by (auto simp: ts)
  with st1(1) ts show ?thesis by (auto simp: open_text_row_def)
qed

lemma child_text_joined_witness:
  "\<exists>st'. for_each (\<lambda>st s. snapshot_child_event (\<lambda>_. []) st ''s'' ''a'' (Text s)) sample_tasks [''ab'', ''c''] = Inr st' \<and>
     map ser_data (db_subagent_events st') = [Text ''abc'']"
proof -
  have "db_subagent_events sample_tasks = []"
    by (simp add: sample_tasks_def sample_store_def empty_store_def)
  then show ?thesis
    using child_text_joined [of sample_tasks "''s''" "''a''" "[''ab'', ''c'']" "\<lambda>_. []"]
    by (auto simp: child_rows_numbered_def last_child_event_def text_fits_def)
qed

end
