(* ===== verification/History.thy ===== *)
theory History
  imports Events
begin

text \<open>
  Reverse pages of a session's history (\<open>history\<close> and \<open>flush_history_text\<close> of
  \<open>store.rs\<close>): the rows are read newest first, consecutive text fragments are joined into one
  event, and the page ends at two user turns, 128 events, 16384 rows or 256 KiB. The loop keeps the
  events in the order it pushes them, newest first, and the fragments of the last one apart.
\<close>

section \<open>Operations\<close>

fun is_text :: "event_kind \<Rightarrow> bool" where
  "is_text (Text _) = True"
| "is_text _ = False"

fun is_user :: "event_kind \<Rightarrow> bool" where
  "is_user (User _ _) = True"
| "is_user _ = False"

record history_acc =
  ha_events :: "event list"
  ha_fragments :: "string list"
  ha_bytes :: nat
  ha_oldest :: "rat option"
  ha_count :: nat
  ha_turns :: nat

definition history_start :: history_acc where
  "history_start = \<lparr>ha_events = [], ha_fragments = [], ha_bytes = 0, ha_oldest = None, ha_count = 0, ha_turns = 0\<rparr>"

definition flush_history_text :: "history_acc \<Rightarrow> history_acc" where
  "flush_history_text a =
     (case rev (ha_events a) of
        e # before \<Rightarrow>
          if is_text (ev_event e)
          then a\<lparr>ha_events := rev before @ [e\<lparr>ev_event := Text (concat (rev (ha_fragments a)))\<rparr>],
                 ha_fragments := []\<rparr>
          else a
      | [] \<Rightarrow> a)"

definition history_joins :: "history_acc \<Rightarrow> event_kind \<Rightarrow> bool" where
  "history_joins a e \<longleftrightarrow> is_text e \<and> ha_events a \<noteq> [] \<and> is_text (ev_event (last (ha_events a)))"

definition history_size :: "string \<Rightarrow> bool \<Rightarrow> string \<Rightarrow> event_kind \<Rightarrow> nat" where
  "history_size i joins data e =
     (case e of Text t \<Rightarrow> length t + (if joins then 0 else length i + 96)
              | _ \<Rightarrow> length data + length i + 96)"

definition history_full :: "history_acc \<Rightarrow> bool \<Rightarrow> nat \<Rightarrow> bool" where
  "history_full a joins sz \<longleftrightarrow>
     ha_turns a = 2 \<or> ha_count a = 16384 \<or> (\<not> joins \<and> length (ha_events a) = 128)
     \<or> (ha_bytes a + sz > 256 * 1024 \<and> ha_events a \<noteq> [])"

definition history_add :: "string \<Rightarrow> event_row \<Rightarrow> event_kind \<Rightarrow> bool \<Rightarrow> nat \<Rightarrow> history_acc \<Rightarrow> history_acc" where
  "history_add i r e joins sz a =
     (let a = (if joins then a else flush_history_text a);
          a = a\<lparr>ha_oldest := Some (of_nat (er_seq r)), ha_turns := ha_turns a + (if is_user e then 1 else 0)\<rparr>;
          (a, e) = (case e of Text t \<Rightarrow> (a\<lparr>ha_fragments := ha_fragments a @ [t]\<rparr>, Text []) | _ \<Rightarrow> (a, e));
          a = (if joins then a
               else a\<lparr>ha_events := ha_events a @
                        [\<lparr>ev_seq = of_nat (er_seq r), ev_session_id = i, ev_at = er_at r, ev_event = e\<rparr>]\<rparr>)
      in a\<lparr>ha_count := ha_count a + 1, ha_bytes := ha_bytes a + sz\<rparr>)"

text \<open>The result says whether the loop stopped before a row, and whether that row continues a text.\<close>

fun history_loop ::
  "(event_kind \<Rightarrow> string) \<Rightarrow> store \<Rightarrow> string \<Rightarrow> event_row list \<Rightarrow> history_acc \<Rightarrow> error + (history_acc \<times> bool \<times> bool)" where
  "history_loop enc st i [] a = Inr (a, False, False)"
| "history_loop enc st i (r # rs) a =
     (let d = presentation_data enc (er_data r)
      in and_then (presentation_event st i d) (\<lambda>e.
           let joins = history_joins a e; sz = history_size i joins (fst d) e
           in if history_full a joins sz then Inr (a, True, joins)
              else history_loop enc st i rs (history_add i r e joins sz a)))"

definition history_rows :: "store \<Rightarrow> string \<Rightarrow> f64 option \<Rightarrow> event_row list" where
  "history_rows st i before =
     rev (sort_key er_seq
            (filter (\<lambda>r. er_session_id r = i \<and>
                         (case before of None \<Rightarrow> True | Some v \<Rightarrow> of_nat (er_seq r) < finite_value v))
               (db_events st)))"

text \<open>Approvals before the page that the running turn has not resolved.\<close>

definition turn_start :: "store \<Rightarrow> string \<Rightarrow> nat" where
  "turn_start st i = fold max (map er_seq (filter (\<lambda>u. er_session_id u = i \<and> is_user (er_data u)) (db_events st))) 0"

definition approval_settled :: "store \<Rightarrow> string \<Rightarrow> event_row \<Rightarrow> string \<Rightarrow> bool" where
  "approval_settled st i a request =
     list_ex (\<lambda>e. er_session_id e = i \<and> er_seq e > er_seq a \<and>
                  (case er_data e of State s _ \<Rightarrow> s \<notin> {Running, Waiting}
                                   | ApprovalResolved j _ \<Rightarrow> j = request | _ \<Rightarrow> False)) (db_events st)"

definition pending_approval :: "store \<Rightarrow> string \<Rightarrow> rat \<Rightarrow> bool" where
  "pending_approval st i first =
     list_ex (\<lambda>a. er_session_id a = i \<and> of_nat (er_seq a) < first \<and> turn_start st i < er_seq a \<and>
                  (case er_data a of Approval request _ _ _ \<Rightarrow> \<not> approval_settled st i a request | _ \<Rightarrow> False))
       (db_events st)"

definition history ::
  "(event_kind \<Rightarrow> string) \<Rightarrow> store \<Rightarrow> string \<Rightarrow> f64 option \<Rightarrow> error + (event list \<times> bool \<times> bool \<times> rat option)" where
  "history enc st i before =
     and_then (ensure (\<not> (case before of Some v \<Rightarrow> bad_cursor v | None \<Rightarrow> False)) EventCursorInvalid) (\<lambda>_.
     and_then (history_loop enc st i (take 16385 (history_rows st i before)) history_start) (\<lambda>(a, has_more, split_text).
       let es = rev (ha_events (flush_history_text a));
           needs_earlier = (has_more \<and> split_text);
           needs_earlier = (case (has_more, ha_oldest a) of
                              (True, Some first) \<Rightarrow> needs_earlier \<or> pending_approval st i first
                            | _ \<Rightarrow> needs_earlier)
       in Inr (es, has_more, needs_earlier, if has_more then ha_oldest a else None)))"

section \<open>Joined texts\<close>

text \<open>The reference: in the order of the log, a text in front of a text becomes part of it.\<close>

fun push_text :: "event \<Rightarrow> event list \<Rightarrow> event list" where
  "push_text e [] = [e]"
| "push_text e (f # fs) =
     (case (ev_event e, ev_event f) of
        (Text t, Text u) \<Rightarrow> f\<lparr>ev_event := Text (t @ u)\<rparr> # fs
      | _ \<Rightarrow> e # f # fs)"

definition merge_texts :: "event list \<Rightarrow> event list" where
  "merge_texts es = foldr push_text es []"

lemma merge_texts_simps [simp]:
  "merge_texts [] = []" "merge_texts (e # es) = push_text e (merge_texts es)"
  by (simp_all add: merge_texts_def)

lemma merge_texts_append: "merge_texts (es @ fs) = foldr push_text es (merge_texts fs)"
  by (simp add: merge_texts_def)

lemma push_text_foldr:
  "foldr push_text (push_text e es) fs = push_text e (foldr push_text es fs)"
proof (cases es)
  case Nil
  then show ?thesis by simp
next
  case (Cons g gs)
  show ?thesis
  proof (cases "is_text (ev_event e) \<and> is_text (ev_event g)")
    case True
    then obtain t u where t: "ev_event e = Text t" "ev_event g = Text u"
      by (cases "ev_event e"; cases "ev_event g") auto
    show ?thesis
      by (cases "foldr push_text gs fs") (auto simp: Cons t split: event_kind.splits)
  next
    case False
    then have "push_text e (g # gs) = e # g # gs" by (auto split: event_kind.splits)
    then show ?thesis by (simp add: Cons)
  qed
qed

lemma merge_texts_merged: "merge_texts (merge_texts es @ fs) = merge_texts (es @ fs)"
  by (induction es) (simp_all add: merge_texts_append push_text_foldr)

lemma merge_texts_merge: "merge_texts (merge_texts es @ merge_texts fs) = merge_texts (es @ fs)"
proof -
  have "merge_texts (es @ merge_texts fs) = merge_texts (es @ fs)"
    using merge_texts_merged [of fs "[]"] by (simp add: merge_texts_append)
  then show ?thesis by (simp add: merge_texts_merged)
qed

section \<open>A page\<close>

text \<open>What the accumulator holds for the joined events \<open>es\<close>: they themselves, newest first, with the text of
  the oldest kept in the fragments.\<close>

definition holds :: "history_acc \<Rightarrow> event list \<Rightarrow> bool" where
  "holds a es \<longleftrightarrow>
     (case es of
        [] \<Rightarrow> ha_events a = [] \<and> ha_fragments a = []
      | e # es \<Rightarrow>
          (case ev_event e of
             Text t \<Rightarrow> ha_events a = rev es @ [e\<lparr>ev_event := Text []\<rparr>] \<and> concat (rev (ha_fragments a)) = t
           | _ \<Rightarrow> ha_events a = rev es @ [e] \<and> ha_fragments a = []))"

lemma holds_flush: "holds a es \<Longrightarrow> ha_events (flush_history_text a) = rev es \<and> ha_fragments (flush_history_text a) = []"
  by (cases es) (auto simp: holds_def flush_history_text_def split: event_kind.splits)

lemma flush_keeps [simp]:
  "ha_bytes (flush_history_text a) = ha_bytes a" "ha_oldest (flush_history_text a) = ha_oldest a"
  "ha_count (flush_history_text a) = ha_count a" "ha_turns (flush_history_text a) = ha_turns a"
  by (auto simp: flush_history_text_def split: list.splits)

lemma holds_length: "holds a es \<Longrightarrow> length (ha_events a) = length es"
  by (cases es) (auto simp: holds_def split: event_kind.splits)

lemma holds_joins: "holds a es \<Longrightarrow> history_joins a e \<longleftrightarrow> is_text e \<and> es \<noteq> [] \<and> is_text (ev_event (hd es))"
  by (cases es) (auto simp: holds_def history_joins_def split: event_kind.splits)

lemma history_add_keeps:
  "ha_oldest (history_add i r e joins sz a) = Some (of_nat (er_seq r))"
  "ha_count (history_add i r e joins sz a) = Suc (ha_count a)"
  by (auto simp: history_add_def Let_def split: event_kind.splits)

lemma holds_add:
  assumes "holds a es"
  shows "holds (history_add i r e (history_joins a e) sz a)
           (push_text \<lparr>ev_seq = of_nat (er_seq r), ev_session_id = i, ev_at = er_at r, ev_event = e\<rparr> es)"
proof (cases "history_joins a e")
  case True
  with holds_joins [OF assms] obtain f fs t u where es: "es = f # fs" "ev_event f = Text u" "e = Text t"
    by (cases es; cases e; cases "ev_event (hd es)") auto
  with assms True show ?thesis by (auto simp: holds_def history_add_def Let_def)
next
  case False
  have j: "\<not> (is_text e \<and> es \<noteq> [] \<and> is_text (ev_event (hd es)))" using holds_joins [OF assms] False by simp
  let ?n = "\<lparr>ev_seq = of_nat (er_seq r), ev_session_id = i, ev_at = er_at r, ev_event = e\<rparr>"
  have p: "push_text ?n es = ?n # es"
    using j by (cases es) (auto split: event_kind.splits)
  show ?thesis unfolding p using holds_flush [OF assms] False
    by (cases e) (auto simp: holds_def history_add_def Let_def)
qed

text \<open>The loop takes a prefix of the rows; it is non-empty when there are rows, and when the loop stops inside a
  text it says so.\<close>

lemma history_loop_page:
  assumes "session_by_id st i = Inr s" and "holds a es" and "ha_count a \<le> 16384"
  shows "\<exists>k a' b. k \<le> length rs \<and> history_loop enc st i rs a = Inr (a', k < length rs, b) \<and>
           holds a' (foldr push_text (rev (map (shown_event enc st i) (take k rs))) es) \<and>
           ha_count a' = ha_count a + k \<and> ha_count a' \<le> 16384 \<and>
           ha_oldest a' = (if k = 0 then ha_oldest a else Some (of_nat (er_seq (rs ! (k - 1))))) \<and>
           (k < length rs \<longrightarrow> b = history_joins a' (shown_kind enc st i (er_data (rs ! k)))) \<and>
           (ha_events a = [] \<and> ha_turns a = 0 \<and> ha_count a = 0 \<and> rs \<noteq> [] \<longrightarrow> k \<noteq> 0)"
  using assms(2,3)
proof (induction rs arbitrary: a es)
  case Nil
  then show ?case by (intro exI [of _ "0 :: nat"] exI [of _ a] exI [of _ False]) simp
next
  case (Cons r rs)
  let ?d = "presentation_data enc (er_data r)"
  let ?e = "shown_kind enc st i (er_data r)"
  let ?j = "history_joins a ?e"
  let ?sz = "history_size i ?j (fst ?d) ?e"
  have step: "history_loop enc st i (r # rs) a =
      (if history_full a ?j ?sz then Inr (a, True, ?j)
       else history_loop enc st i rs (history_add i r ?e ?j ?sz a))"
    by (simp add: presentation_event_ok [OF assms(1)] Let_def)
  show ?case
  proof (cases "history_full a ?j ?sz")
    case True
    have "history_full a ?j ?sz \<Longrightarrow> \<not> (ha_events a = [] \<and> ha_turns a = 0 \<and> ha_count a = 0)"
      by (auto simp: history_full_def)
    with True have ne: "\<not> (ha_events a = [] \<and> ha_turns a = 0 \<and> ha_count a = 0)" by blast
    have "history_loop enc st i (r # rs) a = Inr (a, True, ?j)" using step True by (simp only: if_True)
    then show ?thesis using ne Cons.prems
      by (intro exI [of _ "0 :: nat"] exI [of _ a] exI [of _ ?j]) simp
  next
    case False
    let ?a = "history_add i r ?e ?j ?sz a"
    have h: "holds ?a (push_text (shown_event enc st i r) es)"
      using holds_add [OF Cons.prems(1)] by (simp add: shown_event_def)
    have c: "ha_count ?a \<le> 16384" using False Cons.prems(2) by (auto simp: history_add_keeps history_full_def)
    from Cons.IH [OF h c] obtain k a' b where k: "k \<le> length rs"
      "history_loop enc st i rs ?a = Inr (a', k < length rs, b)"
      "holds a' (foldr push_text (rev (map (shown_event enc st i) (take k rs))) (push_text (shown_event enc st i r) es))"
      "ha_count a' = ha_count ?a + k" "ha_count a' \<le> 16384"
      "ha_oldest a' = (if k = 0 then ha_oldest ?a else Some (of_nat (er_seq (rs ! (k - 1)))))"
      "k < length rs \<longrightarrow> b = history_joins a' (shown_kind enc st i (er_data (rs ! k)))" by blast
    have o: "ha_oldest a' = Some (of_nat (er_seq ((r # rs) ! k)))"
      using k(6) by (cases k) (simp_all add: history_add_keeps)
    show ?thesis using step False k o
      by (intro exI [of _ "Suc k"] exI [of _ a'] exI [of _ b]) (simp add: history_add_keeps)
  qed
qed

section \<open>The whole history\<close>

lemma history_rows_increasing:
  assumes "increasing er_seq (db_events st)"
  shows "history_rows st i before = rev (filter (\<lambda>r. er_session_id r = i \<and>
           (case before of None \<Rightarrow> True | Some v \<Rightarrow> of_nat (er_seq r) < finite_value v)) (db_events st))"
  using assms by (simp add: history_rows_def increasing_sort_key increasing_filter)

text \<open>One page, in terms of the rows it takes.\<close>

lemma history_page:
  assumes "session_by_id st i = Inr s" and "\<not> (case before of Some v \<Rightarrow> bad_cursor v | None \<Rightarrow> False)"
  shows "\<exists>k earlier. k \<le> length (history_rows st i before) \<and>
           history enc st i before =
             Inr (merge_texts (map (shown_event enc st i) (rev (take k (history_rows st i before)))),
                  k < length (history_rows st i before), earlier,
                  if k < length (history_rows st i before)
                  then Some (of_nat (er_seq (history_rows st i before ! (k - 1)))) else None) \<and>
           (history_rows st i before \<noteq> [] \<longrightarrow> k \<noteq> 0)"
proof -
  let ?rows = "history_rows st i before"
  have "holds history_start []" "ha_count history_start \<le> 16384"
    by (simp_all add: holds_def history_start_def)
  from history_loop_page [OF assms(1) this, of "take 16385 ?rows" enc] obtain k a b where
    k: "k \<le> length (take 16385 ?rows)"
      "history_loop enc st i (take 16385 ?rows) history_start = Inr (a, k < length (take 16385 ?rows), b)"
    and h: "holds a (foldr push_text (rev (map (shown_event enc st i) (take k (take 16385 ?rows)))) [])"
    and c: "ha_count a = ha_count history_start + k" "ha_count a \<le> 16384"
    and o: "ha_oldest a = (if k = 0 then ha_oldest history_start else Some (of_nat (er_seq (take 16385 ?rows ! (k - 1)))))"
    and ne: "ha_events history_start = [] \<and> ha_turns history_start = 0 \<and> ha_count history_start = 0 \<and>
               take 16385 ?rows \<noteq> [] \<longrightarrow> k \<noteq> 0" by blast
  have tk: "take k (take 16385 ?rows) = take k ?rows" using k(1) by (rule take_take_same)
  have k16: "k \<le> 16384" using c by (simp add: history_start_def)
  then have more: "k < length (take 16385 ?rows) \<longleftrightarrow> k < length ?rows" by auto
  have k0: "?rows \<noteq> [] \<longrightarrow> k \<noteq> 0" using ne by (simp add: history_start_def)
  have old: "ha_oldest a = Some (of_nat (er_seq (?rows ! (k - 1))))" if "k < length ?rows"
    using o k0 k16 that by auto
  have es: "rev (ha_events (flush_history_text a)) = merge_texts (map (shown_event enc st i) (rev (take k ?rows)))"
    using holds_flush [OF h] unfolding tk by (simp add: merge_texts_def rev_map)
  define earlier where "earlier = (case (k < length ?rows, ha_oldest a) of
      (True, Some first) \<Rightarrow> (k < length ?rows \<and> b) \<or> pending_approval st i first
    | _ \<Rightarrow> (k < length ?rows \<and> b))"
  have "history enc st i before =
      Inr (rev (ha_events (flush_history_text a)), k < length ?rows, earlier,
           if k < length ?rows then ha_oldest a else None)"
    using assms(2) by (simp add: history_def k(2) [unfolded more] Let_def earlier_def)
  also have "\<dots> = Inr (merge_texts (map (shown_event enc st i) (rev (take k ?rows))), k < length ?rows, earlier,
      if k < length ?rows then Some (of_nat (er_seq (?rows ! (k - 1)))) else None)"
    using old by (simp add: es)
  finally show ?thesis using k(1) k0 by (intro exI [of _ k] exI [of _ earlier] conjI) simp_all
qed

text \<open>A client that reads backwards from the end and puts each page in front.\<close>

fun read_history :: "nat \<Rightarrow> (event_kind \<Rightarrow> string) \<Rightarrow> store \<Rightarrow> string \<Rightarrow> f64 option \<Rightarrow> event list option" where
  "read_history 0 enc st i before = None"
| "read_history (Suc fuel) enc st i before =
     (case history enc st i before of
        Inl _ \<Rightarrow> None
      | Inr (es, _, _, None) \<Rightarrow> Some es
      | Inr (es, _, _, Some first) \<Rightarrow>
          map_option (\<lambda>older. merge_texts (older @ es)) (read_history fuel enc st i (Some (Fin first))))"

lemma increasing_take:
  assumes "increasing k xs" and "i < length xs"
  shows "filter (\<lambda>x. k x < k (xs ! i)) xs = take i xs"
  using assms
proof (induction xs arbitrary: i)
  case Nil
  then show ?case by simp
next
  case (Cons x xs)
  then show ?case by (cases i) (auto simp: filter_empty_conv dest: less_not_sym)
qed

lemma history_rows_before:
  assumes "increasing er_seq (db_events st)" and "k < length (history_rows st i before)"
  shows "history_rows st i (Some (Fin (of_nat (er_seq (history_rows st i before ! k))))) =
         drop (Suc k) (history_rows st i before)"
proof -
  let ?rows = "history_rows st i before"
  let ?log = "rev ?rows"
  let ?j = "length ?rows - Suc k"
  have log: "?log = filter (\<lambda>r. er_session_id r = i \<and>
      (case before of None \<Rightarrow> True | Some v \<Rightarrow> of_nat (er_seq r) < finite_value v)) (db_events st)"
    using history_rows_increasing [OF assms(1)] by simp
  have inc: "increasing er_seq ?log" unfolding log using assms(1) by (rule increasing_filter)
  have nth: "?log ! ?j = ?rows ! k" using assms(2) by (simp add: rev_nth)
  have jl: "?j < length ?log" using assms(2) by simp
  have last: "(case before of None \<Rightarrow> True | Some v \<Rightarrow> of_nat (er_seq r) < finite_value v)"
    if "er_seq r < er_seq (?rows ! k)" for r
  proof -
    have "?rows ! k \<in> set ?log" using assms(2) by simp
    then have "case before of None \<Rightarrow> True | Some v \<Rightarrow> of_nat (er_seq (?rows ! k)) < finite_value v"
      unfolding log by simp
    then show ?thesis using that by (cases before) (auto intro: less_trans [of _ "of_nat (er_seq (?rows ! k))"])
  qed
  have "history_rows st i (Some (Fin (of_nat (er_seq (?rows ! k))))) =
      rev (filter (\<lambda>r. er_session_id r = i \<and> er_seq r < er_seq (?rows ! k)) (db_events st))"
    by (simp add: history_rows_increasing [OF assms(1)])
  also have "\<dots> = rev (filter (\<lambda>r. er_seq r < er_seq (?log ! ?j)) ?log)"
    unfolding nth by (subst log, unfold filter_filter) (use last in \<open>intro arg_cong [where f = rev] filter_cong refl; blast\<close>)
  also have "\<dots> = rev (take ?j ?log)" using increasing_take [OF inc jl] by (simp only:)
  also have "\<dots> = drop (Suc k) ?rows" using assms(2) by (simp add: take_rev)
  finally show ?thesis .
qed

text \<open>C26: reading the history backwards, page by page, gives the whole event log of the session with
  the fragments of each reply joined: every page takes at least one row, nothing is lost, repeated or
  reordered between the pages, and a reply that a page boundary splits is whole again once both pages
  are put together.\<close>

theorem history_pages_complete:
  assumes "session_by_id st i = Inr s" and "increasing er_seq (db_events st)"
    and "count_where (\<lambda>r. er_session_id r = i) (db_events st) < fuel"
  shows "read_history fuel enc st i None =
     Some (merge_texts (map (shown_event enc st i) (filter (\<lambda>r. er_session_id r = i) (db_events st))))"
proof -
  have "read_history fuel enc st i before =
      Some (merge_texts (map (shown_event enc st i) (rev (history_rows st i before))))"
    if "\<not> (case before of Some v \<Rightarrow> bad_cursor v | None \<Rightarrow> False)" "length (history_rows st i before) < fuel"
    for before fuel
    using that
  proof (induction fuel arbitrary: before)
    case 0
    then show ?case by simp
  next
    case (Suc fuel)
    let ?rows = "history_rows st i before"
    from history_page [OF assms(1) Suc.prems(1), of enc] obtain k earlier where k: "k \<le> length ?rows"
      "history enc st i before =
         Inr (merge_texts (map (shown_event enc st i) (rev (take k ?rows))), k < length ?rows, earlier,
              if k < length ?rows then Some (of_nat (er_seq (?rows ! (k - 1)))) else None)"
      "?rows \<noteq> [] \<longrightarrow> k \<noteq> 0" by blast
    show ?case
    proof (cases "k < length ?rows")
      case False
      with k show ?thesis by simp
    next
      case True
      then obtain j where j: "k = Suc j" using k(3) by (cases k) auto
      let ?c = "Some (Fin (of_nat (er_seq (?rows ! j))))"
      have rest: "history_rows st i ?c = drop k ?rows"
        using history_rows_before [OF assms(2), of j i before] True by (simp add: j)
      have "length (history_rows st i ?c) < fuel" using Suc.prems(2) True by (simp add: rest j)
      with Suc.IH [of ?c] have "read_history fuel enc st i ?c =
          Some (merge_texts (map (shown_event enc st i) (rev (drop k ?rows))))" by (simp add: rest)
      then have "read_history (Suc fuel) enc st i before =
          Some (merge_texts (merge_texts (map (shown_event enc st i) (rev (drop k ?rows))) @
                             merge_texts (map (shown_event enc st i) (rev (take k ?rows)))))"
        using k(2) True by (simp add: j)
      also have "\<dots> = Some (merge_texts (map (shown_event enc st i) (rev ?rows)))"
        unfolding merge_texts_merge by (simp only: map_append [symmetric] rev_append [symmetric] append_take_drop_id)
      finally show ?thesis .
    qed
  qed
  from this [of None fuel] show ?thesis
    using assms(3) by (simp add: history_rows_increasing [OF assms(2)] count_where_def)
qed

theorem history_pages_complete_witness:
  "read_history 3 (\<lambda>_. []) sample_log ''s'' None =
     Some (merge_texts (map (shown_event (\<lambda>_. []) sample_log ''s'')
             (filter (\<lambda>r. er_session_id r = ''s'') (db_events sample_log))))"
  by (rule history_pages_complete [OF sample_session_by_id(2) sample_log_increasing])
     (simp add: sample_log_def count_where_def)

end
