(* ===== verification/MessageQueue.thy ===== *)
theory MessageQueue
  imports Events "HOL-Library.Multiset"
begin

text \<open>
  The durable message queue (\<open>message_queue.rs\<close>): admission with its limits, the pending
  messages in order, editing and reordering guarded by compare-and-swap, the hand-over to the agent
  and its outcomes. The serde encoding of a message is the argument \<open>qenc\<close>; the code uses its
  length. The queue order is \<open>ORDER BY sort_order, position\<close>.
\<close>

section \<open>Operations\<close>

record send_turn =
  tn_request_id :: string
  tn_text :: string
  tn_model :: "string option"
  tn_fingerprint :: "string option"
  tn_effort :: "effort option"
  tn_permission_mode :: "string option"

definition queue_key :: "queue_row \<Rightarrow> int \<times> nat" where
  "queue_key r = (q_sort_order r, q_position r)"

definition pending_rows :: "store \<Rightarrow> string \<Rightarrow> queue_row list" where
  "pending_rows st i =
     sort_key queue_key (filter (\<lambda>r. q_session_id r = i \<and> q_status r = Pending) (db_queue st))"

definition queued :: "store \<Rightarrow> string \<Rightarrow> error + (queued_message \<times> string option) list" where
  "queued st i =
     and_then (session_by_id st i) (\<lambda>_.
       Inr (map (\<lambda>r. (q_data r, q_fingerprint r)) (take 16 (pending_rows st i))))"

definition queue_state :: "store \<Rightarrow> string \<Rightarrow> bool \<times> string option" where
  "queue_state st i =
     (case List.find (\<lambda>r. qs_session_id r = i) (db_queue_state st) of
        Some r \<Rightarrow> (qs_paused r, qs_reason r) | None \<Rightarrow> (False, None))"

definition queue_snapshot :: "store \<Rightarrow> string \<Rightarrow> error + response" where
  "queue_snapshot st i =
     and_then (queued st i) (\<lambda>es.
       Inr (MessageQueue (map fst es) (fst (queue_state st i)) (snd (queue_state st i))))"

text \<open>\<open>INSERT ... ON CONFLICT(session_id) DO UPDATE\<close> of the pause state.\<close>

definition write_queue_state :: "store \<Rightarrow> string \<Rightarrow> bool \<Rightarrow> string option \<Rightarrow> error + store" where
  "write_queue_state st i paused reason =
     (if list_ex (\<lambda>r. qs_session_id r = i) (db_queue_state st)
      then Inr (st\<lparr>db_queue_state :=
                     update_where (\<lambda>r. qs_session_id r = i)
                       (\<lambda>r. r\<lparr>qs_paused := paused, qs_reason := reason\<rparr>) (db_queue_state st)\<rparr>)
      else and_then (ensure (session_exists st i) SqlForeignKey) (\<lambda>_.
             Inr (st\<lparr>db_queue_state := db_queue_state st @
                       [\<lparr>qs_session_id = i, qs_paused = paused, qs_reason = reason\<rparr>]\<rparr>)))"

definition pause_queue :: "store \<Rightarrow> string \<Rightarrow> string option \<Rightarrow> error + store" where
  "pause_queue st i reason = write_queue_state st i (reason \<noteq> None) reason"

definition queue_row_by_request :: "store \<Rightarrow> string \<Rightarrow> queue_row option" where
  "queue_row_by_request st rid = List.find (\<lambda>r. q_request_id r = rid) (db_queue st)"

definition queued_duplicate :: "store \<Rightarrow> string \<Rightarrow> send_turn \<Rightarrow> error + response option" where
  "queued_duplicate st i turn =
     (case queue_row_by_request st (tn_request_id turn) of
        None \<Rightarrow> Inr None
      | Some r \<Rightarrow>
          let original = q_admission r
          in and_then (ensure (\<not> (q_session_id r \<noteq> i \<or> qm_text original \<noteq> tn_text turn
                \<or> qm_model original \<noteq> tn_model turn \<or> qm_effort original \<noteq> tn_effort turn
                \<or> qm_permission_mode original \<noteq> tn_permission_mode turn
                \<or> q_fingerprint r \<noteq> tn_fingerprint turn)) QueueRequestReused) (\<lambda>_.
             and_then (ensure (q_status r \<noteq> Taken) QueueTaken) (\<lambda>_.
             and_then (ensure (q_status r \<noteq> Cancelled) QueueCancelled) (\<lambda>_.
               Inr (Some (if q_status r \<in> {Dispatched, Forwarded, Uncertain}
                          then Accepted True else MessageQueued True))))))"

definition live :: "queue_status \<Rightarrow> bool" where
  "live s \<longleftrightarrow> s \<in> {Pending, Forwarded}"

definition live_rows :: "store \<Rightarrow> string \<Rightarrow> queue_row list" where
  "live_rows st i = filter (\<lambda>r. q_session_id r = i \<and> live (q_status r)) (db_queue st)"

definition live_size :: "(queued_message \<Rightarrow> string) \<Rightarrow> queue_row list \<Rightarrow> nat" where
  "live_size qenc rs = sum_list (map (\<lambda>r. length (qenc (q_data r))) rs)"

definition turn_invalid :: "send_turn \<Rightarrow> bool" where
  "turn_invalid turn =
     (trim (tn_text turn) = [] \<or> length (tn_text turn) > 128 * 1024
      \<or> tn_request_id turn = [] \<or> length (tn_request_id turn) > 100
      \<or> (case tn_model turn of Some v \<Rightarrow> length v > 256 | None \<Rightarrow> False)
      \<or> (case tn_permission_mode turn of Some v \<Rightarrow> length v > 128 | None \<Rightarrow> False))"

definition next_sort_order :: "store \<Rightarrow> string \<Rightarrow> int" where
  "next_sort_order st i =
     (case map q_sort_order (pending_rows st i) of [] \<Rightarrow> 0 | n # ns \<Rightarrow> fold max ns n) + 1"

definition new_entry :: "send_turn \<Rightarrow> rat \<Rightarrow> queued_message" where
  "new_entry turn t =
     \<lparr>qm_request_id = tn_request_id turn, qm_text = tn_text turn, qm_model = tn_model turn,
      qm_effort = tn_effort turn, qm_permission_mode = tn_permission_mode turn,
      qm_revision = 0, qm_created_at = t\<rparr>"

definition enqueue ::
  "(queued_message \<Rightarrow> string) \<Rightarrow> store \<Rightarrow> string \<Rightarrow> send_turn \<Rightarrow> error + store" where
  "enqueue qenc st i turn =
     and_then (ensure (\<not> turn_invalid turn) QueueMessageInvalid) (\<lambda>_.
     and_then (session_by_id st i) (\<lambda>s.
     and_then (ensure (\<not> ses_archived s) SessionArchivedSend) (\<lambda>_.
     and_then (queued st i) (\<lambda>es.
     and_then (ensure (\<not> list_ex (\<lambda>(_, fp). fp \<noteq> tn_fingerprint turn) es) QueueOtherProvider) (\<lambda>_.
     and_then (ensure (length (live_rows st i) < 16) QueueFull) (\<lambda>_.
       let (t, st) = read_clock st;
           entry = new_entry turn t
       in and_then (ensure (live_size qenc (live_rows st i) + length (qenc entry) \<le> 512 * 1024) QueueSizeLimit) (\<lambda>_.
          and_then (ensure (tn_request_id turn \<notin> q_request_id ` set (db_queue st)) SqlUnique) (\<lambda>_.
            Inr (st\<lparr>db_queue := db_queue st @
                      [\<lparr>q_position = Suc (db_queue_position st), q_request_id = tn_request_id turn,
                        q_session_id = i, q_admission = entry, q_data = entry,
                        q_fingerprint = tn_fingerprint turn, q_status = Pending,
                        q_sort_order = next_sort_order st i\<rparr>],
                    db_queue_position := Suc (db_queue_position st),
                    db_queue_state :=
                      (if list_ex (\<lambda>r. qs_session_id r = i) (db_queue_state st) then db_queue_state st
                       else db_queue_state st @ [\<lparr>qs_session_id = i, qs_paused = False, qs_reason = None\<rparr>])\<rparr>)))))))))"

text \<open>\<open>UPDATE message_queue SET ... WHERE session_id=?1 AND request_id=?2 AND status=...\<close>\<close>

definition update_queue ::
  "store \<Rightarrow> string \<Rightarrow> string \<Rightarrow> queue_status \<Rightarrow> (queue_row \<Rightarrow> queue_row) \<Rightarrow> store" where
  "update_queue st i rid s f =
     st\<lparr>db_queue := update_where (\<lambda>r. q_session_id r = i \<and> q_request_id r = rid \<and> q_status r = s) f
                      (db_queue st)\<rparr>"

definition edit_queued ::
  "(queued_message \<Rightarrow> string) \<Rightarrow> store \<Rightarrow> string \<Rightarrow> string \<Rightarrow> u32 \<Rightarrow> string option \<Rightarrow> error + store" where
  "edit_queued qenc st i rid revision text =
     and_then (queued st i) (\<lambda>es.
     and_then (of_option QueueEntryGone (List.find (\<lambda>e. qm_request_id e = rid) (map fst es))) (\<lambda>entry.
     and_then (ensure (qm_revision entry = revision) QueueEntryChanged) (\<lambda>_.
       case text of
         Some text \<Rightarrow>
           and_then (ensure (\<not> (trim text = [] \<or> length text > 128 * 1024)) QueueMessageInvalid) (\<lambda>_.
           and_then (of_option QueueRevisionOverflow (checked_add (qm_revision entry) 1)) (\<lambda>next.
             let entry = entry\<lparr>qm_text := text, qm_revision := next\<rparr>;
                 others = filter (\<lambda>r. q_request_id r \<noteq> rid) (live_rows st i)
             in and_then (ensure (live_size qenc others + length (qenc entry) \<le> 512 * 1024) QueueSizeLimit) (\<lambda>_.
                  Inr (update_queue st i rid Pending (\<lambda>r. r\<lparr>q_data := entry\<rparr>)))))
       | None \<Rightarrow> Inr (update_queue st i rid Pending (\<lambda>r. r\<lparr>q_status := Cancelled\<rparr>)))))"

definition set_ranks :: "store \<Rightarrow> string \<Rightarrow> string list \<Rightarrow> store" where
  "set_ranks st i order =
     foldl (\<lambda>st (rank, rid). update_queue st i rid Pending (\<lambda>r. r\<lparr>q_sort_order := int rank\<rparr>)) st
       (enumerate 0 order)"

definition reorder_queue :: "store \<Rightarrow> string \<Rightarrow> string list \<Rightarrow> string list \<Rightarrow> error + store" where
  "reorder_queue st i expected order =
     and_then (ensure (\<not> (length expected > 16 \<or> length expected \<noteq> length order
         \<or> list_ex (\<lambda>v. v = [] \<or> length v > 100) (expected @ order))) QueueOrderInvalid) (\<lambda>_.
     and_then (ensure (\<not> (card (set expected) \<noteq> length expected \<or> card (set order) \<noteq> length order
         \<or> set expected \<noteq> set order)) QueueOrderIncomplete) (\<lambda>_.
     and_then (queued st i) (\<lambda>es.
       let current = map (\<lambda>(e, _). qm_request_id e) es
       in if current = order then Inr st
          else and_then (ensure (current = expected) QueueOrderChanged) (\<lambda>_.
                 Inr (set_ranks st i order)))))"

text \<open>What the store says of a turn whose boundaries overlap a handed-over message.\<close>

definition overlap_message :: string where
  "overlap_message = map char_of
    [65 :: nat, 103, 101, 110, 116, 32, 229, 183, 178, 230, 142, 165, 230, 148, 182, 229, 144,
     142, 231, 187, 173, 230, 182, 136, 230, 129, 175, 239, 188, 140, 230, 151, 160, 230, 179,
     149, 228, 184, 186, 233, 135, 141, 229, 143, 160, 230, 137, 167, 232, 161, 140, 230, 143,
     144, 228, 190, 155, 229, 174, 137, 229, 133, 168, 231, 154, 132, 229, 141, 149, 232, 189,
     174, 230, 146, 164, 233, 148, 128]"

definition queue_entry_status :: "store \<Rightarrow> string \<Rightarrow> string \<Rightarrow> error + (queued_message \<times> queue_status)" where
  "queue_entry_status st i rid =
     of_option SqlNoRow
       (map_option (\<lambda>r. (q_data r, q_status r))
          (List.find (\<lambda>r. q_session_id r = i \<and> q_request_id r = rid) (db_queue st)))"

definition set_queue_status :: "store \<Rightarrow> string \<Rightarrow> string \<Rightarrow> queue_status \<Rightarrow> store" where
  "set_queue_status st i rid s =
     st\<lparr>db_queue := update_where (\<lambda>r. q_session_id r = i \<and> q_request_id r = rid)
                      (\<lambda>r. r\<lparr>q_status := s\<rparr>) (db_queue st)\<rparr>"

definition mark_forwarded :: "store \<Rightarrow> string \<Rightarrow> string \<Rightarrow> u32 \<Rightarrow> error + store" where
  "mark_forwarded st i rid revision =
     and_then (queue_entry_status st i rid) (\<lambda>(entry, status).
     and_then (ensure (\<not> (status \<noteq> Pending \<or> qm_revision entry \<noteq> revision)) QueueEntryChanged) (\<lambda>_.
       let st = set_queue_status st i rid Forwarded;
           (t, st) = read_clock st
       in and_then (insert_event st i t (QueuedMessageSent (qm_text entry) (qm_request_id entry))) (\<lambda>st.
            let (t, st) = read_clock st
            in Inr (st\<lparr>db_turn_changes :=
                         update_where (\<lambda>r. tr_session_id r = i \<and> tr_baseline r \<noteq> None)
                           (\<lambda>r. r\<lparr>tr_baseline := Some (snapshot_unavailable t overlap_message)\<rparr>)
                           (db_turn_changes st)\<rparr>))))"

definition rejected_prefix :: string where
  "rejected_prefix = map char_of
    [230 :: nat, 182, 136, 230, 129, 175, 230, 156, 170, 232, 162, 171, 32, 65, 103, 101, 110,
     116, 32, 230, 142, 165, 230, 148, 182, 239, 188, 140, 229, 183, 178, 233, 128, 128, 229,
     155, 158, 233, 152, 159, 229, 136, 151, 239, 188, 154]"

definition reject_forwarded :: "store \<Rightarrow> string \<Rightarrow> string \<Rightarrow> string \<Rightarrow> error + store" where
  "reject_forwarded st i rid reason =
     (case List.find (\<lambda>r. q_session_id r = i \<and> q_request_id r = rid \<and> q_status r = Forwarded) (db_queue st) of
        None \<Rightarrow> Inr st
      | Some row \<Rightarrow>
          and_then (of_option QueueRevisionOverflow (checked_add (qm_revision (q_data row)) 1)) (\<lambda>next.
            let entry = (q_data row)\<lparr>qm_revision := next\<rparr>;
                st = update_queue st i rid Forwarded (\<lambda>r. r\<lparr>q_status := Pending, q_data := entry\<rparr>);
                reason = rejected_prefix @ reason
            in and_then (write_queue_state st i True (Some reason)) (\<lambda>st.
                 let (t, st) = read_clock st
                 in insert_event st i t (Notice reason))))"

definition consume_forwarded :: "store \<Rightarrow> string \<Rightarrow> string list \<Rightarrow> store" where
  "consume_forwarded st i requests =
     foldl (\<lambda>st rid. update_queue st i rid Forwarded (\<lambda>r. r\<lparr>q_status := Dispatched\<rparr>)) st requests"

text \<open>The decimal digits of a count.\<close>

fun decimal :: "nat \<Rightarrow> string" where
  "decimal n = (if n < 10 then [char_of (48 + n)] else decimal (n div 10) @ [char_of (48 + n mod 10)])"

declare decimal.simps [simp del]

definition uncertain_suffix :: string where
  "uncertain_suffix = map char_of
    [32 :: nat, 230, 157, 161, 229, 183, 178, 229, 143, 145, 233, 128, 129, 231, 187, 153, 32,
     65, 103, 101, 110, 116, 32, 231, 154, 132, 230, 182, 136, 230, 129, 175, 229, 164, 132, 231,
     144, 134, 231, 138, 182, 230, 128, 129, 229, 190, 133, 231, 161, 174, 232, 174, 164, 239,
     188, 140, 232, 175, 183, 230, 160, 184, 229, 175, 185, 229, 142, 159, 231, 148, 159, 228,
     188, 154, 232, 175, 157, 232, 174, 176, 229, 189, 149, 239, 188, 155, 228, 184, 141, 228,
     188, 154, 232, 135, 170, 229, 138, 168, 233, 135, 141, 229, 143, 145, 227, 128, 130]"

definition uncertain_forwarded ::
  "(event_kind \<Rightarrow> string) \<Rightarrow> (string \<Rightarrow> json option) \<Rightarrow> store \<Rightarrow> string \<Rightarrow> error + store" where
  "uncertain_forwarded enc parse st i =
     (let forwarded = (\<lambda>r. q_session_id r = i \<and> q_status r = Forwarded);
          count = count_where forwarded (db_queue st);
          st = st\<lparr>db_queue := update_where forwarded (\<lambda>r. r\<lparr>q_status := Uncertain\<rparr>) (db_queue st)\<rparr>
      in if count > 0 then store_event enc parse st i (Notice (decimal count @ uncertain_suffix)) else Inr st)"

definition take_queued :: "store \<Rightarrow> string \<Rightarrow> string \<Rightarrow> u32 \<Rightarrow> error + (response \<times> store)" where
  "take_queued st i rid revision =
     and_then (session_by_id st i) (\<lambda>_.
     and_then (queue_entry_status st i rid) (\<lambda>(entry, status).
     and_then (ensure (\<not> (status \<notin> {Pending, Taken} \<or> qm_revision entry \<noteq> revision)) QueueEntryChanged) (\<lambda>_.
       Inr (QueuedMessageTaken entry, set_queue_status st i rid Taken))))"

definition clear_queue :: "store \<Rightarrow> string \<Rightarrow> error + store" where
  "clear_queue st i =
     and_then (session_by_id st i) (\<lambda>_.
       Inr (st\<lparr>db_queue := update_where (\<lambda>r. q_session_id r = i \<and> q_status r = Pending)
                             (\<lambda>r. r\<lparr>q_status := Cancelled\<rparr>) (db_queue st),
               db_queue_state := filter (\<lambda>r. qs_session_id r \<noteq> i) (db_queue_state st)\<rparr>))"

text \<open>\<open>initialize\<close> at start-up: a queue that still holds pending messages is paused.\<close>

definition restart_reason :: string where
  "restart_reason = map char_of
    [229 :: nat, 144, 142, 229, 143, 176, 229, 183, 178, 233, 135, 141, 229, 144, 175, 239, 188,
     140, 232, 175, 183, 230, 160, 184, 229, 175, 185, 229, 189, 147, 229, 137, 141, 228, 187,
     187, 229, 138, 161, 229, 144, 142, 231, 187, 167, 231, 187, 173, 230, 142, 146, 233, 152,
     159]"

definition initialize :: "store \<Rightarrow> store" where
  "initialize st =
     st\<lparr>db_queue_state :=
          update_where (\<lambda>s. list_ex (\<lambda>r. q_session_id r = qs_session_id s \<and> q_status r = Pending) (db_queue st))
            (\<lambda>s. s\<lparr>qs_paused := True, qs_reason := Some restart_reason\<rparr>) (db_queue_state st)\<rparr>"


section \<open>Well-formed queues\<close>

definition queue_ok :: "store \<Rightarrow> bool" where
  "queue_ok st \<longleftrightarrow>
     distinct (map q_request_id (db_queue st)) \<and>
     increasing q_position (db_queue st) \<and>
     (\<forall>r \<in> set (db_queue st). q_position r \<le> db_queue_position st \<and> qm_request_id (q_data r) = q_request_id r) \<and>
     (\<forall>i. length (live_rows st i) \<le> 16)"

lemma queue_okD:
  assumes "queue_ok st"
  shows "distinct (map q_request_id (db_queue st))" "increasing q_position (db_queue st)"
    "r \<in> set (db_queue st) \<Longrightarrow> q_position r \<le> db_queue_position st"
    "r \<in> set (db_queue st) \<Longrightarrow> qm_request_id (q_data r) = q_request_id r"
    "length (live_rows st i) \<le> 16"
  using assms by (auto simp: queue_ok_def)

lemma queue_ok_empty [simp]: "queue_ok (empty_store clock)"
  by (simp add: queue_ok_def empty_store_def live_rows_def)

text \<open>Only the queue table and its counter matter.\<close>

lemma queue_ok_cong:
  "db_queue st' = db_queue st \<Longrightarrow> db_queue_position st' = db_queue_position st \<Longrightarrow> queue_ok st' = queue_ok st"
  by (simp add: queue_ok_def live_rows_def)

text \<open>An update that keeps keys and revives nothing keeps the queue well-formed.\<close>

lemma increasing_map_cong: "(\<And>x. x \<in> set xs \<Longrightarrow> k (f x) = k x) \<Longrightarrow> increasing k (map f xs) = increasing k xs"
  by (induction xs) auto

lemma queue_ok_update:
  assumes "queue_ok st"
    and keep: "\<And>r. r \<in> set (db_queue st) \<Longrightarrow> p r \<Longrightarrow> q_request_id (f r) = q_request_id r \<and> q_position (f r) = q_position r \<and>
           q_session_id (f r) = q_session_id r \<and> qm_request_id (q_data (f r)) = qm_request_id (q_data r) \<and>
           (live (q_status (f r)) \<longrightarrow> live (q_status r))"
  shows "queue_ok (st\<lparr>db_queue := update_where p f (db_queue st)\<rparr>)"
proof -
  let ?g = "\<lambda>r. if p r then f r else r"
  have ids: "map q_request_id (update_where p f (db_queue st)) = map q_request_id (db_queue st)"
    using keep by (auto simp: update_where_def)
  have pos: "increasing q_position (update_where p f (db_queue st))"
    using queue_okD(2) [OF assms(1)] keep
    by (simp add: update_where_def increasing_map_cong)
  have rows: "q_position r \<le> db_queue_position st \<and> qm_request_id (q_data r) = q_request_id r"
    if "r \<in> set (update_where p f (db_queue st))" for r
    using that queue_okD(3,4) [OF assms(1)] keep by (auto simp: in_set_update_where)
  have live: "length (filter (\<lambda>r. q_session_id r = i \<and> live (q_status r)) (update_where p f rs))
      \<le> length (filter (\<lambda>r. q_session_id r = i \<and> live (q_status r)) rs)"
    if "set rs \<subseteq> set (db_queue st)" for i rs
    using that keep by (induction rs) (auto simp: le_SucI)
  have "length (live_rows (st\<lparr>db_queue := update_where p f (db_queue st)\<rparr>) i) \<le> 16" for i
    using live [of "db_queue st" i] queue_okD(5) [OF assms(1), of i] by (simp add: live_rows_def)
  with ids pos rows queue_okD(1) [OF assms(1)] show ?thesis by (auto simp: queue_ok_def)
qed

lemma pending_rows_le: "queue_ok st \<Longrightarrow> length (pending_rows st i) \<le> 16"
proof -
  assume ok: "queue_ok st"
  have "length (pending_rows st i) = count_where (\<lambda>r. q_session_id r = i \<and> q_status r = Pending) (db_queue st)"
    by (simp add: pending_rows_def count_where_def)
  also have "\<dots> \<le> count_where (\<lambda>r. q_session_id r = i \<and> live (q_status r)) (db_queue st)"
    by (rule count_where_mono) (auto simp: live_def)
  also have "\<dots> \<le> 16" using queue_okD(5) [OF ok, of i] by (simp add: live_rows_def count_where_def)
  finally show ?thesis .
qed

lemma queued_ok:
  "queue_ok st \<Longrightarrow> queued st i =
     and_then (session_by_id st i) (\<lambda>_. Inr (map (\<lambda>r. (q_data r, q_fingerprint r)) (pending_rows st i)))"
  by (simp add: queued_def pending_rows_le)

lemma in_pending_rows:
  "r \<in> set (pending_rows st i) \<longleftrightarrow> r \<in> set (db_queue st) \<and> q_session_id r = i \<and> q_status r = Pending"
  by (auto simp: pending_rows_def)

text \<open>Two rows of a well-formed queue with one request id are the same row.\<close>

lemma queue_row_unique:
  assumes "queue_ok st" and "r \<in> set (db_queue st)" and "r' \<in> set (db_queue st)"
    and "q_request_id r = q_request_id r'"
  shows "r = r'"
  using assms queue_okD(1) [OF assms(1)] by (auto simp: distinct_map inj_on_def)

section \<open>What the operations do to the pending list\<close>

text \<open>A status change away from pending removes the rows it hits, and nothing else, from the list.\<close>

lemma pending_rows_remove:
  assumes "\<And>r. q_session_id r = i \<Longrightarrow> q_status r = Pending \<Longrightarrow> p r \<Longrightarrow> q_status (f r) \<noteq> Pending"
    and "\<And>r. p r \<Longrightarrow> \<not> (q_session_id r = i \<and> q_status r = Pending) \<Longrightarrow>
             \<not> (q_session_id (f r) = i \<and> q_status (f r) = Pending)"
  shows "pending_rows (st\<lparr>db_queue := update_where p f (db_queue st)\<rparr>) i =
         filter (\<lambda>r. \<not> p r) (pending_rows st i)"
proof -
  have "filter (\<lambda>r. q_session_id r = i \<and> q_status r = Pending) (update_where p f rs) =
        filter (\<lambda>r. \<not> p r) (filter (\<lambda>r. q_session_id r = i \<and> q_status r = Pending) rs)" for rs
    using assms by (induction rs) auto
  then show ?thesis by (simp add: pending_rows_def filter_sort)
qed

lemma fold_max_ge: "(x :: int) \<in> set (n # ns) \<Longrightarrow> x \<le> fold max ns n"
proof -
  have "fold max ns n = Max (set (n # ns))" by (metis Max.set_eq_fold)
  then show "x \<in> set (n # ns) \<Longrightarrow> x \<le> fold max ns n" by simp
qed

lemma next_sort_order_gt:
  assumes "r \<in> set (pending_rows st i)"
  shows "q_sort_order r < next_sort_order st i"
proof -
  obtain n ns where ns: "map q_sort_order (pending_rows st i) = n # ns"
    using assms by (cases "map q_sort_order (pending_rows st i)") auto
  moreover have "q_sort_order r \<in> set (map q_sort_order (pending_rows st i))" using assms by simp
  ultimately show ?thesis using fold_max_ge [of "q_sort_order r" n ns]
    by (auto simp: next_sort_order_def)
qed

lemma enqueue_Inr:
  assumes "enqueue qenc st i turn = Inr st'"
  obtains t row where
    "db_queue st' = db_queue st @ [row]" "db_queue_position st' = Suc (db_queue_position st)"
    "row = \<lparr>q_position = Suc (db_queue_position st), q_request_id = tn_request_id turn,
            q_session_id = i, q_admission = new_entry turn t, q_data = new_entry turn t,
            q_fingerprint = tn_fingerprint turn, q_status = Pending, q_sort_order = next_sort_order st i\<rparr>"
    "tn_request_id turn \<notin> q_request_id ` set (db_queue st)" "length (live_rows st i) < 16"
    "is_ok (session_by_id st i)" "db_sessions st' = db_sessions st"
    "live_size qenc (live_rows st' i) \<le> 512 * 1024"
proof -
  have clk: "live_rows (snd (read_clock st)) i = live_rows st i"
    "next_sort_order (snd (read_clock st)) i = next_sort_order st i"
    by (simp_all add: read_clock_def live_rows_def next_sort_order_def pending_rows_def)
  from assms show thesis
    by (auto simp: enqueue_def result_simps Let_def is_ok_iff clk split: prod.splits
        intro!: that [of _ "fst (read_clock st)"])
       (auto simp: read_clock_def live_rows_def live_size_def live_def next_sort_order_def pending_rows_def)
qed

lemma pending_rows_enqueue:
  assumes "enqueue qenc st i turn = Inr st'"
  obtains t row where "q_data row = new_entry turn t" "q_fingerprint row = tn_fingerprint turn"
    "q_request_id row = tn_request_id turn" "pending_rows st' i = pending_rows st i @ [row]"
    "\<And>j. j \<noteq> i \<Longrightarrow> pending_rows st' j = pending_rows st j"
proof -
  obtain t row where e: "db_queue st' = db_queue st @ [row]"
    "row = \<lparr>q_position = Suc (db_queue_position st), q_request_id = tn_request_id turn,
            q_session_id = i, q_admission = new_entry turn t, q_data = new_entry turn t,
            q_fingerprint = tn_fingerprint turn, q_status = Pending, q_sort_order = next_sort_order st i\<rparr>"
    using enqueue_Inr [OF assms] by metis
  let ?F = "filter (\<lambda>r. q_session_id r = i \<and> q_status r = Pending) (db_queue st)"
  have "\<forall>r \<in> set ?F. queue_key r < queue_key row"
    using next_sort_order_gt [of _ st i] by (auto simp: in_pending_rows e(2) queue_key_def less_prod_def)
  then have "sort_key queue_key (?F @ [row]) = sort_key queue_key ?F @ [row]"
    by (intro sort_key_append_max) auto
  then have "pending_rows st' i = pending_rows st i @ [row]"
    by (simp add: pending_rows_def e)
  moreover have "pending_rows st' j = pending_rows st j" if "j \<noteq> i" for j
    using that by (simp add: pending_rows_def e)
  ultimately show thesis using e(2) that [of row t] by simp
qed

lemma enqueue_ok:
  assumes "queue_ok st" and "enqueue qenc st i turn = Inr st'"
  shows "queue_ok st'"
proof -
  obtain t row where e: "db_queue st' = db_queue st @ [row]" "db_queue_position st' = Suc (db_queue_position st)"
    "row = \<lparr>q_position = Suc (db_queue_position st), q_request_id = tn_request_id turn,
            q_session_id = i, q_admission = new_entry turn t, q_data = new_entry turn t,
            q_fingerprint = tn_fingerprint turn, q_status = Pending, q_sort_order = next_sort_order st i\<rparr>"
    "tn_request_id turn \<notin> q_request_id ` set (db_queue st)" "length (live_rows st i) < 16"
    using enqueue_Inr [OF assms(2)] by metis
  have "length (live_rows st' j) \<le> 16" for j
    using queue_okD(5) [OF assms(1), of j] e(5)
    by (cases "j = i") (simp_all add: live_rows_def e(1,3))
  then show ?thesis using assms(1) e by (auto simp: queue_ok_def new_entry_def le_Suc_eq less_Suc_eq_le)
qed

subsection \<open>Reordering\<close>

fun index_of :: "string list \<Rightarrow> string \<Rightarrow> nat" where
  "index_of [] y = 0"
| "index_of (x # xs) y = (if x = y then 0 else Suc (index_of xs y))"

lemma index_of_nth: "distinct xs \<Longrightarrow> k < length xs \<Longrightarrow> index_of xs (xs ! k) = k"
proof (induction xs arbitrary: k)
  case Nil
  then show ?case by simp
next
  case (Cons x xs)
  then show ?case by (cases k) auto
qed

lemma sorted_by_index:
  assumes "distinct order" and "distinct ids" and "set ids = set order"
    and "sorted (map (index_of order) ids)"
  shows "ids = order"
proof -
  have inj: "inj_on (index_of order) (set order)"
    by (rule inj_onI) (metis index_of_nth [OF assms(1)] in_set_conv_nth)
  have ord: "map (index_of order) order = [0 ..< length order]"
    by (rule nth_equalityI) (simp_all add: index_of_nth assms(1))
  have "set (map (index_of order) ids) = set (map (index_of order) order)" by (simp add: assms(3))
  moreover have "distinct (map (index_of order) ids)" using inj assms(2,3) by (simp add: distinct_map)
  moreover have "sorted (map (index_of order) order)" "distinct (map (index_of order) order)"
    by (simp_all add: ord)
  ultimately have "map (index_of order) ids = map (index_of order) order"
    using assms(4) by (metis sorted_distinct_set_unique)
  then show ?thesis using inj assms(3) by (metis inj_on_Un_image_eq_iff inj_on_map_eq_map sup.idem)
qed

definition ranked :: "string \<Rightarrow> string list \<Rightarrow> nat \<Rightarrow> queue_row \<Rightarrow> queue_row" where
  "ranked i order n r =
     (if q_session_id r = i \<and> q_status r = Pending \<and> q_request_id r \<in> set order
      then r\<lparr>q_sort_order := int (n + index_of order (q_request_id r))\<rparr> else r)"

lemma ranked_keeps [simp]:
  "q_request_id (ranked i order n r) = q_request_id r" "q_session_id (ranked i order n r) = q_session_id r"
  "q_status (ranked i order n r) = q_status r" "q_data (ranked i order n r) = q_data r"
  "q_position (ranked i order n r) = q_position r" "q_fingerprint (ranked i order n r) = q_fingerprint r"
  by (simp_all add: ranked_def)

lemma set_ranks_from:
  assumes "distinct order"
  shows "foldl (\<lambda>st (rank, rid). update_queue st i rid Pending (\<lambda>r. r\<lparr>q_sort_order := int rank\<rparr>)) st
           (enumerate n order) = st\<lparr>db_queue := map (ranked i order n) (db_queue st)\<rparr>"
  using assms
proof (induction order arbitrary: st n)
  case Nil
  have "ranked i [] n = id" by (auto simp: ranked_def)
  then show ?case by simp
next
  case (Cons x xs)
  let ?st = "update_queue st i x Pending (\<lambda>r. r\<lparr>q_sort_order := int n\<rparr>)"
  have "ranked i xs (Suc n) (if q_session_id r = i \<and> q_request_id r = x \<and> q_status r = Pending
          then r\<lparr>q_sort_order := int n\<rparr> else r) = ranked i (x # xs) n r" for r :: queue_row
    using Cons.prems by (cases "q_request_id r = x") (simp_all add: ranked_def)
  then have "map (ranked i xs (Suc n)) (db_queue ?st) = map (ranked i (x # xs) n) (db_queue st)"
    by (simp add: update_queue_def update_where_def)
  with Cons show ?case by (simp add: update_queue_def)
qed

lemma set_ranks_queue:
  "distinct order \<Longrightarrow> set_ranks st i order = st\<lparr>db_queue := map (ranked i order 0) (db_queue st)\<rparr>"
  by (simp add: set_ranks_def set_ranks_from)

lemma filter_map_ranked:
  "filter (\<lambda>r. q_session_id r = j \<and> q_status r = Pending) (map (ranked i order n) rs) =
     map (ranked i order n) (filter (\<lambda>r. q_session_id r = j \<and> q_status r = Pending) rs)"
  by (induction rs) auto

lemma sorted_queue_key: "sorted (map queue_key rs) \<Longrightarrow> sorted (map q_sort_order rs)"
  by (induction rs) (auto simp: queue_key_def less_eq_prod_def)

lemma pending_rows_sorted: "sorted (map queue_key (pending_rows st i))"
  by (simp add: pending_rows_def)

lemma reordered_pending:
  assumes "queue_ok st" and "distinct order"
    and "set order = q_request_id ` set (pending_rows st i)"
  shows "map q_request_id (pending_rows (set_ranks st i order) i) = order"
proof -
  let ?st = "set_ranks st i order"
  let ?ids = "map q_request_id (pending_rows ?st i)"
  have rows: "db_queue ?st = map (ranked i order 0) (db_queue st)"
    by (simp add: set_ranks_queue assms(2))
  have "set (pending_rows ?st i) = ranked i order 0 ` set (pending_rows st i)"
    by (simp add: pending_rows_def rows filter_map_ranked)
  then have ids: "set ?ids = set order" by (simp add: assms(3) image_image)
  have order: "q_sort_order r = int (index_of order (q_request_id r))" if "r \<in> set (pending_rows ?st i)" for r
  proof -
    from that obtain r0 where r0: "r = ranked i order 0 r0" "r0 \<in> set (db_queue st)"
      "q_session_id r0 = i" "q_status r0 = Pending" by (auto simp: in_pending_rows rows)
    then have "q_request_id r0 \<in> set order" by (auto simp: assms(3) in_pending_rows)
    with r0 show ?thesis by (simp add: ranked_def)
  qed
  have "distinct (map q_request_id (db_queue ?st))"
    using queue_okD(1) [OF assms(1)] by (simp add: rows o_def)
  then have d: "distinct ?ids"
    unfolding pending_rows_def by (simp add: distinct_map inj_on_def)
  have "sorted (map (index_of order) ?ids)"
  proof -
    have "map (index_of order) ?ids = map (nat \<circ> q_sort_order) (pending_rows ?st i)"
      using order by auto
    moreover have "sorted (map q_sort_order (pending_rows ?st i))"
      using pending_rows_sorted by (rule sorted_queue_key)
    ultimately show ?thesis by (simp add: sorted_map nat_mono sorted_wrt_mono_rel [of _ "\<lambda>x y. q_sort_order x \<le> q_sort_order y"])
  qed
  with sorted_by_index [OF assms(2) d ids] show ?thesis by blast
qed

section \<open>The life of an entry\<close>

text \<open>Which status may follow which. \<open>Dispatched\<close>, \<open>Uncertain\<close>, \<open>Cancelled\<close> and
  \<open>Taken\<close> are final.\<close>

inductive moves :: "queue_status \<Rightarrow> queue_status \<Rightarrow> bool" where
  handed_over: "moves Pending Forwarded"
| started: "moves Pending Dispatched"
| confirmed: "moves Forwarded Dispatched"
| returned: "moves Forwarded Pending"
| lost: "moves Forwarded Uncertain"
| cancelled: "moves Pending Cancelled"
| taken: "moves Pending Taken"

inductive_cases moves_from_final:
  "moves Dispatched s" "moves Uncertain s" "moves Cancelled s" "moves Taken s"

inductive_simps moves_live: "moves Pending s" "moves Forwarded s"

lemma moves_final: "rtranclp moves s t \<Longrightarrow> \<not> live s \<Longrightarrow> t = s"
proof (induction rule: rtranclp_induct)
  case base
  then show ?case by simp
next
  case (step y z)
  then show ?case by (cases s) (auto simp: live_def elim: moves_from_final)
qed

lemma moves_steps [simp]:
  "rtranclp moves Pending Forwarded" "rtranclp moves Pending Dispatched"
  "rtranclp moves Forwarded Dispatched" "rtranclp moves Forwarded Pending"
  "rtranclp moves Forwarded Uncertain" "rtranclp moves Pending Cancelled" "rtranclp moves Pending Taken"
  by (auto intro: moves.intros)

text \<open>One change of the queue table: every row keeps its identity and moves along the relation;
  new rows come behind.\<close>

definition row_evolves :: "queue_row \<Rightarrow> queue_row \<Rightarrow> bool" where
  "row_evolves r r' \<longleftrightarrow>
     q_position r' = q_position r \<and> q_request_id r' = q_request_id r \<and> q_session_id r' = q_session_id r \<and>
     q_admission r' = q_admission r \<and> q_fingerprint r' = q_fingerprint r \<and>
     qm_request_id (q_data r') = qm_request_id (q_data r) \<and> rtranclp moves (q_status r) (q_status r')"

definition queue_evolves :: "queue_row list \<Rightarrow> queue_row list \<Rightarrow> bool" where
  "queue_evolves rs rs' \<longleftrightarrow> (\<exists>old new. rs' = old @ new \<and> list_all2 row_evolves rs old)"

lemma row_evolves_refl [simp]: "row_evolves r r"
  by (simp add: row_evolves_def)

lemma row_evolves_trans: "row_evolves a b \<Longrightarrow> row_evolves b c \<Longrightarrow> row_evolves a c"
  by (auto simp: row_evolves_def)

lemma queue_evolves_refl [simp]: "queue_evolves rs rs"
  unfolding queue_evolves_def by (intro exI [of _ rs] exI [of _ "[]"]) (simp add: list_all2_same)

lemma queue_evolves_append [simp]: "queue_evolves rs (rs @ new)"
  unfolding queue_evolves_def by (intro exI [of _ rs] exI [of _ new]) (simp add: list_all2_same)

lemma queue_evolves_trans: "queue_evolves a b \<Longrightarrow> queue_evolves b c \<Longrightarrow> queue_evolves a c"
proof -
  assume "queue_evolves a b" "queue_evolves b c"
  then obtain a1 n1 b1 n2 where b: "b = a1 @ n1" "list_all2 row_evolves a a1"
    and c: "c = b1 @ n2" "list_all2 row_evolves b b1" by (auto simp: queue_evolves_def)
  then obtain a2 n3 where b1: "b1 = a2 @ n3" "list_all2 row_evolves a1 a2"
    by (auto simp: list_all2_append1)
  have "list_all2 row_evolves a a2"
    using list_all2_trans [OF _ b(2) b1(2)] row_evolves_trans by blast
  with c b1 show "queue_evolves a c" unfolding queue_evolves_def by (intro exI [of _ a2] exI [of _ "n3 @ n2"]) simp
qed

lemma queue_evolves_update:
  assumes "\<And>r. r \<in> set rs \<Longrightarrow> p r \<Longrightarrow> row_evolves r (f r)"
  shows "queue_evolves rs (update_where p f rs)"
proof -
  have "list_all2 row_evolves rs (update_where p f rs)"
    using assms by (induction rs) auto
  then show ?thesis unfolding queue_evolves_def by (intro exI [of _ "update_where p f rs"] exI [of _ "[]"]) simp
qed

lemma queue_evolves_row:
  assumes "queue_evolves rs rs'" and "r \<in> set rs"
  shows "\<exists>r' \<in> set rs'. row_evolves r r'"
proof -
  have "\<exists>r' \<in> set old. row_evolves r r'" if "list_all2 row_evolves rs old" for old
    using that assms(2) by (induction rule: list_all2_induct) auto
  with assms(1) show ?thesis by (fastforce simp: queue_evolves_def)
qed

text \<open>An update along the relation whose rows stay live only if they were keeps a queue well-formed.\<close>

lemma rtranclp_moves_live: "rtranclp moves s t \<Longrightarrow> live t \<Longrightarrow> live s"
  using moves_final by blast

lemma queue_ok_evolves_update:
  assumes "queue_ok st" and "\<And>r. r \<in> set (db_queue st) \<Longrightarrow> p r \<Longrightarrow> row_evolves r (f r)"
  shows "queue_ok (st\<lparr>db_queue := update_where p f (db_queue st)\<rparr>)"
  using assms by (intro queue_ok_update) (auto simp: row_evolves_def dest: rtranclp_moves_live)

definition queue_safe :: "store \<Rightarrow> store \<Rightarrow> bool" where
  "queue_safe st st' \<longleftrightarrow>
     (queue_ok st \<longrightarrow> queue_ok st' \<and> queue_evolves (db_queue st) (db_queue st'))"

lemma queue_safe_same:
  "db_queue st' = db_queue st \<Longrightarrow> db_queue_position st' = db_queue_position st \<Longrightarrow> queue_safe st st'"
  by (simp add: queue_safe_def queue_ok_cong [of st' st])

lemma queue_safe_trans: "queue_safe a b \<Longrightarrow> queue_safe b c \<Longrightarrow> queue_safe a c"
  by (auto simp: queue_safe_def intro: queue_evolves_trans)

lemma queue_safe_update:
  assumes "\<And>r. queue_ok st \<Longrightarrow> r \<in> set (db_queue st) \<Longrightarrow> p r \<Longrightarrow> row_evolves r (f r)"
    and "db_queue st' = update_where p f (db_queue st)" and "db_queue_position st' = db_queue_position st"
  shows "queue_safe st st'"
proof -
  have "queue_ok st' = queue_ok (st\<lparr>db_queue := update_where p f (db_queue st)\<rparr>)"
    by (rule queue_ok_cong) (simp_all add: assms(2,3))
  then show ?thesis using assms(1)
    by (auto simp: queue_safe_def assms(2) intro: queue_ok_evolves_update queue_evolves_update)
qed

text \<open>The frame of the primitives the operations compose.\<close>

lemma insert_event_queue:
  "insert_event st i t e = Inr st' \<Longrightarrow> db_queue st' = db_queue st \<and> db_queue_position st' = db_queue_position st"
  by (auto simp: insert_event_Inr)

lemma write_queue_state_queue:
  "write_queue_state st i b m = Inr st' \<Longrightarrow> db_queue st' = db_queue st \<and> db_queue_position st' = db_queue_position st"
  by (auto simp: write_queue_state_def result_simps split: if_splits)

lemma read_clock_queue:
  "read_clock st = (t, st') \<Longrightarrow> db_queue st' = db_queue st \<and> db_queue_position st' = db_queue_position st"
  by (auto simp: read_clock_def)

lemma track_subagent_queue:
  "track_subagent st i t u = Inr (task, st') \<Longrightarrow>
     db_queue st' = db_queue st \<and> db_queue_position st' = db_queue_position st"
  by (auto simp: track_subagent_def upsert_subagent_def result_simps Let_def)

lemma index_event_queue:
  "index_event parse st i e = Inr st' \<Longrightarrow> db_queue st' = db_queue st \<and> db_queue_position st' = db_queue_position st"
  by (metis index_event_frame same_but_sources_fields(13,14))

lemma store_event_queue:
  "store_event enc parse st i e = Inr st' \<Longrightarrow>
     db_queue st' = db_queue st \<and> db_queue_position st' = db_queue_position st"
  by (cases e)
     (auto simp: store_event_def result_simps split: prod.splits
       dest!: insert_event_queue index_event_queue read_clock_queue track_subagent_queue)

lemmas queue_frames = insert_event_queue write_queue_state_queue read_clock_queue store_event_queue

lemma enqueue_safe: "enqueue qenc st i turn = Inr st' \<Longrightarrow> queue_safe st st'"
  using enqueue_ok by (auto simp: queue_safe_def elim: enqueue_Inr)

lemma update_queue_safe:
  assumes "\<And>r. q_status r = s \<Longrightarrow> row_evolves r (f r)"
  shows "queue_safe st (update_queue st i rid s f)"
  by (rule queue_safe_update [where st = st]) (auto simp: update_queue_def assms)

lemma edit_queued_Inr:
  assumes "edit_queued qenc st i rid vers new = Inr st'"
  shows "\<exists>es entry. queued st i = Inr es \<and> List.find (\<lambda>e. qm_request_id e = rid) (map fst es) = Some entry \<and>
     qm_revision entry = vers \<and>
     (case new of
        None \<Rightarrow> st' = update_queue st i rid Pending (\<lambda>r. r\<lparr>q_status := Cancelled\<rparr>)
      | Some t \<Rightarrow> trim t \<noteq> [] \<and> length t \<le> 128 * 1024 \<and>
          (\<exists>nxt. checked_add (qm_revision entry) 1 = Some nxt \<and>
             live_size qenc (filter (\<lambda>r. q_request_id r \<noteq> rid) (live_rows st i)) +
               length (qenc (entry\<lparr>qm_text := t, qm_revision := nxt\<rparr>)) \<le> 512 * 1024 \<and>
             st' = update_queue st i rid Pending (\<lambda>r. r\<lparr>q_data := entry\<lparr>qm_text := t, qm_revision := nxt\<rparr>\<rparr>)))"
  using assms by (cases new) (auto simp: edit_queued_def result_simps Let_def)

lemma edit_queued_safe:
  assumes "edit_queued qenc st i rid vers new = Inr st'"
  shows "queue_safe st st'"
proof -
  from edit_queued_Inr [OF assms] obtain es entry where "queued st i = Inr es"
    and f: "List.find (\<lambda>e. qm_request_id e = rid) (map fst es) = Some entry"
    and st': "st' = update_queue st i rid Pending (\<lambda>r. r\<lparr>q_status := Cancelled\<rparr>) \<or>
      (\<exists>t nxt. st' = update_queue st i rid Pending (\<lambda>r. r\<lparr>q_data := entry\<lparr>qm_text := t, qm_revision := nxt\<rparr>\<rparr>))"
    by (cases new) (simp_all, blast+)
  from find_Some_in [OF f] have rid: "qm_request_id entry = rid" by simp
  from st' show ?thesis
  proof (elim disjE exE)
    assume "st' = update_queue st i rid Pending (\<lambda>r. r\<lparr>q_status := Cancelled\<rparr>)"
    then show ?thesis by (simp add: update_queue_safe row_evolves_def)
  next
    fix t nxt
    assume "st' = update_queue st i rid Pending (\<lambda>r. r\<lparr>q_data := entry\<lparr>qm_text := t, qm_revision := nxt\<rparr>\<rparr>)"
    then show ?thesis using rid
      by (intro queue_safe_update [where st = st]) (auto simp: update_queue_def row_evolves_def queue_okD)
  qed
qed

lemma mark_forwarded_Inr:
  assumes "mark_forwarded st i rid vers = Inr st'"
  shows "\<exists>entry. queue_entry_status st i rid = Inr (entry, Pending) \<and> qm_revision entry = vers \<and>
           db_queue st' = db_queue (set_queue_status st i rid Forwarded) \<and>
           db_queue_position st' = db_queue_position st"
  using assms
  by (auto simp: mark_forwarded_def result_simps read_clock_def Let_def set_queue_status_def
      dest!: insert_event_queue)

lemma queue_entry_status_row:
  assumes "queue_entry_status st i rid = Inr (entry, s)"
  obtains r where "r \<in> set (db_queue st)" "q_session_id r = i" "q_request_id r = rid" "q_data r = entry" "q_status r = s"
  using assms by (auto simp: queue_entry_status_def result_simps dest!: find_Some_in)

lemma set_queue_status_safe:
  assumes "queue_entry_status st i rid = Inr (entry, s)" and "rtranclp moves s s'"
    and "db_queue st' = db_queue (set_queue_status st i rid s')" and "db_queue_position st' = db_queue_position st"
  shows "queue_safe st st'"
proof (rule queue_safe_update [where st = st])
  show "db_queue st' = update_where (\<lambda>r. q_session_id r = i \<and> q_request_id r = rid) (\<lambda>r. r\<lparr>q_status := s'\<rparr>) (db_queue st)"
    by (simp add: assms(3) set_queue_status_def)
next
  fix r assume "queue_ok st" "r \<in> set (db_queue st)" "q_session_id r = i \<and> q_request_id r = rid"
  moreover obtain r0 where "r0 \<in> set (db_queue st)" "q_request_id r0 = rid" "q_status r0 = s"
    using queue_entry_status_row [OF assms(1)] by blast
  ultimately have "q_status r = s" using queue_row_unique by metis
  then show "row_evolves r (r\<lparr>q_status := s'\<rparr>)" using assms(2) by (simp add: row_evolves_def)
qed (rule assms(4))

lemma mark_forwarded_safe: "mark_forwarded st i rid vers = Inr st' \<Longrightarrow> queue_safe st st'"
  using mark_forwarded_Inr set_queue_status_safe moves_steps(1) by metis

lemma take_queued_Inr:
  "take_queued st i rid vers = Inr (resp, st') \<longleftrightarrow>
     (\<exists>entry s. is_ok (session_by_id st i) \<and> queue_entry_status st i rid = Inr (entry, s) \<and> s \<in> {Pending, Taken} \<and>
        qm_revision entry = vers \<and> resp = QueuedMessageTaken entry \<and> st' = set_queue_status st i rid Taken)"
  by (auto simp: take_queued_def result_simps is_ok_iff split: prod.splits)

lemma take_queued_safe: "take_queued st i rid vers = Inr (resp, st') \<Longrightarrow> queue_safe st st'"
  by (auto simp: take_queued_Inr set_queue_status_def intro!: set_queue_status_safe [where s' = Taken])

lemma foldl_safe:
  assumes "\<And>st x. queue_safe st (f st x)"
  shows "queue_safe st (foldl f st xs)"
  by (induction xs arbitrary: st) (auto intro: queue_safe_same queue_safe_trans [OF assms])

lemma consume_forwarded_safe: "queue_safe st (consume_forwarded st i rids)"
  unfolding consume_forwarded_def by (rule foldl_safe, rule update_queue_safe) (simp add: row_evolves_def)

lemma reorder_queue_safe: "reorder_queue st i expected order = Inr st' \<Longrightarrow> queue_safe st st'"
proof -
  have "queue_safe st (set_ranks st i order)"
    unfolding set_ranks_def
    by (rule foldl_safe) (auto intro!: update_queue_safe simp: row_evolves_def split: prod.split)
  then show "reorder_queue st i expected order = Inr st' \<Longrightarrow> queue_safe st st'"
    by (auto simp: reorder_queue_def result_simps Let_def intro: queue_safe_same split: if_splits)
qed

lemma reject_forwarded_safe:
  assumes "reject_forwarded st i rid reason = Inr st'"
  shows "queue_safe st st'"
proof (cases "List.find (\<lambda>r. q_session_id r = i \<and> q_request_id r = rid \<and> q_status r = Forwarded) (db_queue st)")
  case None
  with assms show ?thesis by (simp add: reject_forwarded_def queue_safe_same)
next
  case (Some row)
  with assms obtain nxt where
    q: "db_queue st' = update_where (\<lambda>r. q_session_id r = i \<and> q_request_id r = rid \<and> q_status r = Forwarded)
       (\<lambda>r. r\<lparr>q_status := Pending, q_data := (q_data row)\<lparr>qm_revision := nxt\<rparr>\<rparr>) (db_queue st)"
    "db_queue_position st' = db_queue_position st"
    by (auto simp: reject_forwarded_def result_simps update_queue_def read_clock_def Let_def
        dest!: insert_event_queue write_queue_state_queue)
  from find_Some_in [OF Some] show ?thesis
    by (intro queue_safe_update [OF _ q]) (auto simp: row_evolves_def queue_okD)
qed

lemma uncertain_forwarded_safe: "uncertain_forwarded enc parse st i = Inr st' \<Longrightarrow> queue_safe st st'"
  by (rule queue_safe_update [where st = st and p = "\<lambda>r. q_session_id r = i \<and> q_status r = Forwarded"
        and f = "\<lambda>r. r\<lparr>q_status := Uncertain\<rparr>"])
     (auto simp: uncertain_forwarded_def Let_def row_evolves_def dest!: store_event_queue split: if_splits)

lemma clear_queue_safe: "clear_queue st i = Inr st' \<Longrightarrow> queue_safe st st'"
  by (rule queue_safe_update [where st = st and p = "\<lambda>r. q_session_id r = i \<and> q_status r = Pending"
        and f = "\<lambda>r. r\<lparr>q_status := Cancelled\<rparr>"])
     (auto simp: clear_queue_def result_simps row_evolves_def)

lemma begin_turn_safe: "begin_turn parse st i rid msg model effort fp perm = Inr (b, st') \<Longrightarrow> queue_safe st st'"
proof (cases b)
  case True
  assume "begin_turn parse st i rid msg model effort fp perm = Inr (b, st')"
  with True have "db_queue st' = dispatch_row i rid (db_queue st)" "db_queue_position st' = db_queue_position st"
    by (auto elim: begin_turn_new)
  then show ?thesis unfolding dispatch_row_def
    by (intro queue_safe_update) (auto simp: row_evolves_def)
next
  case False
  assume "begin_turn parse st i rid msg model effort fp perm = Inr (b, st')"
  with False show ?thesis by (auto simp: begin_turn_def result_simps intro: queue_safe_same split: if_splits)
qed

section \<open>Properties\<close>

lemma sort_key_map:
  assumes "\<And>x. k (f x) = k x"
  shows "sort_key k (map f xs) = map f (sort_key k xs)"
proof -
  have "insort_key k (f x) (map f ys) = map f (insort_key k x ys)" for x ys
    by (induction ys) (simp_all add: assms)
  then show ?thesis by (induction xs) simp_all
qed

lemma pending_rows_map:
  assumes "\<And>r. q_session_id (f r) = q_session_id r" "\<And>r. q_status (f r) = q_status r"
    "\<And>r. queue_key (f r) = queue_key r"
  shows "pending_rows (st\<lparr>db_queue := map f (db_queue st)\<rparr>) i = map f (pending_rows st i)"
proof -
  have "filter (\<lambda>r. q_session_id r = i \<and> q_status r = Pending) (map f rs) =
        map f (filter (\<lambda>r. q_session_id r = i \<and> q_status r = Pending) rs)" for rs
    by (induction rs) (simp_all add: assms)
  then show ?thesis by (simp add: pending_rows_def sort_key_map assms(3))
qed

lemma queued_Inr:
  assumes "queue_ok st"
  shows "queued st i = Inr es \<longleftrightarrow>
     is_ok (session_by_id st i) \<and> es = map (\<lambda>r. (q_data r, q_fingerprint r)) (pending_rows st i)"
  using assms by (auto simp: queued_ok result_simps is_ok_iff)

lemma session_by_id_cong: "db_sessions st' = db_sessions st \<Longrightarrow> session_by_id st' i = session_by_id st i"
  by (simp add: session_by_id_def)

lemma pending_request_id:
  "queue_ok st \<Longrightarrow> r \<in> set (pending_rows st i) \<Longrightarrow> qm_request_id (q_data r) = q_request_id r"
  by (simp add: in_pending_rows queue_okD)

text \<open>C30: the queue is first in, first out: admitting a message puts it behind every pending one of
  its session, leaves the queues of the other sessions alone, and keeps at most sixteen live
  entries.\<close>

theorem enqueue_appends:
  assumes "queue_ok st" and "enqueue qenc st i turn = Inr st'"
  shows "\<exists>es t. queued st i = Inr es \<and> length es < 16 \<and>
           queued st' i = Inr (es @ [(new_entry turn t, tn_fingerprint turn)]) \<and>
           (\<forall>j. j \<noteq> i \<longrightarrow> queued st' j = queued st j) \<and> queue_ok st'"
proof -
  obtain t row where row: "q_data row = new_entry turn t" "q_fingerprint row = tn_fingerprint turn"
    "pending_rows st' i = pending_rows st i @ [row]"
    "\<And>j. j \<noteq> i \<Longrightarrow> pending_rows st' j = pending_rows st j"
    using pending_rows_enqueue [OF assms(2)] by metis
  have ok: "is_ok (session_by_id st i)" and ses: "db_sessions st' = db_sessions st"
    and live: "length (live_rows st i) < 16"
    using enqueue_Inr [OF assms(2)] by metis+
  have ok': "queue_ok st'" using enqueue_ok [OF assms] .
  have "length (pending_rows st i) < 16" using pending_rows_le [OF ok', of i] row(3) by simp
  moreover have "queued st i = Inr (map (\<lambda>r. (q_data r, q_fingerprint r)) (pending_rows st i))"
    using ok by (simp add: queued_Inr [OF assms(1)])
  moreover have "queued st' i = Inr (map (\<lambda>r. (q_data r, q_fingerprint r)) (pending_rows st i) @
      [(new_entry turn t, tn_fingerprint turn)])"
    using ok by (simp add: queued_Inr [OF ok'] row session_by_id_cong [OF ses])
  moreover have "queued st' j = queued st j" if "j \<noteq> i" for j
    by (simp add: queued_ok [OF ok'] queued_ok [OF assms(1)] row(4) [OF that] session_by_id_cong [OF ses])
  ultimately show ?thesis using ok' by auto
qed

text \<open>A confirmed reordering gives exactly the order the client asked for: the same pending messages,
  in that order, provided the queue still was what the client had seen (or already is in that
  order); other sessions keep their queues.\<close>

theorem reorder_queue_order:
  assumes "queue_ok st" and "reorder_queue st i expected order = Inr st'" and "queued st i = Inr es"
  shows "\<exists>es'. queued st' i = Inr es' \<and> map (\<lambda>(e, _). qm_request_id e) es' = order \<and> mset es' = mset es \<and>
           map (\<lambda>(e, _). qm_request_id e) es \<in> {expected, order} \<and>
           (\<forall>j. j \<noteq> i \<longrightarrow> queued st' j = queued st j)"
proof (cases "map (\<lambda>(e, _). qm_request_id e) es = order")
  case True
  with assms(2,3) have "st' = st" by (auto simp: reorder_queue_def result_simps Let_def)
  with True assms(3) show ?thesis by auto
next
  case False
  let ?ids = "\<lambda>es. map (\<lambda>(e, _). qm_request_id e) es :: string list"
  from False assms(2,3) have exp: "?ids es = expected" and st': "st' = set_ranks st i order"
    and card: "card (set order) = length order" "set expected = set order"
    by (auto simp: reorder_queue_def result_simps Let_def)
  have d: "distinct order" using card(1) by (rule card_distinct)
  have ok': "queue_ok st'" using reorder_queue_safe [OF assms(2)] assms(1) by (simp add: queue_safe_def)
  have st'_rows: "st' = st\<lparr>db_queue := map (ranked i order 0) (db_queue st)\<rparr>"
    using set_ranks_queue [OF d] by (simp add: st')
  have es: "es = map (\<lambda>r. (q_data r, q_fingerprint r)) (pending_rows st i)" "is_ok (session_by_id st i)"
    using assms(3) by (simp_all add: queued_Inr [OF assms(1)])
  have "?ids es = map q_request_id (pending_rows st i)"
    using pending_request_id [OF assms(1)] by (simp add: es(1))
  then have "set order = q_request_id ` set (pending_rows st i)" using exp card(2) by (metis set_map)
  from reordered_pending [OF assms(1) d this] have ord: "map q_request_id (pending_rows st' i) = order"
    by (simp add: st')
  have other: "pending_rows st' j = pending_rows st j" if "j \<noteq> i" for j
  proof -
    have "map (ranked i order 0) (filter (\<lambda>r. q_session_id r = j \<and> q_status r = Pending) (db_queue st)) =
        filter (\<lambda>r. q_session_id r = j \<and> q_status r = Pending) (db_queue st)"
      by (rule map_idI) (use that in \<open>auto simp: ranked_def\<close>)
    then show ?thesis by (simp add: pending_rows_def st'_rows filter_map_ranked)
  qed
  let ?es' = "map (\<lambda>r. (q_data r, q_fingerprint r)) (pending_rows st' i)"
  have ses: "session_by_id st' j = session_by_id st j" for j
    by (rule session_by_id_cong) (simp add: st'_rows)
  have "queued st' i = Inr ?es'" using es(2) by (simp add: queued_Inr [OF ok'] ses)
  moreover have "?ids ?es' = order" using ord pending_request_id [OF ok'] by auto
  moreover have "mset ?es' = mset es"
    by (simp add: es(1) pending_rows_def st'_rows filter_map_ranked multiset.map_comp o_def)
  moreover have "queued st' j = queued st j" if "j \<noteq> i" for j
    by (simp add: queued_ok [OF ok'] queued_ok [OF assms(1)] other [OF that] ses)
  ultimately show ?thesis using exp by blast
qed

lemma queue_entry_pending:
  assumes "queue_ok st" and "queued st i = Inr es"
    and "List.find (\<lambda>e. qm_request_id e = rid) (map fst es) = Some entry"
  shows "\<exists>r \<in> set (pending_rows st i). q_request_id r = rid \<and> q_data r = entry"
  using find_Some_in [OF assms(3)] assms(2) pending_request_id [OF assms(1)]
  by (auto simp: queued_Inr [OF assms(1)])

text \<open>What the list looks like after an edit or a removal of one message.\<close>

definition edited :: "string \<Rightarrow> string option \<Rightarrow> (queued_message \<times> string option) list \<Rightarrow> (queued_message \<times> string option) list" where
  "edited rid new es =
     (case new of
        None \<Rightarrow> filter (\<lambda>(e, _). qm_request_id e \<noteq> rid) es
      | Some t \<Rightarrow> map (\<lambda>(e, fp). (if qm_request_id e = rid
                                then e\<lparr>qm_text := t, qm_revision := qm_revision e + 1\<rparr> else e, fp)) es)"

lemma edited_queue:
  assumes "queue_ok st" and "edit_queued qenc st i rid vers new = Inr st'" and "queued st i = Inr es"
  shows "queued st' i = Inr (edited rid new es)"
proof -
  let ?show = "\<lambda>r. (q_data r, q_fingerprint r)"
  have ok': "queue_ok st'" using edit_queued_safe [OF assms(2)] assms(1) by (simp add: queue_safe_def)
  obtain entry where f: "List.find (\<lambda>e. qm_request_id e = rid) (map fst es) = Some entry"
    and new: "case new of
        None \<Rightarrow> st' = update_queue st i rid Pending (\<lambda>r. r\<lparr>q_status := Cancelled\<rparr>)
      | Some t \<Rightarrow> (\<exists>nxt. checked_add (qm_revision entry) 1 = Some nxt \<and>
             st' = update_queue st i rid Pending (\<lambda>r. r\<lparr>q_data := entry\<lparr>qm_text := t, qm_revision := nxt\<rparr>\<rparr>))"
    using edit_queued_Inr [OF assms(2)] assms(3) by (cases new) auto
  obtain r0 where r0: "r0 \<in> set (pending_rows st i)" "q_request_id r0 = rid" "q_data r0 = entry"
    using queue_entry_pending [OF assms(1,3) f] by blast
  have es: "es = map ?show (pending_rows st i)" "is_ok (session_by_id st i)"
    using assms(3) by (simp_all add: queued_Inr [OF assms(1)])
  have ses: "session_by_id st' i = session_by_id st i"
    using new by (intro session_by_id_cong) (auto simp: update_queue_def split: option.splits)
  show ?thesis
  proof (cases new)
    case None
    then have "pending_rows st' i = filter (\<lambda>r. \<not> (q_session_id r = i \<and> q_request_id r = rid \<and> q_status r = Pending)) (pending_rows st i)"
      using new by (simp add: update_queue_def pending_rows_remove)
    also have "\<dots> = filter (\<lambda>r. q_request_id r \<noteq> rid) (pending_rows st i)"
      by (rule filter_cong) (auto simp: in_pending_rows)
    finally have rows: "pending_rows st' i = filter (\<lambda>r. q_request_id r \<noteq> rid) (pending_rows st i)" .
    have "filter (\<lambda>(e, _). qm_request_id e \<noteq> rid) es = map ?show (filter (\<lambda>r. q_request_id r \<noteq> rid) (pending_rows st i))"
      using pending_request_id [OF assms(1)] by (simp add: es(1) filter_map o_def cong: filter_cong)
    with rows es(2) None show ?thesis by (simp add: queued_Inr [OF ok'] ses edited_def)
  next
    case (Some t)
    with new obtain nxt where nxt: "checked_add (qm_revision entry) 1 = Some nxt"
      and st': "st' = update_queue st i rid Pending (\<lambda>r. r\<lparr>q_data := entry\<lparr>qm_text := t, qm_revision := nxt\<rparr>\<rparr>)"
      by auto
    let ?f = "\<lambda>r. if q_session_id r = i \<and> q_request_id r = rid \<and> q_status r = Pending
                 then r\<lparr>q_data := entry\<lparr>qm_text := t, qm_revision := nxt\<rparr>\<rparr> else r"
    have rows: "pending_rows st' i = map ?f (pending_rows st i)"
      by (simp add: st' update_queue_def update_where_def pending_rows_map queue_key_def)
    have same: "q_data r = entry" if "r \<in> set (pending_rows st i)" "q_request_id r = rid" for r
      using queue_row_unique [OF assms(1), of r r0] that r0 by (auto simp: in_pending_rows)
    have "map ?show (map ?f (pending_rows st i)) = edited rid new es"
      using same pending_request_id [OF assms(1)] nxt
      by (auto simp: edited_def es(1) Some in_pending_rows checked_add_def split: if_splits)
    with rows es(2) show ?thesis by (simp add: queued_Inr [OF ok'] ses)
  qed
qed

text \<open>Editing a queued message is a compare-and-swap on its revision: it succeeds only when the client
  holds the current revision of a message that is still pending, it changes or removes that message
  and nothing else in the list, and the same request repeated is refused as outdated or gone.\<close>

theorem edit_queued_cas:
  assumes "queue_ok st" and "edit_queued qenc st i rid vers new = Inr st'"
  shows "\<exists>es. queued st i = Inr es \<and> (\<exists>e \<in> fst ` set es. qm_request_id e = rid \<and> qm_revision e = vers) \<and>
           queued st' i = Inr (edited rid new es) \<and>
           edit_queued qenc st' i rid vers new' = Inl (if new = None then QueueEntryGone else QueueEntryChanged)"
proof -
  obtain es entry where e: "queued st i = Inr es"
    "List.find (\<lambda>e. qm_request_id e = rid) (map fst es) = Some entry" "qm_revision entry = vers"
    and nxt: "\<And>t. new = Some t \<Longrightarrow> checked_add (qm_revision entry) 1 \<noteq> None"
    using edit_queued_Inr [OF assms(2)] by (cases new) auto
  have q': "queued st' i = Inr (edited rid new es)" using edited_queue [OF assms e(1)] .
  have "edit_queued qenc st' i rid vers new' = Inl (if new = None then QueueEntryGone else QueueEntryChanged)"
  proof (cases new)
    case None
    have "List.find (\<lambda>e. qm_request_id e = rid) (map fst (filter (\<lambda>(e, _). qm_request_id e \<noteq> rid) es)) = None"
      by (auto simp: find_None)
    with None q' show ?thesis by (simp add: edit_queued_def edited_def)
  next
    case (Some t)
    have "List.find (\<lambda>e. qm_request_id e = rid) (map fst (edited rid new xs)) =
        map_option (\<lambda>e. e\<lparr>qm_text := t, qm_revision := qm_revision e + 1\<rparr>)
          (List.find (\<lambda>e. qm_request_id e = rid) (map fst xs))" for xs
      by (induction xs) (auto simp: edited_def Some)
    moreover have "vers + 1 \<noteq> vers" by simp
    ultimately show ?thesis using q' e(2,3) Some by (simp add: edit_queued_def)
  qed
  with e q' find_Some_in [OF e(2)] show ?thesis by (intro exI [of _ es]) auto
qed

text \<open>C31: taking a message out for editing is idempotent and final: the response can be asked for again
  without another change, the message has left the list, and no later submission of its request id
  is accepted or queued.\<close>

theorem take_queued_final:
  assumes "queue_ok st" and "take_queued st i rid vers = Inr (resp, st')"
  shows "take_queued st' i rid vers = Inr (resp, st') \<and>
    (\<forall>es. queued st' i = Inr es \<longrightarrow> rid \<notin> qm_request_id ` fst ` set es) \<and>
    (tn_request_id turn = rid \<longrightarrow> (\<exists>e. queued_duplicate st' j turn = Inl e \<and> e \<in> {QueueRequestReused, QueueTaken}))"
proof -
  obtain entry s where t: "is_ok (session_by_id st i)" "queue_entry_status st i rid = Inr (entry, s)"
    "s \<in> {Pending, Taken}" "qm_revision entry = vers" "resp = QueuedMessageTaken entry"
    "st' = set_queue_status st i rid Taken"
    using assms(2) by (auto simp: take_queued_Inr)
  obtain r where r: "r \<in> set (db_queue st)" "q_session_id r = i" "q_request_id r = rid" "q_data r = entry"
    using queue_entry_status_row [OF t(2)] by metis
  have ok': "queue_ok st'" using take_queued_safe [OF assms(2)] assms(1) by (simp add: queue_safe_def)
  have "List.find (\<lambda>r. q_session_id r = i \<and> q_request_id r = rid) (db_queue st') =
      map_option (\<lambda>r. r\<lparr>q_status := Taken\<rparr>) (List.find (\<lambda>r. q_session_id r = i \<and> q_request_id r = rid) (db_queue st))"
    by (simp add: t(6) set_queue_status_def find_update_where_same)
  then have "queue_entry_status st' i rid = Inr (entry, Taken)"
    using t(2) by (auto simp: queue_entry_status_def result_simps)
  moreover have "set_queue_status st' i rid Taken = st'"
    by (simp add: t(6) set_queue_status_def update_where_def)
  moreover have ses: "session_by_id st' i = session_by_id st i"
    by (rule session_by_id_cong) (simp add: t(6) set_queue_status_def)
  ultimately have again: "take_queued st' i rid vers = Inr (resp, st')"
    using t(1,4,5) by (simp add: take_queued_Inr)
  let ?r = "r\<lparr>q_status := Taken\<rparr>"
  have r': "?r \<in> set (db_queue st')" using r
    by (auto simp: t(6) set_queue_status_def in_set_update_where intro!: bexI [of _ r])
  have gone: "rid \<notin> qm_request_id ` fst ` set es" if list: "queued st' i = Inr es" for es
  proof
    assume "rid \<in> qm_request_id ` fst ` set es"
    then obtain q where "q \<in> set (pending_rows st' i)" "qm_request_id (q_data q) = rid"
      using list [unfolded queued_Inr [OF ok']] by auto
    then have q: "q \<in> set (pending_rows st' i)" "q_request_id q = rid"
      using pending_request_id [OF ok'] by auto
    then have "q = ?r" using queue_row_unique [OF ok', of q ?r] r' r(3) by (simp add: in_pending_rows)
    with q(1) show False by (simp add: in_pending_rows)
  qed
  have dup: "\<exists>e. queued_duplicate st' j turn = Inl e \<and> e \<in> {QueueRequestReused, QueueTaken}" if "tn_request_id turn = rid"
  proof -
    have "queue_row_by_request st' rid \<noteq> None"
      using r' r(3) by (auto simp: queue_row_by_request_def find_None intro!: bexI [of _ ?r])
    then obtain q where q: "queue_row_by_request st' rid = Some q" by blast
    then have "q = ?r" using queue_row_unique [OF ok', of q ?r] r' r(3)
      by (auto simp: queue_row_by_request_def dest!: find_Some_in)
    with q that show ?thesis by (auto simp: queued_duplicate_def ensure_def Let_def)
  qed
  show ?thesis using again gone dup by blast
qed

section \<open>Witnesses\<close>

definition sample_turn :: "string \<Rightarrow> send_turn" where
  "sample_turn rid =
     \<lparr>tn_request_id = rid, tn_text = ''hi'', tn_model = None, tn_fingerprint = None, tn_effort = None,
      tn_permission_mode = None\<rparr>"

definition sample_row :: "nat \<Rightarrow> string \<Rightarrow> queue_row" where
  "sample_row n rid =
     \<lparr>q_position = n, q_request_id = rid, q_session_id = ''s'', q_admission = new_entry (sample_turn rid) 0,
      q_data = new_entry (sample_turn rid) 0, q_fingerprint = None, q_status = Pending, q_sort_order = int n\<rparr>"

text \<open>The sample session with two pending messages.\<close>

definition sample_queue :: store where
  "sample_queue = sample_store
     \<lparr>db_queue := [sample_row 1 ''a'', sample_row 2 ''b''], db_queue_position := 2\<rparr>"

lemmas sample_queue_defs =
  sample_queue_def sample_row_def sample_turn_def sample_store_def empty_store_def sample_session_def
  new_entry_def

lemma sample_queue_ok: "queue_ok sample_queue"
  by (auto simp: queue_ok_def sample_queue_defs live_rows_def)

lemma sample_queue_list:
  "queued sample_queue ''s'' = Inr [(new_entry (sample_turn ''a'') 0, None), (new_entry (sample_turn ''b'') 0, None)]"
  by (simp add: queued_def pending_rows_def session_by_id_def sample_queue_defs queue_key_def)

lemma enqueue_appends_witness:
  "\<exists>st' t. enqueue (\<lambda>_. []) sample_queue ''s'' (sample_turn ''c'') = Inr st' \<and>
     queued st' ''s'' = Inr [(new_entry (sample_turn ''a'') 0, None), (new_entry (sample_turn ''b'') 0, None),
       (new_entry (sample_turn ''c'') t, None)]"
proof -
  have "is_ok (enqueue (\<lambda>_. []) sample_queue ''s'' (sample_turn ''c''))"
    using sample_queue_list
    by (simp add: enqueue_def turn_invalid_def trim_def is_whitespace_def utf8_width_def byte_def
        session_by_id_def live_rows_def live_def live_size_def read_clock_def Let_def sample_queue_defs)
  then obtain st' where e: "enqueue (\<lambda>_. []) sample_queue ''s'' (sample_turn ''c'') = Inr st'"
    by (auto simp: is_ok_iff)
  from enqueue_appends [OF sample_queue_ok e] sample_queue_list e show ?thesis
    by (auto simp: sample_turn_def)
qed

lemma reorder_queue_order_witness:
  "\<exists>st' es. reorder_queue sample_queue ''s'' [''a'', ''b''] [''b'', ''a''] = Inr st' \<and>
     queued st' ''s'' = Inr es \<and> map (\<lambda>(e, _). qm_request_id e) es = [''b'', ''a'']"
proof -
  have "is_ok (reorder_queue sample_queue ''s'' [''a'', ''b''] [''b'', ''a''])"
    by (simp add: reorder_queue_def sample_queue_list new_entry_def sample_turn_def Let_def
        insert_commute [of "''a''" "''b''"])
  then obtain st' where r: "reorder_queue sample_queue ''s'' [''a'', ''b''] [''b'', ''a''] = Inr st'"
    by (auto simp: is_ok_iff)
  from reorder_queue_order [OF sample_queue_ok r sample_queue_list] obtain es where
    "queued st' ''s'' = Inr es" "map (\<lambda>(e, _). qm_request_id e) es = [''b'', ''a'']"
    by (elim exE conjE) simp
  with r show ?thesis by (intro exI [of _ st'] exI [of _ es] conjI)
qed

lemma edit_queued_cas_witness:
  "\<exists>st'. edit_queued (\<lambda>_. []) sample_queue ''s'' ''a'' 0 (Some ''new'') = Inr st' \<and>
     edit_queued (\<lambda>_. []) st' ''s'' ''a'' 0 (Some ''old'') = Inl QueueEntryChanged"
proof -
  have "is_ok (edit_queued (\<lambda>_. []) sample_queue ''s'' ''a'' 0 (Some ''new''))"
    by (simp add: edit_queued_def sample_queue_list new_entry_def sample_turn_def checked_add_def trim_def
        is_whitespace_def utf8_width_def byte_def live_size_def Let_def)
  then obtain st' where e: "edit_queued (\<lambda>_. []) sample_queue ''s'' ''a'' 0 (Some ''new'') = Inr st'"
    by (auto simp: is_ok_iff)
  from edit_queued_cas [OF sample_queue_ok e, of "Some ''old''"] e show ?thesis by auto
qed

lemma take_queued_final_witness:
  "\<exists>st'. take_queued sample_queue ''s'' ''a'' 0 =
       Inr (QueuedMessageTaken (new_entry (sample_turn ''a'') 0), st') \<and>
     (\<exists>e. queued_duplicate st' ''s'' (sample_turn ''a'') = Inl e)"
proof -
  let ?st = "set_queue_status sample_queue ''s'' ''a'' Taken"
  have t: "take_queued sample_queue ''s'' ''a'' 0 = Inr (QueuedMessageTaken (new_entry (sample_turn ''a'') 0), ?st)"
    by (simp add: take_queued_Inr queue_entry_status_def session_by_id_def sample_queue_defs)
  from take_queued_final [OF sample_queue_ok t, of "sample_turn ''a''" "''s''"] t show ?thesis
    by (auto simp: sample_turn_def)
qed

end
