(* ===== verification/Recents.thy ===== *)
theory Recents
  imports Events
begin

text \<open>
  The list of recent sessions (\<open>recent_sessions\<close> of \<open>store.rs\<close>): visible sessions by their
  last activity, newest first, in pages of one hundred behind a keyset cursor. The activity of a
  session is the time of its last event of an activity kind, or its creation.
\<close>

fun activity_kind :: "event_kind \<Rightarrow> bool" where
  "activity_kind (User _ _) = True"
| "activity_kind (QueuedMessageSent _ _) = True"
| "activity_kind (Text _) = True"
| "activity_kind (Tool _ _ _) = True"
| "activity_kind (ToolResult _ _ _) = True"
| "activity_kind (Approval _ _ _ _) = True"
| "activity_kind (ApprovalResolved _ _) = True"
| "activity_kind (SubagentEv _) = True"
| "activity_kind _ = False"

definition updated_at :: "store \<Rightarrow> session_row \<Rightarrow> rat" where
  "updated_at st r =
     (case List.find (\<lambda>e. er_session_id e = sr_id r \<and> activity_kind (er_data e)) (rev (db_events st)) of
        Some e \<Rightarrow> er_at e | None \<Rightarrow> ses_created_at (sr_data r))"

definition recent_key :: "store \<Rightarrow> session_row \<Rightarrow> rat \<times> string" where
  "recent_key st r = (updated_at st r, sr_id r)"

definition visible_row :: "store \<Rightarrow> session_row \<Rightarrow> bool" where
  "visible_row st r = (\<not> ses_archived (sr_data r) \<and> \<not> project_hidden st (sr_project_id r))"

text \<open>\<open>ORDER BY updated_at DESC, id DESC\<close>\<close>

definition recent_rows :: "store \<Rightarrow> session_row list" where
  "recent_rows st = rev (sort_key (recent_key st) (filter (visible_row st) (db_sessions st)))"

definition before_cursor :: "store \<Rightarrow> recent_cursor option \<Rightarrow> session_row \<Rightarrow> bool" where
  "before_cursor st before r =
     (case before of
        None \<Rightarrow> True
      | Some c \<Rightarrow> updated_at st r < finite_value (rc_updated_at c)
                \<or> (updated_at st r = finite_value (rc_updated_at c) \<and> sr_id r < rc_id c))"

definition cursor_invalid :: "recent_cursor \<Rightarrow> bool" where
  "cursor_invalid c = (bad_cursor (rc_updated_at c) \<or> rc_id c = [] \<or> length (rc_id c) > 128)"

definition recent_of :: "store \<Rightarrow> session_row \<Rightarrow> recent_session" where
  "recent_of st r = \<lparr>rs_session = sr_data r, rs_updated_at = updated_at st r\<rparr>"

definition recent_sessions ::
  "store \<Rightarrow> recent_cursor option \<Rightarrow> error + (recent_session list \<times> recent_cursor option)" where
  "recent_sessions st before =
     and_then (ensure (\<not> (case before of Some c \<Rightarrow> cursor_invalid c | None \<Rightarrow> False)) RecentCursorInvalid) (\<lambda>_.
       let rows = map (recent_of st) (take 101 (filter (before_cursor st before) (recent_rows st)));
           has_more = length rows > 100;
           page = take 100 rows;
           last_row = last page
       in Inr (page,
               if has_more
               then Some \<lparr>rc_updated_at = Fin (rs_updated_at last_row), rc_id = ses_id (rs_session last_row)\<rparr>
               else None))"

section \<open>Paging\<close>

definition sessions_ok :: "store \<Rightarrow> bool" where
  "sessions_ok st \<longleftrightarrow>
     distinct (map sr_id (db_sessions st)) \<and>
     (\<forall>r \<in> set (db_sessions st). ses_id (sr_data r) = sr_id r \<and> sr_id r \<noteq> [] \<and> length (sr_id r) \<le> 128 \<and>
        updated_at st r \<ge> 0)"

definition recents_good :: "store \<Rightarrow> recent_cursor option \<Rightarrow> bool" where
  "recents_good st before \<longleftrightarrow>
     sessions_ok st \<and> (case before of None \<Rightarrow> True | Some c \<Rightarrow> \<not> cursor_invalid c)"

definition recents_remaining :: "store \<Rightarrow> recent_cursor option \<Rightarrow> recent_session list" where
  "recents_remaining st before = map (recent_of st) (filter (before_cursor st before) (recent_rows st))"

definition decreasing :: "('a \<Rightarrow> 'k :: linorder) \<Rightarrow> 'a list \<Rightarrow> bool" where
  "decreasing k xs \<longleftrightarrow> sorted_wrt (\<lambda>x y. k y < k x) xs"

lemma decreasing_filter: "decreasing k xs \<Longrightarrow> decreasing k (filter p xs)"
  by (simp add: decreasing_def sorted_wrt_filter)

lemma decreasing_drop:
  assumes "decreasing k xs" and "i < length xs"
  shows "filter (\<lambda>x. k x < k (xs ! i)) xs = drop (Suc i) xs"
  using assms
proof (induction xs arbitrary: i)
  case Nil
  then show ?case by simp
next
  case (Cons x xs)
  show ?case
  proof (cases i)
    case 0
    with Cons.prems show ?thesis by (auto simp: decreasing_def filter_id_conv)
  next
    case (Suc j)
    with Cons.prems have "k (xs ! j) < k x" by (auto simp: decreasing_def)
    with Cons Suc show ?thesis by (auto simp: decreasing_def dest: less_not_sym)
  qed
qed

lemma recent_rows_decreasing:
  assumes "sessions_ok st"
  shows "decreasing (recent_key st) (recent_rows st)"
proof -
  let ?rows = "sort_key (recent_key st) (filter (visible_row st) (db_sessions st))"
  have "distinct (map sr_id (db_sessions st))" using assms by (simp add: sessions_ok_def)
  then have "inj_on (recent_key st) (set (db_sessions st))" "distinct (db_sessions st)"
    by (auto simp: distinct_map inj_on_def recent_key_def)
  then have d: "distinct (map (recent_key st) ?rows)"
    by (auto simp: distinct_map inj_on_def)
  have "sorted (map (recent_key st) ?rows)" by simp
  with d have "sorted_wrt (<) (map (recent_key st) ?rows)" by (simp only: strict_sorted_iff simp_thms)
  then have "sorted_wrt (\<lambda>x y. recent_key st x < recent_key st y) ?rows" by (simp only: sorted_wrt_map)
  then show ?thesis by (simp add: decreasing_def recent_rows_def sorted_wrt_rev)
qed

lemma before_cursor_key:
  "before_cursor st (Some \<lparr>rc_updated_at = Fin u, rc_id = i\<rparr>) r \<longleftrightarrow> recent_key st r < (u, i)"
  by (auto simp: before_cursor_def recent_key_def less_prod_def)

text \<open>The client: the cursor it is given is the one it asks behind next.\<close>

definition recents_page ::
  "store \<Rightarrow> recent_cursor option \<Rightarrow> error + (recent_session list \<times> recent_cursor option option)" where
  "recents_page st before =
     and_then (recent_sessions st before) (\<lambda>(rows, nxt). Inr (rows, map_option Some nxt))"

interpretation recents: pager recents_good recents_remaining recents_page
proof unfold_locales
  fix st before
  assume g: "recents_good st before"
  let ?rows = "filter (before_cursor st before) (recent_rows st)"
  let ?nxt = "\<lparr>rc_updated_at = Fin (updated_at st (?rows ! 99)), rc_id = sr_id (?rows ! 99)\<rparr>"
  have ok: "sessions_ok st" using g by (simp add: recents_good_def)
  have page: "recents_page st before =
      Inr (map (recent_of st) (take 100 ?rows), if 100 < length ?rows then Some (Some ?nxt) else None)"
  proof -
    have "last (take 100 (map (recent_of st) (take 101 ?rows))) = recent_of st (?rows ! 99)" if "100 < length ?rows"
    proof -
      have "take 100 (map (recent_of st) (take 101 ?rows)) = map (recent_of st) (take 100 ?rows)"
        by (simp add: take_map)
      moreover have "take 100 ?rows \<noteq> []" using that by auto
      moreover have "last (take 100 ?rows) = ?rows ! 99"
      proof -
        have "last (take (Suc 99) ?rows) = ?rows ! 99"
          using that by (subst take_Suc_conv_app_nth) simp_all
        then show ?thesis by simp
      qed
      ultimately show ?thesis by (simp add: last_map del: take_eq_Nil)
    qed
    moreover have "ses_id (sr_data (?rows ! 99)) = sr_id (?rows ! 99)" if "100 < length ?rows"
    proof -
      have "?rows ! 99 \<in> set ?rows" using that by (intro nth_mem) simp
      then have "?rows ! 99 \<in> set (db_sessions st)" by (auto simp: recent_rows_def)
      with ok show ?thesis by (simp add: sessions_ok_def)
    qed
    ultimately show ?thesis using g
      by (auto simp: recents_page_def recent_sessions_def recents_good_def Let_def recent_of_def take_map split: option.splits)
  qed
  show "\<exists>xs n. recents_page st before = Inr (xs, n)" by (simp add: page)
  fix xs
  { assume "recents_page st before = Inr (xs, None)"
    then show "recents_remaining st before = xs" by (auto simp: page recents_remaining_def split: if_splits) }
  { fix c' assume "recents_page st before = Inr (xs, Some c')"
    then have xs: "xs = map (recent_of st) (take 100 ?rows)" and more: "99 < length ?rows" "100 < length ?rows"
      and c': "c' = Some ?nxt" by (auto simp: page split: if_splits)
    let ?k = "recent_key st"
    have kc: "before_cursor st c' r \<longleftrightarrow> ?k r < ?k (?rows ! 99)" for r
      unfolding c' before_cursor_key by (simp add: recent_key_def)
    have in_rows: "?rows ! 99 \<in> set ?rows" using more(1) by (rule nth_mem)
    have prev: "before_cursor st before r" if "?k r < ?k (?rows ! 99)" for r
    proof (cases before)
      case None
      then show ?thesis by (simp add: before_cursor_def)
    next
      case (Some c)
      with g obtain u i where c: "c = \<lparr>rc_updated_at = Fin u, rc_id = i\<rparr>"
        by (cases c; cases "rc_updated_at c") (auto simp: recents_good_def cursor_invalid_def)
      have "?k (?rows ! 99) < (u, i)" using in_rows Some c before_cursor_key by fastforce
      with that show ?thesis unfolding Some c before_cursor_key by (rule less_trans)
    qed
    have "filter (before_cursor st c') (recent_rows st) = filter (\<lambda>r. ?k r < ?k (?rows ! 99)) ?rows"
    proof -
      have eq: "before_cursor st c' = (\<lambda>r. before_cursor st before r \<and> ?k r < ?k (?rows ! 99))"
        by (rule ext) (use kc prev in blast)
      show ?thesis unfolding filter_filter by (simp only: eq)
    qed
    also have "\<dots> = drop 100 ?rows"
      using decreasing_drop [OF decreasing_filter [OF recent_rows_decreasing [OF ok]] more(1)] by simp
    finally have rest: "recents_remaining st c' = map (recent_of st) (drop 100 ?rows)"
      by (simp add: recents_remaining_def)
    have "recents_remaining st before = xs @ recents_remaining st c'"
    proof -
      have "recents_remaining st before = map (recent_of st) (take 100 ?rows @ drop 100 ?rows)"
        by (simp only: recents_remaining_def append_take_drop_id)
      then show ?thesis by (simp only: map_append xs rest)
    qed
    moreover have "?rows ! 99 \<in> set (db_sessions st)" using in_rows by (auto simp: recent_rows_def)
    then have "recents_good st c'"
      using ok by (auto simp: recents_good_def c' cursor_invalid_def sessions_ok_def)
    moreover have "xs \<noteq> []" using more xs by auto
    ultimately show "xs \<noteq> [] \<and> recents_good st c' \<and> recents_remaining st before = xs @ recents_remaining st c'"
      by blast }
qed

text \<open>Following the cursors of the recent list gives every session that is neither archived nor in a
  removed project exactly once, and the latest activity first.\<close>

theorem recents_complete:
  assumes "sessions_ok st" and "length (db_sessions st) < fuel"
  shows "\<exists>rows. collect fuel (recents_page st) None = Some (map (recent_of st) rows) \<and>
           set rows = {r \<in> set (db_sessions st). \<not> ses_archived (sr_data r) \<and> \<not> project_hidden st (sr_project_id r)} \<and>
           distinct rows \<and> sorted_wrt (\<lambda>r r'. updated_at st r \<ge> updated_at st r') rows"
proof -
  let ?rows = "recent_rows st"
  have rem: "recents_remaining st None = map (recent_of st) ?rows"
    by (simp add: recents_remaining_def before_cursor_def)
  have "length ?rows \<le> length (db_sessions st)" by (simp add: recent_rows_def)
  then have "collect fuel (recents_page st) None = Some (map (recent_of st) ?rows)"
    using recents.collect_complete [of st None fuel] assms rem by (simp add: recents_good_def)
  moreover have "set ?rows = {r \<in> set (db_sessions st). \<not> ses_archived (sr_data r) \<and> \<not> project_hidden st (sr_project_id r)}"
    by (auto simp: recent_rows_def visible_row_def)
  moreover have "distinct ?rows"
    using assms(1) by (auto simp: recent_rows_def sessions_ok_def distinct_map)
  moreover have "sorted_wrt (\<lambda>r r'. updated_at st r \<ge> updated_at st r') ?rows"
  proof -
    show ?thesis
      by (rule sorted_wrt_mono_rel [OF _ recent_rows_decreasing [OF assms(1), unfolded decreasing_def]])
         (auto simp: recent_key_def less_prod_def)
  qed
  ultimately show ?thesis by blast
qed

lemma recents_complete_witness:
  "\<exists>rows. collect 2 (recents_page sample_store) None = Some (map (recent_of sample_store) rows) \<and> length rows = 1"
proof -
  have ok: "sessions_ok sample_store"
    by (simp add: sessions_ok_def updated_at_def sample_store_def empty_store_def sample_session_def)
  have one: "db_sessions sample_store = [\<lparr>sr_id = ''s'', sr_project_id = ''p'', sr_data = sample_session\<rparr>]"
    by (simp add: sample_store_def)
  have vis: "\<not> ses_archived sample_session" "\<not> project_hidden sample_store ''p''"
    by (simp_all add: project_hidden_def sample_store_def empty_store_def sample_session_def)
  have "length (db_sessions sample_store) < 2" by (simp only: one) simp
  from recents_complete [OF ok this] obtain rows where
    c: "collect 2 (recents_page sample_store) None = Some (map (recent_of sample_store) rows)" and
    s: "set rows = {r \<in> set (db_sessions sample_store). \<not> ses_archived (sr_data r) \<and> \<not> project_hidden sample_store (sr_project_id r)}"
    and d: "distinct rows" by (elim exE conjE)
  have "set rows = {\<lparr>sr_id = ''s'', sr_project_id = ''p'', sr_data = sample_session\<rparr>}"
    unfolding s one using vis by auto
  then have "length rows = 1" using distinct_card [OF d] by simp
  with c show ?thesis by (intro exI [of _ rows] conjI)
qed

end
