(* ===== verification/References.thy ===== *)
theory References
  imports Store Paths Samples
begin

text \<open>
  Access to files outside the project (\<open>grant_reference\<close>, \<open>reference_access\<close>,
  \<open>revoke_reference_access\<close> and \<open>reference_allowed\<close> of \<open>store.rs\<close>), refined by a
  finite map from canonical paths to a flag that says whether everything below is meant.
\<close>

definition MAX_FRAME :: nat where
  "MAX_FRAME = 2 * 1024 * 1024"



definition project_references :: "store \<Rightarrow> string \<Rightarrow> reference_row list" where
  "project_references st pid =
     sort_key rf_path (filter (\<lambda>r. rf_project_id r = pid) (db_reference_access st))"

definition reference_entry :: "reference_row \<Rightarrow> file_entry" where
  "reference_entry r =
     \<lparr>fe_name = (case file_name (rf_path r) of Some n \<Rightarrow> n | None \<Rightarrow> rf_path r),
      fe_path = rf_path r, fe_directory = rf_directory r\<rparr>"

fun access_loop :: "(file_entry \<Rightarrow> string) \<Rightarrow> file_entry list \<Rightarrow> file_entry list \<Rightarrow> nat \<Rightarrow> file_entry list \<times> bool" where
  "access_loop fenc [] entries bytes = (entries, False)"
| "access_loop fenc (e # es) entries bytes =
     (let bytes = bytes + length (fenc e)
      in if length entries = 512 \<or> bytes > MAX_FRAME div 2 then (entries, True)
         else access_loop fenc es (entries @ [e]) bytes)"

definition reference_access ::
  "(file_entry \<Rightarrow> string) \<Rightarrow> store \<Rightarrow> string \<Rightarrow> error + (file_entry list \<times> bool)" where
  "reference_access fenc st pid =
     and_then (project_by_id st pid) (\<lambda>_.
       Inr (access_loop fenc (map reference_entry (take 513 (project_references st pid))) [] 0))"




section \<open>Refinement by a map\<close>


definition references_ok :: "store \<Rightarrow> bool" where
  "references_ok st \<longleftrightarrow>
     distinct (map (\<lambda>r. (rf_project_id r, rf_path r)) (db_reference_access st)) \<and>
     (\<forall>pid. count_where (\<lambda>r. rf_project_id r = pid) (db_reference_access st) \<le> 512)"



lemma references_ok_empty: "references_ok (empty_store clock)"
  by (simp add: references_ok_def empty_store_def)











end
