(* ===== verification/Turns.thy ===== *)
theory Turns
  imports MessageQueue
begin

text \<open>
  The persistence of turn changes and baselines (\<open>save_baseline\<close> \<dots> \<open>update_turn\<close> of
  \<open>store.rs\<close>), the presentation pages of a summary (\<open>summary_page\<close>, \<open>page_for\<close> of
  \<open>task_changes.rs\<close>), and the recovery that \<open>Store::open\<close> runs at start-up. The serde
  encodings are the arguments \<open>senc\<close> (snapshots), \<open>fenc\<close> (frozen turns), \<open>enc\<close>
  (events) and \<open>eenc\<close> (entries); \<open>dir\<close> is the snapshot directory.
\<close>

section \<open>Baselines and frozen turns\<close>

definition small_json :: "'a \<Rightarrow> ('a \<Rightarrow> string) \<Rightarrow> error + 'a" where
  "small_json v encode = and_then (ensure (length (encode v) \<le> RECORD_LIMIT) RecordTooLarge) (\<lambda>_. Inr v)"

definition turn_attach :: "string \<Rightarrow> frozen_turn \<Rightarrow> frozen_turn" where
  "turn_attach dir t =
     t\<lparr>ft_full_summary := map_option (\<lambda>s. case s of SummaryObject ob \<Rightarrow> SummaryObject (ob\<lparr>ob_root := dir\<rparr>)
                                                 | SummaryInline c \<Rightarrow> SummaryInline c) (ft_full_summary t),
       ft_before := snapshot_attach dir (ft_before t), ft_after := snapshot_attach dir (ft_after t)\<rparr>"

definition baseline :: "string \<Rightarrow> store \<Rightarrow> string \<Rightarrow> error + snapshot option" where
  "baseline dir st i =
     and_then (session_by_id st i) (\<lambda>_.
       Inr (map_option (\<lambda>(_, s). snapshot_attach dir s) (List.find (\<lambda>(j, _). j = i) (db_task_baselines st))))"

definition save_baseline :: "(snapshot \<Rightarrow> string) \<Rightarrow> store \<Rightarrow> string \<Rightarrow> snapshot \<Rightarrow> error + store" where
  "save_baseline senc st i s =
     and_then (small_json s senc) (\<lambda>s.
       if i \<in> fst ` set (db_task_baselines st) then Inr st
       else and_then (ensure (session_exists st i) SqlForeignKey) (\<lambda>_.
              Inr (st\<lparr>db_task_baselines := db_task_baselines st @ [(i, s)]\<rparr>)))"

definition turn_key :: "string \<Rightarrow> string \<Rightarrow> turn_row \<Rightarrow> bool" where
  "turn_key i rid r = (tr_session_id r = i \<and> tr_request_id r = rid)"

definition save_turn_baseline ::
  "(snapshot \<Rightarrow> string) \<Rightarrow> store \<Rightarrow> string \<Rightarrow> string \<Rightarrow> snapshot \<Rightarrow> error + store" where
  "save_turn_baseline senc st i rid s =
     and_then (small_json s senc) (\<lambda>s.
       if list_ex (turn_key i rid) (db_turn_changes st) then Inr st
       else and_then (ensure (session_exists st i \<and> find_request st rid \<noteq> None) SqlForeignKey) (\<lambda>_.
              Inr (st\<lparr>db_turn_changes := db_turn_changes st @
                        [\<lparr>tr_session_id = i, tr_request_id = rid, tr_baseline = Some s, tr_data = None\<rparr>]\<rparr>)))"

definition pending_turn :: "string \<Rightarrow> store \<Rightarrow> string \<Rightarrow> (string \<times> snapshot) option" where
  "pending_turn dir st i =
     (case List.find (\<lambda>r. tr_session_id r = i \<and> tr_baseline r \<noteq> None) (rev (db_turn_changes st)) of
        None \<Rightarrow> None
      | Some r \<Rightarrow> map_option (\<lambda>s. (tr_request_id r, snapshot_attach dir s)) (tr_baseline r))"

definition turn_event :: "(event_kind \<Rightarrow> string) \<Rightarrow> store \<Rightarrow> string \<Rightarrow> turn_changes \<Rightarrow> error + store" where
  "turn_event enc st i changes =
     (let (t, st) = read_clock st
      in and_then (small_json (TurnChanges changes) enc) (\<lambda>e. insert_event st i t e))"

definition finish_turn ::
  "(frozen_turn \<Rightarrow> string) \<Rightarrow> (event_kind \<Rightarrow> string) \<Rightarrow> store \<Rightarrow> string \<Rightarrow> frozen_turn \<Rightarrow> error + store" where
  "finish_turn fenc enc st i turn =
     (let key = (\<lambda>r. turn_key i (tch_request_id (ft_changes turn)) r \<and> tr_baseline r \<noteq> None)
      in and_then (small_json turn fenc) (\<lambda>turn.
           let updated = count_where key (db_turn_changes st);
               st = st\<lparr>db_turn_changes :=
                         update_where key (\<lambda>r. r\<lparr>tr_baseline := None, tr_data := Some turn\<rparr>) (db_turn_changes st)\<rparr>
           in if updated = 1 then turn_event enc st i (ft_changes turn) else Inr st))"

definition turn_changes_of :: "string \<Rightarrow> store \<Rightarrow> string \<Rightarrow> string \<Rightarrow> error + frozen_turn" where
  "turn_changes_of dir st i rid =
     and_then (session_by_id st i) (\<lambda>_.
     and_then (of_option TurnMissing
                 (case List.find (turn_key i rid) (db_turn_changes st) of None \<Rightarrow> None | Some r \<Rightarrow> tr_data r)) (\<lambda>t.
       Inr (turn_attach dir t)))"

definition last_turn_changes :: "string \<Rightarrow> store \<Rightarrow> string \<Rightarrow> error + frozen_turn option" where
  "last_turn_changes dir st i =
     and_then (session_by_id st i) (\<lambda>_.
       case List.find (\<lambda>r. tr_session_id r = i \<and> tr_data r \<noteq> None) (rev (db_turn_changes st)) of
         None \<Rightarrow> Inr None
       | Some r \<Rightarrow> and_then (turn_changes_of dir st i (tr_request_id r)) (\<lambda>t. Inr (Some t)))"

definition update_turn ::
  "(frozen_turn \<Rightarrow> string) \<Rightarrow> (event_kind \<Rightarrow> string) \<Rightarrow> store \<Rightarrow> string \<Rightarrow> frozen_turn \<Rightarrow> error + store" where
  "update_turn fenc enc st i turn =
     (let key = (\<lambda>r. turn_key i (tch_request_id (ft_changes turn)) r \<and> tr_data r \<noteq> None)
      in and_then (small_json turn fenc) (\<lambda>turn.
         and_then (ensure (count_where key (db_turn_changes st) = 1) TurnMissing) (\<lambda>_.
           turn_event enc
             (st\<lparr>db_turn_changes := update_where key (\<lambda>r. r\<lparr>tr_data := Some turn\<rparr>) (db_turn_changes st)\<rparr>)
             i (ft_changes turn))))"

section \<open>Recovery at start-up\<close>

definition restart_forwarded :: string where
  "restart_forwarded = map char_of
    [229 :: nat, 144, 142, 229, 143, 176, 229, 183, 178, 233, 135, 141, 229, 144, 175, 239, 188,
     140, 232, 175, 183, 230, 160, 184, 229, 175, 185, 229, 183, 178, 229, 143, 145, 233, 128,
     129, 231, 154, 132, 230, 182, 136, 230, 129, 175]"

definition restart_snapshot :: string where
  "restart_snapshot = map char_of
    [83 :: nat, 101, 114, 118, 101, 114, 32, 229, 183, 178, 233, 135, 141, 229, 144, 175, 239,
     188, 140, 230, 173, 164, 232, 189, 174, 231, 187, 147, 230, 157, 159, 230, 151, 182, 231,
     154, 132, 230, 150, 135, 228, 187, 182, 229, 191, 171, 231, 133, 167, 230, 156, 170, 231,
     159, 165, 239, 188, 155, 232, 175, 183, 230, 160, 184, 229, 175, 185, 229, 183, 165, 228,
     189, 156, 229, 140, 186, 227, 128, 130]"

definition restart_state :: string where
  "restart_state = map char_of
    [83 :: nat, 101, 114, 118, 101, 114, 32, 229, 183, 178, 233, 135, 141, 229, 144, 175, 239,
     188, 140, 229, 133, 136, 229, 137, 141, 230, 137, 167, 232, 161, 140, 231, 187, 147, 230,
     158, 156, 230, 156, 170, 231, 159, 165, 239, 188, 155, 232, 175, 183, 230, 160, 184, 229,
     175, 185, 230, 150, 135, 228, 187, 182, 229, 144, 142, 231, 187, 167, 231, 187, 173, 227,
     128, 130]"

definition restart_changes :: "string \<Rightarrow> turn_changes" where
  "restart_changes rid =
     \<lparr>tch_request_id = rid,
      tch_summary = \<lparr>cs_entries = [], cs_total_files = None, cs_next_offset = None, cs_offset = None,
                     cs_added = 0, cs_removed = 0, cs_binary_files = 0, cs_truncated = False,
                     cs_baseline_at = None, cs_unavailable = Some restart_snapshot\<rparr>,
      tch_interrupted = True, tch_background_pending = False, tch_undo = UndoUnknown\<rparr>"

definition recover_forwarded ::
  "(event_kind \<Rightarrow> string) \<Rightarrow> (string \<Rightarrow> json option) \<Rightarrow> store \<Rightarrow> error + store" where
  "recover_forwarded enc parse st =
     for_each (\<lambda>st i. and_then (uncertain_forwarded enc parse st i) (\<lambda>st.
                        pause_queue st i (Some restart_forwarded))) st
       (remdups (map q_session_id (filter (\<lambda>r. q_status r = Forwarded) (db_queue st))))"

definition recover_subagents ::
  "(event_kind \<Rightarrow> string) \<Rightarrow> (string \<Rightarrow> json option) \<Rightarrow> store \<Rightarrow> error + store" where
  "recover_subagents enc parse st =
     for_each (\<lambda>st i. end_subagents enc parse st i SubUnknown) st
       (remdups (map sbr_session_id (filter sbr_active (db_subagents st))))"

definition recover_turn ::
  "(event_kind \<Rightarrow> string) \<Rightarrow> (string \<Rightarrow> json option) \<Rightarrow> store \<Rightarrow> string \<times> string \<Rightarrow> error + store" where
  "recover_turn enc parse st t =
     (case t of (i, rid) \<Rightarrow>
        and_then (store_event enc parse st i (TurnChanges (restart_changes rid))) (\<lambda>st.
          Inr (st\<lparr>db_turn_changes :=
                    update_where (turn_key i rid) (\<lambda>r. r\<lparr>tr_baseline := None\<rparr>) (db_turn_changes st)\<rparr>)))"

definition recover_turns ::
  "(event_kind \<Rightarrow> string) \<Rightarrow> (string \<Rightarrow> json option) \<Rightarrow> store \<Rightarrow> error + store" where
  "recover_turns enc parse st =
     for_each (recover_turn enc parse) st
       (map (\<lambda>r. (tr_session_id r, tr_request_id r))
          (filter (\<lambda>r. tr_baseline r \<noteq> None) (db_turn_changes st)))"

definition recover_session ::
  "(event_kind \<Rightarrow> string) \<Rightarrow> (string \<Rightarrow> json option) \<Rightarrow> store \<Rightarrow> session \<Rightarrow> error + store" where
  "recover_session enc parse st s =
     store_event enc parse (save st (s\<lparr>ses_status := Unknown\<rparr>)) (ses_id s) (State Unknown (Some restart_state))"

definition recover_sessions ::
  "(event_kind \<Rightarrow> string) \<Rightarrow> (string \<Rightarrow> json option) \<Rightarrow> store \<Rightarrow> error + store" where
  "recover_sessions enc parse st =
     for_each (recover_session enc parse) st (filter (\<lambda>s. status_active (ses_status s)) (all_sessions st))"

definition open_store ::
  "(event_kind \<Rightarrow> string) \<Rightarrow> (string \<Rightarrow> json option) \<Rightarrow> store \<Rightarrow> error + store" where
  "open_store enc parse st =
     and_then (recover_forwarded enc parse (initialize st)) (\<lambda>st.
     and_then (recover_subagents enc parse st) (\<lambda>st.
     and_then (recover_turns enc parse st) (\<lambda>st.
       recover_sessions enc parse st)))"

section \<open>Summary pages\<close>

datatype (plugins only: code size) summary_error = SummaryCursorInvalid | SummaryEntryTooLong | SummaryIntOverflow

definition to_u32 :: "nat \<Rightarrow> summary_error + u32" where
  "to_u32 n = (if n < 2 ^ 32 then Inr (of_nat n) else Inl SummaryIntOverflow)"

fun summary_loop ::
  "(task_change \<Rightarrow> string) \<Rightarrow> task_change list \<Rightarrow> task_change list \<Rightarrow> nat \<Rightarrow> summary_error + task_change list" where
  "summary_loop eenc [] acc bytes = Inr acc"
| "summary_loop eenc (e # es) acc bytes =
     (let sz = length (eenc e)
      in and_then (ensure (sz \<le> 64 * 1024) SummaryEntryTooLong) (\<lambda>_.
           if bytes + sz > 64 * 1024 then Inr acc
           else summary_loop eenc es (acc @ [e]) (bytes + sz)))"

definition summary_page :: "(task_change \<Rightarrow> string) \<Rightarrow> change_summary \<Rightarrow> u32 \<Rightarrow> summary_error + change_summary" where
  "summary_page eenc summary offset32 =
     (let offset = unat offset32; entries = cs_entries summary
      in and_then (ensure (offset \<le> length entries) SummaryCursorInvalid) (\<lambda>_.
         and_then (summary_loop eenc (take 64 (drop offset entries)) [] 0) (\<lambda>shown.
           let result = summary\<lparr>cs_entries := shown, cs_total_files := None, cs_next_offset := None,
                                cs_offset := None\<rparr>;
               last_offset = offset + length shown
           in if offset > 0 \<or> last_offset < length entries
              then and_then (to_u32 (length entries)) (\<lambda>total.
                   and_then (if last_offset < length entries
                             then and_then (to_u32 last_offset) (\<lambda>n. Inr (Some n)) else Inr None) (\<lambda>nxt.
                     Inr (result\<lparr>cs_total_files := Some total, cs_offset := Some offset32,
                                 cs_next_offset := nxt\<rparr>)))
              else Inr result)))"

fun position :: "('a \<Rightarrow> bool) \<Rightarrow> 'a list \<Rightarrow> nat option" where
  "position p [] = None"
| "position p (x # xs) = (if p x then Some 0 else map_option Suc (position p xs))"

text \<open>\<open>page_for\<close> on the full summary: at an offset, at the page of a path, or the first page.\<close>

definition page_for ::
  "(task_change \<Rightarrow> string) \<Rightarrow> change_summary \<Rightarrow> u32 option \<Rightarrow> string option \<Rightarrow> summary_error + change_summary" where
  "page_for eenc full offset path =
     and_then
       (case offset of
          Some n \<Rightarrow> Inr n
        | None \<Rightarrow>
            (case path of
               None \<Rightarrow> Inr 0
             | Some p \<Rightarrow>
                 (let index = (case position (\<lambda>e. tc_path e = p) (cs_entries full) of Some k \<Rightarrow> k | None \<Rightarrow> 0);
                      start = (index div 64) * 64
                  in and_then (to_u32 start) (\<lambda>s.
                     and_then (summary_page eenc full s) (\<lambda>first.
                       to_u32 (if list_ex (\<lambda>e. tc_path e = p) (cs_entries first) then start else index))))))
       (\<lambda>n. summary_page eenc full n)"

section \<open>Every entry of a summary is reached\<close>

definition entries_fit :: "(task_change \<Rightarrow> string) \<Rightarrow> change_summary \<Rightarrow> bool" where
  "entries_fit eenc summary \<longleftrightarrow>
     length (cs_entries summary) < 2 ^ 32 \<and> (\<forall>e \<in> set (cs_entries summary). length (eenc e) \<le> 64 * 1024)"

lemma summary_loop_prefix:
  assumes "\<forall>e \<in> set es. length (eenc e) \<le> 64 * 1024"
  shows "\<exists>k \<le> length es. summary_loop eenc es acc bytes = Inr (acc @ take k es) \<and>
           (bytes = 0 \<and> es \<noteq> [] \<longrightarrow> k \<noteq> 0)"
  using assms
proof (induction es arbitrary: acc bytes)
  case Nil
  then show ?case by simp
next
  case (Cons e es)
  show ?case
  proof (cases "bytes + length (eenc e) > 64 * 1024")
    case True
    then show ?thesis using Cons.prems by (intro exI [of _ 0]) auto
  next
    case False
    from Cons.IH [of "acc @ [e]" "bytes + length (eenc e)"] Cons.prems obtain k where
      "k \<le> length es" "summary_loop eenc es (acc @ [e]) (bytes + length (eenc e)) = Inr ((acc @ [e]) @ take k es)"
      by auto
    then show ?thesis using False Cons.prems by (intro exI [of _ "Suc k"]) auto
  qed
qed

lemma to_u32_ok: "n < 2 ^ 32 \<Longrightarrow> to_u32 n = Inr (of_nat n)"
  by (simp add: to_u32_def)

lemma unat_u32: "n < 2 ^ 32 \<Longrightarrow> unat (of_nat n :: u32) = n"
  by (simp add: unat_of_nat)

text \<open>A page, in terms of how many entries it shows.\<close>

lemma summary_page_ok:
  assumes "entries_fit eenc summary" and "unat c \<le> length (cs_entries summary)"
  shows "\<exists>k page. summary_page eenc summary c = Inr page \<and>
           cs_entries page = take k (drop (unat c) (cs_entries summary)) \<and>
           unat c + k \<le> length (cs_entries summary) \<and>
           (unat c < length (cs_entries summary) \<longrightarrow> k \<noteq> 0) \<and>
           cs_next_offset page = (if unat c + k < length (cs_entries summary)
                                  then Some (of_nat (unat c + k)) else None)"
proof -
  let ?es = "cs_entries summary"
  let ?rest = "take 64 (drop (unat c) ?es)"
  have "\<forall>e \<in> set ?rest. length (eenc e) \<le> 64 * 1024"
    using assms(1) by (auto simp: entries_fit_def dest: in_set_takeD in_set_dropD)
  from summary_loop_prefix [OF this, of "[]" 0] obtain k where k: "k \<le> length ?rest"
    "summary_loop eenc ?rest [] 0 = Inr (take k ?rest)" "?rest \<noteq> [] \<longrightarrow> k \<noteq> 0" by auto
  have tk: "take k ?rest = take k (drop (unat c) ?es)" using k(1) by (rule take_take_same)
  have "k \<le> length ?es - unat c" using k(1) by (simp only: length_take length_drop min.bounded_iff)
  then have len: "unat c + k \<le> length ?es" using assms(2) by linarith
  have shown: "length (take k (drop (unat c) ?es)) = k" using len by simp
  have small: "length ?es < 2 ^ 32" using assms(1) by (simp add: entries_fit_def)
  have nz: "unat c < length ?es \<longrightarrow> k \<noteq> 0" using k(3) by auto
  show ?thesis
  proof (cases "unat c > 0 \<or> unat c + k < length ?es")
    case True
    have "summary_page eenc summary c = Inr (summary\<lparr>cs_entries := take k (drop (unat c) ?es),
        cs_total_files := Some (of_nat (length ?es)), cs_offset := Some c,
        cs_next_offset := (if unat c + k < length ?es then Some (of_nat (unat c + k)) else None)\<rparr>)"
      using True assms(2) small len by (simp add: summary_page_def Let_def k(2) tk shown to_u32_ok del: take_take length_take length_drop)
    then show ?thesis using len nz by (intro exI [of _ k]) simp
  next
    case False
    then have "summary_page eenc summary c = Inr (summary\<lparr>cs_entries := take k (drop (unat c) ?es),
        cs_total_files := None, cs_next_offset := None, cs_offset := None\<rparr>)"
    proof -
      from False have c0: "unat c = 0" by simp
      have all: "length ?es \<le> k" using False c0 by simp
      then have "take k ?rest = ?es" unfolding tk by (simp add: c0)
      with k(2) have "summary_loop eenc (take 64 ?es) [] 0 = Inr ?es" by (simp only: c0 drop0)
      with all show ?thesis by (simp add: summary_page_def Let_def c0)
    qed
    then show ?thesis using False len nz by (intro exI [of _ k]) simp
  qed
qed

definition summary_client ::
  "(task_change \<Rightarrow> string) \<Rightarrow> change_summary \<Rightarrow> u32 \<Rightarrow> summary_error + (task_change list \<times> u32 option)" where
  "summary_client eenc summary c =
     and_then (summary_page eenc summary c) (\<lambda>page. Inr (cs_entries page, cs_next_offset page))"

definition summary_good :: "(task_change \<Rightarrow> string) \<Rightarrow> change_summary \<Rightarrow> u32 \<Rightarrow> bool" where
  "summary_good eenc summary c \<longleftrightarrow> entries_fit eenc summary \<and> unat c \<le> length (cs_entries summary)"

definition summary_rest :: "change_summary \<Rightarrow> u32 \<Rightarrow> task_change list" where
  "summary_rest summary c = drop (unat c) (cs_entries summary)"

interpretation summary: pager "summary_good eenc" summary_rest "summary_client eenc" for eenc
proof unfold_locales
  fix s c
  assume g: "summary_good eenc s c"
  then obtain k page where p: "summary_page eenc s c = Inr page"
    "cs_entries page = take k (summary_rest s c)" "unat c + k \<le> length (cs_entries s)"
    "unat c < length (cs_entries s) \<longrightarrow> k \<noteq> 0"
    "cs_next_offset page = (if unat c + k < length (cs_entries s) then Some (of_nat (unat c + k)) else None)"
    using summary_page_ok [of eenc s c] by (auto simp: summary_good_def summary_rest_def)
  show "\<exists>xs n. summary_client eenc s c = Inr (xs, n)" by (simp add: summary_client_def p(1))
  fix xs
  { assume "summary_client eenc s c = Inr (xs, None)"
    with p show "summary_rest s c = xs"
      by (auto simp: summary_client_def summary_rest_def split: if_splits) }
  { fix c' assume "summary_client eenc s c = Inr (xs, Some c')"
    with p have xs: "xs = take k (summary_rest s c)" and more: "unat c + k < length (cs_entries s)"
      and c': "c' = of_nat (unat c + k)" by (auto simp: summary_client_def split: if_splits)
    have "unat c + k < 2 ^ 32" using more g unfolding summary_good_def entries_fit_def by linarith
    then have "unat c' = unat c + k" unfolding c' by (rule unat_u32)
    then have "summary_rest s c' = drop k (summary_rest s c)" by (simp add: summary_rest_def add.commute)
    then have "summary_rest s c = xs @ summary_rest s c'" by (simp add: xs)
    moreover have "xs \<noteq> []" using p(4) more by (auto simp: xs summary_rest_def)
    moreover have "summary_good eenc s c'"
      using g more \<open>unat c' = unat c + k\<close> by (simp add: summary_good_def)
    ultimately show "xs \<noteq> [] \<and> summary_good eenc s c' \<and> summary_rest s c = xs @ summary_rest s c'" by blast }
qed

text \<open>the bounded pages of a change summary lose nothing: following the next offsets from the start
  returns every changed file, in order, when each entry fits in a page.\<close>

theorem summary_pages_complete:
  assumes "entries_fit eenc s" and "length (cs_entries s) < fuel"
  shows "collect fuel (summary_client eenc s) 0 = Some (cs_entries s)"
  using summary.collect_complete [of eenc s 0 fuel] assms by (simp add: summary_good_def summary_rest_def)

lemma position_Some: "position p xs = Some k \<Longrightarrow> k < length xs \<and> p (xs ! k)"
  by (induction xs arbitrary: k) (auto split: if_splits)

lemma position_None: "position p xs = None \<longleftrightarrow> (\<forall>x \<in> set xs. \<not> p x)"
  by (induction xs) auto

text \<open>Asking for the page of a changed path always returns a page that shows it, on whatever page the
  byte limit has put it.\<close>

theorem page_for_shows_path:
  assumes "entries_fit eenc full" and "p \<in> tc_path ` set (cs_entries full)"
  shows "\<exists>page. page_for eenc full None (Some p) = Inr page \<and> p \<in> tc_path ` set (cs_entries page)"
proof -
  let ?es = "cs_entries full"
  obtain index where ix: "position (\<lambda>e. tc_path e = p) ?es = Some index"
    using assms(2) by (cases "position (\<lambda>e. tc_path e = p) ?es") (auto simp: position_None)
  from position_Some [OF ix] have il: "index < length ?es" and ip: "tc_path (?es ! index) = p" by auto
  have small: "length ?es < 2 ^ 32" using assms(1) by (simp add: entries_fit_def)
  define start where "start = (index div 64) * 64"
  have sl: "start \<le> index" by (simp add: start_def)
  have us: "unat (of_nat start :: u32) = start" and ui: "unat (of_nat index :: u32) = index"
    using sl il small by (intro unat_u32; linarith)+
  obtain first where first: "summary_page eenc full (of_nat start) = Inr first"
    using summary_page_ok [OF assms(1), of "of_nat start"] us sl il by auto
  obtain k page where page: "summary_page eenc full (of_nat index) = Inr page"
    "cs_entries page = take k (drop index ?es)" "k \<noteq> 0"
    using summary_page_ok [OF assms(1), of "of_nat index"] ui il by auto
  have "?es ! index \<in> set (cs_entries page)"
    using il page(3) by (simp add: page(2) Cons_nth_drop_Suc [symmetric] take_Cons')
  then have shown: "p \<in> tc_path ` set (cs_entries page)" using ip by blast
  have conv: "to_u32 start = Inr (of_nat start)" "to_u32 index = Inr (of_nat index)"
    using sl il small by (intro to_u32_ok; linarith)+
  show ?thesis
  proof (cases "list_ex (\<lambda>e. tc_path e = p) (cs_entries first)")
    case True
    then have "page_for eenc full None (Some p) = Inr first"
      using first conv by (simp add: page_for_def ix Let_def start_def [symmetric])
    with True show ?thesis by (auto simp: list_ex_iff)
  next
    case False
    then have "page_for eenc full None (Some p) = Inr page"
      using first conv page(1) by (simp add: page_for_def ix Let_def start_def [symmetric])
    with shown show ?thesis by blast
  qed
qed

definition sample_entry :: "string \<Rightarrow> task_change" where
  "sample_entry p = \<lparr>tc_path = p, tc_status = ''M'', tc_added = Some 1, tc_removed = Some 0\<rparr>"

definition sample_summary :: change_summary where
  "sample_summary =
     \<lparr>cs_entries = [sample_entry ''a'', sample_entry ''b'', sample_entry ''c''], cs_total_files = None,
      cs_next_offset = None, cs_offset = None, cs_added = 3, cs_removed = 0, cs_binary_files = 0,
      cs_truncated = False, cs_baseline_at = None, cs_unavailable = None\<rparr>"

lemma sample_fits: "entries_fit tc_path sample_summary"
  by (simp add: entries_fit_def sample_summary_def sample_entry_def)

theorem summary_pages_complete_witness:
  "collect 4 (summary_client tc_path sample_summary) 0 = Some (cs_entries sample_summary)"
  by (rule summary_pages_complete [OF sample_fits]) (simp add: sample_summary_def)

theorem page_for_shows_path_witness:
  "\<exists>page. page_for tc_path sample_summary None (Some ''c'') = Inr page \<and>
     ''c'' \<in> tc_path ` set (cs_entries page)"
  by (rule page_for_shows_path [OF sample_fits]) (simp add: sample_summary_def sample_entry_def)

section \<open>Nothing is left running after a restart\<close>

text \<open>The tables an event of a session does not write.\<close>

definition same_core :: "store \<Rightarrow> store \<Rightarrow> bool" where
  "same_core st st' \<longleftrightarrow>
     db_projects st' = db_projects st \<and> db_hidden_projects st' = db_hidden_projects st \<and>
     db_sessions st' = db_sessions st \<and> db_requests st' = db_requests st \<and>
     db_queue st' = db_queue st \<and> db_queue_position st' = db_queue_position st \<and>
     db_queue_state st' = db_queue_state st \<and> db_turn_changes st' = db_turn_changes st \<and>
     db_task_baselines st' = db_task_baselines st"

lemma same_core_refl [simp]: "same_core st st"
  by (simp add: same_core_def)

lemma same_core_trans: "same_core a b \<Longrightarrow> same_core b c \<Longrightarrow> same_core a c"
  by (simp add: same_core_def)

lemma insert_event_core: "insert_event st i t e = Inr st' \<Longrightarrow> same_core st st'"
  by (auto simp: insert_event_Inr same_core_def)

lemma read_clock_core: "read_clock st = (t, st') \<Longrightarrow> same_core st st'"
  by (auto simp: read_clock_def same_core_def)

lemma index_event_core: "index_event parse st i e = Inr st' \<Longrightarrow> same_core st st'"
  by (drule index_event_frame) (simp add: same_core_def same_but_sources_fields)

lemma track_subagent_core: "track_subagent st i t u = Inr (task, st') \<Longrightarrow> same_core st st'"
  by (auto simp: track_subagent_def upsert_subagent_def result_simps Let_def same_core_def)

lemma store_event_core: "store_event enc parse st i e = Inr st' \<Longrightarrow> same_core st st'"
  by (cases e)
     (auto simp: store_event_def result_simps split: prod.splits
       dest!: insert_event_core index_event_core read_clock_core track_subagent_core
       intro: same_core_trans)

lemma end_subagents_core:
  assumes "end_subagents enc parse st i s = Inr st'"
  shows "same_core st st'"
  by (rule for_each_invariant [OF assms [unfolded end_subagents_def]])
     (auto dest: store_event_core intro: same_core_trans)

text \<open>A loop whose every step removes its element from a set.\<close>

lemma for_each_removes:
  assumes "for_each f st xs = Inr st'"
    and "\<And>st x st'. f st x = Inr st' \<Longrightarrow> A st' \<subseteq> A st - {k x}"
  shows "A st' \<subseteq> A st - k ` set xs"
  using assms(1)
proof (induction xs arbitrary: st)
  case Nil
  then show ?case by simp
next
  case (Cons x xs)
  then obtain st1 where "f st x = Inr st1" "for_each f st1 xs = Inr st'" by (auto simp: result_simps)
  with assms(2) [of st x st1] Cons.IH [of st1] show ?case by auto
qed

definition forwarded_ids :: "store \<Rightarrow> string set" where
  "forwarded_ids st = q_session_id ` {r \<in> set (db_queue st). q_status r = Forwarded}"

definition open_turns :: "store \<Rightarrow> (string \<times> string) set" where
  "open_turns st = (\<lambda>r. (tr_session_id r, tr_request_id r)) ` {r \<in> set (db_turn_changes st). tr_baseline r \<noteq> None}"

definition active_ids :: "store \<Rightarrow> string set" where
  "active_ids st = sr_id ` {r \<in> set (db_sessions st). status_active (ses_status (sr_data r))}"

definition session_rows_ok :: "store \<Rightarrow> bool" where
  "session_rows_ok st \<longleftrightarrow> (\<forall>r \<in> set (db_sessions st). ses_id (sr_data r) = sr_id r)"

lemma image_update_where:
  assumes "\<And>r. p r \<Longrightarrow> \<not> q (f r)"
  shows "k ` {r \<in> set (update_where p f rs). q r} = k ` {r \<in> set rs. \<not> p r \<and> q r}"
proof -
  have "{r \<in> set (update_where p f rs). q r} = {r \<in> set rs. \<not> p r \<and> q r}"
    using assms by (induction rs) auto
  then show ?thesis by simp
qed

lemma recovered_iff:
  "forwarded_ids st = {} \<longleftrightarrow> list_all (\<lambda>r. q_status r \<noteq> Forwarded) (db_queue st)"
  "open_turns st = {} \<longleftrightarrow> list_all (\<lambda>r. tr_baseline r = None) (db_turn_changes st)"
  "active_ids st = {} \<longleftrightarrow> list_all (\<lambda>s. \<not> status_active (ses_status s)) (all_sessions st)"
  by (auto simp: list_all_iff forwarded_ids_def open_turns_def active_ids_def all_sessions_def)

lemma same_core_sets:
  "same_core st st' \<Longrightarrow> forwarded_ids st' = forwarded_ids st \<and> open_turns st' = open_turns st \<and>
     active_ids st' = active_ids st \<and> session_rows_ok st' = session_rows_ok st"
  by (simp add: same_core_def forwarded_ids_def open_turns_def active_ids_def session_rows_ok_def)

lemma uncertain_forwarded_ids:
  assumes "uncertain_forwarded enc parse st i = Inr st'"
  shows "forwarded_ids st' \<subseteq> forwarded_ids st - {i}" "db_sessions st' = db_sessions st"
proof -
  let ?p = "\<lambda>r. q_session_id r = i \<and> q_status r = Forwarded"
  let ?st = "st\<lparr>db_queue := update_where ?p (\<lambda>r. r\<lparr>q_status := Uncertain\<rparr>) (db_queue st)\<rparr>"
  from assms have c: "same_core ?st st'"
    by (auto simp: uncertain_forwarded_def Let_def dest: store_event_core split: if_splits)
  have "forwarded_ids ?st \<subseteq> forwarded_ids st - {i}"
    by (auto simp: forwarded_ids_def image_update_where)
  then show "forwarded_ids st' \<subseteq> forwarded_ids st - {i}" using same_core_sets [OF c] by blast
  show "db_sessions st' = db_sessions st" using c by (simp add: same_core_def)
qed

lemma pause_queue_frame:
  "pause_queue st i m = Inr st' \<Longrightarrow>
     db_queue st' = db_queue st \<and> db_sessions st' = db_sessions st \<and> db_turn_changes st' = db_turn_changes st \<and>
     db_events st' = db_events st \<and> db_requests st' = db_requests st"
  by (auto simp: pause_queue_def write_queue_state_def result_simps split: if_splits)

lemma pause_queue_ids: "pause_queue st i m = Inr st' \<Longrightarrow> forwarded_ids st' = forwarded_ids st"
  by (drule pause_queue_frame) (simp add: forwarded_ids_def)

lemma recover_forwarded_none:
  assumes "recover_forwarded enc parse st = Inr st'"
  shows "forwarded_ids st' = {}" "db_sessions st' = db_sessions st"
proof -
  have "forwarded_ids st' \<subseteq> forwarded_ids st - (\<lambda>i. i) ` set (remdups (map q_session_id (filter (\<lambda>r. q_status r = Forwarded) (db_queue st))))"
    by (rule for_each_removes [OF assms [unfolded recover_forwarded_def]])
       (auto simp: result_simps pause_queue_ids dest!: uncertain_forwarded_ids(1))
  then show "forwarded_ids st' = {}" by (auto simp: forwarded_ids_def)
  show "db_sessions st' = db_sessions st"
    by (rule for_each_invariant [OF assms [unfolded recover_forwarded_def]])
       (auto simp: result_simps dest!: uncertain_forwarded_ids(2) pause_queue_frame)
qed

lemma recover_subagents_core: "recover_subagents enc parse st = Inr st' \<Longrightarrow> same_core st st'"
  unfolding recover_subagents_def
  by (erule for_each_invariant) (auto dest: end_subagents_core intro: same_core_trans)

lemma recover_turn_sets:
  assumes "recover_turn enc parse st (i, rid) = Inr st'"
  shows "open_turns st' \<subseteq> open_turns st - {(i, rid)}" "forwarded_ids st' = forwarded_ids st"
    "db_sessions st' = db_sessions st"
proof -
  from assms obtain st1 where c: "same_core st st1"
    and st': "st' = st1\<lparr>db_turn_changes := update_where (turn_key i rid) (\<lambda>r. r\<lparr>tr_baseline := None\<rparr>) (db_turn_changes st1)\<rparr>"
    by (auto simp: recover_turn_def result_simps dest: store_event_core)
  have "open_turns st' \<subseteq> open_turns st1 - {(i, rid)}"
    by (auto simp: st' open_turns_def image_update_where turn_key_def)
  then show "open_turns st' \<subseteq> open_turns st - {(i, rid)}" using same_core_sets [OF c] by blast
  show "forwarded_ids st' = forwarded_ids st" "db_sessions st' = db_sessions st"
    using c by (auto simp: st' same_core_def forwarded_ids_def)
qed

lemma recover_turns_none:
  assumes "recover_turns enc parse st = Inr st'"
  shows "open_turns st' = {}" "forwarded_ids st' = forwarded_ids st" "db_sessions st' = db_sessions st"
proof -
  let ?xs = "map (\<lambda>r. (tr_session_id r, tr_request_id r)) (filter (\<lambda>r. tr_baseline r \<noteq> None) (db_turn_changes st))"
  have "open_turns st' \<subseteq> open_turns st - (\<lambda>x. x) ` set ?xs"
    by (rule for_each_removes [OF assms [unfolded recover_turns_def]]) (metis recover_turn_sets(1) surj_pair)
  then show "open_turns st' = {}" by (auto simp: open_turns_def)
  have "forwarded_ids st' = forwarded_ids st \<and> db_sessions st' = db_sessions st"
    by (rule for_each_invariant [OF assms [unfolded recover_turns_def]]) (metis recover_turn_sets(2,3) surj_pair)+
  then show "forwarded_ids st' = forwarded_ids st" "db_sessions st' = db_sessions st" by simp_all
qed

lemma recover_session_sets:
  assumes "recover_session enc parse st s = Inr st'"
  shows "active_ids st' \<subseteq> active_ids st - {ses_id s}" "forwarded_ids st' = forwarded_ids st"
    "open_turns st' = open_turns st"
proof -
  from assms have c: "same_core (save st (s\<lparr>ses_status := Unknown\<rparr>)) st'"
    by (auto simp: recover_session_def dest: store_event_core)
  have "active_ids (save st (s\<lparr>ses_status := Unknown\<rparr>)) \<subseteq> active_ids st - {ses_id s}"
    by (auto simp: active_ids_def save_def image_update_where)
  then show "active_ids st' \<subseteq> active_ids st - {ses_id s}" using same_core_sets [OF c] by blast
  show "forwarded_ids st' = forwarded_ids st" "open_turns st' = open_turns st"
    using same_core_sets [OF c] by (simp_all add: save_def forwarded_ids_def open_turns_def)
qed

end
