(* ===== verification/Attachments.thy ===== *)
theory Attachments
  imports Snapshots Paths "HOL-Library.AList"
begin

text \<open>
  Paste staging (\<open>attachments.rs\<close>): uploads in progress, each a temporary file of the private
  directory, and the completed files kept there. Times are milliseconds of the monotonic clock and
  arguments, like the random identifiers; a refused request can still have dropped expired uploads,
  so every operation returns the state beside its result. The service starts on whatever files earlier
  runs left in the directory, and a restart in mid-run keeps the completed files and, after a crash,
  also those temporary files nobody removed. Every entry of the private directory is a
  regular file of the service. Disk errors are not modelled; \<open>uuid_ok\<close> is the parser of the
  \<open>uuid\<close> crate.
\<close>

datatype (plugins only: code size) attach_error =
    AttachTooLarge | AttachNameInvalid | AttachTooMany | AttachDirFull | AttachCacheFull
  | AttachGone | AttachChunkInvalid | AttachIncomplete | AttachExists | AttachRootLink

definition MAX_FILE :: nat where
  "MAX_FILE = 64 * 1024 * 1024"

definition MAX_CACHE :: nat where
  "MAX_CACHE = 2 * 1024 * 1024 * 1024"

record upload =
  up_content :: bytes
  up_name :: string
  up_size :: nat
  up_written :: nat
  up_touched :: nat

record attachments =
  at_root :: string
  at_files :: "(string \<times> bytes) list"
  at_pending :: "(string \<times> upload) list"

text \<open>\<open>linked\<close> says whether the directory is a symbolic link, \<open>rt\<close> is its resolved path and
  \<open>files\<close> what it holds, all of which stays.\<close>

definition attachments_new :: "bool \<Rightarrow> string \<Rightarrow> (string \<times> bytes) list \<Rightarrow> attach_error + attachments" where
  "attachments_new linked rt files =
     (if linked then Inl AttachRootLink else Inr \<lparr>at_root = rt, at_files = files, at_pending = []\<rparr>)"

definition is_completed :: "(string \<Rightarrow> bool) \<Rightarrow> attachments \<Rightarrow> string \<Rightarrow> bool" where
  "is_completed uuid_ok a path =
     (case file_name path of
        None \<Rightarrow> False
      | Some n \<Rightarrow> components path = components (at_root a) @ [Normal n] \<and>
                 length n > 37 \<and> n ! 36 = CHR ''-'' \<and> uuid_ok (take 36 n))"

definition expired :: "nat \<Rightarrow> upload \<Rightarrow> bool" where
  "expired now p = (now - up_touched p \<ge> 600000)"

definition attach_name_bad :: "string \<Rightarrow> bool" where
  "attach_name_bad name =
     (name = [] \<or> length name > 180 \<or> list_ex (\<lambda>c. c = CHR ''/'' \<or> c = CHR 0x5C \<or> c = CHR 0x00) name
      \<or> name = ''.'' \<or> name = ''..'' \<or> any_control name)"

definition dir_used :: "attachments \<Rightarrow> nat" where
  "dir_used a = sum_list (map (length \<circ> snd) (at_files a)) +
                sum_list (map (length \<circ> up_content \<circ> snd) (at_pending a))"

definition reserved :: "attachments \<Rightarrow> nat" where
  "reserved a = sum_list (map (\<lambda>(_, p). up_size p - up_written p) (at_pending a))"

definition attach_begin ::
  "nat \<Rightarrow> string \<Rightarrow> attachments \<Rightarrow> string \<Rightarrow> nat \<Rightarrow> (attach_error + string) \<times> attachments" where
  "attach_begin now uuid a name sz =
     (let a = a\<lparr>at_pending := filter (\<lambda>(_, p). \<not> expired now p) (at_pending a)\<rparr>
      in if sz > MAX_FILE then (Inl AttachTooLarge, a)
         else if attach_name_bad name then (Inl AttachNameInvalid, a)
         else if length (at_pending a) \<ge> 8 then (Inl AttachTooMany, a)
         else if length (at_files a) + length (at_pending a) > 4096 then (Inl AttachDirFull, a)
         else if dir_used a + reserved a + sz > MAX_CACHE then (Inl AttachCacheFull, a)
         else (Inr uuid, a\<lparr>at_pending := AList.update uuid
                 \<lparr>up_content = [], up_name = name, up_size = sz, up_written = 0, up_touched = now\<rparr>
                 (at_pending a)\<rparr>))"

definition attach_chunk ::
  "nat \<Rightarrow> attachments \<Rightarrow> string \<Rightarrow> nat \<Rightarrow> bytes \<Rightarrow> (attach_error + unit) \<times> attachments" where
  "attach_chunk now a i offset data =
     (case map_of (at_pending a) i of
        None \<Rightarrow> (Inl AttachGone, a)
      | Some p \<Rightarrow>
          if expired now p \<or> data = [] \<or> length data > 65536 \<or> offset \<noteq> up_written p
             \<or> up_written p + length data > up_size p
          then (Inl AttachChunkInvalid, a)
          else (Inr (), a\<lparr>at_pending := AList.update i
                  (p\<lparr>up_content := up_content p @ data, up_written := up_written p + length data,
                     up_touched := now\<rparr>) (at_pending a)\<rparr>))"

definition attach_finish ::
  "nat \<Rightarrow> attachments \<Rightarrow> string \<Rightarrow> (attach_error + file_entry) \<times> attachments" where
  "attach_finish now a i =
     (case map_of (at_pending a) i of
        None \<Rightarrow> (Inl AttachGone, a)
      | Some p \<Rightarrow>
          if up_written p \<noteq> up_size p \<or> expired now p then (Inl AttachIncomplete, a)
          else let a = a\<lparr>at_pending := AList.delete i (at_pending a)\<rparr>;
                   file = i @ ''-'' @ up_name p
               in if file \<in> fst ` set (at_files a) then (Inl AttachExists, a)
                  else (Inr \<lparr>fe_name = up_name p, fe_path = at_root a @ ''/'' @ file, fe_directory = False\<rparr>,
                        a\<lparr>at_files := at_files a @ [(file, up_content p)]\<rparr>))"

definition attach_abort :: "attachments \<Rightarrow> string \<Rightarrow> attachments" where
  "attach_abort a i = a\<lparr>at_pending := AList.delete i (at_pending a)\<rparr>"

section \<open>Requests and the states they reach\<close>

text \<open>What a restart finds in the directory: the completed files and the temporary files that outlived the
  old process. \<open>stray i\<close> is the name of the temporary file of upload \<open>i\<close> if it is still there.\<close>

definition left_over :: "(string \<Rightarrow> string option) \<Rightarrow> attachments \<Rightarrow> (string \<times> bytes) list" where
  "left_over stray a = at_files a @
     List.map_filter (\<lambda>(i, p). map_option (\<lambda>n. (n, up_content p)) (stray i)) (at_pending a)"

definition attach_restart :: "(string \<Rightarrow> string option) \<Rightarrow> attachments \<Rightarrow> attachments" where
  "attach_restart stray a =
     (case attachments_new False (at_root a) (left_over stray a) of Inl _ \<Rightarrow> a | Inr b \<Rightarrow> b)"

datatype attach_op =
    Begin nat string string nat   \<comment> \<open>time, identifier, name, size\<close>
  | Chunk nat string nat bytes    \<comment> \<open>time, identifier, offset, data\<close>
  | Finish nat string
  | Abort string
  | Restart "string \<Rightarrow> string option"  \<comment> \<open>the temporary files left behind\<close>

fun attach_apply :: "attachments \<Rightarrow> attach_op \<Rightarrow> attachments" where
  "attach_apply a (Begin now uuid name sz) = snd (attach_begin now uuid a name sz)"
| "attach_apply a (Chunk now i offset data) = snd (attach_chunk now a i offset data)"
| "attach_apply a (Finish now i) = snd (attach_finish now a i)"
| "attach_apply a (Abort i) = attach_abort a i"
| "attach_apply a (Restart stray) = attach_restart stray a"

text \<open>What holds between requests: the recorded position is the length of the temporary file, no
  upload exceeds its size, the files together with everything promised stay within \<open>bound\<close> bytes and the
  directory within \<open>entries\<close> entries.\<close>

definition uploads_ok :: "attachments \<Rightarrow> bool" where
  "uploads_ok a \<longleftrightarrow>
     (\<forall>(_, p) \<in> set (at_pending a). up_written p = length (up_content p) \<and> up_written p \<le> up_size p
        \<and> up_size p \<le> MAX_FILE)"

definition promised :: "attachments \<Rightarrow> nat" where
  "promised a = sum_list (map (length \<circ> snd) (at_files a)) + sum_list (map (up_size \<circ> snd) (at_pending a))"

definition attach_ok :: "nat \<Rightarrow> nat \<Rightarrow> attachments \<Rightarrow> bool" where
  "attach_ok bound entries a \<longleftrightarrow> distinct (map fst (at_pending a)) \<and> uploads_ok a \<and> promised a \<le> bound
     \<and> length (at_pending a) \<le> 8 \<and> length (at_files a) + length (at_pending a) \<le> entries"

lemma used_reserved:
  "uploads_ok a \<Longrightarrow> dir_used a + reserved a = promised a"
proof -
  have "sum_list (map (length \<circ> up_content \<circ> snd) ps) + sum_list (map (\<lambda>(_, p). up_size p - up_written p) ps) =
        sum_list (map (up_size \<circ> snd) ps)"
    if "\<forall>(_, p) \<in> set ps. up_written p = length (up_content p) \<and> up_written p \<le> up_size p" for ps :: "(string \<times> upload) list"
    using that by (induction ps) auto
  then show "uploads_ok a \<Longrightarrow> ?thesis"
    by (fastforce simp: dir_used_def reserved_def promised_def uploads_ok_def)
qed

lemma sum_list_filter_le: "sum_list (map (f :: 'a \<Rightarrow> nat) (filter q xs)) \<le> sum_list (map f xs)"
  by (induction xs) auto

lemma distinct_fst_filter: "distinct (map fst xs) \<Longrightarrow> distinct (map fst (filter q xs))"
  by (induction xs) auto

lemma attach_ok_filter:
  assumes "attach_ok bound entries a"
  shows "attach_ok bound entries (a\<lparr>at_pending := filter q (at_pending a)\<rparr>)"
  using assms sum_list_filter_le [of "up_size \<circ> snd" q "at_pending a"] length_filter_le [of q "at_pending a"]
  by (auto simp: attach_ok_def uploads_ok_def promised_def distinct_fst_filter
      simp del: length_filter_le)

lemma sum_update_le: "sum_list (map (f \<circ> snd) (AList.update k v ps)) \<le> sum_list (map (f \<circ> snd) ps) + (f v :: nat)"
  by (induction ps) auto

lemma sum_update_same:
  "map_of ps k = Some p \<Longrightarrow> f v = f p \<Longrightarrow>
   sum_list (map (f \<circ> snd) (AList.update k v ps)) = sum_list (map (f \<circ> snd) ps :: nat list)"
  by (induction ps) auto

lemma length_update_same: "map_of ps k = Some p \<Longrightarrow> length (AList.update k v ps) = length ps"
  by (induction ps) auto

lemma length_update_le: "length (AList.update k v ps) \<le> Suc (length ps)"
  by (induction ps) auto

lemma sum_delete:
  "map_of ps k = Some p \<Longrightarrow> distinct (map fst ps) \<Longrightarrow>
   sum_list (map (f \<circ> snd) (AList.delete k ps)) + f p = sum_list (map (f \<circ> snd) ps :: nat list)"
proof (induction ps)
  case Nil
  then show ?case by simp
next
  case (Cons x ps)
  have "AList.delete k ps = ps" if "k \<notin> fst ` set ps" using that by (simp add: delete_id)
  with Cons show ?case by (cases x) auto
qed

lemma length_delete_less: "map_of ps k = Some p \<Longrightarrow> length (AList.delete k ps) < length ps"
  using map_of_SomeD [of ps k p] by (auto simp: AList.delete_eq intro: length_filter_less)

lemma in_set_update: "x \<in> set (AList.update k v ps) \<Longrightarrow> x = (k, v) \<or> x \<in> set ps"
  by (induction ps) (auto split: if_splits)

lemma attach_begin_ok:
  assumes "attach_ok bound entries a" and "MAX_CACHE \<le> bound" and "4097 \<le> entries"
  shows "attach_ok bound entries (snd (attach_begin now uuid a name sz))"
proof -
  let ?a = "a\<lparr>at_pending := filter (\<lambda>(_, p). \<not> expired now p) (at_pending a)\<rparr>"
  let ?p = "\<lparr>up_content = [], up_name = name, up_size = sz, up_written = 0, up_touched = now\<rparr>"
  have ok: "attach_ok bound entries ?a" using assms(1) by (rule attach_ok_filter)
  have "attach_ok bound entries (?a\<lparr>at_pending := AList.update uuid ?p (at_pending ?a)\<rparr>)"
    if "sz \<le> MAX_FILE" "length (at_pending ?a) < 8" "length (at_files ?a) + length (at_pending ?a) \<le> 4096" "dir_used ?a + reserved ?a + sz \<le> MAX_CACHE"
  proof -
    have "promised ?a + sz \<le> bound" using that(4) ok assms(2) used_reserved [of ?a] by (simp add: attach_ok_def)
    then have "promised (?a\<lparr>at_pending := AList.update uuid ?p (at_pending ?a)\<rparr>) \<le> bound"
      using sum_update_le [of up_size uuid ?p "at_pending ?a"] by (simp add: promised_def)
    moreover have "uploads_ok (?a\<lparr>at_pending := AList.update uuid ?p (at_pending ?a)\<rparr>)"
      using ok that(1) by (fastforce simp: attach_ok_def uploads_ok_def dest!: in_set_update)
    moreover have "distinct (map fst (AList.update uuid ?p (at_pending ?a)))"
      using ok by (simp add: attach_ok_def distinct_update)
    ultimately show ?thesis
      using that(2,3) assms(3) length_update_le [of uuid ?p "at_pending ?a"] by (simp add: attach_ok_def)
  qed
  with ok show ?thesis unfolding attach_begin_def Let_def by (simp split: if_split)
qed

lemma attach_chunk_ok:
  assumes "attach_ok bound entries a"
  shows "attach_ok bound entries (snd (attach_chunk now a i offset data))"
proof (cases "map_of (at_pending a) i")
  case None
  with assms show ?thesis by (simp add: attach_chunk_def)
next
  case (Some p)
  let ?p = "p\<lparr>up_content := up_content p @ data, up_written := up_written p + length data, up_touched := now\<rparr>"
  have p: "up_written p = length (up_content p)" "up_size p \<le> MAX_FILE"
    using assms map_of_SomeD [OF Some] by (auto simp: attach_ok_def uploads_ok_def)
  have "attach_ok bound entries (a\<lparr>at_pending := AList.update i ?p (at_pending a)\<rparr>)"
    if "up_written p + length data \<le> up_size p"
  proof -
    have "promised (a\<lparr>at_pending := AList.update i ?p (at_pending a)\<rparr>) = promised a"
      using sum_update_same [OF Some, of up_size ?p] by (simp add: promised_def)
    moreover have "uploads_ok (a\<lparr>at_pending := AList.update i ?p (at_pending a)\<rparr>)"
      using assms that p by (fastforce simp: attach_ok_def uploads_ok_def dest!: in_set_update)
    ultimately show ?thesis using assms length_update_same [OF Some]
      by (simp add: attach_ok_def distinct_update)
  qed
  with assms Some show ?thesis by (simp add: attach_chunk_def)
qed

lemma attach_abort_ok:
  assumes "attach_ok bound entries a"
  shows "attach_ok bound entries (attach_abort a i)"
proof -
  have "AList.delete i (at_pending a) = filter (\<lambda>(k, _). i \<noteq> k) (at_pending a)" by (simp add: AList.delete_eq)
  then show ?thesis using attach_ok_filter [OF assms] by (simp add: attach_abort_def)
qed

lemma attach_finish_ok:
  assumes "attach_ok bound entries a"
  shows "attach_ok bound entries (snd (attach_finish now a i))"
proof (cases "map_of (at_pending a) i")
  case None
  with assms show ?thesis by (simp add: attach_finish_def)
next
  case (Some p)
  have ab: "attach_ok bound entries (a\<lparr>at_pending := AList.delete i (at_pending a)\<rparr>)"
    using attach_abort_ok [OF assms, of i] by (simp add: attach_abort_def)
  have p: "up_written p = length (up_content p)"
    using assms map_of_SomeD [OF Some] by (auto simp: attach_ok_def uploads_ok_def)
  have "attach_ok bound entries (a\<lparr>at_pending := AList.delete i (at_pending a), at_files := at_files a @ [(f, up_content p)]\<rparr>)"
    if "up_written p = up_size p" for f
    using ab assms that p sum_delete [OF Some, of up_size] length_delete_less [OF Some] by (simp add: attach_ok_def promised_def uploads_ok_def)
  with ab assms Some show ?thesis by (simp add: attach_finish_def Let_def)
qed

lemma attach_restart_ok:
  assumes "attach_ok bound entries a"
  shows "attach_ok bound entries (attach_restart stray a)"
proof -
  let ?kept = "\<lambda>ps. List.map_filter (\<lambda>(i, p). map_option (\<lambda>n. (n, up_content p)) (stray i)) ps"
  have sizes: "sum_list (map (length \<circ> snd) (?kept ps)) \<le> sum_list (map (up_size \<circ> snd) ps)"
    if "\<forall>(_, p) \<in> set ps. up_written p = length (up_content p) \<and> up_written p \<le> up_size p" for ps
    using that by (induction ps) (auto simp: List.map_filter_def)
  have entries: "length (?kept ps) \<le> length ps" for ps
    by (simp add: List.map_filter_def)
  have "sum_list (map (length \<circ> snd) (?kept (at_pending a))) \<le> sum_list (map (up_size \<circ> snd) (at_pending a))"
    using assms by (intro sizes) (auto simp: attach_ok_def uploads_ok_def)
  then show ?thesis using assms entries [of "at_pending a"]
    by (simp add: attach_restart_def attachments_new_def left_over_def attach_ok_def uploads_ok_def promised_def)
qed

lemma attach_apply_ok:
  "attach_ok bound entries a \<Longrightarrow> MAX_CACHE \<le> bound \<Longrightarrow> 4097 \<le> entries \<Longrightarrow> attach_ok bound entries (attach_apply a r)"
  by (cases r) (simp_all add: attach_begin_ok attach_chunk_ok attach_finish_ok attach_abort_ok attach_restart_ok)

lemma attach_apply_files: "\<exists>new. at_files (attach_apply a r) = at_files a @ new"
  by (cases r) (auto simp: attach_begin_def attach_chunk_def attach_finish_def attach_abort_def attach_restart_def
      attachments_new_def left_over_def Let_def split: option.splits)

lemma attach_run_files: "\<exists>new. at_files (foldl attach_apply a requests) = at_files a @ new"
proof (induction requests arbitrary: a)
  case Nil
  then show ?case by simp
next
  case (Cons r requests)
  from attach_apply_files [of a r] Cons.IH [of "attach_apply a r"] show ?case by auto
qed

text \<open>C33: the service starts on any files left in its directory and then serves any requests, with any restarts between
  them, after crashes too. In every state this reaches at most eight uploads are open, no upload has received more than its
  announced size (itself at most 64 MiB) and its recorded position is exactly the length of its temporary file. The completed
  files together with everything promised to open uploads never exceed the 2 GiB of the cache, or what the directory held at
  the start if that was more, and the entries never exceed 4097 or their number at the start. No file is removed or changed.\<close>

theorem attachments_bounded:
  assumes "attachments_new linked rt files = Inr start"
  shows "attach_ok (max (sum_list (map (length \<circ> snd) files)) MAX_CACHE) (max (length files) 4097)
           (foldl attach_apply start requests) \<and>
         dir_used (foldl attach_apply start requests) \<le> max (sum_list (map (length \<circ> snd) files)) MAX_CACHE \<and>
         (\<exists>new. at_files (foldl attach_apply start requests) = files @ new)"
proof -
  let ?b = "max (sum_list (map (length \<circ> snd) files)) MAX_CACHE" and ?e = "max (length files) 4097"
  have start: "start = \<lparr>at_root = rt, at_files = files, at_pending = []\<rparr>"
    using assms by (simp add: attachments_new_def split: if_splits)
  have run: "attach_ok ?b ?e (foldl attach_apply a requests)" if "attach_ok ?b ?e a" for a
    using that by (induction requests arbitrary: a) (simp_all add: attach_apply_ok)
  have ok: "attach_ok ?b ?e (foldl attach_apply start requests)"
    by (rule run) (simp add: start attach_ok_def uploads_ok_def promised_def)
  then have "dir_used (foldl attach_apply start requests) \<le> ?b"
    using used_reserved [of "foldl attach_apply start requests"] by (simp add: attach_ok_def)
  with ok attach_run_files [of start requests] show ?thesis by (simp add: start)
qed

text \<open>A service that finds one completed file, receives part of another, crashes and is started again.\<close>

lemma attachments_bounded_witness:
  "\<exists>start. attachments_new False ''/r'' [(''u-f'', [1, 2])] = Inr start \<and>
     dir_used (foldl attach_apply start
       [Begin 5 ''v'' ''g'' 3, Chunk 5 ''v'' 0 [7], Restart (\<lambda>_. Some ''.tmp'')]) \<le> MAX_CACHE"
proof -
  obtain start where s: "attachments_new False ''/r'' [(''u-f'', [1, 2 :: 8 word])] = Inr start"
    by (simp add: attachments_new_def)
  from attachments_bounded [OF s, of "[Begin 5 ''v'' ''g'' 3, Chunk 5 ''v'' 0 [7], Restart (\<lambda>_. Some ''.tmp'')]"] s
  show ?thesis by (simp add: MAX_CACHE_def)
qed

section \<open>A whole upload\<close>





end
