(* ===== verification/Questions.thy ===== *)
theory Questions
  imports Protocol
begin

text \<open>
  Validation of the answers to an agent's questions (\<open>questions.rs\<close>): one pass with two sets,
  checked against a declarative specification of an acceptable set of answers.
\<close>

datatype (plugins only: code size) answer_error =
  AnswersIncomplete | AnswerUnknownQuestion | AnswerRepeated | AnswerOptionInvalid | AnswerTextTooLong
  | AnswerEmpty

text \<open>\<open>any(|i| !selected.insert(i) || i >= options.len())\<close>, with the set it leaves.\<close>

fun bad_option :: "nat \<Rightarrow> u32 list \<Rightarrow> u32 list \<Rightarrow> bool \<times> u32 list" where
  "bad_option options selected [] = (False, selected)"
| "bad_option options selected (i # is) =
     (if i \<in> set selected \<or> unat i \<ge> options then (True, selected)
      else bad_option options (i # selected) is)"

definition answer_text :: "question_answer \<Rightarrow> string" where
  "answer_text a = trim (case qa_text a of Some t \<Rightarrow> t | None \<Rightarrow> [])"

fun validate_answers ::
  "user_question list \<Rightarrow> string list \<Rightarrow> question_answer list \<Rightarrow> answer_error + unit" where
  "validate_answers questions seen [] = Inr ()"
| "validate_answers questions seen (a # as) =
     (case List.find (\<lambda>q. uq_id q = qa_question_id a) questions of
        None \<Rightarrow> Inl AnswerUnknownQuestion
      | Some q \<Rightarrow>
          and_then (ensure (qa_question_id a \<notin> set seen) AnswerRepeated) (\<lambda>_.
            let (bad, selected) = bad_option (length (uq_options q)) [] (qa_option_indices a)
            in and_then (ensure (\<not> bad) AnswerOptionInvalid) (\<lambda>_.
                 let t = answer_text a
                 in and_then (ensure (\<not> (length t > 32 * 1024 \<or> chars_count t > 8000)) AnswerTextTooLong) (\<lambda>_.
                      let count = length selected + (if t = [] then 0 else 1)
                      in and_then (ensure (\<not> (count = 0 \<or> (\<not> uq_multi_select q \<and> count \<noteq> 1))) AnswerEmpty) (\<lambda>_.
                           validate_answers questions (qa_question_id a # seen) as)))))"

definition validate_questions :: "user_question list \<Rightarrow> question_answer list \<Rightarrow> answer_error + unit" where
  "validate_questions questions answers =
     and_then (ensure (length answers = length questions) AnswersIncomplete) (\<lambda>_.
       validate_answers questions [] answers)"

section \<open>Specification\<close>

text \<open>An answer fits a question: distinct options of that question, a text within the limits, at least
  one of the two, and exactly one choice or text unless several may be selected.\<close>

definition answer_fits :: "user_question \<Rightarrow> question_answer \<Rightarrow> bool" where
  "answer_fits q a \<longleftrightarrow>
     distinct (qa_option_indices a) \<and>
     (\<forall>i \<in> set (qa_option_indices a). unat i < length (uq_options q)) \<and>
     length (answer_text a) \<le> 32 * 1024 \<and> chars_count (answer_text a) \<le> 8000 \<and>
     (if uq_multi_select q then qa_option_indices a \<noteq> [] \<or> answer_text a \<noteq> []
      else (length (qa_option_indices a) = 1 \<and> answer_text a = []) \<or>
           (qa_option_indices a = [] \<and> answer_text a \<noteq> []))"

lemma bad_option_spec:
  "fst (bad_option n selected is) \<longleftrightarrow>
     \<not> (distinct is \<and> (\<forall>i \<in> set is. unat i < n \<and> i \<notin> set selected)) \<and> is \<noteq> []"
  "\<not> fst (bad_option n selected is) \<Longrightarrow> length (snd (bad_option n selected is)) = length selected + length is"
  by (induction n selected "is" rule: bad_option.induct) auto

lemma fits_options:
  assumes "bad_option (length (uq_options q)) [] (qa_option_indices a) = (bad, selected)"
  shows "\<not> bad \<longleftrightarrow> distinct (qa_option_indices a) \<and>
           (\<forall>i \<in> set (qa_option_indices a). unat i < length (uq_options q))"
    and "\<not> bad \<Longrightarrow> length selected = length (qa_option_indices a)"
  using bad_option_spec [of "length (uq_options q)" "[]" "qa_option_indices a"] assms by auto

lemma choice_count:
  "(\<not> (n + (if t = [] then 0 else 1) = 0 \<or> (\<not> multi \<and> n + (if t = [] then 0 else 1) \<noteq> (1 :: nat)))) \<longleftrightarrow>
     (if multi then n \<noteq> 0 \<or> t \<noteq> [] else (n = 1 \<and> t = []) \<or> (n = 0 \<and> t \<noteq> []))"
  by auto

lemma validate_answers_Cons:
  "validate_answers questions seen (a # as) = Inr () \<longleftrightarrow>
     qa_question_id a \<notin> set seen \<and>
     (case List.find (\<lambda>q. uq_id q = qa_question_id a) questions of None \<Rightarrow> False | Some q \<Rightarrow> answer_fits q a) \<and>
     validate_answers questions (qa_question_id a # seen) as = Inr ()"
proof (cases "List.find (\<lambda>q. uq_id q = qa_question_id a) questions")
  case None
  then show ?thesis by simp
next
  case (Some q)
  obtain bad selected where b: "bad_option (length (uq_options q)) [] (qa_option_indices a) = (bad, selected)"
    by (cases "bad_option (length (uq_options q)) [] (qa_option_indices a)")
  note f = fits_options [OF b]
  have "answer_fits q a \<longleftrightarrow> \<not> bad \<and> length (answer_text a) \<le> 32 * 1024 \<and> chars_count (answer_text a) \<le> 8000 \<and>
      \<not> (length selected + (if answer_text a = [] then 0 else 1) = 0 \<or>
         (\<not> uq_multi_select q \<and> length selected + (if answer_text a = [] then 0 else 1) \<noteq> 1))"
    unfolding choice_count using f by (auto simp: answer_fits_def)
  then show ?thesis using Some b
    by (simp add: and_then_eq_Inr ensure_eq Let_def not_less del: One_nat_def)
qed

lemma validate_answers_iff:
  "validate_answers questions seen as = Inr () \<longleftrightarrow>
     distinct (map qa_question_id as) \<and> (\<forall>a \<in> set as. qa_question_id a \<notin> set seen \<and>
       (case List.find (\<lambda>q. uq_id q = qa_question_id a) questions of None \<Rightarrow> False | Some q \<Rightarrow> answer_fits q a))"
proof (induction "as" arbitrary: seen)
  case Nil
  then show ?case by simp
next
  case (Cons a "as")
  show ?case unfolding validate_answers_Cons Cons.IH by (auto simp: image_iff)
qed

text \<open>the answers are accepted exactly when they answer every question of the list once, each with
  distinct options of its own question and a bounded text, at least one of the two, and with a
  single choice where only one is allowed.\<close>

theorem validate_questions_iff:
  assumes "distinct (map uq_id questions)"
  shows "validate_questions questions answers = Inr () \<longleftrightarrow>
     distinct (map qa_question_id answers) \<and> qa_question_id ` set answers = uq_id ` set questions \<and>
     (\<forall>a \<in> set answers. \<forall>q \<in> set questions. uq_id q = qa_question_id a \<longrightarrow> answer_fits q a)"
proof -
  have found: "(case List.find (\<lambda>q. uq_id q = i) questions of None \<Rightarrow> False | Some q \<Rightarrow> P q) \<longleftrightarrow>
      (\<exists>q \<in> set questions. uq_id q = i \<and> P q)" for i P
  proof (cases "List.find (\<lambda>q. uq_id q = i) questions")
    case None
    then show ?thesis by (simp add: find_None [symmetric]) (auto simp: find_None)
  next
    case (Some q)
    with find_Some_in [OF Some] distinct_key_unique [OF assms] show ?thesis by auto
  qed
  have v: "validate_questions questions answers = Inr () \<longleftrightarrow>
      length answers = length questions \<and> distinct (map qa_question_id answers) \<and>
      (\<forall>a \<in> set answers. \<exists>q \<in> set questions. uq_id q = qa_question_id a \<and> answer_fits q a)"
    unfolding validate_questions_def and_then_eq_Inr ensure_eq validate_answers_iff found by simp
  have len: "length answers = length questions \<longleftrightarrow> qa_question_id ` set answers = uq_id ` set questions"
    if "distinct (map qa_question_id answers)" "qa_question_id ` set answers \<subseteq> uq_id ` set questions"
  proof -
    have "card (qa_question_id ` set answers) = length answers" "card (uq_id ` set questions) = length questions"
      using that(1) assms by (metis distinct_card length_map set_map)+
    then show ?thesis using card_subset_eq [OF _ that(2)] by auto
  qed
  show ?thesis
  proof
    assume "validate_questions questions answers = Inr ()"
    then have a: "length answers = length questions" "distinct (map qa_question_id answers)"
      and fit: "\<And>a. a \<in> set answers \<Longrightarrow> \<exists>q \<in> set questions. uq_id q = qa_question_id a \<and> answer_fits q a"
      by (simp_all add: v)
    have "qa_question_id ` set answers \<subseteq> uq_id ` set questions" using fit by force
    with len a have "qa_question_id ` set answers = uq_id ` set questions" by blast
    moreover have "answer_fits q a" if "a \<in> set answers" "q \<in> set questions" "uq_id q = qa_question_id a" for a q
      using fit [OF that(1)] that(2,3) distinct_key_unique [OF assms] by metis
    ultimately show "distinct (map qa_question_id answers) \<and> qa_question_id ` set answers = uq_id ` set questions \<and>
      (\<forall>a \<in> set answers. \<forall>q \<in> set questions. uq_id q = qa_question_id a \<longrightarrow> answer_fits q a)"
      using a(2) by blast
  next
    assume r: "distinct (map qa_question_id answers) \<and> qa_question_id ` set answers = uq_id ` set questions \<and>
      (\<forall>a \<in> set answers. \<forall>q \<in> set questions. uq_id q = qa_question_id a \<longrightarrow> answer_fits q a)"
    have "\<exists>q \<in> set questions. uq_id q = qa_question_id a \<and> answer_fits q a" if "a \<in> set answers" for a
    proof -
      have "qa_question_id a \<in> uq_id ` set questions" using r that by blast
      then obtain q where "q \<in> set questions" "uq_id q = qa_question_id a" by force
      with r that show ?thesis by blast
    qed
    with r len show "validate_questions questions answers = Inr ()" by (simp add: v)
  qed
qed

definition sample_question :: user_question where
  "sample_question =
     \<lparr>uq_id = ''q'', uq_header = [], uq_text = ''?'',
      uq_options = [\<lparr>qo_label = ''a'', qo_description = []\<rparr>, \<lparr>qo_label = ''b'', qo_description = []\<rparr>],
      uq_multi_select = False\<rparr>"

lemma validate_questions_iff_witness:
  "validate_questions [sample_question] [\<lparr>qa_question_id = ''q'', qa_option_indices = [1], qa_text = None\<rparr>] = Inr () \<and>
   validate_questions [sample_question] [\<lparr>qa_question_id = ''q'', qa_option_indices = [2], qa_text = None\<rparr>] \<noteq> Inr ()"
  by (subst (1 2) validate_questions_iff)
     (simp_all add: sample_question_def answer_fits_def answer_text_def chars_count_def)

end
