(* ===== verification/ProviderValidation.thy ===== *)
theory ProviderValidation
  imports Protocol
begin

text \<open>
  Validation of a provider profile (\<open>validation.rs\<close> of the configuration crate), in the order
  of the checks. The URL parser of the \<open>url\<close> crate is the argument \<open>parse\<close>.
\<close>

datatype (plugins only: code size) provider_error =
    ProviderNameInvalid | ProviderUrlTooLong | ProviderUrlInvalid | ProviderUrlForm | ProviderTooManyModels
  | ProviderModelInvalid | ProviderLabelInvalid | Provider1mInvalid | ProviderCredentialUnexpected
  | ProviderCredentialInvalid

record url =
  url_scheme :: string
  url_host :: "string option"
  url_username :: string
  url_password :: "string option"
  url_query :: "string option"
  url_fragment :: "string option"

definition any_space_or_control :: "string \<Rightarrow> bool" where
  "any_space_or_control s = list_ex (\<lambda>c. is_whitespace c \<or> is_control c) (chars s)"

definition to_ascii_lowercase :: "string \<Rightarrow> string" where
  "to_ascii_lowercase =
     map (\<lambda>c. if 65 \<le> byte c \<and> byte c \<le> 90 then char_of (byte c + 32) else c)"

definition ends_with :: "string \<Rightarrow> string \<Rightarrow> bool" where
  "ends_with suffix s = starts_with (rev suffix) (rev s)"

definition model_id_bad :: "string \<Rightarrow> bool" where
  "model_id_bad model =
     (model = [] \<or> length model > 256 \<or> starts_with ''-'' model \<or> any_space_or_control model)"

definition label_bad :: "string \<times> string \<Rightarrow> bool" where
  "label_bad l =
     (case l of (i, name) \<Rightarrow>
        i = [] \<or> length i > 256 \<or> any_space_or_control i \<or> chars_count name > 80 \<or> any_control name)"

text \<open>The pass over the models marked for one million tokens, with the set of those seen.\<close>

fun bad_1m :: "provider \<Rightarrow> string list \<Rightarrow> string list \<Rightarrow> bool" where
  "bad_1m p seen [] = False"
| "bad_1m p seen (m # ms) =
     (length m > 252 \<or> ends_with ''[1m]'' (to_ascii_lowercase m)
      \<or> (m \<noteq> pv_model p \<and> m \<notin> set (pv_models p)) \<or> m \<in> set seen
      \<or> bad_1m p (m # seen) ms)"

definition url_form_bad :: "url \<Rightarrow> bool" where
  "url_form_bad u =
     (url_scheme u \<notin> {''http'', ''https''} \<or> url_host u = None \<or> url_username u \<noteq> []
      \<or> url_password u \<noteq> None \<or> url_query u \<noteq> None \<or> url_fragment u \<noteq> None)"

definition validate_provider ::
  "(string \<Rightarrow> url option) \<Rightarrow> provider \<Rightarrow> string \<Rightarrow> provider_error + unit" where
  "validate_provider parse p credential =
     and_then (ensure (\<not> (pv_id p = [] \<or> length (pv_id p) > 100 \<or> pv_name p = []
         \<or> chars_count (pv_name p) > 80 \<or> any_control (pv_name p))) ProviderNameInvalid) (\<lambda>_.
     and_then (ensure (\<not> length (pv_base_url p) > 2048) ProviderUrlTooLong) (\<lambda>_.
     and_then (of_option ProviderUrlInvalid (parse (pv_base_url p))) (\<lambda>u.
     and_then (ensure (\<not> url_form_bad u) ProviderUrlForm) (\<lambda>_.
     and_then (ensure (\<not> length (pv_models p) > 256) ProviderTooManyModels) (\<lambda>_.
     and_then (ensure (\<not> list_ex model_id_bad (pv_model p # pv_models p)) ProviderModelInvalid) (\<lambda>_.
     and_then (ensure (\<not> (length (pv_model_labels p) > 257 \<or> list_ex label_bad (pv_model_labels p)))
                 ProviderLabelInvalid) (\<lambda>_.
     and_then (ensure (\<not> (length (pv_models_1m p) > 257
         \<or> (pv_models_1m p \<noteq> [] \<and> pv_protocol p \<noteq> AnthropicMessages)
         \<or> bad_1m p [] (pv_models_1m p))) Provider1mInvalid) (\<lambda>_.
       if pv_auth p = AuthNone
       then and_then (ensure (credential = []) ProviderCredentialUnexpected) (\<lambda>_. Inr ())
       else and_then (ensure (\<not> (trim credential = [] \<or> length credential > 8192 \<or> any_control credential))
                        ProviderCredentialInvalid) (\<lambda>_. Inr ())))))))))"

section \<open>Specification\<close>

lemma bad_1m_iff:
  "bad_1m p seen ms \<longleftrightarrow>
     \<not> (distinct ms \<and> set ms \<inter> set seen = {} \<and> set ms \<subseteq> insert (pv_model p) (set (pv_models p)) \<and>
        (\<forall>m \<in> set ms. length m \<le> 252 \<and> \<not> ends_with ''[1m]'' (to_ascii_lowercase m)))"
  by (induction p seen ms rule: bad_1m.induct) auto

definition credential_ok :: "provider \<Rightarrow> string \<Rightarrow> bool" where
  "credential_ok p credential \<longleftrightarrow>
     (if pv_auth p = AuthNone then credential = []
      else trim credential \<noteq> [] \<and> length credential \<le> 8192 \<and> \<not> any_control credential)"

definition url_ok :: "(string \<Rightarrow> url option) \<Rightarrow> string \<Rightarrow> bool" where
  "url_ok parse s \<longleftrightarrow>
     length s \<le> 2048 \<and>
     (\<exists>u h. parse s = Some u \<and> (url_scheme u = ''http'' \<or> url_scheme u = ''https'') \<and> url_host u = Some h \<and>
        url_username u = [] \<and> url_password u = None \<and> url_query u = None \<and> url_fragment u = None)"

definition models_ok :: "provider \<Rightarrow> bool" where
  "models_ok p \<longleftrightarrow>
     length (pv_models p) \<le> 256 \<and> (\<forall>m \<in> insert (pv_model p) (set (pv_models p)). \<not> model_id_bad m) \<and>
     length (pv_model_labels p) \<le> 257 \<and> (\<forall>l \<in> set (pv_model_labels p). \<not> label_bad l)"

definition models_1m_ok :: "provider \<Rightarrow> bool" where
  "models_1m_ok p \<longleftrightarrow>
     length (pv_models_1m p) \<le> 257 \<and> (pv_models_1m p = [] \<or> pv_protocol p = AnthropicMessages) \<and>
     distinct (pv_models_1m p) \<and> set (pv_models_1m p) \<subseteq> insert (pv_model p) (set (pv_models p)) \<and>
     (\<forall>m \<in> set (pv_models_1m p). length m \<le> 252 \<and> \<not> ends_with ''[1m]'' (to_ascii_lowercase m))"

lemma url_form_iff:
  "\<not> url_form_bad u \<longleftrightarrow>
     (url_scheme u = ''http'' \<or> url_scheme u = ''https'') \<and> (\<exists>h. url_host u = Some h) \<and>
        url_username u = [] \<and> url_password u = None \<and> url_query u = None \<and> url_fragment u = None"
  by (auto simp: url_form_bad_def)

lemma validate_provider_Inr:
  "validate_provider parse p credential = Inr () \<longleftrightarrow>
     \<not> (pv_id p = [] \<or> length (pv_id p) > 100 \<or> pv_name p = [] \<or> chars_count (pv_name p) > 80 \<or> any_control (pv_name p)) \<and>
     length (pv_base_url p) \<le> 2048 \<and> (\<exists>u. of_option ProviderUrlInvalid (parse (pv_base_url p)) = Inr u \<and> \<not> url_form_bad u) \<and>
     models_ok p \<and> models_1m_ok p \<and> credential_ok p credential"
  unfolding validate_provider_def models_ok_def models_1m_ok_def credential_ok_def
  by (simp add: and_then_eq_Inr ensure_eq of_option_eq bad_1m_iff list_ex_iff not_less split: if_split) blast

text \<open>a profile is accepted exactly when its name and identifier are bounded, its address is a plain
  HTTP(S) base URL, its models and labels are well-formed, the models marked for one million tokens
  are distinct configured models of an Anthropic endpoint that still carry no such suffix, and the
  credential fits the authentication.\<close>

theorem validate_provider_iff:
  "validate_provider parse p credential = Inr () \<longleftrightarrow>
     pv_id p \<noteq> [] \<and> length (pv_id p) \<le> 100 \<and> pv_name p \<noteq> [] \<and> chars_count (pv_name p) \<le> 80 \<and>
     \<not> any_control (pv_name p) \<and> url_ok parse (pv_base_url p) \<and> models_ok p \<and> models_1m_ok p \<and>
     credential_ok p credential"
proof -
  have url: "(\<exists>u. of_option ProviderUrlInvalid (parse s) = Inr u \<and> \<not> url_form_bad u) \<longleftrightarrow> url_ok parse s"
    if "length s \<le> 2048" for s
    using that by (auto simp: of_option_eq url_form_iff url_ok_def)
  show ?thesis unfolding validate_provider_Inr using url [of "pv_base_url p"] by (auto simp: url_ok_def)
qed

text \<open>The models of an accepted profile are safe as one command-line argument each, with or without
  the suffix the launcher adds for one million tokens: non-empty, at most 256 bytes and not starting
  with a dash.\<close>

theorem validated_models_as_arguments:
  assumes "validate_provider parse p credential = Inr ()"
    and "m \<in> insert (pv_model p) (set (pv_models p)) \<union> (\<lambda>m. m @ ''[1m]'') ` set (pv_models_1m p)"
  shows "m \<noteq> [] \<and> length m \<le> 256 \<and> hd m \<noteq> CHR ''-''"
proof -
  have ok: "models_ok p" "models_1m_ok p" using assms(1) by (simp_all add: validate_provider_Inr)
  have base: "m \<noteq> [] \<and> length m \<le> 256 \<and> hd m \<noteq> CHR ''-''" if "m \<in> insert (pv_model p) (set (pv_models p))" for m
  proof -
    have "\<not> model_id_bad m" using that ok(1) unfolding models_ok_def by blast
    then show ?thesis by (cases m) (auto simp add: model_id_bad_def)
  qed
  from assms(2) show ?thesis
  proof
    assume "m \<in> (\<lambda>m. m @ ''[1m]'') ` set (pv_models_1m p)"
    then obtain m' where m': "m = m' @ ''[1m]''" "m' \<in> set (pv_models_1m p)" by blast
    then have "m' \<in> insert (pv_model p) (set (pv_models p))" "length m' \<le> 252"
      using ok(2) by (auto simp: models_1m_ok_def)
    with base [of m'] m'(1) show ?thesis by auto
  qed (rule base)
qed

definition sample_provider :: provider where
  "sample_provider =
     \<lparr>pv_id = ''p'', pv_name = ''n'', pv_protocol = AnthropicMessages, pv_base_url = ''https://a'',
      pv_model = ''m'', pv_models = [''m'', ''k''], pv_model_labels = [], pv_models_1m = [''k''],
      pv_auth = AuthNone, pv_has_credential = False, pv_revision = []\<rparr>"

definition sample_url :: url where
  "sample_url =
     \<lparr>url_scheme = ''https'', url_host = Some ''a'', url_username = [], url_password = None,
      url_query = None, url_fragment = None\<rparr>"

lemma validated_models_as_arguments_witness:
  "hd ''k[1m]'' \<noteq> CHR ''-'' \<and> validate_provider (\<lambda>_. Some sample_url) sample_provider [] = Inr ()"
proof -
  have v: "validate_provider (\<lambda>_. Some sample_url) sample_provider [] = Inr ()"
    by (simp add: validate_provider_def sample_provider_def sample_url_def url_form_bad_def model_id_bad_def
        any_space_or_control_def any_control_def chars_count_def is_whitespace_def is_control_def
        utf8_width_def byte_def ends_with_def to_ascii_lowercase_def)
  from validated_models_as_arguments [OF v, of "''k[1m]''"] v show ?thesis
    by (auto simp: sample_provider_def)
qed

end
