(* ===== verification/Terminals.thy ===== *)
theory Terminals
  imports Store Paging
begin

text \<open>
  Interactive terminals (\<open>terminal.rs\<close>): the bounded output ring with its byte cursors, the
  table of at most sixteen terminals with their operations, the guards of an input, and the timed
  closing of a process group. Byte positions are natural numbers (the code's \<open>u64\<close> and its
  \<open>f64\<close> image are exact below $2^{53}$). The operating system is an argument: whether a shell
  could be spawned, what the child and its foreground group are, whether an input was delivered.
  Mutex poisoning is not modelled.
\<close>

datatype (plugins only: code size) terminal_error =
    TermCursorInvalid | TermSizeInvalid | TermIdInvalid | TermOtherProject | TermLimit
  | TermDirMissing | TermNotDirectory | TermSpawnFailed | TermClosed | TermExited | TermInputInvalid
  | TermInputFull | TermInputFailed

definition MAX_TERMINALS :: nat where "MAX_TERMINALS = 16"
definition OUTPUT_LIMIT :: nat where "OUTPUT_LIMIT = 1024 * 1024"
definition READ_LIMIT :: nat where "READ_LIMIT = 64 * 1024"
definition INPUT_LIMIT :: nat where "INPUT_LIMIT = 16 * 1024"

section \<open>The output ring\<close>

record output_ring =
  out_bytes :: bytes
  out_end :: nat
  out_eof :: bool

definition output_default :: output_ring where
  "output_default = \<lparr>out_bytes = [], out_end = 0, out_eof = False\<rparr>"

definition output_append :: "output_ring \<Rightarrow> bytes \<Rightarrow> output_ring" where
  "output_append out data =
     (let all = out_bytes out @ data
      in out\<lparr>out_end := out_end out + length data, out_bytes := drop (length all - OUTPUT_LIMIT) all\<rparr>)"

text \<open>\<open>!after.is_finite() || after < 0.0 || after.fract() != 0.0 || after > end\<close>; a valid cursor is
  returned as a position.\<close>

definition byte_cursor :: "f64 \<Rightarrow> nat \<Rightarrow> nat option" where
  "byte_cursor after limit =
     (case after of
        Fin r \<Rightarrow> if r < 0 \<or> r \<noteq> of_int \<lfloor>r\<rfloor> \<or> r > of_nat limit then None else Some (nat \<lfloor>r\<rfloor>)
      | _ \<Rightarrow> None)"

definition output_read :: "output_ring \<Rightarrow> f64 \<Rightarrow> terminal_error + (bytes \<times> nat \<times> bool \<times> bool)" where
  "output_read out after =
     and_then (of_option TermCursorInvalid (byte_cursor after (out_end out))) (\<lambda>position.
       let start = out_end out - length (out_bytes out);
           offset = max position start;
           data = take READ_LIMIT (drop (offset - start) (out_bytes out));
           nxt = offset + length data
       in Inr (data, nxt, nxt < out_end out, position < start))"

section \<open>A terminal and its closing\<close>

datatype (plugins only: code size) signal = SIGHUP | SIGKILL

record terminal =
  tm_info :: terminal_info
  tm_output :: output_ring
  tm_exited :: bool
  tm_exit_code :: "u32 option"
  tm_closing :: "nat option"

text \<open>What the operating system says of the child: its process id and the foreground group.\<close>

record child_view =
  cv_pid :: "int option"
  cv_leader :: "int option"

definition stop_foreground :: "child_view \<Rightarrow> (int \<times> signal) list" where
  "stop_foreground cv =
     (case cv_leader cv of
        Some p \<Rightarrow> if p > 1 \<and> Some p \<noteq> cv_pid cv then [(p, SIGKILL)] else []
      | None \<Rightarrow> [])"

definition control_stop :: "nat \<Rightarrow> child_view \<Rightarrow> terminal \<Rightarrow> terminal \<times> (int \<times> signal) list" where
  "control_stop now cv t =
     (if tm_exited t then (t, [])
      else if tm_closing t \<noteq> None then (t, [])
      else (t\<lparr>tm_closing := Some now\<rparr>, stop_foreground cv))"

definition advance_close :: "nat \<Rightarrow> child_view \<Rightarrow> terminal \<Rightarrow> (int \<times> signal) list" where
  "advance_close now cv t =
     (case tm_closing t of
        None \<Rightarrow> []
      | Some since \<Rightarrow>
          stop_foreground cv @
          (if now - since < 100 then []
           else case cv_pid cv of
                  Some pid \<Rightarrow> if pid > 1 then [(pid, if now - since < 500 then SIGHUP else SIGKILL)] else []
                | None \<Rightarrow> []))"

text \<open>The supervisor saw the child exit.\<close>

definition child_exited :: "u32 \<Rightarrow> terminal \<Rightarrow> terminal" where
  "child_exited code t = t\<lparr>tm_exited := True, tm_exit_code := Some code\<rparr>"

definition terminal_snapshot :: "terminal \<Rightarrow> terminal_info" where
  "terminal_snapshot t =
     (tm_info t)\<lparr>ti_exited := tm_exited t \<and> out_eof (tm_output t), ti_exit_code := tm_exit_code t\<rparr>"

section \<open>The table\<close>

type_synonym terminals = "(string \<times> terminal) list"

definition terminal_size :: "nat \<Rightarrow> nat \<Rightarrow> terminal_error + (nat \<times> nat)" where
  "terminal_size cols rows =
     and_then (ensure (2 \<le> cols \<and> cols \<le> 500 \<and> 1 \<le> rows \<and> rows \<le> 300) TermSizeInvalid) (\<lambda>_.
       Inr (rows, cols))"

definition terminal_is_open :: "terminals \<Rightarrow> string \<Rightarrow> bool" where
  "terminal_is_open ts i = (case map_of ts i of Some t \<Rightarrow> \<not> tm_exited t | None \<Rightarrow> False)"

definition terminal_list :: "terminals \<Rightarrow> string \<Rightarrow> response" where
  "terminal_list ts pid =
     response.Terminals (sort_key ti_id
       (map terminal_snapshot (filter (\<lambda>t. ti_project_id (tm_info t) = pid) (map snd ts))))"

definition new_terminal :: "string \<Rightarrow> string \<Rightarrow> string \<Rightarrow> terminal" where
  "new_terminal i pid title =
     \<lparr>tm_info = \<lparr>ti_id = i, ti_project_id = pid, ti_title = title, ti_exited = False, ti_exit_code = None\<rparr>,
      tm_output = output_default, tm_exited = False, tm_exit_code = None, tm_closing = None\<rparr>"

definition terminal_create ::
  "(string \<Rightarrow> bool) \<Rightarrow> host_fs \<Rightarrow> bool \<Rightarrow> string \<Rightarrow> terminals \<Rightarrow> string \<Rightarrow> string \<Rightarrow> string \<Rightarrow> nat \<Rightarrow> nat
     \<Rightarrow> terminal_error + (response \<times> terminals)" where
  "terminal_create uuid_ok fs spawned title ts pid path i cols rows =
     and_then (terminal_size cols rows) (\<lambda>_.
     and_then (ensure (uuid_ok i) TermIdInvalid) (\<lambda>_.
       case map_of ts i of
         Some existing \<Rightarrow>
           and_then (ensure (ti_project_id (tm_info existing) = pid) TermOtherProject) (\<lambda>_.
             Inr (response.Terminal (terminal_snapshot existing), ts))
       | None \<Rightarrow>
           and_then (ensure (length ts < MAX_TERMINALS) TermLimit) (\<lambda>_.
           and_then (of_option TermDirMissing (fs_canonicalize fs path)) (\<lambda>canonical.
           and_then (ensure (fs_is_dir fs canonical) TermNotDirectory) (\<lambda>_.
           and_then (ensure spawned TermSpawnFailed) (\<lambda>_.
             let t = new_terminal i pid title
             in Inr (response.Terminal (terminal_snapshot t), ts @ [(i, t)])))))))"

definition terminal_get :: "terminals \<Rightarrow> string \<Rightarrow> terminal_error + terminal" where
  "terminal_get ts i = of_option TermClosed (map_of ts i)"

definition terminal_read :: "terminals \<Rightarrow> string \<Rightarrow> f64 \<Rightarrow> terminal_error + response" where
  "terminal_read ts i after =
     and_then (terminal_get ts i) (\<lambda>t.
     and_then (output_read (tm_output t) after) (\<lambda>(data, nxt, more, truncated).
       Inr (TerminalOutput (terminal_snapshot t) data (of_nat nxt) more truncated)))"

definition terminal_resize :: "terminals \<Rightarrow> string \<Rightarrow> nat \<Rightarrow> nat \<Rightarrow> terminal_error + response" where
  "terminal_resize ts i cols rows =
     and_then (terminal_size cols rows) (\<lambda>_.
     and_then (terminal_get ts i) (\<lambda>t.
     and_then (ensure (\<not> tm_exited t) TermExited) (\<lambda>_. Inr RespOk)))"

definition terminal_close :: "terminals \<Rightarrow> string \<Rightarrow> response \<times> terminals" where
  "terminal_close ts i = (RespOk, filter (\<lambda>(k, _). k \<noteq> i) ts)"

definition set_terminal :: "terminals \<Rightarrow> string \<Rightarrow> (terminal \<Rightarrow> terminal) \<Rightarrow> terminals" where
  "set_terminal ts i f = map (\<lambda>(k, t). (k, if k = i then f t else t)) ts"

text \<open>An input is checked, queued for the writer thread (which has room for eight) and confirmed; a
  failed or late confirmation stops the terminal.\<close>

definition terminal_write ::
  "nat \<Rightarrow> child_view \<Rightarrow> bool \<Rightarrow> bool \<Rightarrow> terminals \<Rightarrow> string \<Rightarrow> bytes \<Rightarrow> (terminal_error + response) \<times> terminals" where
  "terminal_write now cv queued delivered ts i data =
     (if data = [] \<or> length data > INPUT_LIMIT then (Inl TermInputInvalid, ts)
      else case map_of ts i of
             None \<Rightarrow> (Inl TermClosed, ts)
           | Some t \<Rightarrow>
               if tm_exited t then (Inl TermExited, ts)
               else if \<not> queued then (Inl TermInputFull, ts)
               else if delivered then (Inr RespOk, ts)
               else (Inl TermInputFailed, set_terminal ts i (\<lambda>t. fst (control_stop now cv t))))"

section \<open>The ring keeps a suffix of the stream\<close>

definition ring_of :: "bytes \<Rightarrow> output_ring \<Rightarrow> bool" where
  "ring_of s out \<longleftrightarrow> out_end out = length s \<and> out_bytes out = drop (length s - OUTPUT_LIMIT) s"

lemma ring_of_default: "ring_of [] output_default"
  by (simp add: ring_of_def output_default_def)

lemma drop_drop_append:
  "drop (length (drop (length s - n) s @ d) - n) (drop (length s - n) s @ d) = drop (length (s @ d) - n) (s @ d)"
proof -
  have e: "drop (length s - n) s @ d = drop (length s - n) (s @ d)" by simp
  show ?thesis unfolding e by (cases "n \<le> length s") (simp_all add: add.commute)
qed

lemma take_drop_split: "drop a xs = take n (drop a xs) @ drop (a + n) xs"
proof -
  have "drop (a + n) xs = drop n (drop a xs)" by (simp add: add.commute)
  then show ?thesis by (simp only: append_take_drop_id)
qed

lemma ring_of_append: "ring_of s out \<Longrightarrow> ring_of (s @ d) (output_append out d)"
  using drop_drop_append [of s OUTPUT_LIMIT d] by (simp add: ring_of_def output_append_def Let_def)

lemma ring_of_appends: "ring_of s out \<Longrightarrow> ring_of (s @ concat ds) (foldl output_append out ds)"
proof (induction ds arbitrary: s out)
  case Nil
  then show ?case by simp
next
  case (Cons d ds)
  from Cons.IH [OF ring_of_append [OF Cons.prems]] show ?case by simp
qed

lemma byte_cursor_nat [simp]: "byte_cursor (Fin (of_nat c)) n = (if c \<le> n then Some c else None)"
  by (simp add: byte_cursor_def)

lemma byte_cursor_Some: "byte_cursor x n = Some c \<longleftrightarrow> x = Fin (of_nat c) \<and> c \<le> n"
proof
  assume c: "byte_cursor x n = Some c"
  then obtain r where x: "x = Fin r" by (cases x) (simp_all add: byte_cursor_def)
  from c have "\<not> (r < 0 \<or> r \<noteq> of_int \<lfloor>r\<rfloor> \<or> r > of_nat n)" and cr: "c = nat \<lfloor>r\<rfloor>"
    unfolding byte_cursor_def x f64.case by (simp_all only: option.distinct option.inject not_False_eq_True split: if_split_asm)
  then have "0 \<le> r" and i: "of_int \<lfloor>r\<rfloor> = r" and n: "r \<le> of_nat n" by auto
  then have "int c = \<lfloor>r\<rfloor>" by (simp add: cr)
  then have "(of_nat c :: rat) = r" using i by (metis of_int_of_nat_eq)
  with n x show "x = Fin (of_nat c) \<and> c \<le> n" by auto
qed simp

text \<open>A read in terms of the whole stream.\<close>

lemma output_read_stream:
  assumes "ring_of s out" and "c \<le> length s"
  shows "output_read out (Fin (of_nat c)) =
    (let lost = length s - OUTPUT_LIMIT; from = max c lost;
         data = take READ_LIMIT (drop from s)
     in Inr (data, from + length data, from + length data < length s, c < lost))"
proof -
  let ?lost = "length s - OUTPUT_LIMIT"
  have start: "out_end out - length (out_bytes out) = ?lost"
    using assms(1) by (auto simp: ring_of_def)
  have "drop (max c ?lost - ?lost) (out_bytes out) = drop (max c ?lost) s"
    using assms(1) by (simp add: ring_of_def)
  then show ?thesis using assms by (simp add: output_read_def start Let_def ring_of_def)
qed

text \<open>Following the cursors while nothing is appended: the pages of the ring.\<close>

definition ring_page :: "output_ring \<Rightarrow> nat \<Rightarrow> terminal_error + (bytes \<times> nat option)" where
  "ring_page out c =
     and_then (output_read out (Fin (of_nat c))) (\<lambda>(data, nxt, more, truncated).
       Inr (data, if more then Some nxt else None))"

definition ring_good :: "output_ring \<Rightarrow> nat \<Rightarrow> bool" where
  "ring_good out c \<longleftrightarrow> c \<le> out_end out \<and> length (out_bytes out) \<le> out_end out"

definition ring_remaining :: "output_ring \<Rightarrow> nat \<Rightarrow> bytes" where
  "ring_remaining out c = drop (c - (out_end out - length (out_bytes out))) (out_bytes out)"

lemma page_end:
  fixes c s l e r :: nat
  assumes "l + s = e" and "c \<le> e"
  shows "max c s + min (l - (c - s)) r < e \<longleftrightarrow> r < l - (c - s)"
  using assms by (cases "c \<le> s") (auto simp: max_def min_def)

interpretation ring: pager ring_good ring_remaining ring_page
proof unfold_locales
  fix out c
  assume g: "ring_good out c"
  let ?start = "out_end out - length (out_bytes out)"
  let ?data = "take READ_LIMIT (drop (max c ?start - ?start) (out_bytes out))"
  have read: "output_read out (Fin (of_nat c)) =
      Inr (?data, max c ?start + length ?data, max c ?start + length ?data < out_end out, c < ?start)"
    using g by (simp add: output_read_def ring_good_def Let_def)
  have off: "max c ?start - ?start = c - ?start" by simp
  have len: "length (out_bytes out) + ?start = out_end out" using g by (simp add: ring_good_def)
  have more_iff: "max c ?start + length ?data < out_end out \<longleftrightarrow> READ_LIMIT < length (out_bytes out) - (c - ?start)"
    using page_end [OF len, of c READ_LIMIT] g by (simp add: ring_good_def off)
  define nxt where "nxt = max c ?start + length ?data"
  define data where "data = ?data"
  have page: "ring_page out c = Inr (data, if nxt < out_end out then Some nxt else None)"
    by (simp only: ring_page_def read and_then_simps prod.case nxt_def data_def)
  show "\<exists>xs n. ring_page out c = Inr (xs, n)" by (simp add: page)
  fix xs
  { assume "ring_page out c = Inr (xs, None)"
    then have "xs = data" "\<not> nxt < out_end out" by (simp_all add: page split: if_split_asm)
    then have xs: "xs = ?data" and "\<not> max c ?start + length ?data < out_end out"
      by (simp_all only: data_def nxt_def not_False_eq_True)
    then have "length (drop (c - ?start) (out_bytes out)) \<le> READ_LIMIT" by (simp only: more_iff length_drop not_less)
    then show "ring_remaining out c = xs" by (simp only: ring_remaining_def xs off take_all) }
  { fix c' assume "ring_page out c = Inr (xs, Some c')"
    then have "xs = data" "nxt < out_end out" "c' = nxt" by (simp_all add: page split: if_split_asm)
    then have xs: "xs = ?data" and more: "max c ?start + length ?data < out_end out"
      and c': "c' = max c ?start + length ?data"
      by (simp_all only: data_def nxt_def not_False_eq_True)
    have rest: "READ_LIMIT < length (out_bytes out) - (c - ?start)" using more by (simp only: more_iff)
    then have "length ?data = READ_LIMIT" by (simp add: off)
    then have c'_off: "c' - ?start = (c - ?start) + READ_LIMIT" by (simp add: c' max_def)
    have "ring_remaining out c = xs @ ring_remaining out c'"
      using take_drop_split [of "c - ?start" "out_bytes out" READ_LIMIT]
      by (simp only: ring_remaining_def xs off c'_off)
    moreover have "xs \<noteq> []" using \<open>length ?data = READ_LIMIT\<close> xs by (auto simp: READ_LIMIT_def)
    moreover have "ring_good out c'"
      using g more less_imp_le [of c' "out_end out"] by (simp only: ring_good_def c' simp_thms)
    ultimately show "xs \<noteq> [] \<and> ring_good out c' \<and> ring_remaining out c = xs @ ring_remaining out c'"
      by blast }
qed

text \<open>whatever the shell has written, a read at a position inside the stream returns the bytes of the
  stream from that position on, or from the oldest byte kept when the ring has dropped more, says
  exactly whether bytes were lost, and its next cursor is the position behind the data; at most
  64 KiB are returned.\<close>

theorem terminal_output_reads:
  fixes writes :: "bytes list"
  defines "out \<equiv> foldl output_append output_default writes"
  defines "lost \<equiv> length (concat writes) - OUTPUT_LIMIT"
  shows "output_read out after =
     (case byte_cursor after (length (concat writes)) of
        None \<Rightarrow> Inl TermCursorInvalid
      | Some c \<Rightarrow>
          (let from = max c lost; data = take READ_LIMIT (drop from (concat writes))
           in Inr (data, from + length data, from + length data < length (concat writes), c < lost)))"
proof -
  have ring: "ring_of (concat writes) out"
    using ring_of_appends [OF ring_of_default, of writes] by (simp add: out_def)
  show ?thesis
  proof (cases "byte_cursor after (length (concat writes))")
    case None
    then show ?thesis using ring by (simp add: output_read_def ring_of_def)
  next
    case (Some c)
    then have "after = Fin (of_nat c)" "c \<le> length (concat writes)" by (simp_all add: byte_cursor_Some)
    with output_read_stream [OF ring this(2)] show ?thesis by (simp add: lost_def Let_def)
  qed
qed

text \<open>a client that follows the cursors of an idle terminal gets every byte the ring still holds after
  its position, in order; as many reads as there are bytes suffice.\<close>

theorem terminal_drain_complete:
  fixes writes :: "bytes list"
  assumes "c \<le> length (concat writes)" and "length (concat writes) < fuel"
  shows "collect fuel (ring_page (foldl output_append output_default writes)) c =
           Some (drop (max c (length (concat writes) - OUTPUT_LIMIT)) (concat writes))"
proof -
  let ?out = "foldl output_append output_default writes"
  let ?s = "concat writes"
  have r: "out_end ?out = length ?s" "out_bytes ?out = drop (length ?s - OUTPUT_LIMIT) ?s"
    using ring_of_appends [OF ring_of_default, of writes] by (simp_all add: ring_of_def)
  have good: "ring_good ?out c" using assms(1) by (simp add: ring_good_def r)
  have rem: "ring_remaining ?out c = drop (max c (length ?s - OUTPUT_LIMIT)) ?s"
    by (simp add: ring_remaining_def r) (simp add: max_def)
  from ring.collect_complete [OF good, of fuel] assms(2) show ?thesis by (simp add: rem)
qed

lemma terminal_drain_complete_witness:
  "collect 9 (ring_page (foldl output_append output_default [[1, 2], [3]])) 1 = Some [2, 3]"
  using terminal_drain_complete [of 1 "[[1, 2], [3]]" 9] by (simp add: OUTPUT_LIMIT_def)

section \<open>The table stays bounded\<close>

datatype terminal_op =
    TCreate string string string nat nat bool
  | TOutput string bytes
  | TEof string
  | TExit string u32
  | TWrite nat child_view bool bool string bytes
  | TClose string
  | TCloseAll

fun terminal_apply :: "(string \<Rightarrow> bool) \<Rightarrow> host_fs \<Rightarrow> terminals \<Rightarrow> terminal_op \<Rightarrow> terminals" where
  "terminal_apply uuid_ok fs ts (TCreate pid path i cols rows spawned) =
     (case terminal_create uuid_ok fs spawned ''sh'' ts pid path i cols rows of
        Inl _ \<Rightarrow> ts | Inr (_, ts') \<Rightarrow> ts')"
| "terminal_apply uuid_ok fs ts (TOutput i data) =
     set_terminal ts i (\<lambda>t. t\<lparr>tm_output := output_append (tm_output t) data\<rparr>)"
| "terminal_apply uuid_ok fs ts (TEof i) =
     set_terminal ts i (\<lambda>t. t\<lparr>tm_output := (tm_output t)\<lparr>out_eof := True\<rparr>\<rparr>)"
| "terminal_apply uuid_ok fs ts (TExit i code) = set_terminal ts i (child_exited code)"
| "terminal_apply uuid_ok fs ts (TWrite now cv queued delivered i data) =
     snd (terminal_write now cv queued delivered ts i data)"
| "terminal_apply uuid_ok fs ts (TClose i) = snd (terminal_close ts i)"
| "terminal_apply uuid_ok fs ts TCloseAll = []"

definition terminals_ok :: "terminals \<Rightarrow> bool" where
  "terminals_ok ts \<longleftrightarrow>
     length ts \<le> MAX_TERMINALS \<and> distinct (map fst ts) \<and>
     (\<forall>(i, t) \<in> set ts. ti_id (tm_info t) = i \<and> length (out_bytes (tm_output t)) \<le> OUTPUT_LIMIT)"

lemma set_terminal_keys [simp]: "map fst (set_terminal ts i f) = map fst ts"
  by (induction ts) (auto simp: set_terminal_def)

lemma terminals_ok_set:
  assumes "terminals_ok ts"
    and "\<And>t. length (out_bytes (tm_output t)) \<le> OUTPUT_LIMIT \<Longrightarrow>
           tm_info (f t) = tm_info t \<and> length (out_bytes (tm_output (f t))) \<le> OUTPUT_LIMIT"
  shows "terminals_ok (set_terminal ts i f)"
proof -
  have "length (set_terminal ts i f) = length ts" by (simp add: set_terminal_def)
  then show ?thesis using assms by (auto simp: terminals_ok_def) (auto simp: set_terminal_def split: if_splits)
qed

lemma control_stop_keeps:
  "tm_info (fst (control_stop now cv t)) = tm_info t" "tm_output (fst (control_stop now cv t)) = tm_output t"
  by (simp_all add: control_stop_def)

lemma terminal_create_ok:
  assumes "terminals_ok ts" and "terminal_create uuid_ok fs spawned title ts pid path i cols rows = Inr (r, ts')"
  shows "terminals_ok ts'"
  using assms map_of_eq_None_iff [of ts i]
  by (auto simp: terminal_create_def terminals_ok_def new_terminal_def output_default_def result_simps Let_def
      MAX_TERMINALS_def split: option.splits)

lemma terminal_apply_ok: "terminals_ok ts \<Longrightarrow> terminals_ok (terminal_apply uuid_ok fs ts r)"
proof (cases r)
  case (TCreate pid path i cols rows spawned)
  assume "terminals_ok ts"
  with TCreate show ?thesis by (auto intro: terminal_create_ok split: sum.splits)
next
  case (TClose i)
  assume "terminals_ok ts"
  then have "terminals_ok (filter q ts)" for q
    using length_filter_le [of q ts] by (auto simp: terminals_ok_def distinct_map_filter simp del: length_filter_le)
  with TClose show ?thesis by (simp add: terminal_close_def)
next
  case (TWrite now cv queued delivered i data)
  assume "terminals_ok ts"
  with TWrite show ?thesis
    by (auto simp: terminal_write_def control_stop_keeps intro: terminals_ok_set split: option.splits)
qed (auto intro!: terminals_ok_set simp: child_exited_def output_append_def Let_def terminals_ok_def [of "[]"])

text \<open>Whatever is requested and whatever the shells write, a host keeps at most sixteen terminals, each
  under its own identifier, and at most 1 MiB of output for each.\<close>

theorem terminals_bounded: "terminals_ok (foldl (terminal_apply uuid_ok fs) [] requests)"
proof -
  have "terminals_ok (foldl (terminal_apply uuid_ok fs) ts requests)" if "terminals_ok ts" for ts
    using that by (induction requests arbitrary: ts) (simp_all add: terminal_apply_ok)
  from this [of "[]"] show ?thesis by (simp add: terminals_ok_def [of "[]"])
qed

end
