(* ===== verification/Effects.thy ===== *)
theory Effects
  imports Prelude
begin

text \<open>
  Asynchronous code that mutates shared state and may fail half-way: an effect maps a state to a result and
  the state it leaves, and unlike a transaction a failure keeps what was done before it. \<open>seq m f\<close> is
  \<open>f(m.await?)\<close>, \<open>attempt m\<close> inspects a result instead of returning early, \<open>each f xs\<close>
  is a loop with \<open>?\<close> in its body. \<open>framed R m\<close> says that an effect, on every path, moves the
  state along \<open>R\<close>; the locale shows that effects built from such parts do so too.
\<close>

type_synonym ('s, 'e, 'a) eff = "'s \<Rightarrow> ('e + 'a) \<times> 's"

definition ret :: "'a \<Rightarrow> ('s, 'e, 'a) eff" where
  "ret x = (\<lambda>s. (Inr x, s))"

definition fail :: "'e \<Rightarrow> ('s, 'e, 'a) eff" where
  "fail e = (\<lambda>s. (Inl e, s))"

definition seq :: "('s, 'e, 'a) eff \<Rightarrow> ('a \<Rightarrow> ('s, 'e, 'b) eff) \<Rightarrow> ('s, 'e, 'b) eff" where
  "seq m f = (\<lambda>s. case m s of (Inl e, s') \<Rightarrow> (Inl e, s') | (Inr x, s') \<Rightarrow> f x s')"

definition attempt :: "('s, 'e, 'a) eff \<Rightarrow> ('s, 'e, 'e + 'a) eff" where
  "attempt m = (\<lambda>s. case m s of (r, s') \<Rightarrow> (Inr r, s'))"

definition look :: "('s \<Rightarrow> 'a) \<Rightarrow> ('s, 'e, 'a) eff" where
  "look f = (\<lambda>s. (Inr (f s), s))"

definition change :: "('s \<Rightarrow> 's) \<Rightarrow> ('s, 'e, unit) eff" where
  "change f = (\<lambda>s. (Inr (), f s))"

definition require :: "bool \<Rightarrow> 'e \<Rightarrow> ('s, 'e, unit) eff" where
  "require c e = (if c then ret () else fail e)"

definition from_result :: "'e + 'a \<Rightarrow> ('s, 'e, 'a) eff" where
  "from_result r = (\<lambda>s. (r, s))"

primrec each :: "('a \<Rightarrow> ('s, 'e, unit) eff) \<Rightarrow> 'a list \<Rightarrow> ('s, 'e, unit) eff" where
  "each f [] = ret ()"
| "each f (x # xs) = seq (f x) (\<lambda>_. each f xs)"

named_theorems eff_simps "evaluation of effects on a state"

lemma eff_apply [eff_simps]:
  "ret x s = (Inr x, s)" "fail e s = (Inl e, s)" "look f s = (Inr (f s), s)" "change g s = (Inr (), g s)"
  "require c e s = (if c then Inr () else Inl e, s)" "from_result r s = (r, s)"
  "attempt m s = (Inr (fst (m s)), snd (m s))"
  by (simp_all add: ret_def fail_def look_def change_def require_def from_result_def attempt_def split: prod.split)

lemma seq_apply [eff_simps]:
  "seq m f s = (case fst (m s) of Inl e \<Rightarrow> (Inl e, snd (m s)) | Inr x \<Rightarrow> f x (snd (m s)))"
  by (auto simp: seq_def split: prod.split sum.split)

lemma seq_assoc: "seq (seq m f) g = seq m (\<lambda>x. seq (f x) g)"
  by (rule ext) (auto simp: seq_apply split: sum.split)

lemma seq_ret [simp]: "seq (ret x) f = f x"
  by (rule ext) (simp add: seq_apply eff_apply)

section \<open>Frames of effects\<close>

definition framed :: "('s \<Rightarrow> 's \<Rightarrow> bool) \<Rightarrow> ('s, 'e, 'a) eff \<Rightarrow> bool" where
  "framed R m \<longleftrightarrow> (\<forall>s. R s (snd (m s)))"

lemma framedD: "framed R m \<Longrightarrow> m s = (r, s') \<Longrightarrow> R s s'"
  by (metis framed_def snd_conv)

locale effect_frame =
  fixes R :: "'s \<Rightarrow> 's \<Rightarrow> bool"
  assumes same: "R s s"
    and steps: "R a b \<Longrightarrow> R b c \<Longrightarrow> R a c"
begin

lemma framed_ret: "framed R (ret x)"
  by (simp add: framed_def eff_apply same)

lemma framed_fail: "framed R (fail e)"
  by (simp add: framed_def eff_apply same)

lemma framed_look: "framed R (look f)"
  by (simp add: framed_def eff_apply same)

lemma framed_require: "framed R (require c e)"
  by (simp add: framed_def eff_apply same)

lemma framed_from_result: "framed R (from_result r)"
  by (simp add: framed_def eff_apply same)

lemma framed_change: "(\<And>s. R s (f s)) \<Longrightarrow> framed R (change f)"
  by (simp add: framed_def eff_apply)

lemma framed_seq: "framed R m \<Longrightarrow> (\<And>x. framed R (f x)) \<Longrightarrow> framed R (seq m f)"
  by (fastforce simp: framed_def seq_apply split: sum.split intro: steps)

lemma framed_attempt: "framed R m \<Longrightarrow> framed R (attempt m)"
  by (simp add: framed_def eff_apply)

lemma framed_each: "(\<And>x. x \<in> set xs \<Longrightarrow> framed R (f x)) \<Longrightarrow> framed R (each f xs)"
  by (induction xs) (auto intro: framed_seq framed_ret)

lemma framed_if: "framed R m \<Longrightarrow> framed R n \<Longrightarrow> framed R (if c then m else n)"
  by simp

lemma framed_option: "framed R m \<Longrightarrow> (\<And>x. framed R (f x)) \<Longrightarrow> framed R (case v of None \<Rightarrow> m | Some x \<Rightarrow> f x)"
  by (cases v) simp_all

lemma framed_sum: "(\<And>e. framed R (f e)) \<Longrightarrow> (\<And>x. framed R (g x)) \<Longrightarrow> framed R (case v of Inl e \<Rightarrow> f e | Inr x \<Rightarrow> g x)"
  by (cases v) simp_all

lemma framed_prod: "(\<And>x y. framed R (f x y)) \<Longrightarrow> framed R (case v of (x, y) \<Rightarrow> f x y)"
  by (cases v) simp

lemma framed_list: "framed R m \<Longrightarrow> (\<And>x xs. framed R (f x xs)) \<Longrightarrow> framed R (case v of [] \<Rightarrow> m | x # xs \<Rightarrow> f x xs)"
  by (cases v) simp_all

lemma framed_let: "(\<And>x. framed R (f x)) \<Longrightarrow> framed R (Let v f)"
  by simp

lemmas framed_rules =
  framed_option framed_sum framed_prod framed_list framed_let
  framed_ret framed_fail framed_look framed_require framed_from_result framed_seq
  framed_attempt framed_each framed_if

end

section \<open>Postconditions\<close>

text \<open>What holds of the state when an effect succeeds and when it fails.\<close>

definition ends :: "('s \<Rightarrow> bool) \<Rightarrow> ('s, 'e, 'a) eff \<Rightarrow> ('a \<Rightarrow> 's \<Rightarrow> bool) \<Rightarrow> ('s \<Rightarrow> bool) \<Rightarrow> bool" where
  "ends P m Q E \<longleftrightarrow> (\<forall>s. P s \<longrightarrow> (case m s of (Inl e, s') \<Rightarrow> E s' | (Inr x, s') \<Rightarrow> Q x s'))"

lemma ends_seq: "ends P m M E \<Longrightarrow> (\<And>x. ends (M x) (f x) Q E) \<Longrightarrow> ends P (seq m f) Q E"
  by (fastforce simp: ends_def seq_def split: prod.splits sum.splits)

lemma ends_ret: "(\<And>s. P s \<Longrightarrow> Q x s) \<Longrightarrow> ends P (ret x) Q E"
  by (simp add: ends_def ret_def)

lemma ends_fail: "(\<And>s. P s \<Longrightarrow> E s) \<Longrightarrow> ends P (fail e) Q E"
  by (simp add: ends_def fail_def)

lemma ends_change: "(\<And>s. P s \<Longrightarrow> Q () (f s)) \<Longrightarrow> ends P (change f) Q E"
  by (simp add: ends_def change_def)

lemma ends_look: "(\<And>s. P s \<Longrightarrow> Q (f s) s) \<Longrightarrow> ends P (look f) Q E"
  by (simp add: ends_def look_def)

lemma ends_require: "(\<And>s. P s \<Longrightarrow> c \<Longrightarrow> Q () s) \<Longrightarrow> (\<And>s. P s \<Longrightarrow> \<not> c \<Longrightarrow> E s) \<Longrightarrow> ends P (require c e) Q E"
  by (simp add: ends_def require_def ret_def fail_def)

lemma ends_if: "(c \<Longrightarrow> ends P m Q E) \<Longrightarrow> (\<not> c \<Longrightarrow> ends P n Q E) \<Longrightarrow> ends P (if c then m else n) Q E"
  by simp

lemma ends_attempt: "ends P m (\<lambda>x. Q (Inr x)) (\<lambda>s. \<forall>e. Q (Inl e) s) \<Longrightarrow> ends P (attempt m) Q E"
  unfolding ends_def attempt_def split_beta
  by (intro allI impI, rename_tac s, drule_tac x = s in spec) (auto split: sum.splits)

lemma ends_each: "(\<And>x. x \<in> set xs \<Longrightarrow> ends P (f x) (\<lambda>_. P) E) \<Longrightarrow> ends P (each f xs) (\<lambda>_. P) E"
proof (induction xs)
  case Nil
  then show ?case by (simp add: ends_ret)
next
  case (Cons x xs)
  then show ?case by (auto intro!: ends_seq [where M = "\<lambda>_. P"])
qed

lemma ends_weaken:
  "ends P m Q E \<Longrightarrow> (\<And>s. P' s \<Longrightarrow> P s) \<Longrightarrow> (\<And>x s. Q x s \<Longrightarrow> Q' x s) \<Longrightarrow> (\<And>s. E s \<Longrightarrow> E' s) \<Longrightarrow> ends P' m Q' E'"
  by (fastforce simp: ends_def split: prod.splits sum.splits)

end
