(* ===== verification/Runtime.thy ===== *)
theory Runtime
  imports Turns Children References Questions Effects
begin

text \<open>
  The supervision of one agent session (\<open>runtime.rs\<close>): the agent process with its interaction state, the
  translation of the actions of an adapter into store operations (\<open>TurnState::apply\<close>,
  \<open>Process::apply\<close>), the admission of a turn (\<open>accept_turn\<close>, \<open>receive_turn\<close>) and its end
  (\<open>finish_turn\<close>). The adapter is a trait object: its methods are the fields of \<open>agent_adapter\<close> over
  a state \<open>'a\<close>. What the operating system answers is in \<open>runtime_env\<close>: whether the k-th write to the
  agent succeeds, the k-th random identifier, the k-th capture of the worktree, the result of spawning. An
  answer to a client is an entry of \<open>ac_replies\<close>; a one-shot sender is the number of its request.
\<close>

section \<open>Adapters\<close>

datatype (plugins only: code size) command_ui_action = SubagentsUi

record slash_command =
  sc_name :: string
  sc_display_name :: "string option"
  sc_description :: string
  sc_argument_hint :: string
  sc_ui_action :: "command_ui_action option"

datatype (plugins only: code size) agent_input =
    InDiscoverCommands
  | InOpen
  | InRenameTitle string string
  | InInterrupt
  | InStart string
  | InQueue string string
  | InMessage string
  | InApproval string json bool
  | InQuestionAnswer string json "user_question list" "question_answer list option"

datatype (plugins only: code size) action =
    NativeName string
  | GeneratedTitle string string
  | TitleRenamed "string + string"
  | SourceUsed string string
  | Commands "slash_command list"
  | Write bytes
  | MetadataWrite bytes
  | ActReady
  | TurnStarted
  | InputsConsumed "string list"
  | InputRejected string string
  | Interrupted
  | ActEvent event_kind
  | ActSubagentEvent string event_kind
  | NativeSession string
  | ActApproval string "string option" string json
  | ActQuestion string "string option" json "user_question list"
  | Finished bool "string option"

section \<open>Launch configurations\<close>

record model_selection =
  msel_model :: string
  msel_backend_variant :: string

record resolved_provider =
  rp_metadata :: provider
  rp_credential :: string

record launch_config =
  lc_provider :: "resolved_provider option"
  lc_settings_dir :: string
  lc_model :: "string option"
  lc_traex_model :: "model_selection option"
  lc_effort :: "effort option"
  lc_permission_mode :: "string option"

text \<open>\<open>str::replace\<close>: every occurrence from the left, without overlap.\<close>

function replace_all :: "string \<Rightarrow> string \<Rightarrow> string \<Rightarrow> string" where
  "replace_all pat new s =
     (if pat = [] then s
      else case s of
             [] \<Rightarrow> []
           | c # cs \<Rightarrow> (case strip_prefix pat s of
                          Some rest \<Rightarrow> new @ replace_all pat new rest
                        | None \<Rightarrow> c # replace_all pat new cs))"
  by auto
termination
  by (relation "measure (\<lambda>(_, _, s). length s)") (auto simp: strip_prefix_Some)

declare replace_all.simps [simp del]

definition redacted :: string where
  "redacted = ''[redacted]''"

definition redact :: "launch_config \<Rightarrow> string \<Rightarrow> string" where
  "redact cfg t =
     (case lc_provider cfg of
        Some p \<Rightarrow> if rp_credential p \<noteq> [] then replace_all (rp_credential p) redacted t else t
      | None \<Rightarrow> t)"

primrec redact_json :: "launch_config \<Rightarrow> json \<Rightarrow> json" where
  "redact_json cfg JNull = JNull"
| "redact_json cfg (JBool b) = JBool b"
| "redact_json cfg (JNumber n) = JNumber n"
| "redact_json cfg (JString s) = JString (redact cfg s)"
| "redact_json cfg (JArray vs) = JArray (map (redact_json cfg) vs)"
| "redact_json cfg (JObject fs) = JObject (map (map_prod (\<lambda>k. k) (redact_json cfg)) fs)"

definition same_config :: "launch_config \<Rightarrow> launch_config \<Rightarrow> bool" where
  "same_config a b \<longleftrightarrow>
     lc_model a = lc_model b \<and> lc_traex_model a = lc_traex_model b \<and> lc_effort a = lc_effort b \<and>
     lc_permission_mode a = lc_permission_mode b \<and>
     (case (lc_provider a, lc_provider b) of
        (None, None) \<Rightarrow> True
      | (Some x, Some y) \<Rightarrow>
          rp_credential x = rp_credential y \<and> pv_base_url (rp_metadata x) = pv_base_url (rp_metadata y) \<and>
          pv_protocol (rp_metadata x) = pv_protocol (rp_metadata y) \<and>
          pv_auth (rp_metadata x) = pv_auth (rp_metadata y) \<and>
          pv_model (rp_metadata x) = pv_model (rp_metadata y)
      | _ \<Rightarrow> False)"

section \<open>The state of an actor\<close>

datatype (plugins only: code size) rt_error =
    StoreError error | AgentError string | SpawnError string | EventCodec string | FreezeError string
  | QuestionInvalid answer_error
  | WriteFailed | FrameTooLarge | UnhandledTitle | UnexpectedCommands | TooManyInteractions | TooManyApprovals
  | FinishedBeforeApproval | SessionRunning | AgentRestoring | AgentPending | ReconfigureBlocked
  | InputsPending | ProcessMissing | TitlePending | TitleNotReady | TitleClosed | SendCancelled | AlreadyStopping
  | SwitchingOrFull | NotReadyOrOtherConfig | EntryGone | DeliveryUnknown | SendingNow | HandoffPending
  | AgentPreparing | ImmediateOtherConfig | QueueSending | QueueChanged | CloseBusy | QuestionExpired
  | NotAQuestion | ApprovalExpired | UnexpectedExit | ReadFailed string | SendTimeout | InitTimeout | TurnTimeout
  | HandoffTimeout | SendUnconfirmed | OpenFailed | ExecutionFailed | SendFailed | QueueConfigMissing
  | QueueStartFailed | StopFailed string

datatype (plugins only: code size) reply =
    RepUnit
  | RepTitle string
  | RepResponse response
  | RepMore bool
  | RepTranscript "(event list \<times> bool) option"

type_synonym interaction = "string \<times> json \<times> user_question list option"

record 'a process =
  pr_adapter :: 'a
  pr_rename_reply :: "nat option"
  pr_ready :: bool
  pr_pending :: "(string \<times> interaction) list"
  pr_config :: launch_config
  pr_turn_active :: bool
  pr_background_at_start :: bool
  pr_stopping :: bool
  pr_interrupt_sent :: bool
  pr_interrupt_ack_pending :: bool
  pr_stop_reply :: "nat option"
  pr_init_deadline :: nat
  pr_turn_deadline :: nat

record immediate =
  im_turn :: send_turn
  im_config :: launch_config
  im_restore_reason :: "string option"
  im_reply :: nat
  im_deadline :: nat

record 'a actor =
  ac_store :: store
  ac_process :: "'a process option"
  ac_forwarded :: "(string \<times> nat) list"
  ac_immediate :: "immediate option"
  ac_configs :: "(string \<times> launch_config) list"
  ac_opening :: "nat list"
  ac_replies :: "(nat \<times> (rt_error + reply)) list"
  ac_safe_to_close :: bool
  ac_session_open :: bool
  ac_running :: bool
  ac_now :: nat
  ac_writes :: nat
  ac_uuids :: nat
  ac_captures :: nat

record 'a agent_adapter =
  ad_can_reconfigure :: "'a \<Rightarrow> bool"
  ad_can_start_turn :: "'a \<Rightarrow> bool"
  ad_has_background_work :: "'a \<Rightarrow> bool"
  ad_knows_subagent :: "'a \<Rightarrow> string \<Rightarrow> bool"
  ad_advance :: "'a \<Rightarrow> agent_input \<Rightarrow> (string + action list) \<times> 'a"

text \<open>\<open>re_child\<close>: what is read of a child that has ended, a snapshot if any and the pages of its
  history; \<open>re_history\<close> and \<open>re_transcript\<close>: one read on request.\<close>

record 'a runtime_env =
  re_adapter :: "'a agent_adapter"
  re_spawn :: "session \<Rightarrow> launch_config \<Rightarrow> string + 'a"
  re_write :: "nat \<Rightarrow> bool"
  re_uuid :: "nat \<Rightarrow> string"
  re_capture :: "nat \<Rightarrow> snapshot"
  re_child :: "nat \<Rightarrow> ((event list \<times> bool) option \<times> (event list \<times> child_cursor \<times> bool) list) option"
  re_history :: "nat \<Rightarrow> string + (event list \<times> child_cursor \<times> bool) option"
  re_transcript :: "nat \<Rightarrow> string + (event list \<times> bool) option"
  re_freeze :: "string \<Rightarrow> snapshot \<Rightarrow> snapshot \<Rightarrow> bool \<Rightarrow> bool \<Rightarrow> string + frozen_turn"
  re_show :: "rt_error \<Rightarrow> string"
  re_to_json :: "event_kind \<Rightarrow> json"
  re_of_json :: "json \<Rightarrow> string + event_kind"
  re_enc :: "event_kind \<Rightarrow> string"
  re_parse :: "string \<Rightarrow> json option"
  re_jenc :: "json \<Rightarrow> string"
  re_senc :: "snapshot \<Rightarrow> string"
  re_fenc :: "frozen_turn \<Rightarrow> string"
  re_qenc :: "queued_message \<Rightarrow> string"
  re_tenc :: "event list \<times> bool \<Rightarrow> string"
  re_snapshot_dir :: string

text \<open>\<open>TURN_LIMIT\<close> in milliseconds.\<close>

definition TURN_LIMIT :: nat where "TURN_LIMIT = 24 * 3600 * 1000"

section \<open>Primitive effects\<close>

type_synonym ('a, 'b) run = "('a actor, rt_error, 'b) eff"

definition db_get :: "(store \<Rightarrow> error + 'b) \<Rightarrow> ('a, 'b) run" where
  "db_get f = (\<lambda>s. (case f (ac_store s) of Inl e \<Rightarrow> Inl (StoreError e) | Inr x \<Rightarrow> Inr x, s))"

definition db_put :: "(store \<Rightarrow> error + store) \<Rightarrow> ('a, unit) run" where
  "db_put f = (\<lambda>s. case f (ac_store s) of
                    Inl e \<Rightarrow> (Inl (StoreError e), s) | Inr st \<Rightarrow> (Inr (), s\<lparr>ac_store := st\<rparr>))"

definition db_both :: "(store \<Rightarrow> error + ('b \<times> store)) \<Rightarrow> ('a, 'b) run" where
  "db_both f = (\<lambda>s. case f (ac_store s) of
                    Inl e \<Rightarrow> (Inl (StoreError e), s) | Inr (x, st) \<Rightarrow> (Inr x, s\<lparr>ac_store := st\<rparr>))"

definition send_reply :: "nat \<Rightarrow> rt_error + reply \<Rightarrow> ('a, unit) run" where
  "send_reply n r = change (\<lambda>s. s\<lparr>ac_replies := ac_replies s @ [(n, r)]\<rparr>)"

text \<open>\<open>if let Some(reply) = reply.take()\<close>: nothing is sent when the request was answered before.\<close>

definition send_once :: "nat \<Rightarrow> rt_error + reply \<Rightarrow> ('a, unit) run" where
  "send_once n r = change (\<lambda>s. if n \<in> fst ` set (ac_replies s) then s
                               else s\<lparr>ac_replies := ac_replies s @ [(n, r)]\<rparr>)"

definition update_process :: "('a process \<Rightarrow> 'a process) \<Rightarrow> ('a, unit) run" where
  "update_process f = change (\<lambda>s. s\<lparr>ac_process := map_option f (ac_process s)\<rparr>)"

definition the_process :: "('a, 'a process) run" where
  "the_process = seq (look ac_process) (\<lambda>p. from_result (of_option ProcessMissing p))"

text \<open>Dropping a process clears the open flag; \<open>None\<close> over \<open>None\<close> drops nothing.\<close>

definition drop_process :: "('a, unit) run" where
  "drop_process = change (\<lambda>s. case ac_process s of None \<Rightarrow> s
                              | Some _ \<Rightarrow> s\<lparr>ac_process := None, ac_session_open := False\<rparr>)"

definition close_process :: "('a, unit) run" where
  "close_process =
     seq (look ac_process) (\<lambda>p. case p of
        None \<Rightarrow> ret ()
      | Some p \<Rightarrow>
          seq (case pr_rename_reply p of Some n \<Rightarrow> send_reply n (Inl TitleClosed) | None \<Rightarrow> ret ()) (\<lambda>_.
          seq (update_process (\<lambda>p. p\<lparr>pr_rename_reply := None\<rparr>)) (\<lambda>_.
            change (\<lambda>s. s\<lparr>ac_session_open := False\<rparr>))))"

definition write_input :: "'a runtime_env \<Rightarrow> bytes \<Rightarrow> ('a, unit) run" where
  "write_input env data =
     seq (require (length data \<le> MAX_FRAME) FrameTooLarge) (\<lambda>_.
     seq (look ac_writes) (\<lambda>k.
     seq (change (\<lambda>s. s\<lparr>ac_writes := Suc k\<rparr>)) (\<lambda>_.
       require (re_write env k) WriteFailed)))"

definition fresh_uuid :: "'a runtime_env \<Rightarrow> ('a, string) run" where
  "fresh_uuid env =
     seq (look ac_uuids) (\<lambda>k. seq (change (\<lambda>s. s\<lparr>ac_uuids := Suc k\<rparr>)) (\<lambda>_. ret (re_uuid env k)))"

definition capture :: "'a runtime_env \<Rightarrow> ('a, snapshot) run" where
  "capture env =
     seq (look ac_captures) (\<lambda>k. seq (change (\<lambda>s. s\<lparr>ac_captures := Suc k\<rparr>)) (\<lambda>_. ret (re_capture env k)))"

definition unavailable :: "string \<Rightarrow> ('a, snapshot) run" where
  "unavailable m = db_both (\<lambda>st. let (t, st) = read_clock st in Inr (snapshot_unavailable t m, st))"

text \<open>The adapter advances in place, also when it reports an error.\<close>

definition advance :: "'a runtime_env \<Rightarrow> agent_input \<Rightarrow> ('a, action list) run" where
  "advance env input =
     seq the_process (\<lambda>p.
       case ad_advance (re_adapter env) (pr_adapter p) input of
         (r, a) \<Rightarrow>
           seq (update_process (\<lambda>p. p\<lparr>pr_adapter := a\<rparr>)) (\<lambda>_.
             case r of Inl e \<Rightarrow> fail (AgentError e) | Inr acts \<Rightarrow> ret acts))"

definition redact_event :: "'a runtime_env \<Rightarrow> launch_config \<Rightarrow> event_kind \<Rightarrow> ('a, event_kind) run" where
  "redact_event env cfg e =
     (case re_of_json env (redact_json cfg (re_to_json env e)) of
        Inl m \<Rightarrow> fail (EventCodec m) | Inr e \<Rightarrow> ret e)"

definition db_event :: "'a runtime_env \<Rightarrow> string \<Rightarrow> event_kind \<Rightarrow> ('a, unit) run" where
  "db_event env i e = db_put (\<lambda>st. store_event (re_enc env) (re_parse env) st i e)"

definition db_state :: "string \<Rightarrow> status \<Rightarrow> string option \<Rightarrow> ('a, unit) run" where
  "db_state i status m = db_put (\<lambda>st. set_state st i status m)"

definition db_session :: "string \<Rightarrow> ('a, session) run" where
  "db_session i = db_get (\<lambda>st. session_by_id st i)"

end
