(* ===== verification/Supervision.thy ===== *)
theory Supervision
  imports Runtime "HOL-Library.AList"
begin

text \<open>
  What the actor does with a process (\<open>TurnState::apply\<close>, \<open>Process::apply\<close>,
  \<open>Process::can_start_turn\<close>, \<open>Process::spawn\<close>, \<open>finish_turn\<close>, \<open>accept_turn\<close>,
  \<open>receive_turn\<close> of \<open>runtime.rs\<close>). The messages written to the log are byte lists.
\<close>

section \<open>Messages\<close>

definition stopped_message :: string where
  "stopped_message = map char_of
    [229 :: nat, 183, 178, 229, 129, 156, 230, 173, 162, 239, 188, 155, 229, 183, 178, 230, 137,
     167, 232, 161, 140, 231, 154, 132, 230, 150, 135, 228, 187, 182, 230, 148, 185, 229, 138, 168,
     228, 184, 141, 228, 188, 154, 230, 146, 164, 233, 148, 128, 227, 128, 130]"

definition no_baseline_message :: string where
  "no_baseline_message = map char_of
    [230 :: nat, 173, 164, 229, 142, 134, 229, 143, 178, 228, 187, 187, 229, 138, 161, 230, 178,
     161, 230, 156, 137, 232, 174, 176, 229, 189, 149, 230, 150, 135, 228, 187, 182, 229, 159, 186,
     231, 186, 191, 239, 188, 140, 232, 175, 183, 230, 159, 165, 231, 156, 139, 229, 183, 165, 228,
     189, 156, 229, 140, 186, 230, 148, 185, 229, 138, 168]"

definition provider_prefix :: string where
  "provider_prefix = map char_of
    [80 :: nat, 114, 111, 118, 105, 100, 101, 114, 239, 188, 154]"

definition model_infix :: string where
  "model_infix = map char_of
    [32 :: nat, 194, 183, 32, 230, 168, 161, 229, 158, 139, 239, 188, 154]"

definition model_prefix :: string where
  "model_prefix = map char_of
    [230 :: nat, 168, 161, 229, 158, 139, 239, 188, 154]"

section \<open>The actions of an adapter\<close>

text \<open>An interaction with the user: at most 32 are open, each under a fresh public identifier.\<close>

definition add_interaction :: "'a runtime_env \<Rightarrow> rt_error \<Rightarrow> interaction \<Rightarrow> ('a, string) run" where
  "add_interaction env limit x =
     seq the_process (\<lambda>p.
     seq (require (length (pr_pending p) < 32) limit) (\<lambda>_.
     seq (fresh_uuid env) (\<lambda>public.
     seq (update_process (\<lambda>p. p\<lparr>pr_pending := AList.update public x (pr_pending p)\<rparr>)) (\<lambda>_.
       ret public))))"

text \<open>After a child has ended its native output is cached; reading it is best effort, storing it is not.\<close>

definition terminal_child :: "event_kind \<Rightarrow> string option" where
  "terminal_child e =
     (case e of SubagentEv u \<Rightarrow> (case su_status u of Some s \<Rightarrow> if subagent_active s then None else Some (su_id u) | None \<Rightarrow> None)
              | _ \<Rightarrow> None)"

primrec cache_pages :: "string \<Rightarrow> string \<Rightarrow> (event list \<times> child_cursor \<times> bool) list \<Rightarrow> ('a, unit) run" where
  "cache_pages i tid [] = ret ()"
| "cache_pages i tid (p # ps) =
     seq (attempt (db_put (\<lambda>st. cache_child_history st i tid (fst p) (fst (snd p))))) (\<lambda>r.
       case r of Inl _ \<Rightarrow> ret () | Inr _ \<Rightarrow> if snd (snd p) then cache_pages i tid ps else ret ())"

definition capture_child :: "'a runtime_env \<Rightarrow> string \<Rightarrow> string \<Rightarrow> ('a, unit) run" where
  "capture_child env i nid =
     seq (look ac_captures) (\<lambda>k.
     seq (change (\<lambda>s. s\<lparr>ac_captures := Suc k\<rparr>)) (\<lambda>_.
       case re_child env k of
         None \<Rightarrow> ret ()
       | Some (snap, pages) \<Rightarrow>
           seq (attempt (db_get (\<lambda>st.
                  and_then (session_by_id st i) (\<lambda>s.
                  and_then (project_by_id st (ses_project_id s)) (\<lambda>_.
                  and_then (native_subagent st i nid) (\<lambda>c. Inr (c, ses_native_id s))))))) (\<lambda>src.
             case src of
               Inr (child, Some _) \<Rightarrow>
                 seq (case snap of
                        Some (es, b) \<Rightarrow>
                          if es = [] then ret ()
                          else db_put (\<lambda>st. cache_subagent_transcript (re_tenc env) st i (sa_id child) (es, b))
                      | None \<Rightarrow> ret ()) (\<lambda>_.
                   cache_pages i (sa_id child) pages)
             | _ \<Rightarrow> ret ())))"

definition live_title :: "string \<Rightarrow> string \<Rightarrow> ('a, unit) run" where
  "live_title i title = seq (db_both (\<lambda>st. sync_live_native_title st i title)) (\<lambda>_. ret ())"

definition generated_title :: "string \<Rightarrow> string \<Rightarrow> string \<Rightarrow> ('a, unit) run" where
  "generated_title i native title =
     seq (db_session i) (\<lambda>s.
       if ses_native_id s = Some native
       then seq (db_both (\<lambda>st. sync_native_title st i title False)) (\<lambda>_. ret ())
       else ret ())"

definition mark_ready :: "('a, unit) run" where
  "mark_ready = update_process (\<lambda>p. p\<lparr>pr_ready := True\<rparr>)"

definition turn_started :: "string \<Rightarrow> ('a, unit) run" where
  "turn_started i =
     seq (db_session i) (\<lambda>s. if status_active (ses_status s) then ret () else db_state i Running None)"

definition native_session :: "string \<Rightarrow> string \<Rightarrow> ('a, unit) run" where
  "native_session i nid =
     seq (db_session i) (\<lambda>s. db_put (\<lambda>st. Inr (save st (s\<lparr>ses_native_id := Some nid\<rparr>))))"

text \<open>One action: \<open>None\<close> lets the batch go on, \<open>Some\<close> is the outcome that ends it.\<close>

definition apply_action ::
  "'a runtime_env \<Rightarrow> string \<Rightarrow> launch_config \<Rightarrow> action \<Rightarrow> ('a, (status \<times> string option) option) run" where
  "apply_action env i cfg act =
     (let go = (\<lambda>m. seq m (\<lambda>_. ret None))
      in case act of
        NativeName title \<Rightarrow> go (live_title i title)
      | GeneratedTitle native title \<Rightarrow> go (generated_title i native title)
      | TitleRenamed _ \<Rightarrow> fail UnhandledTitle
      | SourceUsed tid name \<Rightarrow> go (db_put (\<lambda>st. observe_tool st i tid name))
      | Commands _ \<Rightarrow> fail UnexpectedCommands
      | Write data \<Rightarrow> go (write_input env data)
      | MetadataWrite data \<Rightarrow> go (seq (attempt (write_input env data)) (\<lambda>_. ret ()))
      | ActReady \<Rightarrow> go mark_ready
      | Interrupted \<Rightarrow> ret None
      | InputsConsumed ids \<Rightarrow> go (db_put (\<lambda>st. Inr (consume_forwarded st i ids)))
      | InputRejected rid m \<Rightarrow> go (db_put (\<lambda>st. reject_forwarded st i rid (redact cfg m)))
      | TurnStarted \<Rightarrow> go (turn_started i)
      | NativeSession nid \<Rightarrow> go (native_session i nid)
      | ActEvent e \<Rightarrow>
          go (seq (redact_event env cfg e) (\<lambda>e'.
              seq (db_event env i e') (\<lambda>_.
                case terminal_child e of Some nid \<Rightarrow> capture_child env i nid | None \<Rightarrow> ret ())))
      | ActSubagentEvent tool e \<Rightarrow>
          go (seq (redact_event env cfg e) (\<lambda>e.
                db_put (\<lambda>st. subagent_event (re_jenc env) (re_parse env) st i tool e)))
      | ActQuestion nid tool input questions \<Rightarrow>
          go (seq (add_interaction env TooManyInteractions (nid, input, Some questions)) (\<lambda>public.
              seq (redact_event env cfg (Question public tool questions)) (\<lambda>e.
              seq (db_event env i e) (\<lambda>_. db_state i Waiting None))))
      | ActApproval nid use tool input \<Rightarrow>
          go (seq (add_interaction env TooManyApprovals (nid, input, None)) (\<lambda>public.
              seq (redact_event env cfg (Approval public use tool input)) (\<lambda>e.
              seq (db_event env i e) (\<lambda>_. db_state i Waiting None))))
      | Finished failed m \<Rightarrow> ret (Some (if failed then Failed else Completed, m)))"

primrec apply_actions ::
  "'a runtime_env \<Rightarrow> string \<Rightarrow> launch_config \<Rightarrow> action list \<Rightarrow> ('a, (status \<times> string option) option) run" where
  "apply_actions env i cfg [] = ret None"
| "apply_actions env i cfg (a # as) =
     seq (apply_action env i cfg a) (\<lambda>r. case r of Some out \<Rightarrow> ret (Some out) | None \<Rightarrow> apply_actions env i cfg as)"

section \<open>The end of a turn\<close>

definition finish_turn_run :: "'a runtime_env \<Rightarrow> string \<Rightarrow> bool \<Rightarrow> bool \<Rightarrow> ('a, unit) run" where
  "finish_turn_run env i interrupted background =
     seq (db_get (\<lambda>st. Inr (pending_turn (re_snapshot_dir env) st i))) (\<lambda>pending.
       case pending of
         None \<Rightarrow> ret ()
       | Some (rid, before) \<Rightarrow>
           seq (capture env) (\<lambda>after.
           seq (case re_freeze env rid before after interrupted background of
                  Inr turn \<Rightarrow> ret turn
                | Inl m \<Rightarrow>
                    seq (unavailable m) (\<lambda>before. seq (unavailable m) (\<lambda>after.
                      case re_freeze env rid before after interrupted background of
                        Inr turn \<Rightarrow> ret turn | Inl m \<Rightarrow> fail (FreezeError m)))) (\<lambda>turn.
             db_put (\<lambda>st. finish_turn (re_fenc env) (re_enc env) st i turn))))"

section \<open>A batch of actions\<close>

fun is_renamed :: "action \<Rightarrow> bool" where
  "is_renamed (TitleRenamed _) = True"
| "is_renamed _ = False"

fun is_finished :: "action \<Rightarrow> bool" where
  "is_finished (Finished _ _) = True"
| "is_finished _ = False"

text \<open>The confirmations of a rename come first, whatever their place in the batch.\<close>

definition confirm_rename :: "string \<Rightarrow> action \<Rightarrow> ('a, unit) run" where
  "confirm_rename i act =
     (case act of
        TitleRenamed r \<Rightarrow>
          seq (case r of
                 Inl m \<Rightarrow> ret (Inl (AgentError m))
               | Inr title \<Rightarrow> attempt (seq (db_both (\<lambda>st. sync_native_title st i title True)) (\<lambda>s. ret (RepTitle (ses_title s))))) (\<lambda>r.
          seq the_process (\<lambda>p.
            case pr_rename_reply p of
              None \<Rightarrow> ret ()
            | Some n \<Rightarrow> seq (send_reply n r) (\<lambda>_. update_process (\<lambda>p. p\<lparr>pr_rename_reply := None\<rparr>))))
      | _ \<Rightarrow> ret ())"

definition prepare_batch :: "'a runtime_env \<Rightarrow> action list \<Rightarrow> ('a, unit) run" where
  "prepare_batch env acts =
     seq (look ac_now) (\<lambda>now.
       update_process (\<lambda>p.
         let p = (if Interrupted \<in> set acts then p\<lparr>pr_interrupt_ack_pending := False\<rparr> else p);
             p = (if TurnStarted \<in> set acts
                  then p\<lparr>pr_turn_active := True,
                         pr_background_at_start := ad_has_background_work (re_adapter env) (pr_adapter p),
                         pr_turn_deadline := now + TURN_LIMIT\<rparr> else p)
         in if Interrupted \<in> set acts \<or> (pr_stopping p \<and> list_ex is_finished acts)
            then p\<lparr>pr_pending := []\<rparr> else p))"

definition end_turn :: "'a runtime_env \<Rightarrow> string \<Rightarrow> status \<Rightarrow> string option \<Rightarrow> ('a, unit) run" where
  "end_turn env i status m =
     seq the_process (\<lambda>p.
     seq (require (pr_pending p = []) FinishedBeforeApproval) (\<lambda>_.
     seq (update_process (\<lambda>p. p\<lparr>pr_turn_active := False\<rparr>)) (\<lambda>_.
       let (status, m) = (if pr_stopping p then (Stopped, Some stopped_message)
                          else (status, map_option (redact (pr_config p)) m))
       in seq (finish_turn_run env i (status \<noteq> Completed)
                 (pr_background_at_start p \<or> ad_has_background_work (re_adapter env) (pr_adapter p))) (\<lambda>_.
          seq (db_state i status m) (\<lambda>_.
          seq (update_process (\<lambda>p. p\<lparr>pr_stopping := False, pr_interrupt_sent := False\<rparr>)) (\<lambda>_.
          seq (case pr_stop_reply p of Some n \<Rightarrow> send_reply n (Inr RepUnit) | None \<Rightarrow> ret ()) (\<lambda>_.
            update_process (\<lambda>p. p\<lparr>pr_stop_reply := None\<rparr>))))))))"

definition late_interrupt :: "'a runtime_env \<Rightarrow> string \<Rightarrow> ('a, unit) run" where
  "late_interrupt env i =
     seq (update_process (\<lambda>p. p\<lparr>pr_interrupt_sent := True, pr_interrupt_ack_pending := True\<rparr>)) (\<lambda>_.
     seq (advance env InInterrupt) (\<lambda>acts.
     seq the_process (\<lambda>p.
     seq (apply_actions env i (pr_config p) acts) (\<lambda>_. ret ()))))"

definition process_apply :: "'a runtime_env \<Rightarrow> string \<Rightarrow> action list \<Rightarrow> ('a, unit) run" where
  "process_apply env i acts =
     seq (each (confirm_rename i) acts) (\<lambda>_.
       let rest = filter (\<lambda>a. \<not> is_renamed a) acts
       in seq (prepare_batch env rest) (\<lambda>_.
          seq the_process (\<lambda>p.
          seq (apply_actions env i (pr_config p) rest) (\<lambda>out.
          seq (case out of Some (status, m) \<Rightarrow> end_turn env i status m | None \<Rightarrow> ret ()) (\<lambda>_.
          seq the_process (\<lambda>p.
          seq (if ActReady \<in> set rest \<and> pr_stopping p \<and> \<not> pr_interrupt_sent p then late_interrupt env i else ret ()) (\<lambda>_.
            change (\<lambda>s. s\<lparr>ac_session_open := (case ac_process s of Some p \<Rightarrow> pr_ready p | None \<Rightarrow> False)\<rparr>))))))))"

section \<open>Admission\<close>

definition can_start_turn :: "'a runtime_env \<Rightarrow> 'a process \<Rightarrow> bool" where
  "can_start_turn env p \<longleftrightarrow>
     pr_ready p \<and> \<not> pr_turn_active p \<and> \<not> pr_stopping p \<and> \<not> pr_interrupt_ack_pending p \<and>
     pr_pending p = [] \<and> ad_can_start_turn (re_adapter env) (pr_adapter p)"

definition can_reconfigure :: "'a runtime_env \<Rightarrow> 'a process \<Rightarrow> bool" where
  "can_reconfigure env p = ad_can_reconfigure (re_adapter env) (pr_adapter p)"

definition spawn :: "'a runtime_env \<Rightarrow> session \<Rightarrow> launch_config \<Rightarrow> ('a, unit) run" where
  "spawn env s cfg =
     (case re_spawn env s cfg of
        Inl m \<Rightarrow> fail (SpawnError m)
      | Inr a \<Rightarrow>
          change (\<lambda>st. st\<lparr>ac_process := Some
            \<lparr>pr_adapter = a, pr_rename_reply = None, pr_ready = False, pr_pending = [], pr_config = cfg,
             pr_turn_active = False, pr_background_at_start = False, pr_stopping = False,
             pr_interrupt_sent = False, pr_interrupt_ack_pending = False, pr_stop_reply = None,
             pr_init_deadline = ac_now st + 18000, pr_turn_deadline = ac_now st + TURN_LIMIT\<rparr>\<rparr>))"

definition turn_accepted :: "string \<Rightarrow> send_turn \<Rightarrow> ('a, bool) run" where
  "turn_accepted i turn =
     db_get (\<lambda>st. already_accepted st i (tn_request_id turn) (tn_text turn) (tn_model turn) (tn_effort turn)
                    (tn_fingerprint turn) (tn_permission_mode turn))"

text \<open>What follows the durable admission: the baselines of the worktree, the process, the prompt.\<close>

definition save_baselines :: "'a runtime_env \<Rightarrow> string \<Rightarrow> send_turn \<Rightarrow> ('a, unit) run" where
  "save_baselines env i turn =
     seq (capture env) (\<lambda>snap.
     seq (db_put (\<lambda>st. save_turn_baseline (re_senc env) st i (tn_request_id turn) snap)) (\<lambda>_.
     seq (db_get (\<lambda>st. baseline (re_snapshot_dir env) st i)) (\<lambda>saved.
       case saved of
         Some _ \<Rightarrow> ret ()
       | None \<Rightarrow>
           seq (db_get (\<lambda>st. Inr (first_request st i))) (\<lambda>first.
           seq (if first then ret snap else unavailable no_baseline_message) (\<lambda>snap.
             db_put (\<lambda>st. save_baseline (re_senc env) st i snap))))))"

definition launch_notice :: "launch_config \<Rightarrow> string option" where
  "launch_notice cfg =
     (case lc_provider cfg of
        Some p \<Rightarrow>
          Some (provider_prefix @ pv_name (rp_metadata p) @ model_infix @
                (case lc_model cfg of Some m \<Rightarrow> m | None \<Rightarrow> pv_model (rp_metadata p)))
      | None \<Rightarrow> map_option (\<lambda>m. model_prefix @ m) (lc_model cfg))"

definition start_turn :: "'a runtime_env \<Rightarrow> string \<Rightarrow> send_turn \<Rightarrow> launch_config \<Rightarrow> ('a, unit) run" where
  "start_turn env i turn cfg =
     seq (save_baselines env i turn) (\<lambda>_.
     seq (look ac_process) (\<lambda>p.
     seq (case p of Some _ \<Rightarrow> ret () | None \<Rightarrow> seq (db_session i) (\<lambda>s. spawn env s cfg)) (\<lambda>_.
     seq (look ac_now) (\<lambda>now.
     seq (update_process (\<lambda>p. p\<lparr>pr_turn_active := True,
            pr_background_at_start := ad_has_background_work (re_adapter env) (pr_adapter p),
            pr_turn_deadline := now + TURN_LIMIT\<rparr>)) (\<lambda>_.
     seq the_process (\<lambda>p.
     seq (case launch_notice (pr_config p) of Some t \<Rightarrow> db_event env i (Notice t) | None \<Rightarrow> ret ()) (\<lambda>_.
     seq (advance env (InStart (tn_text turn))) (\<lambda>acts. process_apply env i acts))))))))"

text \<open>A failure behind the admission is recorded as the end of the turn.\<close>

definition background_pending :: "('a, bool) run" where
  "background_pending =
     look (\<lambda>s. case ac_process s of Some p \<Rightarrow> pr_turn_active p \<and> pr_background_at_start p | None \<Rightarrow> False)"

definition turn_failed :: "'a runtime_env \<Rightarrow> string \<Rightarrow> launch_config \<Rightarrow> rt_error \<Rightarrow> ('a, unit) run" where
  "turn_failed env i cfg e =
     seq background_pending (\<lambda>background.
     seq (look ac_process) (\<lambda>p.
       let m = redact (case p of Some p \<Rightarrow> pr_config p | None \<Rightarrow> cfg) (re_show env e)
       in seq close_process (\<lambda>_.
          seq drop_process (\<lambda>_.
          seq (finish_turn_run env i True background) (\<lambda>_.
          seq (db_put (\<lambda>st. end_subagents (re_enc env) (re_parse env) st i SubUnknown)) (\<lambda>_.
            db_state i Failed (Some m)))))))"

definition accept_turn ::
  "'a runtime_env \<Rightarrow> string \<Rightarrow> send_turn \<Rightarrow> launch_config \<Rightarrow> ('a, unit) run \<Rightarrow> ('a, bool) run" where
  "accept_turn env i turn cfg on_admitted =
     seq (turn_accepted i turn) (\<lambda>dup.
       if dup then ret False
       else
         seq (db_session i) (\<lambda>s.
         seq (require (\<not> status_active (ses_status s)) SessionRunning) (\<lambda>_.
         seq (look ac_process) (\<lambda>p.
         seq (require (\<not> (case p of Some p \<Rightarrow> \<not> pr_ready p | None \<Rightarrow> False)) AgentRestoring) (\<lambda>_.
         seq (require (\<not> (case p of Some p \<Rightarrow> \<not> can_start_turn env p | None \<Rightarrow> False)) AgentPending) (\<lambda>_.
         seq (case p of
                Some p \<Rightarrow>
                  if same_config (pr_config p) cfg then ret ()
                  else seq (require (can_reconfigure env p) ReconfigureBlocked) (\<lambda>_.
                       seq close_process (\<lambda>_. drop_process))
              | None \<Rightarrow> ret ()) (\<lambda>_.
         seq (db_both (\<lambda>st. begin_turn (re_parse env) st i (tn_request_id turn) (tn_text turn) (tn_model turn)
                              (tn_effort turn) (tn_fingerprint turn) (tn_permission_mode turn))) (\<lambda>_.
         seq on_admitted (\<lambda>_.
         seq (attempt (start_turn env i turn cfg)) (\<lambda>r.
         seq (case r of Inl e \<Rightarrow> turn_failed env i cfg e | Inr _ \<Rightarrow> ret ()) (\<lambda>_.
           ret True)))))))))))"

definition queue_busy :: "'a runtime_env \<Rightarrow> string \<Rightarrow> bool \<Rightarrow> ('a, bool) run" where
  "queue_busy env i pending_inputs =
     (if pending_inputs then ret True
      else seq (db_session i) (\<lambda>s. seq (look ac_process) (\<lambda>p.
             ret (status_active (ses_status s) \<or>
                  (case p of Some p \<Rightarrow> \<not> can_start_turn env p | None \<Rightarrow> False)))))"

definition receive_turn ::
  "'a runtime_env \<Rightarrow> string \<Rightarrow> send_turn \<Rightarrow> launch_config \<Rightarrow> bool \<Rightarrow> bool \<Rightarrow> ('a, unit) run \<Rightarrow> ('a, response) run" where
  "receive_turn env i turn cfg allow_queue pending_inputs on_admitted =
     seq (db_get (\<lambda>st. queued_duplicate st i turn)) (\<lambda>dup.
       case dup of
         Some r \<Rightarrow> ret r
       | None \<Rightarrow>
     seq (turn_accepted i turn) (\<lambda>accepted.
       if accepted then ret (Accepted True)
       else
     seq (require (\<not> (pending_inputs \<and> \<not> allow_queue)) InputsPending) (\<lambda>_.
     seq (if allow_queue
          then seq (db_get (\<lambda>st. queued st i)) (\<lambda>es.
               seq (queue_busy env i pending_inputs) (\<lambda>busy.
               seq (look ac_process) (\<lambda>p.
               seq (require (\<not> (\<not> busy \<and> (case p of
                        Some p \<Rightarrow> \<not> same_config (pr_config p) cfg \<and> \<not> can_reconfigure env p
                      | None \<Rightarrow> False))) ReconfigureBlocked) (\<lambda>_.
                 if busy \<or> es \<noteq> []
                 then seq (db_put (\<lambda>st. enqueue (re_qenc env) st i turn)) (\<lambda>_.
                      seq (change (\<lambda>s. s\<lparr>ac_configs := AList.update (tn_request_id turn) cfg (ac_configs s)\<rparr>)) (\<lambda>_.
                        ret True))
                 else ret False))))
          else ret False) (\<lambda>queued.
       if queued then ret (MessageQueued False)
       else
         seq (if allow_queue then db_put (\<lambda>st. pause_queue st i None) else ret ()) (\<lambda>_.
         seq (accept_turn env i turn cfg on_admitted) (\<lambda>new.
           ret (Accepted (\<not> new))))))))"

end
