(* ===== verification/Actor.thy ===== *)
theory Actor
  imports Supervision
begin

text \<open>
  The session actor (\<open>actor\<close> of \<open>runtime.rs\<close>): one round takes one event (a request of a client,
  a line of the agent, a deadline), handles it, recovers from an error, answers those who wait for the session to
  open, and then decides at the boundary of turns whether the next message may start. Everything a round does to
  the store, the process and the waiting clients is one effect.
\<close>

section \<open>Requests\<close>

datatype (plugins only: code size) queue_action =
    QTake string u32
  | QDispatch bool string u32 launch_config   \<comment> \<open>interrupt, request_id, revision, config\<close>
  | QReorder "string list" "string list"
  | QEdit string u32 "string option"
  | QClear
  | QResume "(string \<times> launch_config) list"

datatype (plugins only: code size) control =
    CtlQueue queue_action nat
  | CtlSubagentHistory string nat
  | CtlSubagentTranscript string nat
  | CtlRenameTitle string nat
  | CtlOpen launch_config nat
  | CtlInterrupt nat
  | CtlSend send_turn launch_config bool nat
  | CtlCancel "nat option" bool
  | CtlAnswerQuestion string "question_answer list option" nat
  | CtlApproval string bool nat

datatype (plugins only: code size) actor_event =
    EvControl control
  | EvClosed
  | EvLine "(string + string) option"   \<comment> \<open>end of the stream, a read error, a line\<close>
  | EvImmediateDeadline
  | EvInitDeadline
  | EvTurnDeadline
  | EvHandoffDeadline

datatype (plugins only: code size) flow = Proceed | SkipRound | StopActor

section \<open>Messages\<close>

definition stopped_paused :: string where
  "stopped_paused = map char_of
    [229 :: nat, 189, 147, 229, 137, 141, 230, 137, 167, 232, 161, 140, 229, 183, 178, 229, 129,
     156, 230, 173, 162, 239, 188, 140, 233, 152, 159, 229, 136, 151, 229, 183, 178, 230, 154, 130,
     229, 129, 156]"

definition stopped_check :: string where
  "stopped_check = map char_of
    [229 :: nat, 183, 178, 229, 129, 156, 230, 173, 162, 239, 188, 155, 229, 183, 178, 229, 143,
     145, 233, 128, 129, 230, 182, 136, 230, 129, 175, 231, 154, 132, 229, 164, 132, 231, 144, 134,
     231, 138, 182, 230, 128, 129, 232, 175, 183, 230, 160, 184, 229, 175, 185, 32, 65, 103, 101,
     110, 116, 32, 232, 174, 176, 229, 189, 149]"

definition stopped_current :: string where
  "stopped_current = map char_of
    [229 :: nat, 183, 178, 229, 129, 156, 230, 173, 162, 229, 189, 147, 229, 137, 141, 228, 187,
     187, 229, 138, 161]"

definition sending_message :: string where
  "sending_message = map char_of
    [230 :: nat, 173, 163, 229, 156, 168, 229, 143, 145, 233, 128, 129, 230, 182, 136, 230, 129,
     175]"

definition queue_paused :: string where
  "queue_paused = map char_of
    [233 :: nat, 152, 159, 229, 136, 151, 229, 183, 178, 230, 154, 130, 229, 129, 156]"

definition send_timeout_paused :: string where
  "send_timeout_paused = map char_of
    [229 :: nat, 143, 145, 233, 128, 129, 231, 161, 174, 232, 174, 164, 232, 182, 133, 230, 151,
     182, 239, 188, 140, 233, 152, 159, 229, 136, 151, 229, 183, 178, 230, 154, 130, 229, 129, 156,
     239, 188, 140, 232, 175, 183, 230, 160, 184, 229, 175, 185, 229, 144, 142, 231, 187, 167, 231,
     187, 173]"

definition failed_paused :: string where
  "failed_paused = map char_of
    [230 :: nat, 137, 167, 232, 161, 140, 229, 135, 186, 231, 142, 176, 229, 188, 130, 229, 184,
     184, 239, 188, 140, 233, 152, 159, 229, 136, 151, 229, 183, 178, 230, 154, 130, 229, 129, 156,
     239, 188, 140, 232, 175, 183, 230, 160, 184, 229, 175, 185, 229, 144, 142, 231, 187, 167, 231,
     187, 173]"

definition unfinished_paused :: string where
  "unfinished_paused = map char_of
    [229 :: nat, 189, 147, 229, 137, 141, 230, 137, 167, 232, 161, 140, 230, 156, 170, 229, 174,
     140, 230, 136, 144, 239, 188, 140, 233, 152, 159, 229, 136, 151, 229, 183, 178, 230, 154, 130,
     229, 129, 156]"

section \<open>Parts of the handlers\<close>

definition set_safe :: "bool \<Rightarrow> ('a, unit) run" where
  "set_safe b = change (\<lambda>s. s\<lparr>ac_safe_to_close := b\<rparr>)"

definition clear_forwarded :: "('a, unit) run" where
  "clear_forwarded = change (\<lambda>s. s\<lparr>ac_forwarded := []\<rparr>)"

definition db_uncertain :: "'a runtime_env \<Rightarrow> string \<Rightarrow> ('a, unit) run" where
  "db_uncertain env i = db_put (\<lambda>st. uncertain_forwarded (re_enc env) (re_parse env) st i)"

definition db_pause :: "string \<Rightarrow> string option \<Rightarrow> ('a, unit) run" where
  "db_pause i m = db_put (\<lambda>st. pause_queue st i m)"

definition db_end_subagents :: "'a runtime_env \<Rightarrow> string \<Rightarrow> subagent_status \<Rightarrow> ('a, unit) run" where
  "db_end_subagents env i s = db_put (\<lambda>st. end_subagents (re_enc env) (re_parse env) st i s)"

definition ignore :: "('a, 'b) run \<Rightarrow> ('a, unit) run" where
  "ignore m = seq (attempt m) (\<lambda>_. ret ())"

text \<open>\<open>immediate.take()\<close> with an answer to its sender.\<close>

definition reject_immediate :: "rt_error \<Rightarrow> ('a, unit) run" where
  "reject_immediate e =
     seq (look ac_immediate) (\<lambda>im.
       case im of
         None \<Rightarrow> ret ()
       | Some v \<Rightarrow> seq (change (\<lambda>s. s\<lparr>ac_immediate := None\<rparr>)) (\<lambda>_. send_reply (im_reply v) (Inl e)))"

definition response_of :: "rt_error + response \<Rightarrow> rt_error + reply" where
  "response_of r = (case r of Inl e \<Rightarrow> Inl e | Inr x \<Rightarrow> Inr (RepResponse x))"

definition unit_of :: "rt_error + unit \<Rightarrow> rt_error + reply" where
  "unit_of r = (case r of Inl e \<Rightarrow> Inl e | Inr _ \<Rightarrow> Inr RepUnit)"

definition db_snapshot :: "string \<Rightarrow> ('a, response) run" where
  "db_snapshot i = db_get (\<lambda>st. queue_snapshot st i)"

text \<open>A process that is opened without a prompt; it is dropped when it cannot be.\<close>

definition open_process :: "'a runtime_env \<Rightarrow> string \<Rightarrow> launch_config \<Rightarrow> ('a, unit) run" where
  "open_process env i cfg =
     seq (db_session i) (\<lambda>s.
     seq (spawn env s cfg) (\<lambda>_.
     seq (attempt (seq (advance env InOpen) (process_apply env i))) (\<lambda>r.
       case r of Inl e \<Rightarrow> seq drop_process (\<lambda>_. fail e) | Inr _ \<Rightarrow> ret ())))"

definition find_entry :: "string \<Rightarrow> string \<Rightarrow> u32 \<Rightarrow> ('a, queued_message \<times> string option) run" where
  "find_entry i rid revision =
     seq (db_get (\<lambda>st. queued st i)) (\<lambda>es.
       from_result (of_option EntryGone (List.find (\<lambda>(e, _). qm_request_id e = rid \<and> qm_revision e = revision) es)))"

definition interrupt_process :: "'a runtime_env \<Rightarrow> string \<Rightarrow> ('a, unit) run" where
  "interrupt_process env i =
     seq (update_process (\<lambda>p. p\<lparr>pr_interrupt_sent := True, pr_interrupt_ack_pending := True\<rparr>)) (\<lambda>_.
     seq (advance env InInterrupt) (process_apply env i))"

text \<open>Stopping while messages are handed over: the process goes, their outcome stays unknown.\<close>

definition abandon_process :: "'a runtime_env \<Rightarrow> string \<Rightarrow> ('a, bool) run" where
  "abandon_process env i =
     seq background_pending (\<lambda>background.
     seq close_process (\<lambda>_.
     seq drop_process (\<lambda>_.
     seq clear_forwarded (\<lambda>_. ret background))))"

section \<open>Handlers\<close>

definition on_rename_title :: "'a runtime_env \<Rightarrow> string \<Rightarrow> string \<Rightarrow> nat \<Rightarrow> ('a, unit) run" where
  "on_rename_title env i title n =
     seq (set_safe False) (\<lambda>_.
     seq (look ac_process) (\<lambda>p.
       case p of
         None \<Rightarrow> send_reply n (Inl TitleNotReady)
       | Some p \<Rightarrow>
           if \<not> pr_ready p then send_reply n (Inl TitleNotReady)
           else if pr_rename_reply p \<noteq> None then send_reply n (Inl TitlePending)
           else
             seq (fresh_uuid env) (\<lambda>rid.
             seq (attempt (advance env (InRenameTitle rid title))) (\<lambda>r.
               case r of
                 Inl e \<Rightarrow> send_reply n (Inl e)
               | Inr acts \<Rightarrow>
                   seq (update_process (\<lambda>p. p\<lparr>pr_rename_reply := Some n\<rparr>)) (\<lambda>_. process_apply env i acts)))))"

definition on_open :: "'a runtime_env \<Rightarrow> string \<Rightarrow> launch_config \<Rightarrow> nat \<Rightarrow> ('a, unit) run" where
  "on_open env i cfg n =
     seq (attempt (seq (look ac_process) (\<lambda>p. case p of Some _ \<Rightarrow> ret () | None \<Rightarrow> open_process env i cfg))) (\<lambda>r.
     seq (look ac_process) (\<lambda>p.
       case r of
         Inl e \<Rightarrow> send_reply n (Inl e)
       | Inr _ \<Rightarrow>
           if (case p of Some p \<Rightarrow> pr_ready p | None \<Rightarrow> False) then send_reply n (Inr RepUnit)
           else change (\<lambda>s. s\<lparr>ac_opening := ac_opening s @ [n]\<rparr>)))"

definition on_interrupt :: "'a runtime_env \<Rightarrow> string \<Rightarrow> nat \<Rightarrow> ('a, unit) run" where
  "on_interrupt env i n =
     seq (reject_immediate SendCancelled) (\<lambda>_.
     seq (look (\<lambda>s. (ac_forwarded s, ac_process s, ac_now s))) (\<lambda>(forwarded, p, now).
       if forwarded \<noteq> [] then
         seq (abandon_process env i) (\<lambda>background.
         seq (db_uncertain env i) (\<lambda>_.
         seq (db_end_subagents env i SubUnknown) (\<lambda>_.
         seq (db_pause i (Some stopped_paused)) (\<lambda>_.
         seq (finish_turn_run env i True background) (\<lambda>_.
         seq (db_state i Stopped (Some stopped_check)) (\<lambda>_.
           send_reply n (Inr RepUnit)))))))
       else
         case p of
           None \<Rightarrow> send_reply n (Inr RepUnit)
         | Some p \<Rightarrow>
             if \<not> pr_turn_active p then send_reply n (Inr RepUnit)
             else if pr_stopping p then send_reply n (Inl AlreadyStopping)
             else
               seq (update_process (\<lambda>p. p\<lparr>pr_stopping := True, pr_stop_reply := Some n,
                                         pr_turn_deadline := now + 10000\<rparr>)) (\<lambda>_.
                 if \<not> pr_ready p then ret () else interrupt_process env i)))"

definition child_config :: "'a runtime_env \<Rightarrow> 'a process option \<Rightarrow> string \<Rightarrow> launch_config option" where
  "child_config env p nid =
     (case p of
        Some p \<Rightarrow> if ad_knows_subagent (re_adapter env) (pr_adapter p) nid then Some (pr_config p) else None
      | None \<Rightarrow> None)"

definition on_subagent_history :: "'a runtime_env \<Rightarrow> string \<Rightarrow> string \<Rightarrow> nat \<Rightarrow> ('a, unit) run" where
  "on_subagent_history env i tid n =
     seq (attempt
       (seq (db_get (\<lambda>st. and_then (subagent_by_id st i tid) (\<lambda>c. and_then (session_by_id st i) (\<lambda>s.
                            and_then (child_history_cursor st i tid) (\<lambda>cur. Inr (c, ses_native_id s, cur)))))) (\<lambda>(child, parent, cur).
        seq (look ac_process) (\<lambda>p.
          case (child_config env p (sa_native_id child), parent) of
            (Some _, Some _) \<Rightarrow>
              seq (look ac_captures) (\<lambda>k.
              seq (change (\<lambda>s. s\<lparr>ac_captures := Suc k\<rparr>)) (\<lambda>_.
                case re_history env k of
                  Inl m \<Rightarrow> fail (AgentError m)
                | Inr None \<Rightarrow> ret False
                | Inr (Some (es, c, again)) \<Rightarrow>
                    seq (db_put (\<lambda>st. cache_child_history st i tid es c)) (\<lambda>_. ret again)))
          | _ \<Rightarrow> ret False)))) (\<lambda>r.
       send_reply n (case r of Inl e \<Rightarrow> Inl e | Inr again \<Rightarrow> Inr (RepMore again)))"

definition on_subagent_transcript :: "'a runtime_env \<Rightarrow> string \<Rightarrow> string \<Rightarrow> nat \<Rightarrow> ('a, unit) run" where
  "on_subagent_transcript env i tid n =
     seq (attempt
       (seq (db_get (\<lambda>st. and_then (subagent_by_id st i tid) (\<lambda>c. and_then (session_by_id st i) (\<lambda>s.
                            Inr (c, ses_native_id s))))) (\<lambda>(child, parent).
        seq (look ac_process) (\<lambda>p.
          case (child_config env p (sa_native_id child), parent) of
            (Some _, Some _) \<Rightarrow>
              seq (look ac_captures) (\<lambda>k.
              seq (change (\<lambda>s. s\<lparr>ac_captures := Suc k\<rparr>)) (\<lambda>_.
                case re_transcript env k of
                  Inl m \<Rightarrow> fail (AgentError m)
                | Inr None \<Rightarrow> ret None
                | Inr (Some (es, b)) \<Rightarrow>
                    if es = [] then ret None
                    else seq (db_put (\<lambda>st. cache_subagent_transcript (re_tenc env) st i tid (es, b)))
                           (\<lambda>_. ret (Some (es, b)))))
          | _ \<Rightarrow> ret None)))) (\<lambda>r.
       send_reply n (case r of Inl e \<Rightarrow> Inl e | Inr t \<Rightarrow> Inr (RepTranscript t)))"

text \<open>A queued message handed over to the running turn.\<close>

definition on_forward :: "'a runtime_env \<Rightarrow> string \<Rightarrow> string \<Rightarrow> u32 \<Rightarrow> launch_config \<Rightarrow> nat \<Rightarrow> ('a, unit) run" where
  "on_forward env i rid revision cfg n =
     seq (attempt
       (seq (look (\<lambda>s. ac_immediate s \<noteq> None \<or> length (ac_forwarded s) \<ge> 16)) (\<lambda>full.
        seq (require (\<not> full) SwitchingOrFull) (\<lambda>_.
        seq the_process (\<lambda>p.
        seq (require (\<not> (\<not> pr_ready p \<or> pr_stopping p \<or> pr_interrupt_ack_pending p \<or> \<not> same_config (pr_config p) cfg))
               NotReadyOrOtherConfig) (\<lambda>_.
        seq (find_entry i rid revision) (\<lambda>(e, _).
          advance env (InQueue rid (qm_text e))))))))) (\<lambda>prepared.
       case prepared of
         Inl e \<Rightarrow> send_reply n (Inl e)
       | Inr acts \<Rightarrow>
           seq (attempt
             (seq (db_put (\<lambda>st. mark_forwarded st i rid revision)) (\<lambda>_.
              seq (change (\<lambda>s. s\<lparr>ac_forwarded := AList.update rid (ac_now s + TURN_LIMIT) (ac_forwarded s),
                                  ac_configs := AList.delete rid (ac_configs s)\<rparr>)) (\<lambda>_.
                process_apply env i acts)))) (\<lambda>r.
             case r of
               Inr _ \<Rightarrow> seq (attempt (db_snapshot i)) (\<lambda>r. send_reply n (response_of r))
             | Inl e \<Rightarrow> seq (send_reply n (Inl DeliveryUnknown)) (\<lambda>_. fail e)))"

text \<open>A queued message to be sent as the next turn, at the end of the current one or by interrupting it.\<close>

definition prepare_immediate ::
  "string \<Rightarrow> bool \<Rightarrow> string \<Rightarrow> u32 \<Rightarrow> launch_config \<Rightarrow> ('a, send_turn \<times> string option) run" where
  "prepare_immediate i interrupt rid revision cfg =
     seq (look (\<lambda>s. (ac_immediate s, ac_forwarded s, ac_process s))) (\<lambda>(im, forwarded, p).
     seq (require (im = None) SendingNow) (\<lambda>_.
     seq (require (\<not> (\<not> interrupt \<and> forwarded \<noteq> [])) HandoffPending) (\<lambda>_.
     seq (case p of
            None \<Rightarrow> ret ()
          | Some p \<Rightarrow>
              seq (require (\<not> (\<not> pr_ready p \<or> pr_stopping p \<or> pr_interrupt_ack_pending p)) AgentPreparing) (\<lambda>_.
                require (\<not> (pr_turn_active p \<and> \<not> same_config (pr_config p) cfg)) ImmediateOtherConfig)) (\<lambda>_.
     seq (find_entry i rid revision) (\<lambda>(e, fp).
     seq (db_get (\<lambda>st. Inr (queue_state st i))) (\<lambda>(paused, reason).
     seq (db_pause i (Some sending_message)) (\<lambda>_.
       ret (\<lparr>tn_request_id = qm_request_id e, tn_text = qm_text e, tn_model = qm_model e, tn_fingerprint = fp,
             tn_effort = lc_effort cfg, tn_permission_mode = lc_permission_mode cfg\<rparr>,
            if paused then Some (case reason of Some m \<Rightarrow> m | None \<Rightarrow> queue_paused) else None))))))))"

definition on_dispatch :: "'a runtime_env \<Rightarrow> string \<Rightarrow> bool \<Rightarrow> string \<Rightarrow> u32 \<Rightarrow> launch_config \<Rightarrow> nat \<Rightarrow> ('a, unit) run" where
  "on_dispatch env i interrupt rid revision cfg n =
     seq (attempt (prepare_immediate i interrupt rid revision cfg)) (\<lambda>prepared.
       case prepared of
         Inl e \<Rightarrow> send_reply n (Inl e)
       | Inr (turn, restore) \<Rightarrow>
           seq (change (\<lambda>s. s\<lparr>ac_immediate := Some
                  \<lparr>im_turn = turn, im_config = cfg, im_restore_reason = restore, im_reply = n,
                   im_deadline = ac_now s + 8000\<rparr>\<rparr>)) (\<lambda>_.
           seq (look (\<lambda>s. (ac_forwarded s, ac_process s))) (\<lambda>(forwarded, p).
             if interrupt \<and> forwarded \<noteq> [] then
               seq (abandon_process env i) (\<lambda>background.
               seq (db_uncertain env i) (\<lambda>_.
               seq (db_end_subagents env i SubUnknown) (\<lambda>_.
               seq (finish_turn_run env i True background) (\<lambda>_.
                 db_state i Stopped (Some stopped_current)))))
             else
               case p of
                 None \<Rightarrow> ret ()
               | Some p \<Rightarrow>
                   if pr_turn_active p \<and> interrupt
                   then seq (update_process (\<lambda>p. p\<lparr>pr_stopping := True\<rparr>)) (\<lambda>_. interrupt_process env i)
                   else ret ())))"

definition queue_change :: "'a runtime_env \<Rightarrow> string \<Rightarrow> queue_action \<Rightarrow> ('a, response) run" where
  "queue_change env i act =
     seq (look ac_immediate) (\<lambda>im.
     seq (require (im = None) QueueSending) (\<lambda>_.
       case act of
         QTake rid revision \<Rightarrow>
           seq (db_both (\<lambda>st. take_queued st i rid revision)) (\<lambda>r.
           seq (change (\<lambda>s. s\<lparr>ac_configs := AList.delete rid (ac_configs s)\<rparr>)) (\<lambda>_. ret r))
       | QEdit rid revision new \<Rightarrow>
           seq (db_put (\<lambda>st. edit_queued (re_qenc env) st i rid revision new)) (\<lambda>_.
           seq (if new = None then change (\<lambda>s. s\<lparr>ac_configs := AList.delete rid (ac_configs s)\<rparr>) else ret ()) (\<lambda>_.
             db_snapshot i))
       | QReorder expected order \<Rightarrow>
           seq (db_put (\<lambda>st. reorder_queue st i expected order)) (\<lambda>_. db_snapshot i)
       | QClear \<Rightarrow>
           seq (db_put (\<lambda>st. clear_queue st i)) (\<lambda>_.
           seq (change (\<lambda>s. s\<lparr>ac_configs := []\<rparr>)) (\<lambda>_. db_snapshot i))
       | QResume configs \<Rightarrow>
           seq (db_get (\<lambda>st. queued st i)) (\<lambda>es.
           seq (require (\<not> (length es \<noteq> length configs
                  \<or> list_ex (\<lambda>(e, _). qm_request_id e \<notin> fst ` set configs) es)) QueueChanged) (\<lambda>_.
           seq (change (\<lambda>s. s\<lparr>ac_configs := configs\<rparr>)) (\<lambda>_.
           seq (db_pause i None) (\<lambda>_. db_snapshot i))))
       | QDispatch _ _ _ _ \<Rightarrow> db_snapshot i))"

definition on_queue :: "'a runtime_env \<Rightarrow> string \<Rightarrow> queue_action \<Rightarrow> nat \<Rightarrow> ('a, unit) run" where
  "on_queue env i act n =
     (case act of
        QDispatch interrupt rid revision cfg \<Rightarrow>
          seq (look ac_process) (\<lambda>p.
            if \<not> interrupt \<and> (case p of Some p \<Rightarrow> pr_turn_active p | None \<Rightarrow> False)
            then on_forward env i rid revision cfg n
            else on_dispatch env i interrupt rid revision cfg n)
      | _ \<Rightarrow> seq (attempt (queue_change env i act)) (\<lambda>r. send_reply n (response_of r)))"

definition on_send :: "'a runtime_env \<Rightarrow> string \<Rightarrow> send_turn \<Rightarrow> launch_config \<Rightarrow> bool \<Rightarrow> nat \<Rightarrow> ('a, unit) run" where
  "on_send env i turn cfg allow_queue n =
     seq (set_safe False) (\<lambda>_.
     seq (look (\<lambda>s. ac_forwarded s \<noteq> [])) (\<lambda>pending.
     seq (attempt (receive_turn env i turn cfg allow_queue pending (send_once n (Inr (RepResponse (Accepted False)))))) (\<lambda>r.
       send_once n (response_of r))))"

definition queue_waiting :: "string \<Rightarrow> ('a, bool) run" where
  "queue_waiting i =
     db_get (\<lambda>st. if fst (queue_state st i) then Inr False
                  else and_then (queued st i) (\<lambda>es. Inr (es \<noteq> [])))"

definition actor_busy :: "'a runtime_env \<Rightarrow> string \<Rightarrow> ('a, bool) run" where
  "actor_busy env i =
     seq (look (\<lambda>s. ac_immediate s \<noteq> None \<or> ac_forwarded s \<noteq> [] \<or>
                    (case ac_process s of
                       None \<Rightarrow> False
                     | Some p \<Rightarrow> pr_turn_active p \<or> pr_interrupt_ack_pending p \<or> pr_pending p \<noteq> [] \<or>
                                 \<not> can_reconfigure env p))) (\<lambda>busy.
     if busy then ret True
     else seq (attempt (queue_waiting i)) (\<lambda>r. ret (case r of Inl _ \<Rightarrow> True | Inr b \<Rightarrow> b)))"

definition on_cancel :: "'a runtime_env \<Rightarrow> string \<Rightarrow> nat option \<Rightarrow> bool \<Rightarrow> ('a, flow) run" where
  "on_cancel env i n only_if_idle =
     seq (if only_if_idle then ret () else seq clear_forwarded (\<lambda>_. ignore (db_uncertain env i))) (\<lambda>_.
     seq (if only_if_idle then actor_busy env i else ret False) (\<lambda>busy.
       if busy then
         seq (case n of Some n \<Rightarrow> send_reply n (Inl CloseBusy) | None \<Rightarrow> ret ()) (\<lambda>_. ret SkipRound)
       else
         seq (ignore (db_pause i (Some stopped_paused))) (\<lambda>_.
         seq (reject_immediate SendCancelled) (\<lambda>_.
         seq background_pending (\<lambda>background.
         seq close_process (\<lambda>_.
         seq drop_process (\<lambda>_.
         seq (ignore (finish_turn_run env i True background)) (\<lambda>_.
         seq (attempt (seq (db_end_subagents env i SubStopped) (\<lambda>_.
                       seq (db_session i) (\<lambda>s.
                         if status_active (ses_status s) then db_state i Stopped (Some stopped_message) else ret ())))) (\<lambda>r.
         seq (change (\<lambda>s. s\<lparr>ac_running := False\<rparr>)) (\<lambda>_.
         seq (case n of Some n \<Rightarrow> send_reply n (unit_of r) | None \<Rightarrow> ret ()) (\<lambda>_.
           ret StopActor)))))))))))"

definition after_interaction :: "string \<Rightarrow> ('a, unit) run" where
  "after_interaction i =
     seq the_process (\<lambda>p.
       db_state i (if pr_pending p \<noteq> [] then Waiting else if pr_turn_active p then Running else Completed) None)"

definition check_answers :: "'a process option \<Rightarrow> string \<Rightarrow> question_answer list option \<Rightarrow> rt_error + unit" where
  "check_answers p rid answers =
     (case (case p of Some p \<Rightarrow> map_of (pr_pending p) rid | None \<Rightarrow> None) of
        Some (_, _, Some questions) \<Rightarrow>
          (case answers of
             None \<Rightarrow> Inr ()
           | Some as \<Rightarrow> (case validate_questions questions as of
                           Inl e \<Rightarrow> Inl (QuestionInvalid e) | Inr _ \<Rightarrow> Inr ()))
      | _ \<Rightarrow> Inl QuestionExpired)"

definition on_answer :: "'a runtime_env \<Rightarrow> string \<Rightarrow> string \<Rightarrow> question_answer list option \<Rightarrow> nat \<Rightarrow> ('a, unit) run" where
  "on_answer env i rid answers n =
     seq (look (\<lambda>s. check_answers (ac_process s) rid answers)) (\<lambda>v.
       case v of
         Inl e \<Rightarrow> send_reply n (Inl e)
       | Inr _ \<Rightarrow>
           seq (attempt
             (seq the_process (\<lambda>p.
              seq (from_result (of_option QuestionExpired (map_of (pr_pending p) rid))) (\<lambda>(nid, input, questions).
              seq (update_process (\<lambda>p. p\<lparr>pr_pending := AList.delete rid (pr_pending p)\<rparr>)) (\<lambda>_.
              seq (from_result (of_option NotAQuestion questions)) (\<lambda>questions.
              seq (advance env (InQuestionAnswer nid input questions answers)) (\<lambda>acts.
              seq (process_apply env i acts) (\<lambda>_.
              seq the_process (\<lambda>p.
              seq (redact_event env (pr_config p) (QuestionResolved rid answers)) (\<lambda>e.
              seq (db_event env i e) (\<lambda>_. after_interaction i))))))))))) (\<lambda>r.
           seq (send_reply n (unit_of r)) (\<lambda>_. from_result r)))"

definition on_approval :: "'a runtime_env \<Rightarrow> string \<Rightarrow> string \<Rightarrow> bool \<Rightarrow> nat \<Rightarrow> ('a, unit) run" where
  "on_approval env i rid allow n =
     seq (look ac_process) (\<lambda>p.
       case (case p of Some p \<Rightarrow> map_of (pr_pending p) rid | None \<Rightarrow> None) of
         Some (nid, input, None) \<Rightarrow>
           seq (attempt
             (seq (update_process (\<lambda>p. p\<lparr>pr_pending := AList.delete rid (pr_pending p)\<rparr>)) (\<lambda>_.
              seq (advance env (InApproval nid input allow)) (\<lambda>acts.
              seq (process_apply env i acts) (\<lambda>_.
              seq (db_event env i (ApprovalResolved rid allow)) (\<lambda>_. after_interaction i)))))) (\<lambda>r.
           seq (send_reply n (unit_of r)) (\<lambda>_. from_result r))
       | _ \<Rightarrow> send_reply n (Inl ApprovalExpired))"

text \<open>A line of the agent; the inputs it settles are no longer waited for.\<close>

fun settled_inputs :: "action list \<Rightarrow> string list" where
  "settled_inputs acts =
     concat (map (\<lambda>a. case a of InputsConsumed ids \<Rightarrow> ids | _ \<Rightarrow> []) acts) @
     concat (map (\<lambda>a. case a of InputRejected rid _ \<Rightarrow> [rid] | _ \<Rightarrow> []) acts)"

definition on_line :: "'a runtime_env \<Rightarrow> string \<Rightarrow> (string + string) option \<Rightarrow> ('a, unit) run" where
  "on_line env i item =
     seq the_process (\<lambda>_.
     seq (from_result (of_option UnexpectedExit item)) (\<lambda>item.
     seq (from_result (case item of Inl m \<Rightarrow> Inl (ReadFailed m) | Inr l \<Rightarrow> Inr l)) (\<lambda>line.
     seq (advance env (InMessage line)) (\<lambda>acts.
     seq (process_apply env i acts) (\<lambda>_.
       change (\<lambda>s. s\<lparr>ac_forwarded := filter (\<lambda>(rid, _). rid \<notin> set (settled_inputs acts)) (ac_forwarded s)\<rparr>))))))"

definition on_send_timeout :: "string \<Rightarrow> ('a, unit) run" where
  "on_send_timeout i =
     seq (look ac_immediate) (\<lambda>im.
       case im of
         None \<Rightarrow> ret ()
       | Some v \<Rightarrow>
           seq (reject_immediate SendTimeout) (\<lambda>_.
             db_pause i (case im_restore_reason v of Some m \<Rightarrow> Some m | None \<Rightarrow> Some send_timeout_paused)))"

definition handle_control :: "'a runtime_env \<Rightarrow> string \<Rightarrow> control \<Rightarrow> ('a, flow) run" where
  "handle_control env i c =
     (let go = (\<lambda>m. seq m (\<lambda>_. ret Proceed))
      in case c of
        CtlRenameTitle title n \<Rightarrow> go (on_rename_title env i title n)
      | CtlOpen cfg n \<Rightarrow> go (on_open env i cfg n)
      | CtlInterrupt n \<Rightarrow> go (on_interrupt env i n)
      | CtlSubagentHistory tid n \<Rightarrow> go (on_subagent_history env i tid n)
      | CtlSubagentTranscript tid n \<Rightarrow> go (on_subagent_transcript env i tid n)
      | CtlQueue act n \<Rightarrow> go (on_queue env i act n)
      | CtlSend turn cfg allow_queue n \<Rightarrow> go (on_send env i turn cfg allow_queue n)
      | CtlCancel n only_if_idle \<Rightarrow> on_cancel env i n only_if_idle
      | CtlAnswerQuestion rid answers n \<Rightarrow> go (on_answer env i rid answers n)
      | CtlApproval rid allow n \<Rightarrow> go (on_approval env i rid allow n))"

definition handle_event :: "'a runtime_env \<Rightarrow> string \<Rightarrow> actor_event \<Rightarrow> ('a, flow) run" where
  "handle_event env i ev =
     (case ev of
        EvControl c \<Rightarrow> handle_control env i c
      | EvClosed \<Rightarrow> ret StopActor
      | EvLine item \<Rightarrow> seq (on_line env i item) (\<lambda>_. ret Proceed)
      | EvImmediateDeadline \<Rightarrow> seq (on_send_timeout i) (\<lambda>_. ret Proceed)
      | EvInitDeadline \<Rightarrow> fail InitTimeout
      | EvTurnDeadline \<Rightarrow> fail TurnTimeout
      | EvHandoffDeadline \<Rightarrow> fail HandoffTimeout)"

section \<open>Recovery\<close>

definition recover_round :: "'a runtime_env \<Rightarrow> string \<Rightarrow> rt_error \<Rightarrow> ('a, unit) run" where
  "recover_round env i e =
     seq clear_forwarded (\<lambda>_.
     seq (ignore (db_uncertain env i)) (\<lambda>_.
     seq (reject_immediate SendUnconfirmed) (\<lambda>_.
     seq (ignore (db_pause i (Some failed_paused))) (\<lambda>_.
     seq (look ac_process) (\<lambda>p.
       let recovery = (case p of Some p \<Rightarrow> if pr_ready p then Some (pr_config p) else None | None \<Rightarrow> None);
           m = (case p of Some p \<Rightarrow> redact (pr_config p) (re_show env e) | None \<Rightarrow> re_show env e)
       in seq background_pending (\<lambda>background.
          seq (case p of
                 Some p \<Rightarrow>
                   seq (case pr_stop_reply p of Some n \<Rightarrow> send_reply n (Inl (StopFailed m)) | None \<Rightarrow> ret ()) (\<lambda>_.
                   seq (update_process (\<lambda>p. p\<lparr>pr_stop_reply := None\<rparr>)) (\<lambda>_. close_process))
               | None \<Rightarrow> ret ()) (\<lambda>_.
          seq drop_process (\<lambda>_.
          seq (ignore (finish_turn_run env i True background)) (\<lambda>_.
          seq (ignore (seq (db_end_subagents env i SubUnknown) (\<lambda>_. db_state i Failed (Some m)))) (\<lambda>_.
            case recovery of Some cfg \<Rightarrow> ignore (open_process env i cfg) | None \<Rightarrow> ret ()))))))))))"

definition settle_opening :: "('a, unit) run" where
  "settle_opening =
     seq (look (\<lambda>s. (ac_process s, ac_opening s))) (\<lambda>(p, waiting).
       let answer = (case p of
                       Some p \<Rightarrow> if pr_ready p then Some (Inr RepUnit) else None
                     | None \<Rightarrow> Some (Inl OpenFailed))
       in case answer of
            None \<Rightarrow> ret ()
          | Some r \<Rightarrow> seq (each (\<lambda>n. send_reply n r) waiting) (\<lambda>_. change (\<lambda>s. s\<lparr>ac_opening := []\<rparr>)))"

section \<open>The boundary of turns\<close>

definition session_status :: "string \<Rightarrow> ('a, status) run" where
  "session_status i = seq (db_session i) (\<lambda>s. ret (ses_status s))"

definition settle_queue :: "'a runtime_env \<Rightarrow> string \<Rightarrow> status option \<Rightarrow> ('a, unit) run" where
  "settle_queue env i previous =
     seq (session_status i) (\<lambda>status.
     seq (if (case previous of Some s \<Rightarrow> status_active s \<or> s \<noteq> status | None \<Rightarrow> False) \<and>
             \<not> status_active status \<and> status \<noteq> Completed
          then db_pause i (Some unfinished_paused) else ret ()) (\<lambda>_.
     seq (look ac_forwarded) (\<lambda>forwarded.
       if \<not> status_active status \<and> status \<noteq> Completed \<and> forwarded \<noteq> []
       then seq clear_forwarded (\<lambda>_. db_uncertain env i) else ret ())))"

definition send_immediate :: "'a runtime_env \<Rightarrow> string \<Rightarrow> status option \<Rightarrow> ('a, unit) run" where
  "send_immediate env i previous =
     seq (session_status i) (\<lambda>status.
     seq (look (\<lambda>s. (ac_immediate s, ac_process s))) (\<lambda>(im, p).
       case im of
         None \<Rightarrow> ret ()
       | Some v \<Rightarrow>
           if status_active status \<or>
              \<not> (case p of None \<Rightarrow> True
                 | Some p \<Rightarrow> pr_ready p \<and> \<not> pr_turn_active p \<and> \<not> pr_interrupt_ack_pending p)
           then ret ()
           else
             seq (change (\<lambda>s. s\<lparr>ac_immediate := None\<rparr>)) (\<lambda>_.
             seq (attempt
               (seq (require (\<not> (status \<in> {Failed, Unknown} \<and>
                       (case previous of Some s \<Rightarrow> status_active s | None \<Rightarrow> False))) ExecutionFailed) (\<lambda>_.
                seq (accept_turn env i (im_turn v) (im_config v) (ret ())) (\<lambda>_.
                seq (attempt (db_get (\<lambda>st. queued st i))) (\<lambda>es.
                seq (change (\<lambda>s. s\<lparr>ac_configs :=
                       filter (\<lambda>(rid, _). case es of Inr es \<Rightarrow> list_ex (\<lambda>(e, _). qm_request_id e = rid) es | Inl _ \<Rightarrow> False)
                         (ac_configs s)\<rparr>)) (\<lambda>_.
                seq (session_status i) (\<lambda>status.
                seq (require (status \<noteq> Failed) SendFailed) (\<lambda>_.
                seq (db_pause i (im_restore_reason v)) (\<lambda>_. db_snapshot i))))))))) (\<lambda>r.
               send_reply (im_reply v) (response_of r)))))"

text \<open>The automatic dispatch of the first queued message.\<close>

definition dispatch_next :: "'a runtime_env \<Rightarrow> string \<Rightarrow> ('a, unit) run" where
  "dispatch_next env i =
     seq (session_status i) (\<lambda>status.
     seq (db_get (\<lambda>st. Inr (fst (queue_state st i)))) (\<lambda>paused.
     seq (look (\<lambda>s. (ac_forwarded s, ac_process s))) (\<lambda>(forwarded, p).
       if paused \<or> forwarded \<noteq> [] \<or> status_active status \<or>
          \<not> (case p of None \<Rightarrow> True | Some p \<Rightarrow> can_start_turn env p)
       then ret ()
       else
         seq (db_get (\<lambda>st. queued st i)) (\<lambda>es.
           case es of
             [] \<Rightarrow> ret ()
           | (e, fp) # _ \<Rightarrow>
               seq (look (\<lambda>s. map_of (ac_configs s) (qm_request_id e))) (\<lambda>cfg.
               seq (change (\<lambda>s. s\<lparr>ac_configs := AList.delete (qm_request_id e) (ac_configs s)\<rparr>)) (\<lambda>_.
               seq (from_result (of_option QueueConfigMissing cfg)) (\<lambda>cfg.
               seq (accept_turn env i
                      \<lparr>tn_request_id = qm_request_id e, tn_text = qm_text e, tn_model = qm_model e,
                       tn_fingerprint = fp, tn_effort = lc_effort cfg,
                       tn_permission_mode = lc_permission_mode cfg\<rparr> cfg (ret ())) (\<lambda>_.
               seq (session_status i) (\<lambda>status. require (status \<noteq> Failed) QueueStartFailed)))))))))"

definition turn_boundary :: "'a runtime_env \<Rightarrow> string \<Rightarrow> status option \<Rightarrow> ('a, unit) run" where
  "turn_boundary env i previous =
     seq (settle_queue env i previous) (\<lambda>_. seq (send_immediate env i previous) (\<lambda>_. dispatch_next env i))"

definition boundary_failed :: "'a runtime_env \<Rightarrow> string \<Rightarrow> rt_error \<Rightarrow> ('a, unit) run" where
  "boundary_failed env i e =
     seq clear_forwarded (\<lambda>_.
     seq (ignore (db_uncertain env i)) (\<lambda>_. ignore (db_pause i (Some (re_show env e)))))"

definition update_safe :: "'a runtime_env \<Rightarrow> string \<Rightarrow> ('a, unit) run" where
  "update_safe env i =
     seq (attempt (queue_waiting i)) (\<lambda>waiting.
       change (\<lambda>s. s\<lparr>ac_safe_to_close :=
         (waiting = Inr False \<and> ac_immediate s = None \<and> ac_forwarded s = [] \<and>
          (case ac_process s of
             None \<Rightarrow> True
           | Some p \<Rightarrow> \<not> pr_interrupt_ack_pending p \<and> pr_pending p = [] \<and> can_reconfigure env p))\<rparr>))"

section \<open>A round\<close>

definition actor_round :: "'a runtime_env \<Rightarrow> string \<Rightarrow> actor_event \<Rightarrow> ('a, unit) run" where
  "actor_round env i ev =
     seq (attempt (session_status i)) (\<lambda>previous.
     seq (attempt (handle_event env i ev)) (\<lambda>r.
       let previous = (case previous of Inr s \<Rightarrow> Some s | Inl _ \<Rightarrow> None);
           rest = seq settle_opening (\<lambda>_.
                  seq (attempt (turn_boundary env i previous)) (\<lambda>r.
                  seq (case r of Inl e \<Rightarrow> boundary_failed env i e | Inr _ \<Rightarrow> ret ()) (\<lambda>_. update_safe env i)))
       in case r of
            Inr SkipRound \<Rightarrow> ret ()
          | Inr StopActor \<Rightarrow> seq close_process (\<lambda>_. change (\<lambda>s. s\<lparr>ac_running := False\<rparr>))
          | Inr Proceed \<Rightarrow> rest
          | Inl e \<Rightarrow> seq (recover_round env i e) (\<lambda>_. rest)))"

end
