(* ===== verification/Frames.thy ===== *)
theory Frames
  imports Turns Children "HOL-Library.Sublist"
begin

text \<open>
  What the operations that serve a running agent do to the tables other parts rely on. A step is \<open>quiet\<close> when
  it admits no request, only appends to the event log, moves queue rows along their life cycle without handing
  any over, and keeps the sessions apart from their data. Every operation of the store but the admission and the
  hand-over is quiet.
\<close>

definition forwarded_of :: "queue_row list \<Rightarrow> (string \<times> string) set" where
  "forwarded_of rs = (\<lambda>r. (q_session_id r, q_request_id r)) ` {r \<in> set rs. q_status r = Forwarded}"

abbreviation forwarded_keys :: "store \<Rightarrow> (string \<times> string) set" where
  "forwarded_keys st \<equiv> forwarded_of (db_queue st)"

definition quiet :: "store \<Rightarrow> store \<Rightarrow> bool" where
  "quiet st st' \<longleftrightarrow>
     db_requests st' = db_requests st \<and> prefix (db_events st) (db_events st') \<and>
     queue_safe st st' \<and> forwarded_keys st' \<subseteq> forwarded_keys st \<and>
     map sr_id (db_sessions st') = map sr_id (db_sessions st) \<and>
     (session_rows_ok st \<longrightarrow> session_rows_ok st')"

lemma queue_safe_refl [simp]: "queue_safe st st"
  by (simp add: queue_safe_def)

lemma quiet_refl [simp]: "quiet st st"
  by (simp add: quiet_def)

lemma quiet_trans: "quiet a b \<Longrightarrow> quiet b c \<Longrightarrow> quiet a c"
  by (auto simp: quiet_def intro: queue_safe_trans prefix_order.trans)

text \<open>Steps that leave queue and sessions alone.\<close>

lemma quiet_same:
  assumes "db_requests st' = db_requests st" and "prefix (db_events st) (db_events st')"
    and "db_queue st' = db_queue st" and "db_queue_position st' = db_queue_position st"
    and "db_sessions st' = db_sessions st"
  shows "quiet st st'"
  using assms by (simp add: quiet_def queue_safe_same session_rows_ok_def)

lemma quiet_core: "same_core st st' \<Longrightarrow> prefix (db_events st) (db_events st') \<Longrightarrow> quiet st st'"
  by (rule quiet_same) (simp_all add: same_core_def)

text \<open>Steps that write sessions.\<close>

lemma quiet_sessions:
  assumes "db_sessions st' = update_where (\<lambda>r. sr_id r = i) (\<lambda>r. r\<lparr>sr_data := s\<rparr>) (db_sessions st)"
    and "session_rows_ok st \<Longrightarrow> session_exists st i \<Longrightarrow> ses_id s = i"
    and "db_requests st' = db_requests st" and "prefix (db_events st) (db_events st')"
    and "db_queue st' = db_queue st" and "db_queue_position st' = db_queue_position st"
  shows "quiet st st'"
proof -
  have "map sr_id (update_where (\<lambda>r. sr_id r = i) (\<lambda>r. r\<lparr>sr_data := s\<rparr>) rs) = map sr_id rs" for rs
    by (induction rs) auto
  moreover have "session_rows_ok st'" if ok: "session_rows_ok st"
  proof -
    have "ses_id s = i" if "r \<in> set (db_sessions st)" "sr_id r = i" for r
      using assms(2) [OF ok] that by (auto simp: session_exists_def)
    with ok show ?thesis by (auto simp: session_rows_ok_def assms(1) in_set_update_where)
  qed
  ultimately show ?thesis using assms(3-6)
    by (simp add: quiet_def queue_safe_same assms(1))
qed

lemma session_by_id_ses_id: "session_by_id st i = Inr s \<Longrightarrow> session_rows_ok st \<Longrightarrow> ses_id s = i"
  by (auto simp: session_by_id_def result_simps session_rows_ok_def dest!: find_Some_in)

lemma quiet_save:
  assumes "session_by_id st i = Inr s" and "ses_id s' = ses_id s"
  shows "quiet st (save st s')"
proof (rule quiet_sessions)
  show "db_sessions (save st s') = update_where (\<lambda>r. sr_id r = ses_id s') (\<lambda>r. r\<lparr>sr_data := s'\<rparr>) (db_sessions st)"
    by (simp add: save_def)
qed (simp_all add: save_def)

section \<open>Events\<close>

lemma insert_event_prefix: "insert_event st i t e = Inr st' \<Longrightarrow> prefix (db_events st) (db_events st')"
  by (auto simp: insert_event_Inr)

lemma read_clock_events: "read_clock st = (t, st') \<Longrightarrow> db_events st' = db_events st"
  by (auto simp: read_clock_def)

lemma index_event_events: "index_event parse st i e = Inr st' \<Longrightarrow> db_events st' = db_events st"
  by (drule index_event_frame) (simp add: same_but_sources_fields)

lemma track_subagent_events: "track_subagent st i t u = Inr (task, st') \<Longrightarrow> db_events st' = db_events st"
  by (auto simp: track_subagent_def upsert_subagent_def result_simps Let_def)

lemma store_event_prefix: "store_event enc parse st i e = Inr st' \<Longrightarrow> prefix (db_events st) (db_events st')"
  by (cases e)
     (auto simp: store_event_def result_simps split: prod.splits
       dest!: insert_event_prefix index_event_events read_clock_events track_subagent_events)

lemma quiet_store_event: "store_event enc parse st i e = Inr st' \<Longrightarrow> quiet st st'"
  by (rule quiet_core [OF store_event_core store_event_prefix])

lemma quiet_insert_event: "insert_event st i t e = Inr st' \<Longrightarrow> quiet st st'"
  by (rule quiet_core [OF insert_event_core insert_event_prefix])

lemma quiet_read_clock: "read_clock st = (t, st') \<Longrightarrow> quiet st st'"
  by (rule quiet_core [OF read_clock_core]) (auto dest: read_clock_events)

lemma quiet_end_subagents: "end_subagents enc parse st i s = Inr st' \<Longrightarrow> quiet st st'"
  unfolding end_subagents_def
  by (erule for_each_invariant) (auto dest: quiet_store_event intro: quiet_trans)

lemma quiet_set_state: "set_state st i status m = Inr st' \<Longrightarrow> quiet st st'"
proof -
  assume a: "set_state st i status m = Inr st'"
  then obtain s where s: "session_by_id st i = Inr s" by (auto simp: set_state_def result_simps)
  define s' where "s' = (if status_active (ses_status s) \<and> status \<in> {Completed, Failed, Stopped}
                         then s\<lparr>ses_unread := True\<rparr> else s)\<lparr>ses_status := status\<rparr>"
  have id: "ses_id s' = ses_id s" by (simp add: s'_def)
  have ev: "insert_event (snd (read_clock (save_as st i s'))) i (fst (read_clock (save_as st i s'))) (State status m) = Inr st'"
    using a by (simp add: set_state_def s s'_def Let_def split_beta)
  have "quiet st (save_as st i s')"
    by (rule quiet_sessions [where i = i and s = s'])
       (use session_by_id_ses_id [OF s] id in \<open>simp_all add: save_as_def\<close>)
  with quiet_read_clock [OF prod.collapse [symmetric], of "save_as st i s'"] quiet_insert_event [OF ev] show ?thesis by (blast intro: quiet_trans)
qed

lemma quiet_observe_tool: "observe_tool st i tid name = Inr st' \<Longrightarrow> quiet st st'"
  by (rule quiet_same)
     (auto simp: observe_tool_def dest!: index_tool_frame simp: same_but_sources_fields)

section \<open>Titles\<close>

lemma quiet_sync_title: "sync_native_title st i title b = Inr (s, st') \<Longrightarrow> quiet st st'"
  by (auto simp: sync_native_title_def result_simps Let_def intro: quiet_save split: if_splits)

lemma quiet_sync_live_title: "sync_live_native_title st i title = Inr (s, st') \<Longrightarrow> quiet st st'"
  unfolding sync_live_native_title_def by (rule quiet_sync_title)

section \<open>Children\<close>

lemma quiet_subagent_event:
  assumes "subagent_event jenc parse st i tool e = Inr st'"
  shows "quiet st st'"
proof -
  have stream: "same_core st (stream_child_event parse st i tid e)"
    "db_events (stream_child_event parse st i tid e) = db_events st" for tid
    by (auto simp: stream_child_event_def insert_child_row_def read_clock_def Let_def same_core_def
        split: event_kind.splits option.splits prod.splits)
  have snap: "same_core st1 st' \<and> db_events st' = db_events st1"
    if snap: "snapshot_child_event jenc st1 i tid e = Inr st'" for st1 tid
  proof -
    from snap obtain e' b where
      "(case e' of
          Text text \<Rightarrow>
            (case last_child_event st1 i tid of
               Some r \<Rightarrow>
                 (case ser_data r of
                    Text joined \<Rightarrow>
                      and_then (bounded_subagent_event jenc
                                  (Text (if ser_truncated r then joined else joined @ text))) (\<lambda>(e, b').
                        Inr (replace_child_event st1 (ser_seq r) e (b \<or> ser_truncated r \<or> b')))
                  | _ \<Rightarrow> Inr (append_child_event st1 i tid e' b))
             | None \<Rightarrow> Inr (append_child_event st1 i tid e' b))
        | _ \<Rightarrow> Inr (append_child_event st1 i tid e' b)) = Inr st'"
      unfolding snapshot_child_event_def and_then_eq_Inr by auto
    then have "(\<exists>e b. st' = append_child_event st1 i tid e b) \<or> (\<exists>n e b. st' = replace_child_event st1 n e b)"
      by (cases e', auto simp: result_simps split: option.split_asm event_kind.split_asm prod.split_asm, blast)
    then show ?thesis
      by (auto simp: append_child_event_def replace_child_event_def read_clock_def same_core_def)
  qed
  from assms obtain tid where "snapshot_child_event jenc (stream_child_event parse st i tid e) i tid e = Inr st'"
    by (auto simp: subagent_event_def result_simps)
  with snap stream show ?thesis by (metis quiet_core same_core_trans prefix_order.refl)
qed

lemma quiet_cache_history: "cache_child_history st i tid es c = Inr st' \<Longrightarrow> quiet st st'"
  by (rule quiet_same)
     (auto simp: cache_child_history_def result_simps save_child_cursor_def dest!: cache_native_events_extend)

lemma quiet_cache_transcript: "cache_subagent_transcript tenc st i tid t = Inr st' \<Longrightarrow> quiet st st'"
  by (rule quiet_same) (auto simp: cache_subagent_transcript_def result_simps Let_def)

section \<open>Turns\<close>

lemma quiet_finish_turn:
  assumes "finish_turn fenc enc st i turn = Inr st'"
  shows "quiet st st'"
proof -
  have ev: "quiet st1 st'" if "turn_event enc st1 i changes = Inr st'" for st1 changes
  proof -
    from that have "insert_event (snd (read_clock st1)) i (fst (read_clock st1)) (TurnChanges changes) = Inr st'"
      by (auto simp: turn_event_def small_json_def result_simps split_beta)
    with quiet_read_clock [OF prod.collapse [symmetric], of st1] show ?thesis
      by (blast intro: quiet_trans dest: quiet_insert_event)
  qed
  have up: "quiet st (st\<lparr>db_turn_changes := rows\<rparr>)" for rows by (rule quiet_same) simp_all
  from assms obtain rows where "turn_event enc (st\<lparr>db_turn_changes := rows\<rparr>) i (ft_changes turn) = Inr st' \<or>
      st' = st\<lparr>db_turn_changes := rows\<rparr>"
    by (auto simp: finish_turn_def small_json_def result_simps Let_def split: if_splits)
  with up ev show ?thesis by (blast intro: quiet_trans)
qed

lemma quiet_save_turn_baseline: "save_turn_baseline senc st i rid s = Inr st' \<Longrightarrow> quiet st st'"
proof -
  assume "save_turn_baseline senc st i rid s = Inr st'"
  then have "\<exists>rows. st' = st\<lparr>db_turn_changes := rows\<rparr> \<or> st' = st"
    by (auto simp: save_turn_baseline_def small_json_def result_simps split: if_splits)
  then show ?thesis by (auto simp: quiet_same)
qed

lemma quiet_save_baseline: "save_baseline senc st i s = Inr st' \<Longrightarrow> quiet st st'"
proof -
  assume "save_baseline senc st i s = Inr st'"
  then have "\<exists>rows. st' = st\<lparr>db_task_baselines := rows\<rparr> \<or> st' = st"
    by (auto simp: save_baseline_def small_json_def result_simps split: if_splits)
  then show ?thesis by (auto simp: quiet_same)
qed

section \<open>The queue\<close>

text \<open>A queue step is quiet when it changes nothing else and forwards nothing.\<close>

lemma quiet_queue:
  assumes "queue_safe st st'" and "forwarded_keys st' \<subseteq> forwarded_keys st"
    and "db_requests st' = db_requests st" and "prefix (db_events st) (db_events st')"
    and "db_sessions st' = db_sessions st"
  shows "quiet st st'"
  using assms by (simp add: quiet_def session_rows_ok_def)

lemma forwarded_update:
  assumes "\<forall>r. p r \<longrightarrow> q_status (f r) \<noteq> Forwarded"
  shows "forwarded_of (update_where p f rs) \<subseteq> forwarded_of rs"
  using assms by (induction rs) (auto simp: forwarded_of_def)

lemma forwarded_update_queue:
  assumes "\<And>r. q_status r = s \<Longrightarrow> q_status (f r) \<noteq> Forwarded"
  shows "forwarded_keys (update_queue st i rid s f) \<subseteq> forwarded_keys st"
  using assms by (simp add: update_queue_def forwarded_update)

lemma quiet_consume: "quiet st (consume_forwarded st i ids)"
proof -
  have "quiet st (update_queue st i rid Forwarded (\<lambda>r. r\<lparr>q_status := Dispatched\<rparr>))" for st rid
    by (rule quiet_queue [OF update_queue_safe forwarded_update_queue]) (simp_all add: row_evolves_def update_queue_def)
  then show ?thesis
    unfolding consume_forwarded_def by (induction ids arbitrary: st) (auto intro: quiet_trans)
qed

lemma quiet_pause: "pause_queue st i m = Inr st' \<Longrightarrow> quiet st st'"
  by (rule quiet_same) (auto simp: pause_queue_def write_queue_state_def result_simps split: if_splits)

lemma quiet_write_queue_state: "write_queue_state st i b m = Inr st' \<Longrightarrow> quiet st st'"
  by (rule quiet_same) (auto simp: write_queue_state_def result_simps split: if_splits)

lemma quiet_reject:
  assumes "reject_forwarded st i rid m = Inr st'"
  shows "quiet st st'"
proof (cases "List.find (\<lambda>r. q_session_id r = i \<and> q_request_id r = rid \<and> q_status r = Forwarded) (db_queue st)")
  case None
  with assms show ?thesis by (simp add: reject_forwarded_def)
next
  case (Some row)
  let ?up = "\<lambda>n. update_queue st i rid Forwarded (\<lambda>r. r\<lparr>q_status := Pending, q_data := (q_data row)\<lparr>qm_revision := n\<rparr>\<rparr>)"
  from assms Some obtain n st2 where st2: "write_queue_state (?up n) i True (Some (rejected_prefix @ m)) = Inr st2"
    and ev: "insert_event (snd (read_clock st2)) i (fst (read_clock st2)) (Notice (rejected_prefix @ m)) = Inr st'"
    by (auto simp: reject_forwarded_def result_simps Let_def split_beta)
  have step: "quiet (?up n) st'"
    using quiet_write_queue_state [OF st2] quiet_read_clock [OF prod.collapse [symmetric], of st2] quiet_insert_event [OF ev]
    by (blast intro: quiet_trans)
  have "forwarded_keys (?up n) \<subseteq> forwarded_keys st" by (rule forwarded_update_queue) simp
  moreover have "db_requests (?up n) = db_requests st" "db_events (?up n) = db_events st" "db_sessions (?up n) = db_sessions st"
    by (simp_all add: update_queue_def)
  ultimately show ?thesis using step reject_forwarded_safe [OF assms]
    by (auto simp: quiet_def session_rows_ok_def)
qed

lemma quiet_uncertain:
  assumes "uncertain_forwarded enc parse st i = Inr st'"
  shows "quiet st st'"
proof -
  let ?p = "\<lambda>r. q_session_id r = i \<and> q_status r = Forwarded"
  let ?st = "st\<lparr>db_queue := update_where ?p (\<lambda>r. r\<lparr>q_status := Uncertain\<rparr>) (db_queue st)\<rparr>"
  have "quiet st ?st"
  proof (rule quiet_queue)
    show "queue_safe st ?st" by (rule queue_safe_update [where st = st]) (auto simp: row_evolves_def)
    show "forwarded_keys ?st \<subseteq> forwarded_keys st" by (simp add: forwarded_update)
  qed simp_all
  moreover have "quiet ?st st'" using assms
    by (auto simp: uncertain_forwarded_def Let_def dest: quiet_store_event split: if_splits)
  ultimately show ?thesis by (rule quiet_trans)
qed

lemma quiet_edit:
  assumes "edit_queued qenc st i rid vers new = Inr st'"
  shows "quiet st st'"
proof (rule quiet_queue [OF edit_queued_safe [OF assms]])
  from edit_queued_Inr [OF assms] obtain f where st': "st' = update_queue st i rid Pending f"
    and f: "\<forall>r. q_status r = Pending \<longrightarrow> q_status (f r) \<noteq> Forwarded" by (cases new) fastforce+
  then show "forwarded_keys st' \<subseteq> forwarded_keys st" using forwarded_update_queue by blast
  show "db_requests st' = db_requests st" "prefix (db_events st) (db_events st')" "db_sessions st' = db_sessions st"
    by (simp_all add: st' update_queue_def)
qed

lemma quiet_take:
  assumes "take_queued st i rid vers = Inr (r, st')"
  shows "quiet st st'"
proof (rule quiet_queue [OF take_queued_safe [OF assms]])
  from assms have st': "st' = set_queue_status st i rid Taken" by (auto simp: take_queued_Inr)
  show "forwarded_keys st' \<subseteq> forwarded_keys st"
    by (simp add: st' set_queue_status_def forwarded_update)
  show "db_requests st' = db_requests st" "prefix (db_events st) (db_events st')" "db_sessions st' = db_sessions st"
    by (simp_all add: st' set_queue_status_def)
qed

lemma quiet_set_ranks: "quiet st (set_ranks st i order)"
proof -
  have step: "quiet st (update_queue st i rid Pending (\<lambda>r. r\<lparr>q_sort_order := n\<rparr>))" for st rid n
    by (rule quiet_queue [OF update_queue_safe forwarded_update_queue]) (simp_all add: row_evolves_def update_queue_def)
  have "quiet st (foldl (\<lambda>st (rank, rid). update_queue st i rid Pending (\<lambda>r. r\<lparr>q_sort_order := int rank\<rparr>)) st xs)" for xs
    by (induction xs arbitrary: st) (auto intro: quiet_trans [OF step] split: prod.split)
  then show ?thesis by (simp add: set_ranks_def)
qed

lemma quiet_reorder: "reorder_queue st i expected order = Inr st' \<Longrightarrow> quiet st st'"
  using quiet_set_ranks by (auto simp: reorder_queue_def result_simps Let_def split: if_splits)

lemma quiet_clear:
  assumes "clear_queue st i = Inr st'"
  shows "quiet st st'"
proof (rule quiet_queue [OF clear_queue_safe [OF assms]])
  from assms have "db_queue st' = update_where (\<lambda>r. q_session_id r = i \<and> q_status r = Pending) (\<lambda>r. r\<lparr>q_status := Cancelled\<rparr>) (db_queue st)"
    by (auto simp: clear_queue_def result_simps)
  then show "forwarded_keys st' \<subseteq> forwarded_keys st" by (simp add: forwarded_update)
  from assms show "db_requests st' = db_requests st" "prefix (db_events st) (db_events st')" "db_sessions st' = db_sessions st"
    by (auto simp: clear_queue_def result_simps)
qed

lemma quiet_enqueue:
  assumes "enqueue qenc st i turn = Inr st'"
  shows "quiet st st'"
proof (rule quiet_queue [OF enqueue_safe [OF assms]])
  from assms show "forwarded_keys st' \<subseteq> forwarded_keys st"
    by (elim enqueue_Inr) (auto simp: forwarded_of_def)
  from assms show "db_requests st' = db_requests st" "prefix (db_events st) (db_events st')" "db_sessions st' = db_sessions st"
    by (auto simp: enqueue_def result_simps Let_def read_clock_def)
qed

lemmas quiet_rules =
  quiet_store_event quiet_end_subagents quiet_set_state quiet_observe_tool quiet_sync_title quiet_sync_live_title
  quiet_subagent_event quiet_cache_history quiet_cache_transcript quiet_finish_turn quiet_save_turn_baseline
  quiet_save_baseline quiet_pause quiet_reject quiet_uncertain quiet_edit quiet_take quiet_reorder quiet_clear
  quiet_enqueue

section \<open>Admission and hand-over\<close>

text \<open>What every step does, these two included.\<close>

definition store_step :: "store \<Rightarrow> store \<Rightarrow> bool" where
  "store_step st st' \<longleftrightarrow>
     prefix (db_requests st) (db_requests st') \<and> prefix (db_events st) (db_events st') \<and> queue_safe st st' \<and>
     prefix (map sr_id (db_sessions st)) (map sr_id (db_sessions st')) \<and> (session_rows_ok st \<longrightarrow> session_rows_ok st')"

lemma store_step_refl [simp]: "store_step st st"
  by (simp add: store_step_def)

lemma store_step_trans: "store_step a b \<Longrightarrow> store_step b c \<Longrightarrow> store_step a c"
  by (auto simp: store_step_def intro: queue_safe_trans prefix_order.trans)

lemma quiet_store_step: "quiet st st' \<Longrightarrow> store_step st st'"
  by (simp add: quiet_def store_step_def)

lemma begin_store_step:
  assumes "begin_turn parse st i rid msg model effort fp perm = Inr (b, st')"
  shows "store_step st st' \<and> forwarded_keys st' \<subseteq> forwarded_keys st"
proof (cases b)
  case False
  with assms have "st' = st" by (auto simp: begin_turn_def result_simps split: if_splits)
  then show ?thesis by simp
next
  case True
  with assms have "begin_turn parse st i rid msg model effort fp perm = Inr (True, st')" by simp
  from begin_turn_new [OF this] obtain s where s: "session_by_id st i = Inr s"
    and ses: "db_sessions st' = db_sessions (save_as st i (running_session s msg model effort perm))"
    and "prefix (db_requests st) (db_requests st')" "prefix (db_events st) (db_events st')"
    and q: "db_queue st' = dispatch_row i rid (db_queue st)" by (metis prefixI)
  moreover have "quiet st (save_as st i (running_session s msg model effort perm))"
    by (rule quiet_sessions [where i = i and s = "running_session s msg model effort perm"])
       (use session_by_id_ses_id [OF s] in \<open>simp_all add: save_as_def running_session_def Let_def\<close>)
  moreover have "forwarded_keys st' \<subseteq> forwarded_keys st"
    by (simp add: q dispatch_row_def forwarded_update)
  ultimately show ?thesis using begin_turn_safe [OF assms]
    by (simp add: store_step_def quiet_def session_rows_ok_def)
qed

lemma forward_store_step:
  assumes "mark_forwarded st i rid vers = Inr st'"
  shows "store_step st st' \<and> forwarded_keys st' \<subseteq> insert (i, rid) (forwarded_keys st)"
proof -
  from mark_forwarded_Inr [OF assms] have q: "db_queue st' = db_queue (set_queue_status st i rid Forwarded)" by blast
  have sub: "forwarded_of (update_where (\<lambda>r. q_session_id r = i \<and> q_request_id r = rid) (\<lambda>r. r\<lparr>q_status := s\<rparr>) rs)
      \<subseteq> insert (i, rid) (forwarded_of rs)" for s rs
    by (induction rs) (auto simp: forwarded_of_def)
  have "forwarded_keys st' \<subseteq> insert (i, rid) (forwarded_keys st)"
    by (simp add: q set_queue_status_def sub)
  moreover have "db_sessions st' = db_sessions st" "db_requests st' = db_requests st" "prefix (db_events st) (db_events st')"
    using assms by (auto simp: mark_forwarded_def result_simps Let_def read_clock_def set_queue_status_def insert_event_Inr)
  ultimately show ?thesis using mark_forwarded_safe [OF assms] by (simp add: store_step_def session_rows_ok_def)
qed

end
