(* ===== verification/Supervised.thy ===== *)
theory Supervised
  imports Actor Frames
begin

text \<open>
  The frame of the supervision: any preorder on actor states that quiet store steps and changes of the process,
  the answers and the counters satisfy is satisfied by the actions of an adapter, the end of a turn and
  everything that follows an admission. The locale proves this once; it is interpreted on what the store
  keeps, and on the fields only the handlers write.
\<close>

section \<open>The contract\<close>

locale supervision = effect_frame R for R :: "'a actor \<Rightarrow> 'a actor \<Rightarrow> bool" +
  assumes on_store: "quiet (ac_store s) st \<Longrightarrow> R s (s\<lparr>ac_store := st\<rparr>)"
    and on_process: "R s (s\<lparr>ac_process := p\<rparr>)"
    and on_replies: "R s (s\<lparr>ac_replies := ac_replies s @ [x]\<rparr>)"
    and on_open: "R s (s\<lparr>ac_session_open := b\<rparr>)"
    and on_writes: "R s (s\<lparr>ac_writes := n\<rparr>)"
    and on_uuids: "R s (s\<lparr>ac_uuids := n\<rparr>)"
    and on_captures: "R s (s\<lparr>ac_captures := n\<rparr>)"
begin

lemma framed_db_get: "framed R (db_get f)"
  by (simp add: framed_def db_get_def same)

lemma framed_db_put: "(\<And>st st'. f st = Inr st' \<Longrightarrow> quiet st st') \<Longrightarrow> framed R (db_put f)"
  by (auto simp: framed_def db_put_def same intro: on_store split: sum.splits)

lemma framed_db_both: "(\<And>st x st'. f st = Inr (x, st') \<Longrightarrow> quiet st st') \<Longrightarrow> framed R (db_both f)"
  by (auto simp: framed_def db_both_def same intro: on_store split: sum.splits)

lemma framed_update_process: "framed R (update_process f)"
  by (simp add: update_process_def framed_change on_process)

lemma framed_send: "framed R (send_reply n r)" "framed R (send_once n r)"
  by (simp_all add: send_reply_def send_once_def framed_change on_replies same)

lemma framed_counters:
  "framed R (change (\<lambda>s. s\<lparr>ac_writes := n\<rparr>))" "framed R (change (\<lambda>s. s\<lparr>ac_uuids := n\<rparr>))"
  "framed R (change (\<lambda>s. s\<lparr>ac_captures := n\<rparr>))" "framed R (change (\<lambda>s. s\<lparr>ac_session_open := g s\<rparr>))"
  by (simp_all add: framed_change on_writes on_uuids on_captures on_open)

lemma framed_drop: "framed R drop_process"
proof -
  have "R s (s\<lparr>ac_process := None, ac_session_open := False\<rparr>)" for s
    using steps [OF on_process [of s None] on_open [of "s\<lparr>ac_process := None\<rparr>" False]] by simp
  then show ?thesis unfolding drop_process_def by (intro framed_change) (auto simp: same split: option.split)
qed

lemmas basic_rules =
  framed_rules framed_db_get framed_update_process framed_send framed_counters framed_drop

lemma framed_the_process: "framed R the_process"
  unfolding the_process_def by (intro basic_rules)

lemma framed_close: "framed R close_process"
  unfolding close_process_def by (intro basic_rules)

lemma framed_write: "framed R (write_input env data)"
  unfolding write_input_def by (intro basic_rules)

lemma framed_uuid: "framed R (fresh_uuid env)"
  unfolding fresh_uuid_def by (intro basic_rules)

lemma framed_capture: "framed R (capture env)"
  unfolding capture_def by (intro basic_rules)

lemma framed_unavailable: "framed R (unavailable m)"
  unfolding unavailable_def by (rule framed_db_both) (auto dest: quiet_read_clock split: prod.splits)

lemma framed_advance: "framed R (advance env input)"
  unfolding advance_def by (intro basic_rules framed_the_process)

lemma framed_redact: "framed R (redact_event env cfg e)"
  unfolding redact_event_def by (intro basic_rules)

lemma framed_db_event: "framed R (db_event env i e)"
  unfolding db_event_def by (rule framed_db_put) (rule quiet_store_event)

lemma framed_db_state: "framed R (db_state i status m)"
  unfolding db_state_def by (rule framed_db_put) (rule quiet_set_state)

lemma framed_db_session: "framed R (db_session i)"
  unfolding db_session_def by (rule framed_db_get)

lemmas primitive_rules =
  basic_rules framed_the_process framed_close framed_write framed_uuid framed_capture framed_unavailable
  framed_advance framed_redact framed_db_event framed_db_state framed_db_session

section \<open>Actions\<close>

lemma framed_add_interaction: "framed R (add_interaction env e x)"
  unfolding add_interaction_def by (intro primitive_rules)

lemma framed_cache_pages: "framed R (cache_pages i tid ps)"
  by (induction ps) (auto intro!: primitive_rules framed_db_put quiet_cache_history)

lemma framed_capture_child: "framed R (capture_child env i nid)"
  unfolding capture_child_def
  by (intro primitive_rules framed_db_put framed_cache_pages) (rule quiet_cache_transcript)

lemma framed_titles: "framed R (live_title i title)" "framed R (generated_title i native title)"
  unfolding live_title_def generated_title_def
  by (intro primitive_rules framed_db_both; erule quiet_sync_live_title quiet_sync_title)+

lemma framed_native_session: "framed R (native_session i nid)"
proof -
  have "R s (s\<lparr>ac_store := save (ac_store s) (x\<lparr>ses_native_id := Some nid\<rparr>)\<rparr>)"
    if "session_by_id (ac_store s) i = Inr x" for s x
    using quiet_save [OF that, of "x\<lparr>ses_native_id := Some nid\<rparr>"] by (simp add: on_store)
  then show ?thesis
    by (auto simp: framed_def native_session_def db_session_def db_get_def db_put_def seq_apply same split: sum.split)
qed

lemma framed_apply_action: "framed R (apply_action env i cfg act)"
proof -
  have "framed R (db_put (\<lambda>st. observe_tool st i tid name))"
    "framed R (db_put (\<lambda>st. Inr (consume_forwarded st i ids)))"
    "framed R (db_put (\<lambda>st. reject_forwarded st i rid m))"
    "framed R (db_put (\<lambda>st. subagent_event (re_jenc env) (re_parse env) st i tool e))"
    "framed R mark_ready" "framed R (turn_started i)"
    for tid name ids rid m tool e
    by (auto intro!: framed_db_put primitive_rules quiet_consume
        dest: quiet_observe_tool quiet_reject quiet_subagent_event simp: mark_ready_def turn_started_def)
  then show ?thesis unfolding apply_action_def Let_def
    by (cases act)
       (simp_all add: framed_ret, (intro primitive_rules framed_titles framed_native_session framed_add_interaction
                     framed_capture_child; assumption?)+)
qed

lemma framed_apply_actions: "framed R (apply_actions env i cfg acts)"
  by (induction acts) (auto intro!: primitive_rules framed_apply_action)

section \<open>Turns\<close>

lemma framed_finish_turn: "framed R (finish_turn_run env i a b)"
  unfolding finish_turn_run_def by (intro primitive_rules framed_db_put) (rule quiet_finish_turn)

lemma framed_confirm: "framed R (confirm_rename i act)"
  unfolding confirm_rename_def
  by (cases act) (simp_all, (intro primitive_rules framed_db_both; erule quiet_sync_title)+)

lemma framed_end_turn: "framed R (end_turn env i status m)"
  unfolding end_turn_def by (intro primitive_rules framed_finish_turn)

lemma framed_late_interrupt: "framed R (late_interrupt env i)"
  unfolding late_interrupt_def by (intro primitive_rules framed_apply_actions)

lemma framed_process_apply: "framed R (process_apply env i acts)"
  unfolding process_apply_def prepare_batch_def
  by (intro primitive_rules framed_confirm framed_apply_actions framed_end_turn framed_late_interrupt)

lemma framed_spawn: "framed R (spawn env s cfg)"
  unfolding spawn_def by (intro primitive_rules framed_change on_process)

lemma framed_save_baselines: "framed R (save_baselines env i turn)"
  unfolding save_baselines_def
  by (intro primitive_rules framed_db_put; erule quiet_save_turn_baseline quiet_save_baseline)

lemma framed_start_turn: "framed R (start_turn env i turn cfg)"
  unfolding start_turn_def
  by (intro primitive_rules framed_save_baselines framed_spawn framed_process_apply)

lemma framed_background: "framed R background_pending"
  unfolding background_pending_def by (intro primitive_rules)

lemma framed_turn_failed: "framed R (turn_failed env i cfg e)"
  unfolding turn_failed_def
  by (intro primitive_rules framed_background framed_finish_turn framed_db_put) (rule quiet_end_subagents)

lemma framed_open_process: "framed R (open_process env i cfg)"
  unfolding open_process_def by (intro primitive_rules framed_spawn framed_process_apply)

lemma framed_pause: "framed R (db_pause i m)"
  unfolding db_pause_def by (rule framed_db_put) (rule quiet_pause)

lemma framed_uncertain: "framed R (db_uncertain env i)"
  unfolding db_uncertain_def by (rule framed_db_put) (rule quiet_uncertain)

lemma framed_end_subagents: "framed R (db_end_subagents env i st)"
  unfolding db_end_subagents_def by (rule framed_db_put) (rule quiet_end_subagents)

lemma framed_ignore: "framed R m \<Longrightarrow> framed R (ignore m)"
  unfolding ignore_def by (intro primitive_rules)

lemmas supervision_rules =
  primitive_rules framed_finish_turn framed_process_apply framed_spawn framed_start_turn framed_background
  framed_turn_failed framed_open_process framed_pause framed_uncertain framed_end_subagents framed_ignore

end

end
