(* ===== verification/Actors.thy ===== *)
theory Actors
  imports Supervised
begin

text \<open>
  What a round of the actor keeps. \<open>actor_grows\<close>: the log and the admitted requests are only extended and
  queue rows move along their life cycle, whatever happens and however it fails. \<open>kept\<close>: in addition nothing
  new is handed over and the record of the hand-overs stays. \<open>tracked\<close>: every message the store knows as handed
  over to the agent is one the actor still waits for, so that none is forgotten when it stops.
\<close>

section \<open>Two frames\<close>

definition actor_grows :: "string \<Rightarrow> 'a actor \<Rightarrow> 'a actor \<Rightarrow> bool" where
  "actor_grows i s s' \<longleftrightarrow>
     store_step (ac_store s) (ac_store s') \<and> prefix (ac_replies s) (ac_replies s') \<and>
     forwarded_keys (ac_store s') \<subseteq> forwarded_keys (ac_store s) \<union> {i} \<times> UNIV"

definition kept :: "'a actor \<Rightarrow> 'a actor \<Rightarrow> bool" where
  "kept s s' \<longleftrightarrow>
     store_step (ac_store s) (ac_store s') \<and> prefix (ac_replies s) (ac_replies s') \<and>
     forwarded_keys (ac_store s') \<subseteq> forwarded_keys (ac_store s) \<and> ac_forwarded s' = ac_forwarded s"

interpretation grows: supervision "actor_grows i" for i
proof
  fix a b c :: "'a actor"
  show "actor_grows i a b \<Longrightarrow> actor_grows i b c \<Longrightarrow> actor_grows i a c"
    unfolding actor_grows_def by (blast intro: store_step_trans prefix_order.trans)
qed (auto simp: actor_grows_def quiet_store_step quiet_def)

interpretation kept: supervision kept
proof
  fix a b c :: "'a actor"
  show "kept a b \<Longrightarrow> kept b c \<Longrightarrow> kept a c"
    unfolding kept_def by (auto intro: store_step_trans prefix_order.trans)
qed (auto simp: kept_def quiet_store_step quiet_def)

lemma framed_weaken: "framed kept m \<Longrightarrow> framed (actor_grows i) m"
  by (auto simp: framed_def kept_def actor_grows_def)

lemma kept_waiting:
  "framed kept (change (\<lambda>s. s\<lparr>ac_immediate := im s\<rparr>))" "framed kept (change (\<lambda>s. s\<lparr>ac_configs := cs s\<rparr>))"
  "framed kept (change (\<lambda>s. s\<lparr>ac_opening := os s\<rparr>))" "framed kept (change (\<lambda>s. s\<lparr>ac_safe_to_close := b s\<rparr>))"
  "framed kept (change (\<lambda>s. s\<lparr>ac_running := c s\<rparr>))"
  by (rule kept.framed_change, simp add: kept_def)+

lemma kept_step: "store_step (ac_store s) st \<Longrightarrow> forwarded_keys st \<subseteq> forwarded_keys (ac_store s) \<Longrightarrow> kept s (s\<lparr>ac_store := st\<rparr>)"
  by (simp add: kept_def)

lemma kept_begin: "framed kept (db_both (\<lambda>st. begin_turn parse st i rid msg model effort fp perm))"
  by (auto simp: framed_def db_both_def kept.same kept_step dest: begin_store_step split: sum.splits)

section \<open>Admission and the handlers\<close>

lemma kept_safe: "framed kept (set_safe b)"
  unfolding set_safe_def by (rule kept_waiting)

lemma kept_turn_accepted: "framed kept (turn_accepted i turn)"
  unfolding turn_accepted_def by (rule kept.framed_db_get)

lemmas kept_rules = kept.supervision_rules kept_waiting kept_safe kept_turn_accepted kept_begin

lemma kept_accept: "framed kept m \<Longrightarrow> framed kept (accept_turn env i turn cfg m)"
  unfolding accept_turn_def by (intro kept_rules)

lemma kept_receive: "framed kept m \<Longrightarrow> framed kept (receive_turn env i turn cfg b c m)"
  unfolding receive_turn_def queue_busy_def
  by (intro kept_rules kept_accept kept.framed_db_put; (erule quiet_enqueue quiet_pause)?)

lemma kept_reject_immediate: "framed kept (reject_immediate e)"
  unfolding reject_immediate_def by (intro kept_rules)

lemma kept_snapshot: "framed kept (db_snapshot i)"
  unfolding db_snapshot_def by (intro kept_rules)

lemma kept_interrupt_process: "framed kept (interrupt_process env i)"
  unfolding interrupt_process_def by (intro kept_rules)

lemma kept_find_entry: "framed kept (find_entry i rid revision)"
  unfolding find_entry_def by (intro kept_rules)

lemmas handler_rules =
  kept_rules kept_accept kept_receive kept_reject_immediate kept_snapshot kept_interrupt_process kept_find_entry

lemma kept_simple_handlers:
  "framed kept (on_rename_title env i title n)" "framed kept (on_open env i cfg n)"
  "framed kept (on_subagent_history env i tid n)" "framed kept (on_subagent_transcript env i tid n)"
  "framed kept (on_send env i turn cfg b n)" "framed kept (on_send_timeout i)"
  "framed kept (after_interaction i)" "framed kept (on_answer env i rid answers n)"
  "framed kept (on_approval env i rid allow n)" "framed kept (settle_opening :: ('a, unit) run)"
  "framed kept (session_status i)" "framed kept (queue_waiting i)" "framed kept (actor_busy env i)"
  "framed kept (update_safe env i)" "framed kept (prepare_immediate i b rid revision cfg)"
  unfolding on_rename_title_def on_open_def on_subagent_history_def on_subagent_transcript_def on_send_def
    on_send_timeout_def on_answer_def on_approval_def after_interaction_def settle_opening_def session_status_def
    queue_waiting_def actor_busy_def update_safe_def prepare_immediate_def
  by (intro handler_rules kept.framed_db_put; (erule quiet_cache_history quiet_cache_transcript)?)+

lemma kept_queue_change: "framed kept (queue_change env i act)"
  unfolding queue_change_def
  by (cases act)
     (simp_all only: queue_action.case, (intro handler_rules kept.framed_db_put kept.framed_db_both;
        (erule quiet_take quiet_edit quiet_reorder quiet_clear)?)+)

lemma kept_send_immediate: "framed kept (send_immediate env i previous)"
  unfolding send_immediate_def by (intro handler_rules kept_simple_handlers)

lemma kept_dispatch_next: "framed kept (dispatch_next env i)"
  unfolding dispatch_next_def by (intro handler_rules kept_simple_handlers)

section \<open>A round only grows\<close>

lemma grows_forwarded:
  "framed (actor_grows i) (change (\<lambda>s. s\<lparr>ac_forwarded := f s\<rparr>))"
  "framed (actor_grows i) (change (\<lambda>s. s\<lparr>ac_forwarded := f s, ac_configs := g s\<rparr>))"
  "framed (actor_grows i) clear_forwarded"
  unfolding clear_forwarded_def by (rule grows.framed_change, simp add: actor_grows_def)+

lemma grows_mark: "framed (actor_grows i) (db_put (\<lambda>st. mark_forwarded st i rid revision))"
  by (auto simp: framed_def db_put_def actor_grows_def dest: forward_store_step split: sum.splits)

lemmas grows_rules = grows.supervision_rules grows_forwarded grows_mark
  kept_waiting [THEN framed_weaken] kept_safe [THEN framed_weaken] kept_reject_immediate [THEN framed_weaken]
  kept_snapshot [THEN framed_weaken] kept_interrupt_process [THEN framed_weaken] kept_find_entry [THEN framed_weaken]
  kept_simple_handlers [THEN framed_weaken] kept_queue_change [THEN framed_weaken]
  kept_send_immediate [THEN framed_weaken] kept_dispatch_next [THEN framed_weaken]

lemma grows_abandon: "framed (actor_grows i) (abandon_process env i)"
  unfolding abandon_process_def by (intro grows_rules)

lemma grows_queue: "framed (actor_grows i) (on_queue env i act n)"
  unfolding on_queue_def on_forward_def on_dispatch_def
  by (cases act) (simp_all only: queue_action.case, (intro grows_rules grows_abandon)+)

lemma grows_interrupt: "framed (actor_grows i) (on_interrupt env i n)"
  unfolding on_interrupt_def by (intro grows_rules grows_abandon)

lemma grows_cancel: "framed (actor_grows i) (on_cancel env i n b)"
  unfolding on_cancel_def by (intro grows_rules)

lemma grows_line: "framed (actor_grows i) (on_line env i item)"
  unfolding on_line_def by (intro grows_rules)

lemma grows_handle_control: "framed (actor_grows i) (handle_control env i c)"
  unfolding handle_control_def Let_def
  by (cases c) (simp_all only: control.case, (intro grows_rules grows_queue grows_interrupt grows_cancel)+)

lemma grows_handle_event: "framed (actor_grows i) (handle_event env i ev)"
  unfolding handle_event_def
  by (cases ev) (simp_all only: actor_event.case, (intro grows_rules grows_handle_control grows_line)+)

lemma grows_recover: "framed (actor_grows i) (recover_round env i e)"
  unfolding recover_round_def by (intro grows_rules)

lemma grows_boundary: "framed (actor_grows i) (turn_boundary env i previous)" "framed (actor_grows i) (boundary_failed env i e)"
  unfolding turn_boundary_def settle_queue_def boundary_failed_def by (intro grows_rules)+

lemma grows_flow:
  "framed (actor_grows i) a \<Longrightarrow> framed (actor_grows i) b \<Longrightarrow> framed (actor_grows i) c \<Longrightarrow>
   framed (actor_grows i) (case f of Proceed \<Rightarrow> a | SkipRound \<Rightarrow> b | StopActor \<Rightarrow> c)"
  by (cases f) simp_all

lemma grows_round: "framed (actor_grows i) (actor_round env i ev)"
  unfolding actor_round_def Let_def
  by (intro grows_rules grows_flow grows_handle_event grows_recover grows_boundary)

end
