(* ===== verification/SampleRun.thy ===== *)
theory SampleRun
  imports Actors
begin

text \<open>
  A small agent on which the rounds of an actor evaluate: it is ready once it is opened or prompted and counts
  its inputs. Effects are evaluated one after the other by \<open>run_simps\<close>.
\<close>

definition sample_adapter :: "nat agent_adapter" where
  "sample_adapter = \<lparr>ad_can_reconfigure = (\<lambda>_. True), ad_can_start_turn = (\<lambda>_. True), ad_has_background_work = (\<lambda>_. False),
     ad_knows_subagent = (\<lambda>_ _. False),
     ad_advance = (\<lambda>n input. (Inr (case input of InOpen \<Rightarrow> [ActReady] | InStart _ \<Rightarrow> [ActReady] | _ \<Rightarrow> []), Suc n))\<rparr>"

definition sample_env :: "nat runtime_env" where
  "sample_env = \<lparr>re_adapter = sample_adapter, re_spawn = (\<lambda>_ _. Inr 0), re_write = (\<lambda>_. True), re_uuid = (\<lambda>_. ''u''),
     re_capture = (\<lambda>_. snapshot_unavailable 0 ''none''), re_child = (\<lambda>_. None), re_history = (\<lambda>_. Inr None),
     re_transcript = (\<lambda>_. Inr None), re_freeze = (\<lambda>_ _ _ _ _. Inl ''none''), re_show = (\<lambda>_. ''error''),
     re_to_json = (\<lambda>_. JNull), re_of_json = (\<lambda>_. Inl ''none''), re_enc = (\<lambda>_. ''''), re_parse = (\<lambda>_. None),
     re_jenc = (\<lambda>_. ''''), re_senc = (\<lambda>_. ''''), re_fenc = (\<lambda>_. ''''), re_qenc = (\<lambda>_. ''''), re_tenc = (\<lambda>_. ''''),
     re_snapshot_dir = ''/d''\<rparr>"

definition sample_config :: launch_config where
  "sample_config = \<lparr>lc_provider = None, lc_settings_dir = ''/c'', lc_model = None, lc_traex_model = None,
     lc_effort = None, lc_permission_mode = None\<rparr>"

definition sample_actor :: "nat actor" where
  "sample_actor = \<lparr>ac_store = sample_store, ac_process = None, ac_forwarded = [], ac_immediate = None, ac_configs = [],
     ac_opening = [], ac_replies = [], ac_safe_to_close = False, ac_session_open = False, ac_running = True, ac_now = 0,
     ac_writes = 0, ac_uuids = 0, ac_captures = 0\<rparr>"


lemma seq_run: "seq m f s = (case m s of (r, s') \<Rightarrow> (case r of Inl e \<Rightarrow> (Inl e, s') | Inr x \<Rightarrow> f x s'))"
  by (auto simp: seq_def split: prod.split sum.split)

lemma attempt_run: "attempt m s = (case m s of (r, s') \<Rightarrow> (Inr r, s'))"
  by (simp add: attempt_def)

lemmas run_simps = seq_run attempt_run eff_apply(1-6)

lemmas actor_run = accept_turn_def turn_accepted_def db_get_def db_put_def db_both_def db_session_def start_turn_def save_baselines_def
  capture_def update_process_def the_process_def launch_notice_def advance_def process_apply_def prepare_batch_def spawn_def
  can_start_turn_def can_reconfigure_def send_reply_def send_once_def same_config_def mark_ready_def apply_action_def
  close_process_def drop_process_def confirm_rename_def

lemmas store_run = already_accepted_def begin_turn_def find_request_def running_session_def record_event_def read_clock_def
  insert_event_def session_exists_def index_event_def event_sources_def dispatch_row_def save_as_def session_by_id_def
  save_turn_baseline_def save_baseline_def baseline_def first_request_def small_json_def empty_store_def

lemmas sample_run = sample_actor_def sample_env_def sample_adapter_def sample_config_def sample_store_def sample_session_def sample_turn_def

lemma sample_facts [simp]:
  "trim ''hi'' = ''hi''" "references (\<lambda>_. None) t = []" "''t'' \<noteq> new_task_title"
  by (simp_all add: trim_def is_whitespace_def utf8_width_def byte_def references_def new_task_title_def
      split: option.split prod.split)

lemma sample_accepts:
  "\<exists>t. accept_turn sample_env ''s'' (sample_turn ''r'') sample_config (ret ()) sample_actor = (Inr True, t)"
proof -
  have "fst (accept_turn sample_env ''s'' (sample_turn ''r'') sample_config (ret ()) sample_actor) = Inr True"
    by (simp add: run_simps actor_run store_run sample_run Let_def)
  then show ?thesis by (metis prod.collapse)
qed

end
