(* ===== verification/Rounds.thy ===== *)
theory Rounds
  imports SampleRun
begin

text \<open>
  What holds across the rounds of an actor, interleaved with the steps of the other actors and of the clients
  that share the store. \<open>actor_reaches\<close> is that interleaving: the others may do what every store step does
  and never hand over a message of this session, which is also what a round of another actor guarantees.
\<close>

section \<open>Interleaved rounds\<close>

definition others_step :: "string \<Rightarrow> store \<Rightarrow> store \<Rightarrow> bool" where
  "others_step i st st' \<longleftrightarrow>
     store_step st st' \<and> (\<forall>rid. (i, rid) \<in> forwarded_keys st' \<longrightarrow> (i, rid) \<in> forwarded_keys st)"

inductive actor_reaches :: "'a runtime_env \<Rightarrow> string \<Rightarrow> 'a actor \<Rightarrow> 'a actor \<Rightarrow> bool" for env i s where
  start: "actor_reaches env i s s"
| round: "actor_reaches env i s t \<Longrightarrow> actor_reaches env i s (snd (actor_round env i ev t))"
| others: "actor_reaches env i s t \<Longrightarrow> others_step i (ac_store t) st \<Longrightarrow>
     actor_reaches env i s (t\<lparr>ac_store := st, ac_now := now\<rparr>)"

inductive_cases actor_reachesE: "actor_reaches env i s t"

lemma round_grows: "actor_grows i s (snd (actor_round env i ev s))"
  using grows_round by (auto simp: framed_def)

text \<open>A round of one actor is an allowed step for every other.\<close>

lemma round_is_other:
  assumes "i \<noteq> j"
  shows "others_step j (ac_store s) (ac_store (snd (actor_round env i ev s)))"
  using round_grows [of i s env ev] assms unfolding actor_grows_def others_step_def by blast

lemma reaches_step: "actor_reaches env i s t \<Longrightarrow> store_step (ac_store s) (ac_store t)"
proof (induction rule: actor_reaches.induct)
  case (round t ev)
  with round_grows [of i t env ev] show ?case unfolding actor_grows_def by (blast intro: store_step_trans)
qed (auto simp: others_step_def intro: store_step_trans)

section \<open>Everything durable stays\<close>

text \<open>C14: whatever the rounds of an actor and the interleaved steps of others do, and however they fail, no
  admitted request and no event is ever lost or reordered, the queue stays well-formed, and a message only
  moves on along its life cycle: one that was taken, cancelled, dispatched or left uncertain keeps that
  outcome, so it is never sent again.\<close>

theorem actor_rounds_monotone:
  assumes "actor_reaches env i s t" and "queue_ok (ac_store s)"
  shows "prefix (db_requests (ac_store s)) (db_requests (ac_store t)) \<and>
         prefix (db_events (ac_store s)) (db_events (ac_store t)) \<and> queue_ok (ac_store t) \<and>
         (\<forall>r \<in> set (db_queue (ac_store s)). \<exists>r' \<in> set (db_queue (ac_store t)).
            q_request_id r' = q_request_id r \<and> q_session_id r' = q_session_id r \<and>
            moves\<^sup>*\<^sup>* (q_status r) (q_status r') \<and> (\<not> live (q_status r) \<longrightarrow> q_status r' = q_status r))"
proof -
  from reaches_step [OF assms(1)] have step: "store_step (ac_store s) (ac_store t)" .
  then have ev: "queue_evolves (db_queue (ac_store s)) (db_queue (ac_store t))"
    using assms(2) by (simp add: store_step_def queue_safe_def)
  have "\<exists>r' \<in> set (db_queue (ac_store t)). q_request_id r' = q_request_id r \<and> q_session_id r' = q_session_id r \<and>
          moves\<^sup>*\<^sup>* (q_status r) (q_status r') \<and> (\<not> live (q_status r) \<longrightarrow> q_status r' = q_status r)"
    if "r \<in> set (db_queue (ac_store s))" for r
    using queue_evolves_row [OF ev that] moves_final by (fastforce simp: row_evolves_def)
  then show ?thesis using step assms(2) by (simp add: store_step_def queue_safe_def)
qed

section \<open>Exactly once\<close>

lemma find_prefix: "List.find p xs = Some x \<Longrightarrow> prefix xs ys \<Longrightarrow> List.find p ys = Some x"
  by (auto simp: prefix_def find_append)

lemma accepted_stays:
  assumes "already_accepted st i rid msg model effort fp perm = Inr True"
    and "prefix (db_requests st) (db_requests st')"
  shows "already_accepted st' i rid msg model effort fp perm = Inr True"
proof -
  from assms(1) obtain r where "find_request st rid = Some r"
    by (auto simp: already_accepted_def result_simps split: option.splits)
  moreover from this have "find_request st' rid = Some r"
    using find_prefix [OF _ assms(2)] by (simp add: find_request_def)
  ultimately show ?thesis using assms(1) by (simp add: already_accepted_def)
qed

definition durable :: "string \<Rightarrow> send_turn \<Rightarrow> store \<Rightarrow> bool" where
  "durable i turn st \<longleftrightarrow>
     already_accepted st i (tn_request_id turn) (tn_text turn) (tn_model turn) (tn_effort turn)
       (tn_fingerprint turn) (tn_permission_mode turn) = Inr True"

lemma durable_step: "durable i turn st \<Longrightarrow> store_step st st' \<Longrightarrow> durable i turn st'"
  by (auto simp: durable_def store_step_def intro: accepted_stays)

lemma begin_durable:
  assumes "begin_turn parse st i rid msg model effort fp perm = Inr (b, st')"
  shows "already_accepted st' i rid msg model effort fp perm = Inr True"
proof (cases b)
  case False
  with assms show ?thesis by (auto simp: begin_turn_def result_simps split: if_splits)
next
  case True
  with assms have "begin_turn parse st i rid msg model effort fp perm = Inr (True, st')" by simp
  from begin_turn_new [OF this] have new: "already_accepted st i rid msg model effort fp perm = Inr False"
    and req: "db_requests st' = db_requests st @
       [\<lparr>rq_id = rid, rq_session_id = i, rq_text = msg, rq_model = model,
         rq_effort = map_option effort_as_str effort, rq_provider_fingerprint = fp, rq_permission_mode = perm\<rparr>]"
    by (auto simp: append_eq_append_conv2)
  from new have "find_request st rid = None" by (simp add: already_accepted_new)
  from find_request_append [OF this req] new show ?thesis
    by (auto simp: already_accepted_def result_simps)
qed

section \<open>The outcome of an admission\<close>

lemma seq_Inr: "seq m f s = (Inr y, t) \<longleftrightarrow> (\<exists>x s'. m s = (Inr x, s') \<and> f x s' = (Inr y, t))"
  by (auto simp: seq_def split: prod.split sum.split)

lemma effect_Inr [simp]:
  "ret x s = (Inr y, t) \<longleftrightarrow> y = x \<and> t = s" "look f s = (Inr y, t) \<longleftrightarrow> y = f s \<and> t = s"
  "require c e s = (Inr u, t) \<longleftrightarrow> c \<and> t = s" "change g s = (Inr u, t) \<longleftrightarrow> t = g s"
  "attempt m s = (Inr r, t) \<longleftrightarrow> m s = (r, t)" "fail e s = (Inr y, t) \<longleftrightarrow> False"
  by (auto simp: eff_apply)

text \<open>A calm step admits nothing.\<close>

definition calm :: "'a actor \<Rightarrow> 'a actor \<Rightarrow> bool" where
  "calm s s' \<longleftrightarrow> kept s s' \<and> db_requests (ac_store s') = db_requests (ac_store s)"

interpretation calm: supervision calm
proof
  fix a b c :: "'a actor"
  show "calm a b \<Longrightarrow> calm b c \<Longrightarrow> calm a c"
    unfolding calm_def using kept.steps [of a b c] by simp
qed (auto simp: calm_def kept_def quiet_store_step quiet_def)

lemma db_Inr [simp]:
  "db_get f s = (Inr y, t) \<longleftrightarrow> f (ac_store s) = Inr y \<and> t = s"
  "db_put g s = (Inr u, t) \<longleftrightarrow> (\<exists>st. g (ac_store s) = Inr st \<and> t = s\<lparr>ac_store := st\<rparr>)"
  "db_both h s = (Inr z, t) \<longleftrightarrow> (\<exists>st. h (ac_store s) = Inr (z, st) \<and> t = s\<lparr>ac_store := st\<rparr>)"
  by (auto simp: db_get_def db_put_def db_both_def split: sum.split)

lemma close_drop_store:
  "close_process s = (r, t) \<Longrightarrow> ac_store t = ac_store s \<and> ac_forwarded t = ac_forwarded s"
  "drop_process s = (r, t) \<Longrightarrow> ac_store t = ac_store s \<and> ac_forwarded t = ac_forwarded s \<and> ac_process t = None"
  by (auto simp: close_process_def drop_process_def send_reply_def update_process_def seq_apply eff_apply
      split: option.splits)

lemma accept_turn_new:
  assumes "accept_turn env i turn cfg adm s = (Inr True, t)"
  obtains st s1 s2 r s3 where
    "begin_turn (re_parse env) (ac_store s) i (tn_request_id turn) (tn_text turn) (tn_model turn) (tn_effort turn)
       (tn_fingerprint turn) (tn_permission_mode turn) = Inr (True, st)"
    "ac_store s1 = st" "ac_forwarded s1 = ac_forwarded s" "adm s1 = (Inr (), s2)" "start_turn env i turn cfg s2 = (r, s3)"
    "case r of Inr _ \<Rightarrow> t = s3 | Inl e \<Rightarrow> turn_failed env i cfg e s3 = (Inr (), t)"
proof -
  let ?change = "\<lambda>p. case p of
      Some p \<Rightarrow> if same_config (pr_config p) cfg then ret ()
                else seq (require (can_reconfigure env p) ReconfigureBlocked) (\<lambda>_. seq close_process (\<lambda>_. drop_process))
    | None \<Rightarrow> ret ()"
  have change: "ac_store t = ac_store s \<and> ac_forwarded t = ac_forwarded s" if "?change p s = (Inr u, t)" for p s t u
    using that by (auto simp: seq_Inr split: option.splits if_splits dest!: close_drop_store)
  from assms obtain p s0 b st s2 r s3 u1 u2 u3 where
    fresh: "already_accepted (ac_store s) i (tn_request_id turn) (tn_text turn) (tn_model turn) (tn_effort turn)
       (tn_fingerprint turn) (tn_permission_mode turn) = Inr False"
    and s0: "?change p s = (Inr u1, s0)"
    and b: "begin_turn (re_parse env) (ac_store s0) i (tn_request_id turn) (tn_text turn) (tn_model turn) (tn_effort turn)
       (tn_fingerprint turn) (tn_permission_mode turn) = Inr (b, st)"
    and rest: "adm (s0\<lparr>ac_store := st\<rparr>) = (Inr u2, s2)" "start_turn env i turn cfg s2 = (r, s3)"
      "(case r of Inl e \<Rightarrow> turn_failed env i cfg e | Inr _ \<Rightarrow> ret ()) s3 = (Inr u3, t)"
    unfolding accept_turn_def turn_accepted_def db_session_def
    by (auto simp only: seq_Inr effect_Inr db_Inr sum.inject simp_thms split: if_splits) blast
  show thesis
  proof (rule that)
    from change [OF s0] b fresh
    show "begin_turn (re_parse env) (ac_store s) i (tn_request_id turn) (tn_text turn) (tn_model turn) (tn_effort turn)
       (tn_fingerprint turn) (tn_permission_mode turn) = Inr (True, st)"
      by (cases b) (auto simp: begin_turn_def result_simps)
    show "case r of Inr _ \<Rightarrow> t = s3 | Inl e \<Rightarrow> turn_failed env i cfg e s3 = (Inr (), t)"
      using rest(3) by (auto split: sum.splits)
    show "ac_forwarded (s0\<lparr>ac_store := st\<rparr>) = ac_forwarded s" using change [OF s0] by simp
  qed (use rest in simp_all)
qed

text \<open>The state is written last.\<close>

lemma set_state_recorded:
  assumes "set_state st i status m = Inr st'"
  shows "(\<exists>s. session_by_id st' i = Inr s \<and> ses_status s = status) \<and> er_data (last (db_events st')) = State status m \<and>
     er_session_id (last (db_events st')) = i"
proof -
  from assms obtain s where s: "session_by_id st i = Inr s" by (auto simp: set_state_def result_simps)
  define s' where "s' = (if status_active (ses_status s) \<and> status \<in> {Completed, Failed, Stopped}
                         then s\<lparr>ses_unread := True\<rparr> else s)\<lparr>ses_status := status\<rparr>"
  have ev: "insert_event (snd (read_clock (save_as st i s'))) i (fst (read_clock (save_as st i s'))) (State status m) = Inr st'"
    using assms by (simp add: set_state_def s s'_def Let_def split_beta)
  then have "db_sessions st' = db_sessions (save_as st i s')" by (auto simp: insert_event_Inr read_clock_def)
  moreover have "session_by_id (save_as st i s') i = Inr s'"
    using s by (auto simp: session_by_id_def save_as_def find_update_where_same result_simps)
  ultimately have "session_by_id st' i = Inr s'" by (metis session_by_id_cong)
  then show ?thesis using ev by (auto simp: insert_event_Inr s'_def)
qed

interpretation same_process: effect_frame "\<lambda>s s'. ac_process s' = ac_process s"
  by unfold_locales auto

lemma finish_keeps_process: "finish_turn_run env i a b s = (r, t) \<Longrightarrow> ac_process t = ac_process s"
proof -
  have "framed (\<lambda>s s'. ac_process s' = ac_process s) (finish_turn_run env i a b)"
    unfolding finish_turn_run_def capture_def unavailable_def
    by (intro same_process.framed_rules same_process.framed_change)
       (auto simp: framed_def db_get_def db_put_def db_both_def split: sum.splits)
  then show "finish_turn_run env i a b s = (r, t) \<Longrightarrow> ac_process t = ac_process s" by (rule framedD)
qed

lemma turn_failed_outcome:
  assumes "turn_failed env i cfg e s = (Inr (), t)"
  shows "ac_process t = None \<and> (\<exists>x. session_by_id (ac_store t) i = Inr x \<and> ses_status x = Failed) \<and>
     er_session_id (last (db_events (ac_store t))) = i \<and>
     er_data (last (db_events (ac_store t))) =
       State Failed (Some (redact (case ac_process s of Some p \<Rightarrow> pr_config p | None \<Rightarrow> cfg) (re_show env e)))"
proof -
  from assms obtain u1 u2 u3 s1 s2 s3 st b where "close_process s = (Inr u1, s1)" "drop_process s1 = (Inr u2, s2)"
    "finish_turn_run env i True b s2 = (Inr u3, s3)"
    "db_state i Failed (Some (redact (case ac_process s of Some p \<Rightarrow> pr_config p | None \<Rightarrow> cfg) (re_show env e)))
       (s3\<lparr>ac_store := st\<rparr>) = (Inr (), t)"
    unfolding turn_failed_def background_pending_def Let_def by (auto simp: seq_Inr)
  moreover from this have "ac_process s3 = None"
    using close_drop_store(2) finish_keeps_process by metis
  ultimately show ?thesis
    by (auto simp: db_state_def dest: set_state_recorded)
qed

lemma accept_turn_calm:
  assumes "accept_turn env i turn cfg adm s = (Inr True, t)" and "adm = ret () \<or> adm = send_once n answer"
  obtains s2 s3 r row where
    "durable i turn (ac_store t)" "rq_id row = tn_request_id turn" "rq_session_id row = i"
    "db_requests (ac_store t) = db_requests (ac_store s) @ [row]" "durable i turn (ac_store s2)"
    "start_turn env i turn cfg s2 = (r, s3)"
    "case r of Inr _ \<Rightarrow> t = s3 | Inl e \<Rightarrow> turn_failed env i cfg e s3 = (Inr (), t)"
  using assms(1)
proof (rule accept_turn_new)
  fix st s1 s2 r s3
  assume b: "begin_turn (re_parse env) (ac_store s) i (tn_request_id turn) (tn_text turn) (tn_model turn) (tn_effort turn)
       (tn_fingerprint turn) (tn_permission_mode turn) = Inr (True, st)"
    and s1: "ac_store s1 = st" "adm s1 = (Inr (), s2)" and start: "start_turn env i turn cfg s2 = (r, s3)"
    and out: "case r of Inr _ \<Rightarrow> t = s3 | Inl e \<Rightarrow> turn_failed env i cfg e s3 = (Inr (), t)"
  have "framed calm adm" using assms(2) calm.framed_ret calm.framed_send(2) by auto
  then have s12: "calm s1 s2" using s1(2) by (rule framedD)
  moreover have "calm s2 s3" using framedD [OF calm.framed_start_turn start] .
  moreover have "calm s3 t"
    using out calm.same framedD [OF calm.framed_turn_failed] by (auto split: sum.splits)
  ultimately have calm: "calm s1 t" using calm.steps by blast
  then have "db_requests (ac_store t) = db_requests st" by (simp add: calm_def s1)
  moreover from begin_turn_new [OF b] obtain row where row: "rq_id row = tn_request_id turn" "rq_session_id row = i"
    "db_requests st = db_requests (ac_store s) @ [row]" by (metis request_row.select_convs(1,2))
  moreover have "durable i turn (ac_store x)" if "calm s1 x" for x
    using durable_step [of i turn st "ac_store x"] begin_durable [OF b] that s1(1) by (simp add: durable_def calm_def kept_def)
  ultimately show thesis using calm s12 by (intro that [OF _ row(1,2) _ _ start out]) metis+
qed

text \<open>C6: a turn the actor has admitted is durable in the store, as exactly one new request of the session, and
  either its start went through, or the failure ended it for good: the process is gone, the session has failed
  and the last event says why, with the credential of the provider redacted.\<close>

theorem accepted_turn_outcome:
  assumes "accept_turn env i turn cfg adm s = (Inr True, t)" and "adm = ret () \<or> adm = send_once n answer"
  shows "durable i turn (ac_store t) \<and>
    (\<exists>row. rq_id row = tn_request_id turn \<and> rq_session_id row = i \<and>
           db_requests (ac_store t) = db_requests (ac_store s) @ [row]) \<and>
    (\<exists>s2 s3 r. durable i turn (ac_store s2) \<and> start_turn env i turn cfg s2 = (r, s3) \<and>
       (case r of
          Inr _ \<Rightarrow> t = s3
        | Inl e \<Rightarrow> ac_process t = None \<and> (\<exists>x. session_by_id (ac_store t) i = Inr x \<and> ses_status x = Failed) \<and>
            er_session_id (last (db_events (ac_store t))) = i \<and>
            er_data (last (db_events (ac_store t))) =
              State Failed (Some (redact (case ac_process s3 of Some p \<Rightarrow> pr_config p | None \<Rightarrow> cfg) (re_show env e)))))"
proof (rule accept_turn_calm [OF assms])
  fix s2 s3 r row
  assume start: "durable i turn (ac_store s2)" "start_turn env i turn cfg s2 = (r, s3)"
    and out: "case r of Inr _ \<Rightarrow> t = s3 | Inl e \<Rightarrow> turn_failed env i cfg e s3 = (Inr (), t)"
    and req: "durable i turn (ac_store t)" "rq_id row = tn_request_id turn" "rq_session_id row = i"
    "db_requests (ac_store t) = db_requests (ac_store s) @ [row]"
  show ?thesis
  proof (cases r)
    case (Inl e)
    with out turn_failed_outcome show ?thesis using start req by fastforce
  qed (use start req out in auto)
qed

lemma queued_duplicate_answer: "queued_duplicate st i turn = Inr (Some r) \<Longrightarrow> r \<in> {Accepted True, MessageQueued True}"
  by (auto simp: queued_duplicate_def Let_def result_simps split: option.splits if_splits)

text \<open>C1: once the actor has admitted a turn, a repetition of the request is answered as a duplicate and changes
  nothing, whatever rounds of the actor and steps of others lie between: the prompt is never sent twice.\<close>

theorem admitted_turn_never_replayed:
  assumes "accept_turn env i turn cfg adm s = (Inr True, s')" and "adm = ret () \<or> adm = send_once n answer"
    and "actor_reaches env i s' t"
  shows "accept_turn env i turn cfg2 adm2 t = (Inr False, t) \<and>
    (\<exists>r. receive_turn env i turn cfg2 allow pending adm2 t = (r, t) \<and>
         r \<notin> {Inr (Accepted False), Inr (MessageQueued False)})"
proof -
  have "durable i turn (ac_store s')" using accept_turn_calm [OF assms(1,2)] .
  with reaches_step [OF assms(3)] have d: "durable i turn (ac_store t)" by (rule durable_step [rotated])
  then have acc: "turn_accepted i turn t = (Inr True, t)" by (simp add: turn_accepted_def durable_def)
  then have "accept_turn env i turn cfg2 adm2 t = (Inr False, t)" by (simp add: accept_turn_def seq_apply eff_apply)
  moreover have "\<exists>r. receive_turn env i turn cfg2 allow pending adm2 t = (r, t) \<and>
         r \<notin> {Inr (Accepted False), Inr (MessageQueued False)}"
    using acc by (auto simp: receive_turn_def seq_apply eff_apply db_get_def dest: queued_duplicate_answer split: sum.split option.split)
  ultimately show ?thesis ..
qed

section \<open>Automatic dispatch\<close>

text \<open>Predicates on the request table, which only an admission extends.\<close>

abbreviation (input) requests_in :: "(request_row list \<Rightarrow> bool) \<Rightarrow> 'a actor \<Rightarrow> bool" where
  "requests_in Q s \<equiv> Q (db_requests (ac_store s))"

lemma calm_ends: "framed calm m \<Longrightarrow> ends (requests_in Q) m (\<lambda>_. requests_in Q) (requests_in Q)"
  by (auto simp: ends_def framed_def calm_def split_beta split: sum.split)

definition extends_by :: "string \<Rightarrow> send_turn \<Rightarrow> request_row list \<Rightarrow> request_row list \<Rightarrow> bool" where
  "extends_by i turn rs rs' \<longleftrightarrow> rs' = rs \<or>
     (\<exists>row. rs' = rs @ [row] \<and> rq_id row = tn_request_id turn \<and> rq_session_id row = i \<and> rq_text row = tn_text turn)"

lemma calm_before:
  "framed calm m \<Longrightarrow> ends (requests_in (\<lambda>x. x = rs)) m (\<lambda>_. requests_in (\<lambda>x. x = rs)) (requests_in (extends_by i turn rs))"
  by (rule ends_weaken [OF calm_ends [where Q = "\<lambda>x. x = rs"]]) (auto simp: extends_by_def)

lemma ends_admission:
  "ends (requests_in (\<lambda>x. x = rs))
     (db_both (\<lambda>st. begin_turn parse st i (tn_request_id turn) (tn_text turn) model effort fp perm))
     (\<lambda>_. requests_in (extends_by i turn rs)) (requests_in (extends_by i turn rs))"
proof -
  have "extends_by i turn (db_requests st) (db_requests st')"
    if "begin_turn parse st i (tn_request_id turn) (tn_text turn) model effort fp perm = Inr (b, st')" for b st st'
  proof (cases b)
    case True
    with that have "begin_turn parse st i (tn_request_id turn) (tn_text turn) model effort fp perm = Inr (True, st')" by simp
    from begin_turn_new [OF this] show ?thesis unfolding extends_by_def by (metis request_row.select_convs(1-3))
  next
    case False
    with that show ?thesis by (auto simp: begin_turn_def result_simps extends_by_def split: if_splits)
  qed
  then show ?thesis by (auto simp: ends_def db_both_def extends_by_def split: sum.splits)
qed

lemma ends_accept:
  "ends (requests_in (\<lambda>x. x = rs)) (accept_turn env i turn cfg (ret ()))
     (\<lambda>_. requests_in (extends_by i turn rs)) (requests_in (extends_by i turn rs))"
proof -
  have after: "ends (requests_in (extends_by i turn rs)) m (\<lambda>_. requests_in (extends_by i turn rs))
     (requests_in (extends_by i turn rs))" if "framed calm m" for m :: "('a, 'b) run"
    using that by (rule calm_ends)
  show ?thesis unfolding accept_turn_def turn_accepted_def
    apply (rule ends_seq [OF calm_before [OF calm.framed_db_get]])
    apply (rule ends_if)
     apply (rule ends_ret, simp add: extends_by_def)
    apply (rule ends_seq [OF calm_before [OF calm.framed_db_session]])
    apply (rule ends_seq [OF calm_before [OF calm.framed_require]])
    apply (rule ends_seq [OF calm_before [OF calm.framed_look]])
    apply (rule ends_seq [OF calm_before [OF calm.framed_require]])
    apply (rule ends_seq [OF calm_before [OF calm.framed_require]])
    apply (rule ends_seq [OF calm_before])
     apply (intro calm.supervision_rules)
    apply (rule ends_seq [OF ends_admission])
    apply (rule after)
    apply (intro calm.supervision_rules)
    done
qed

lemma accept_requests:
  "accept_turn env i turn cfg (ret ()) s = (r, t) \<Longrightarrow> extends_by i turn (db_requests (ac_store s)) (db_requests (ac_store t))"
  using ends_accept [of "db_requests (ac_store s)" env i turn cfg]
  by (cases r) (auto simp: ends_def dest!: spec [of _ s])

text \<open>C13: the automatic dispatch is first in, first out and waits its turn. If it admits anything, then exactly one
  turn, the first message of the pending queue; and it does so only while the queue is not paused, the
  session is at rest, and no message handed to the agent is still without an answer.\<close>

theorem dispatch_takes_first:
  assumes "dispatch_next env i s = (r, t)" and "db_requests (ac_store t) \<noteq> db_requests (ac_store s)"
  shows "\<exists>e fp es row x. queued (ac_store s) i = Inr ((e, fp) # es) \<and>
     db_requests (ac_store t) = db_requests (ac_store s) @ [row] \<and>
     rq_id row = qm_request_id e \<and> rq_session_id row = i \<and> rq_text row = qm_text e \<and>
     \<not> fst (queue_state (ac_store s) i) \<and> ac_forwarded s = [] \<and>
     session_by_id (ac_store s) i = Inr x \<and> \<not> status_active (ses_status x) \<and>
     (case ac_process s of None \<Rightarrow> True | Some p \<Rightarrow> can_start_turn env p)"
proof -
  have status: "session_status i s = (r, t) \<Longrightarrow> t = s \<and> (\<forall>y. r = Inr y \<longrightarrow> (\<exists>x. session_by_id (ac_store s) i = Inr x \<and> ses_status x = y))"
    for s :: "'a actor" and r t
    by (auto simp: session_status_def db_session_def db_get_def seq_apply eff_apply split: sum.splits)
  define s1 where "s1 = (\<lambda>e :: queued_message. s\<lparr>ac_configs := AList.delete (qm_request_id e) (ac_configs s)\<rparr>)"
  have status_at: "session_status i s = (fst (session_status i s), s)" for s :: "'a actor"
    using status [of s] by (metis prod.collapse)
  obtain y where y: "session_status i s = (Inr y, s)"
    using assms status_at [of s] by (cases "fst (session_status i s)") (auto simp: dispatch_next_def run_simps)
  have free: "\<not> (fst (queue_state (ac_store s) i) \<or> ac_forwarded s \<noteq> [] \<or> status_active y \<or>
      \<not> (case ac_process s of None \<Rightarrow> True | Some p \<Rightarrow> can_start_turn env p))"
  proof
    assume "fst (queue_state (ac_store s) i) \<or> ac_forwarded s \<noteq> [] \<or> status_active y \<or>
      \<not> (case ac_process s of None \<Rightarrow> True | Some p \<Rightarrow> can_start_turn env p)"
    then have "dispatch_next env i s = (Inr (), s)" by (simp add: dispatch_next_def run_simps y db_get_def)
    with assms show False by simp
  qed
  obtain e fp es where q: "queued (ac_store s) i = Inr ((e, fp) # es)"
    using assms free by (auto simp: dispatch_next_def run_simps y db_get_def split: sum.splits list.splits)
  obtain cfg where cfg: "map_of (ac_configs s) (qm_request_id e) = Some cfg"
    using assms free q
    by (cases "map_of (ac_configs s) (qm_request_id e)") (auto simp: dispatch_next_def run_simps y db_get_def)
  let ?turn = "\<lparr>tn_request_id = qm_request_id e, tn_text = qm_text e, tn_model = qm_model e, tn_fingerprint = fp,
      tn_effort = lc_effort cfg, tn_permission_mode = lc_permission_mode cfg\<rparr>"
  obtain r1 t1 where acc: "accept_turn env i ?turn cfg (ret ()) (s1 e) = (r1, t1)" by fastforce
  have "ac_store t = ac_store t1"
    using assms(1) free q cfg acc status_at [of t1]
    by (cases r1; cases "fst (session_status i t1)") (auto simp: dispatch_next_def run_simps y db_get_def s1_def require_def split: if_splits)
  with accept_requests [OF acc] assms(2) obtain row where "db_requests (ac_store t) = db_requests (ac_store s) @ [row]"
    "rq_id row = qm_request_id e" "rq_session_id row = i" "rq_text row = qm_text e"
    by (auto simp: extends_by_def s1_def)
  moreover obtain x where "session_by_id (ac_store s) i = Inr x" "ses_status x = y" using status [OF y] by auto
  ultimately show ?thesis using q free by auto
qed

section \<open>Witnesses\<close>

lemma sample_queue_reaches:
  "actor_reaches sample_env ''s'' (sample_actor\<lparr>ac_store := sample_queue\<rparr>)
     (snd (actor_round sample_env ''s'' EvClosed (sample_actor\<lparr>ac_store := sample_queue\<rparr>)))"
  by (intro actor_reaches.intros)

lemma actor_rounds_monotone_witness:
  "\<exists>t. actor_reaches sample_env ''s'' (sample_actor\<lparr>ac_store := sample_queue\<rparr>) t \<and> queue_ok (ac_store t)"
  using actor_rounds_monotone [OF sample_queue_reaches] sample_queue_ok sample_queue_reaches by auto

lemma accepted_turn_outcome_witness:
  "\<exists>t. accept_turn sample_env ''s'' (sample_turn ''r'') sample_config (ret ()) sample_actor = (Inr True, t) \<and>
     durable ''s'' (sample_turn ''r'') (ac_store t)"
  using sample_accepts accepted_turn_outcome by blast

lemma admitted_turn_never_replayed_witness:
  "\<exists>t. accept_turn sample_env ''s'' (sample_turn ''r'') sample_config (ret ()) sample_actor = (Inr True, t) \<and>
     accept_turn sample_env ''s'' (sample_turn ''r'') sample_config (ret ()) t = (Inr False, t)"
  using sample_accepts admitted_turn_never_replayed actor_reaches.start by blast

lemma sample_queue_dispatch:
  "\<exists>r t. dispatch_next sample_env ''s'' (sample_actor\<lparr>ac_store := sample_queue, ac_configs := [(''a'', sample_config)]\<rparr>) = (r, t) \<and>
     map rq_id (db_requests (ac_store t)) = [''a'']"
proof -
  have "map rq_id (db_requests (ac_store (snd (dispatch_next sample_env ''s''
          (sample_actor\<lparr>ac_store := sample_queue, ac_configs := [(''a'', sample_config)]\<rparr>))))) = [''a'']"
    by (simp add: dispatch_next_def session_status_def run_simps actor_run store_run sample_run Let_def
       queue_state_def queued_def pending_rows_def queue_key_def sample_queue_defs)
  then show ?thesis by (metis prod.collapse)
qed

lemma dispatch_takes_first_witness:
  "\<exists>r t e fp es row. dispatch_next sample_env ''s'' (sample_actor\<lparr>ac_store := sample_queue, ac_configs := [(''a'', sample_config)]\<rparr>) = (r, t) \<and>
     queued sample_queue ''s'' = Inr ((e, fp) # es) \<and> rq_id row = qm_request_id e \<and> db_requests (ac_store t) = [row]"
proof -
  obtain r t where d: "dispatch_next sample_env ''s'' (sample_actor\<lparr>ac_store := sample_queue, ac_configs := [(''a'', sample_config)]\<rparr>) = (r, t)"
    and "map rq_id (db_requests (ac_store t)) = [''a'']" using sample_queue_dispatch by (elim exE conjE)
  moreover have "db_requests sample_queue = []" by (simp add: sample_queue_defs)
  ultimately show ?thesis using dispatch_takes_first [OF d] by fastforce
qed

end
