(* ===== verification/Tracking.thy ===== *)
theory Tracking
  imports Rounds
begin

text \<open>
  The actor knows what the agent holds. A message handed over to the agent stays in the state
  \<open>forwarded\<close> of the store until the agent reports it or the actor gives it up as uncertain;
  \<open>tracked\<close> says that the actor still waits for every such message of its session. The contract with an
  adapter is \<open>orderly\<close>: it reports the outcome of inputs before the end of the turn, never behind it in
  the same batch, because the actor stops at the end of the turn. Both adapters keep it
  (\<open>claude.rs\<close>, \<open>traex.rs\<close> push \<open>InputsConsumed\<close> before \<open>Finished\<close>).
\<close>

section \<open>The invariant\<close>

definition held :: "string \<Rightarrow> 'a actor \<Rightarrow> string set" where
  "held i s = {rid. (i, rid) \<in> forwarded_keys (ac_store s)}"

lemma held_iff:
  "rid \<in> held i s \<longleftrightarrow>
     (\<exists>r \<in> set (db_queue (ac_store s)). q_session_id r = i \<and> q_request_id r = rid \<and> q_status r = Forwarded)"
  unfolding held_def forwarded_of_def by blast

definition tracked :: "string \<Rightarrow> 'a actor \<Rightarrow> bool" where
  "tracked i s \<longleftrightarrow> session_exists (ac_store s) i \<and> held i s \<subseteq> fst ` set (ac_forwarded s)"

definition tracks :: "string \<Rightarrow> 'a actor \<Rightarrow> 'a actor \<Rightarrow> bool" where
  "tracks i s s' \<longleftrightarrow> (tracked i s \<longrightarrow> tracked i s')"

lemma exists_step:
  assumes "store_step st st'" and "session_exists st i"
  shows "session_exists st' i"
proof -
  have "session_exists st i \<longleftrightarrow> i \<in> set (map sr_id (db_sessions st))" for st
    by (auto simp: session_exists_def)
  moreover have "set (map sr_id (db_sessions st)) \<subseteq> set (map sr_id (db_sessions st'))"
    using assms(1) set_mono_prefix unfolding store_step_def by metis
  ultimately show ?thesis using assms(2) by blast
qed

lemma kept_tracks: "kept s s' \<Longrightarrow> tracks i s s'"
  by (auto simp: kept_def tracks_def tracked_def held_def exists_step)

interpretation tracks: supervision "tracks i" for i
proof
  fix a b c :: "'a actor"
  show "tracks i a b \<Longrightarrow> tracks i b c \<Longrightarrow> tracks i a c" by (simp add: tracks_def)
qed (auto intro: kept_tracks kept.on_store kept.on_process kept.on_replies kept.on_open kept.on_writes kept.on_uuids
       kept.on_captures kept.same)

lemma framed_tracks: "framed kept m \<Longrightarrow> framed (tracks i) m"
  by (simp add: framed_def kept_tracks)

lemma tracks_iff_ends: "framed (tracks i) m \<longleftrightarrow> ends (tracked i) m (\<lambda>_. tracked i) (tracked i)"
  by (simp add: framed_def tracks_def ends_def split_beta split: sum.split)

section \<open>Giving up\<close>

abbreviation present :: "string \<Rightarrow> 'a actor \<Rightarrow> bool" where
  "present i s \<equiv> session_exists (ac_store s) i"

lemma uncertain_total:
  assumes "session_exists st i"
  shows "\<exists>st'. uncertain_forwarded enc parse st i = Inr st' \<and> session_exists st' i \<and> (\<forall>rid. (i, rid) \<notin> forwarded_keys st')"
proof -
  let ?p = "\<lambda>r. q_session_id r = i \<and> q_status r = Forwarded"
  let ?st = "st\<lparr>db_queue := update_where ?p (\<lambda>r. r\<lparr>q_status := Uncertain\<rparr>) (db_queue st)\<rparr>"
  have gone: "q_session_id r \<noteq> i \<or> q_status r \<noteq> Forwarded"
    if "r \<in> set (update_where ?p (\<lambda>r. r\<lparr>q_status := Uncertain\<rparr>) rs)" for r rs
  proof -
    from that obtain x where "r = (if ?p x then x\<lparr>q_status := Uncertain\<rparr> else x)" by (auto simp: in_set_update_where)
    then show ?thesis by (cases "?p x") auto
  qed
  have none: "(i, rid) \<notin> forwarded_of (update_where ?p (\<lambda>r. r\<lparr>q_status := Uncertain\<rparr>) rs)" for rid rs
    using gone [of _ rs] unfolding forwarded_of_def by blast
  have ex: "session_exists ?st i" using assms by (simp add: session_exists_def)
  have "\<exists>st'. store_event enc parse ?st i (Notice t) = Inr st'" for t
  proof -
    obtain st1 where ev: "insert_event (snd (read_clock ?st)) i (fst (read_clock ?st)) (Notice t) = Inr st1"
      using ex by (simp add: insert_event_Inr read_clock_def session_exists_def)
    then have "session_exists st1 i" using ex unfolding insert_event_Inr read_clock_def by (auto simp: session_exists_def)
    from index_event_total [OF this] ev show ?thesis by (auto simp: store_event_def split_beta)
  qed
  then obtain st' where st': "uncertain_forwarded enc parse st i = Inr st'"
    by (cases "count_where ?p (db_queue st) > 0") (auto simp: uncertain_forwarded_def Let_def)
  have q: "db_queue st' = db_queue ?st"
    using st' by (auto simp: uncertain_forwarded_def Let_def dest: store_event_queue split: if_splits)
  moreover have "session_exists st' i" using exists_step [OF quiet_store_step [OF quiet_uncertain [OF st']] assms] .
  ultimately show ?thesis using st' none by (auto simp: q)
qed

definition nothing_held :: "string \<Rightarrow> 'a actor \<Rightarrow> bool" where
  "nothing_held i s \<longleftrightarrow> present i s \<and> held i s = {}"

lemma nothing_tracked: "nothing_held i s \<Longrightarrow> tracked i s"
  by (simp add: nothing_held_def tracked_def)

lemma ends_uncertain: "ends (present i) (db_uncertain env i) (\<lambda>_. nothing_held i) (\<lambda>_. False)"
proof -
  have "case db_uncertain env i s of (Inl e, s') \<Rightarrow> False | (Inr x, s') \<Rightarrow> nothing_held i s'" if "present i s" for s
    using uncertain_total [OF that, of "re_enc env" "re_parse env"]
    by (auto simp: db_uncertain_def db_put_def nothing_held_def held_def)
  then show ?thesis by (simp add: ends_def)
qed

lemma ends_ignore_uncertain: "ends (present i) (ignore (db_uncertain env i)) (\<lambda>_. nothing_held i) (\<lambda>_. False)"
  unfolding ignore_def by (rule ends_seq [OF ends_attempt ends_ret]) (rule ends_weaken [OF ends_uncertain], auto)

lemma ends_clear: "ends (present i) clear_forwarded (\<lambda>_. present i) (\<lambda>_. False)"
  unfolding clear_forwarded_def by (rule ends_change) simp

text \<open>Clearing the list and writing the outcome of the messages belong together.\<close>

lemma ends_give_up:
  "ends (present i) (seq clear_forwarded (\<lambda>_. db_uncertain env i)) (\<lambda>_. nothing_held i) (\<lambda>_. False)"
  "ends (present i) (seq clear_forwarded (\<lambda>_. ignore (db_uncertain env i))) (\<lambda>_. nothing_held i) (\<lambda>_. False)"
  by (rule ends_seq [OF ends_clear] ends_uncertain ends_ignore_uncertain)+

section \<open>Handlers that give up or hand over\<close>

lemma tracks_give_up:
  assumes "\<And>x. framed (tracks i) (f x)"
  shows "framed (tracks i) (seq clear_forwarded (\<lambda>_. seq (ignore (db_uncertain env i)) f))"
    "framed (tracks i) (seq (seq clear_forwarded (\<lambda>_. ignore (db_uncertain env i))) f)"
proof -
  have "ends (nothing_held i) (f x) (\<lambda>_. tracked i) (tracked i)" for x
    using assms by (auto simp: tracks_iff_ends intro: ends_weaken nothing_tracked)
  then have "ends (present i) (seq (seq clear_forwarded (\<lambda>_. ignore (db_uncertain env i))) f) (\<lambda>_. tracked i) (tracked i)"
    by - (rule ends_seq [where M = "\<lambda>_. nothing_held i", OF ends_weaken [OF ends_give_up(2)]], auto)
  then show "framed (tracks i) (seq (seq clear_forwarded (\<lambda>_. ignore (db_uncertain env i))) f)"
    "framed (tracks i) (seq clear_forwarded (\<lambda>_. seq (ignore (db_uncertain env i)) f))"
    unfolding tracks_iff_ends seq_assoc by (auto elim!: ends_weaken simp: tracked_def)
qed

lemma tracks_give_up_now: "framed (tracks i) (seq clear_forwarded (\<lambda>_. db_uncertain env i))"
  unfolding tracks_iff_ends by (rule ends_weaken [OF ends_give_up(1)]) (auto simp: nothing_held_def tracked_def)

lemma ends_abandon: "ends (tracked i) (abandon_process env i) (\<lambda>_. present i) (tracked i)"
proof -
  have keep: "ends (tracked i) m (\<lambda>_. tracked i) (tracked i)" if "framed kept m" for m :: "('a, 'b) run"
    using framed_tracks [OF that] by (simp add: tracks_iff_ends)
  have "ends (tracked i) clear_forwarded (\<lambda>_. present i) (tracked i)"
    by (rule ends_weaken [OF ends_clear]) (auto simp: tracked_def)
  then show ?thesis unfolding abandon_process_def
    by (intro ends_seq [OF keep [OF kept.framed_background]] ends_seq [OF keep [OF kept.framed_close]]
        ends_seq [OF keep [OF kept.framed_drop]]) (auto intro: ends_seq ends_ret)
qed

lemma tracks_abandon:
  assumes "\<And>x y. framed (tracks i) (f x y)"
  shows "framed (tracks i) (seq (abandon_process env i) (\<lambda>x. seq (db_uncertain env i) (f x)))"
  unfolding tracks_iff_ends
proof (rule ends_seq [OF ends_abandon])
  fix x
  have "ends (nothing_held i) (f x y) (\<lambda>_. tracked i) (tracked i)" for y
    using assms by (auto simp: tracks_iff_ends intro: ends_weaken nothing_tracked)
  then show "ends (present i) (seq (db_uncertain env i) (f x)) (\<lambda>_. tracked i) (tracked i)"
    by - (rule ends_seq [where M = "\<lambda>_. nothing_held i", OF ends_weaken [OF ends_uncertain]], auto)
qed

lemma tracks_forward:
  assumes "framed (tracks i) m"
  shows "framed (tracks i) (seq (db_put (\<lambda>st. mark_forwarded st i rid revision)) (\<lambda>_.
      seq (change (\<lambda>s. s\<lparr>ac_forwarded := AList.update rid (d s) (ac_forwarded s), ac_configs := g s\<rparr>)) (\<lambda>_. m)))"
  unfolding tracks_iff_ends
proof (rule ends_seq [where M = "\<lambda>_ s. present i s \<and> held i s \<subseteq> insert rid (fst ` set (ac_forwarded s))"])
  show "ends (tracked i) (db_put (\<lambda>st. mark_forwarded st i rid revision))
          (\<lambda>_ s. present i s \<and> held i s \<subseteq> insert rid (fst ` set (ac_forwarded s))) (tracked i)"
    by (auto simp: ends_def db_put_def tracked_def held_def dest: forward_store_step exists_step split: sum.split)
next
  show "ends (\<lambda>s. present i s \<and> held i s \<subseteq> insert rid (fst ` set (ac_forwarded s)))
      (seq (change (\<lambda>s. s\<lparr>ac_forwarded := AList.update rid (d s) (ac_forwarded s), ac_configs := g s\<rparr>)) (\<lambda>_. m))
      (\<lambda>_. tracked i) (tracked i)"
    by (rule ends_seq [OF ends_change]) (use assms in \<open>auto simp: tracks_iff_ends tracked_def held_def dom_update\<close>)
qed

section \<open>The outcome of inputs\<close>

fun settles :: "action \<Rightarrow> string list" where
  "settles (InputsConsumed ids) = ids"
| "settles (InputRejected rid _) = [rid]"
| "settles _ = []"

lemma settled_iff: "rid \<in> set (settled_inputs acts) \<longleftrightarrow> (\<exists>a \<in> set acts. rid \<in> set (settles a))"
proof -
  have "rid \<in> set (settles a) \<longleftrightarrow>
      rid \<in> set (case a of InputsConsumed ids \<Rightarrow> ids | _ \<Rightarrow> []) \<or> rid \<in> set (case a of InputRejected r _ \<Rightarrow> [r] | _ \<Rightarrow> [])" for a
    by (cases a) auto
  then show ?thesis by auto
qed

declare settled_inputs.simps [simp del]

definition orderly :: "'a agent_adapter \<Rightarrow> bool" where
  "orderly ad \<longleftrightarrow> (\<forall>a input acts b. ad_advance ad a input = (Inr acts, b) \<longrightarrow>
     (\<forall>x \<in> set (dropWhile (\<lambda>a. \<not> is_finished a) acts). settles x = []))"

lemma orderly_reached:
  assumes "orderly ad" and "ad_advance ad a input = (Inr acts, b)" and "rid \<in> set (settled_inputs acts)"
  shows "\<exists>x \<in> set (takeWhile (\<lambda>a. \<not> is_finished a) (filter (\<lambda>a. \<not> is_renamed a) acts)). rid \<in> set (settles x)"
proof -
  from assms(3) obtain x where x: "x \<in> set acts" "rid \<in> set (settles x)" by (auto simp: settled_iff)
  from assms(1,2) have "\<forall>x \<in> set (dropWhile (\<lambda>a. \<not> is_finished a) acts). settles x = []"
    unfolding orderly_def by blast
  with x(2) have "x \<notin> set (dropWhile (\<lambda>a. \<not> is_finished a) acts)" by auto
  with x(1) have "x \<in> set (takeWhile (\<lambda>a. \<not> is_finished a) acts)"
    by (metis Un_iff set_append takeWhile_dropWhile_id)
  moreover have "x \<in> set (takeWhile P xs) \<Longrightarrow> Q x \<Longrightarrow> x \<in> set (takeWhile P (filter Q xs))" for P Q xs
    by (induction xs) (auto split: if_splits)
  moreover have "\<not> is_renamed x" using x(2) by (cases x) auto
  ultimately show ?thesis using x(2) by metis
qed

definition gone :: "string \<Rightarrow> string \<Rightarrow> 'a actor \<Rightarrow> bool" where
  "gone i rid s \<longleftrightarrow> rid \<notin> held i s"

lemma kept_gone: "framed kept m \<Longrightarrow> ends (gone i rid) m (\<lambda>_. gone i rid) (\<lambda>_. True)"
  by (auto simp: ends_def framed_def kept_def gone_def held_def split_beta split: sum.split)

lemma update_queue_gone:
  assumes "\<And>r. q_status (f r) \<noteq> Forwarded"
  shows "(i, rid) \<notin> forwarded_keys (update_queue st i rid Forwarded f)"
proof -
  let ?p = "\<lambda>r. q_session_id r = i \<and> q_request_id r = rid \<and> q_status r = Forwarded"
  have "\<not> ?p r" if "r \<in> set (update_where ?p f rs)" for r rs
  proof -
    from that obtain x where "r = (if ?p x then f x else x)" by (auto simp: in_set_update_where)
    then show ?thesis using assms by (cases "?p x") auto
  qed
  then show ?thesis unfolding forwarded_of_def update_queue_def by auto
qed

lemma consume_gone:
  assumes "rid \<in> set ids"
  shows "(i, rid) \<notin> forwarded_keys (consume_forwarded st i ids)"
  using assms
proof (induction ids arbitrary: st)
  case (Cons x ids)
  let ?st = "update_queue st i x Forwarded (\<lambda>r. r\<lparr>q_status := Dispatched\<rparr>)"
  have step: "consume_forwarded st i (x # ids) = consume_forwarded ?st i ids"
    by (simp add: consume_forwarded_def)
  show ?case
  proof (cases "rid \<in> set ids")
    case False
    with Cons.prems have "(i, rid) \<notin> forwarded_keys ?st" by (simp add: update_queue_gone)
    moreover have "forwarded_keys (consume_forwarded ?st i ids) \<subseteq> forwarded_keys ?st"
      using quiet_consume by (auto simp: quiet_def)
    ultimately show ?thesis unfolding step by blast
  qed (use Cons.IH step in auto)
qed simp

lemma reject_gone:
  assumes "reject_forwarded st i rid m = Inr st'"
  shows "(i, rid) \<notin> forwarded_keys st'"
proof (cases "List.find (\<lambda>r. q_session_id r = i \<and> q_request_id r = rid \<and> q_status r = Forwarded) (db_queue st)")
  case None
  with assms show ?thesis by (auto simp: reject_forwarded_def forwarded_of_def find_None)
next
  case (Some row)
  with assms obtain f where q: "db_queue st' = db_queue (update_queue st i rid Forwarded f)" "\<And>r. q_status (f r) \<noteq> Forwarded"
    by (auto simp: reject_forwarded_def result_simps Let_def split_beta read_clock_def insert_event_Inr
        dest!: write_queue_state_queue)
  then show ?thesis using update_queue_gone by metis
qed

lemma ends_any: "ends P m (\<lambda>_ _. True) (\<lambda>_. True)"
  by (simp add: ends_def split_beta split: sum.split)

lemma apply_action_next: "ends (\<lambda>_. True) (apply_action env i cfg a) (\<lambda>r _. r = None \<or> is_finished a) (\<lambda>_. True)"
proof -
  have go: "ends (\<lambda>_. True) (seq m (\<lambda>_. ret None)) (\<lambda>r _. r = None \<or> b) (\<lambda>_. True)" for m :: "('b, 'c) run" and b
    by (rule ends_seq [OF ends_any ends_ret]) simp
  show ?thesis unfolding apply_action_def Let_def
    by (cases a) (simp_all only: action.case go is_finished.simps, (auto intro: ends_ret ends_fail))
qed

lemma apply_action_gone:
  assumes "rid \<in> set (settles a)"
  shows "ends (\<lambda>_. True) (apply_action env i cfg a) (\<lambda>_. gone i rid) (\<lambda>_. True)"
proof -
  have go: "ends (\<lambda>_. True) (seq (db_put f) (\<lambda>_. ret None)) (\<lambda>_. gone i rid) (\<lambda>_. True)"
    if "\<And>st st'. f st = Inr st' \<Longrightarrow> (i, rid) \<notin> forwarded_keys st'" for f
    by (rule ends_seq [where M = "\<lambda>_. gone i rid"])
       (auto simp: ends_def db_put_def gone_def held_def ret_def that split: sum.split)
  from assms show ?thesis
    by (cases a) (auto simp: apply_action_def intro!: go dest: consume_gone reject_gone)
qed

lemma apply_actions_gone:
  "x \<in> set (takeWhile (\<lambda>a. \<not> is_finished a) acts) \<Longrightarrow> rid \<in> set (settles x) \<Longrightarrow>
   ends (\<lambda>_. True) (apply_actions env i cfg acts) (\<lambda>_. gone i rid) (\<lambda>_. True)"
proof (induction acts)
  case (Cons a acts)
  then have unfinished: "\<not> is_finished a" by (auto split: if_splits)
  show ?case
  proof (cases "rid \<in> set (settles a)")
    case True
    have "ends (gone i rid) (case r of None \<Rightarrow> apply_actions env i cfg acts | Some out \<Rightarrow> ret (Some out)) (\<lambda>_. gone i rid) (\<lambda>_. True)" for r
      by (rule kept_gone) (intro kept.framed_option kept.framed_apply_actions kept.framed_ret)
    then show ?thesis unfolding apply_actions.simps by (rule ends_seq [OF apply_action_gone [OF True]])
  next
    case False
    with Cons unfinished have IH: "ends (\<lambda>_. True) (apply_actions env i cfg acts) (\<lambda>_. gone i rid) (\<lambda>_. True)" by auto
    have "ends (\<lambda>_. r = None) (case r of None \<Rightarrow> apply_actions env i cfg acts | Some out \<Rightarrow> ret (Some out)) (\<lambda>_. gone i rid) (\<lambda>_. True)" for r
      using IH by (cases r) (auto simp: ends_def)
    with unfinished show ?thesis
      by (auto intro!: ends_seq [where M = "\<lambda>r _. r = None"] ends_weaken [OF apply_action_next])
  qed
qed simp

lemma process_apply_gone:
  assumes "x \<in> set (takeWhile (\<lambda>a. \<not> is_finished a) (filter (\<lambda>a. \<not> is_renamed a) acts))" and "rid \<in> set (settles x)"
  shows "ends (\<lambda>_. True) (process_apply env i acts) (\<lambda>_. gone i rid) (\<lambda>_. True)"
  unfolding process_apply_def Let_def
  by (rule ends_seq [OF ends_any], rule ends_seq [OF ends_any], rule ends_seq [OF ends_any],
      rule ends_seq [OF apply_actions_gone [OF assms]], rule kept_gone)
     (intro kept.supervision_rules kept.framed_end_turn kept.framed_late_interrupt)

text \<open>A line is settled only after the store has been.\<close>

definition reported :: "'a runtime_env \<Rightarrow> action list \<Rightarrow> bool" where
  "reported env acts \<longleftrightarrow> (\<exists>a input b. ad_advance (re_adapter env) a input = (Inr acts, b))"

lemma advance_reported:
  fixes env :: "'a runtime_env"
  shows "ends (tracked i) (advance env input) (\<lambda>acts s. tracked i s \<and> reported env acts) (tracked i)"
proof -
  have "tracked i s'" "r = Inr acts \<longrightarrow> reported env acts" if "advance env input s = (r, s')" "tracked i s" for r s s' acts
  proof -
    show "tracked i s'" using framedD [OF tracks.framed_advance that(1), of i] that(2) by (simp add: tracks_def)
    show "r = Inr acts \<longrightarrow> reported env acts"
    proof
      assume "r = Inr acts"
      with that(1) obtain p :: "'a process" and s1 where "(case ad_advance (re_adapter env) (pr_adapter p) input of
           (r, a) \<Rightarrow> seq (update_process (\<lambda>p. p\<lparr>pr_adapter := a\<rparr>)) (\<lambda>_.
             case r of Inl e \<Rightarrow> fail (AgentError e) | Inr acts \<Rightarrow> ret acts)) s1 = (Inr acts, s')"
        by (auto simp: advance_def seq_Inr)
      then show "reported env acts"
        by (cases "ad_advance (re_adapter env) (pr_adapter p) input", cases "fst (ad_advance (re_adapter env) (pr_adapter p) input)")
           (auto simp: seq_Inr reported_def)
    qed
  qed
  then show ?thesis by (auto simp: ends_def split: sum.split prod.split)
qed

lemma process_apply_settled:
  assumes "orderly (re_adapter env)" and "reported env acts"
  shows "ends (tracked i) (process_apply env i acts)
           (\<lambda>_ s. tracked i s \<and> (\<forall>rid \<in> set (settled_inputs acts). gone i rid s)) (tracked i)"
proof -
  have "ends (\<lambda>_. True) (process_apply env i acts) (\<lambda>_. gone i rid) (\<lambda>_. True)" if "rid \<in> set (settled_inputs acts)" for rid
  proof -
    from assms(2) obtain a input b where "ad_advance (re_adapter env) a input = (Inr acts, b)" by (auto simp: reported_def)
    from orderly_reached [OF assms(1) this that] show ?thesis by (auto intro: process_apply_gone)
  qed
  moreover have "ends (tracked i) (process_apply env i acts) (\<lambda>_. tracked i) (tracked i)"
    using tracks.framed_process_apply by (simp add: tracks_iff_ends)
  ultimately show ?thesis unfolding ends_def by (fastforce split: sum.splits prod.splits)
qed

lemma tracks_line:
  assumes "orderly (re_adapter env)"
  shows "framed (tracks i) (on_line env i item)"
proof -
  let ?upd = "\<lambda>acts s. s\<lparr>ac_forwarded := filter (\<lambda>(rid, _). rid \<notin> set (settled_inputs acts)) (ac_forwarded s)\<rparr>"
  have "ends (\<lambda>s. tracked i s \<and> reported env acts) (seq (process_apply env i acts) (\<lambda>_. change (?upd acts)))
      (\<lambda>_. tracked i) (tracked i)" for acts
  proof (cases "reported env acts")
    case True
    have "tracked i (?upd acts s)" if "tracked i s" "\<forall>rid \<in> set (settled_inputs acts). gone i rid s" for s
      using that by (fastforce simp: tracked_def gone_def held_def)
    then have "ends (tracked i) (seq (process_apply env i acts) (\<lambda>_. change (?upd acts))) (\<lambda>_. tracked i) (tracked i)"
      by (intro ends_seq [OF process_apply_settled [OF assms True]] ends_change) blast
    then show ?thesis by (rule ends_weaken) auto
  qed (simp add: ends_def)
  then have "framed (tracks i) (seq (advance env input) (\<lambda>acts. seq (process_apply env i acts) (\<lambda>_. change (?upd acts))))" for input
    unfolding tracks_iff_ends by (rule ends_seq [OF advance_reported])
  then show ?thesis unfolding on_line_def
    by - (rule tracks.framed_seq, rule tracks.framed_the_process, rule tracks.framed_seq, rule tracks.framed_from_result,
          rule tracks.framed_seq, rule tracks.framed_from_result)
qed

section \<open>The rounds\<close>

lemma tracks_handed:
  "framed (tracks i) (on_dispatch env i interrupt rid revision cfg n)" "framed (tracks i) (on_interrupt env i n)"
  "framed (tracks i) (on_forward env i rid revision cfg n)"
  unfolding on_dispatch_def on_interrupt_def on_forward_def
  by (intro tracks.supervision_rules tracks_abandon tracks_forward
        framed_tracks [OF kept_reject_immediate] framed_tracks [OF kept_snapshot] framed_tracks [OF kept_find_entry]
        framed_tracks [OF kept_interrupt_process] framed_tracks [OF kept_simple_handlers(15)] framed_tracks [OF kept_waiting(1)])+

lemma tracks_queue: "framed (tracks i) (on_queue env i act n)"
  unfolding on_queue_def
  by (cases act)
     (simp_all only: queue_action.case, (intro tracks.supervision_rules tracks_handed framed_tracks [OF kept_queue_change])+)

lemma tracks_cancel: "framed (tracks i) (on_cancel env i n b)"
  unfolding on_cancel_def
  by (cases b) (simp_all, (intro tracks_give_up tracks.supervision_rules framed_tracks [OF kept_reject_immediate]
        framed_tracks [OF kept_simple_handlers(13)] framed_tracks [OF kept_waiting(5)])+)

lemma tracks_handle_event:
  assumes "orderly (re_adapter env)"
  shows "framed (tracks i) (handle_event env i ev)"
proof -
  have "framed (tracks i) (handle_control env i c)" for c
    unfolding handle_control_def Let_def
    by (cases c) (simp_all only: control.case, (intro tracks.framed_seq tracks.framed_ret tracks_handed tracks_queue tracks_cancel
          kept_simple_handlers [THEN framed_tracks])+)
  then show ?thesis unfolding handle_event_def
    by (cases ev) (simp_all only: actor_event.case, (intro tracks.framed_seq tracks.framed_ret tracks.framed_fail
          tracks_line assms kept_simple_handlers [THEN framed_tracks] | assumption)+)
qed

lemma tracks_recover: "framed (tracks i) (recover_round env i e)"
  unfolding recover_round_def
  by (intro tracks_give_up tracks.supervision_rules framed_tracks [OF kept_reject_immediate])

lemma tracks_boundary: "framed (tracks i) (turn_boundary env i previous)" "framed (tracks i) (boundary_failed env i e)"
  unfolding turn_boundary_def settle_queue_def boundary_failed_def
  by (intro tracks_give_up tracks_give_up_now tracks.supervision_rules kept_simple_handlers [THEN framed_tracks]
      framed_tracks [OF kept_send_immediate] framed_tracks [OF kept_dispatch_next])+

lemma tracks_round:
  assumes "orderly (re_adapter env)"
  shows "framed (tracks i) (actor_round env i ev)"
proof -
  have flow: "framed (tracks i) a \<Longrightarrow> framed (tracks i) b \<Longrightarrow> framed (tracks i) c \<Longrightarrow>
     framed (tracks i) (case f of Proceed \<Rightarrow> a | SkipRound \<Rightarrow> b | StopActor \<Rightarrow> c)" for a b c :: "('a, unit) run" and f
    by (cases f) simp_all
  show ?thesis unfolding actor_round_def Let_def
    by (intro tracks.supervision_rules flow tracks_handle_event assms tracks_recover tracks_boundary
        kept_simple_handlers [THEN framed_tracks] framed_tracks [OF kept_waiting(5)])
qed

section \<open>What the flags promise\<close>

lemma tracked_reaches:
  assumes "orderly (re_adapter env)" and "actor_reaches env i s t" and "session_exists (ac_store s) i"
    and "\<forall>r \<in> set (db_queue (ac_store s)). q_session_id r = i \<longrightarrow> q_status r \<noteq> Forwarded"
  shows "tracked i t"
proof -
  have "tracked i s" using assms(3,4) by (auto simp: tracked_def held_def forwarded_of_def)
  with assms(2) show ?thesis
  proof (induction rule: actor_reaches.induct)
    case (round t ev)
    with tracks_round [OF assms(1), of i ev] show ?case by (auto simp: framed_def tracks_def)
  next
    case (others t st now)
    then show ?case by (auto simp: tracked_def held_def others_step_def exists_step)
  qed
qed

text \<open>C2: with an orderly adapter the actor never loses sight of a message: in every state its rounds reach,
  whatever fails in between, each message of the session that the store calls handed over is in the list
  of inputs the actor waits for, so its deadline, its report or the end of the process settles it.\<close>

theorem handed_over_messages_tracked:
  assumes "orderly (re_adapter env)" and "actor_reaches env i s t"
    and "session_exists (ac_store s) i" and "\<forall>r \<in> set (db_queue (ac_store s)). q_session_id r = i \<longrightarrow> q_status r \<noteq> Forwarded"
  shows "session_exists (ac_store t) i \<and>
    (\<forall>r \<in> set (db_queue (ac_store t)). q_session_id r = i \<and> q_status r = Forwarded \<longrightarrow>
       q_request_id r \<in> fst ` set (ac_forwarded t))"
proof (intro conjI ballI impI)
  from tracked_reaches [OF assms] have t: "session_exists (ac_store t) i" "held i t \<subseteq> fst ` set (ac_forwarded t)"
    by (simp_all add: tracked_def)
  show "session_exists (ac_store t) i" by (rule t)
  fix r assume r: "r \<in> set (db_queue (ac_store t))" "q_session_id r = i \<and> q_status r = Forwarded"
  show "q_request_id r \<in> fst ` set (ac_forwarded t)"
    by (rule subsetD [OF t(2)], unfold held_iff, rule bexI [OF _ r(1)]) (intro conjI refl conjunct1 [OF r(2)] conjunct2 [OF r(2)])
qed

definition idle :: "'a runtime_env \<Rightarrow> string \<Rightarrow> 'a actor \<Rightarrow> bool" where
  "idle env i s \<longleftrightarrow>
     queue_waiting i s = (Inr False, s) \<and> ac_immediate s = None \<and> ac_forwarded s = [] \<and>
     (case ac_process s of
        None \<Rightarrow> True
      | Some p \<Rightarrow> \<not> pr_interrupt_ack_pending p \<and> pr_pending p = [] \<and> can_reconfigure env p)"

lemma queue_waiting_state [simp]: "snd (queue_waiting i s) = s"
  by (simp add: queue_waiting_def db_get_def)

lemma ends_update_safe: "ends (\<lambda>_. True) (update_safe env i) (\<lambda>_ s. ac_safe_to_close s \<longrightarrow> idle env i s) (\<lambda>_. False)"
proof -
  have "queue_waiting i (s\<lparr>ac_safe_to_close := b\<rparr>) = (fst (queue_waiting i s), s\<lparr>ac_safe_to_close := b\<rparr>)" for s :: "'a actor" and b
    by (simp add: queue_waiting_def db_get_def)
  moreover have "queue_waiting i s = (Inr False, s) \<longleftrightarrow> fst (queue_waiting i s) = Inr False" for s :: "'a actor"
    by (metis fst_conv prod.collapse queue_waiting_state)
  ultimately show ?thesis
    by (auto simp: ends_def update_safe_def seq_apply eff_apply idle_def split: prod.splits)
qed

text \<open>What ends a round cannot fail, so the flag is always written.\<close>

definition steady :: "('a, 'b) run \<Rightarrow> bool" where
  "steady m \<longleftrightarrow> (\<forall>s e. fst (m s) \<noteq> Inl e)"

lemma steady_basic:
  "steady (ret x)" "steady (look f)" "steady (change g)" "steady (attempt m)" "steady (ignore m)"
  "steady (send_reply n r)" "steady (update_process h)" "steady drop_process"
  by (simp_all add: steady_def eff_apply ignore_def seq_apply send_reply_def update_process_def drop_process_def)

lemma steady_seq: "steady m \<Longrightarrow> (\<And>x. steady (f x)) \<Longrightarrow> steady (seq m f)"
  by (auto simp: steady_def seq_apply split: sum.split)

lemma steady_cases:
  "steady m \<Longrightarrow> steady n \<Longrightarrow> steady (if c then m else n)"
  "steady m \<Longrightarrow> (\<And>x. steady (f x)) \<Longrightarrow> steady (case v of None \<Rightarrow> m | Some x \<Rightarrow> f x)"
  "(\<And>x. steady (g x)) \<Longrightarrow> (\<And>x. steady (f x)) \<Longrightarrow> steady (case w of Inl x \<Rightarrow> g x | Inr x \<Rightarrow> f x)"
  "(\<And>x y. steady (h x y)) \<Longrightarrow> steady (case z of (x, y) \<Rightarrow> h x y)"
  "(\<And>x. steady (f x)) \<Longrightarrow> steady (Let y f)"
  by (simp_all split: option.split sum.split prod.split)

lemma steady_each: "(\<And>x. steady (f x)) \<Longrightarrow> steady (each f xs)"
  by (induction xs) (auto intro: steady_basic steady_seq)

lemma steady_parts:
  "steady settle_opening" "steady (boundary_failed env i e)" "steady (recover_round env i e)"
  unfolding settle_opening_def boundary_failed_def recover_round_def reject_immediate_def close_process_def
    clear_forwarded_def background_pending_def
  by (intro steady_seq steady_basic steady_cases steady_each)+

lemma ends_steady: "steady m \<Longrightarrow> ends (\<lambda>_. True) m (\<lambda>_ _. True) (\<lambda>_. False)"
  by (auto simp: ends_def steady_def split_beta split: sum.split)

lemma ends_always: "ends (\<lambda>_. True) m Q (\<lambda>_. False) \<Longrightarrow> \<exists>x. Q x (snd (m s))"
  by (cases "fst (m s)") (auto simp: ends_def split_beta dest!: spec [of _ s])

text \<open>What follows the handler of an event.\<close>

definition after_event :: "'a runtime_env \<Rightarrow> string \<Rightarrow> status option \<Rightarrow> ('a, unit) run" where
  "after_event env i previous =
     seq settle_opening (\<lambda>_. seq (attempt (turn_boundary env i previous)) (\<lambda>r.
     seq (case r of Inl e \<Rightarrow> boundary_failed env i e | Inr _ \<Rightarrow> ret ()) (\<lambda>_. update_safe env i)))"

lemma actor_round_parts:
  assumes "handle_event env i ev t = (r, t1)" and "r \<notin> {Inr SkipRound, Inr StopActor}"
  obtains previous where "actor_round env i ev t =
    (case r of Inl e \<Rightarrow> seq (recover_round env i e) (\<lambda>_. after_event env i previous) | Inr _ \<Rightarrow> after_event env i previous) t1"
proof
  have same: "snd (session_status i t) = t"
    by (simp add: session_status_def db_session_def db_get_def seq_apply eff_apply split: sum.split)
  show "actor_round env i ev t =
    (case r of Inl e \<Rightarrow> seq (recover_round env i e) (\<lambda>_. after_event env i (case fst (session_status i t) of Inr s \<Rightarrow> Some s | Inl _ \<Rightarrow> None))
     | Inr _ \<Rightarrow> after_event env i (case fst (session_status i t) of Inr s \<Rightarrow> Some s | Inl _ \<Rightarrow> None)) t1"
    using assms unfolding actor_round_def after_event_def [symmetric] Let_def
    by (cases r) (simp_all add: seq_apply eff_apply same split: flow.splits)
qed

lemma round_sets_flag:
  assumes "handle_event env i ev t = (r, t1)" and "r \<notin> {Inr SkipRound, Inr StopActor}"
    and "ac_safe_to_close (snd (actor_round env i ev t))"
  shows "idle env i (snd (actor_round env i ev t))"
proof -
  let ?Q = "\<lambda>_ s. ac_safe_to_close s \<longrightarrow> idle env i s"
  have rest: "ends (\<lambda>_. True) (after_event env i previous) ?Q (\<lambda>_. False)" for previous
    unfolding after_event_def
    by (intro ends_seq [OF ends_steady] steady_parts steady_basic steady_cases ends_update_safe)
  then have recover: "ends (\<lambda>_. True) (seq (recover_round env i e) (\<lambda>_. after_event env i previous)) ?Q (\<lambda>_. False)" for e previous
    by (intro ends_seq [OF ends_steady] steady_parts)
  obtain previous where eq: "actor_round env i ev t =
    (case r of Inl e \<Rightarrow> seq (recover_round env i e) (\<lambda>_. after_event env i previous) | Inr _ \<Rightarrow> after_event env i previous) t1"
    using assms(1,2) by (rule actor_round_parts)
  show ?thesis
  proof (cases r)
    case (Inl e)
    from ends_always [OF recover, of e previous t1] show ?thesis using assms(3) by (simp add: eq Inl)
  next
    case (Inr f)
    from ends_always [OF rest, of previous t1] show ?thesis using assms(3) by (simp add: eq Inr)
  qed
qed

text \<open>C3: the server may be closed or replaced on the word of the flag. When a round has set it, with an orderly
  adapter, no message of the session is at the agent without an answer, none waits to be started (unless
  the user sees the queue paused), no send is under way, and the process has neither an open question
  nor work that replacing it would lose.\<close>

theorem safe_to_close_sound:
  assumes "orderly (re_adapter env)" and "actor_reaches env i s t"
    and "session_exists (ac_store s) i" and "\<forall>r \<in> set (db_queue (ac_store s)). q_session_id r = i \<longrightarrow> q_status r \<noteq> Forwarded"
    and "handle_event env i ev t = (r, t1)" and "r \<notin> {Inr SkipRound, Inr StopActor}"
    and "actor_round env i ev t = (ok, u)" and "ac_safe_to_close u"
  shows "(\<forall>r \<in> set (db_queue (ac_store u)). q_session_id r = i \<longrightarrow> q_status r \<noteq> Forwarded) \<and>
    (fst (queue_state (ac_store u) i) \<or> pending_rows (ac_store u) i = []) \<and> ac_immediate u = None \<and>
    (case ac_process u of
       None \<Rightarrow> True
     | Some p \<Rightarrow> pr_pending p = [] \<and> \<not> pr_interrupt_ack_pending p \<and> ad_can_reconfigure (re_adapter env) (pr_adapter p))"
proof -
  have "tracked i t" by (rule tracked_reaches [OF assms(1-4)])
  with tracks_round [OF assms(1), of i ev] assms(7) have "tracked i u"
    by (auto simp: framed_def tracks_def dest!: spec [of _ t])
  moreover have idle: "idle env i u" using round_sets_flag [OF assms(5,6)] assms(7,8) by simp
  ultimately have "held i u = {}" by (simp add: tracked_def idle_def)
  moreover have "fst (queue_state (ac_store u) i) \<or> pending_rows (ac_store u) i = []"
    using idle by (auto simp: idle_def queue_waiting_def db_get_def queued_def result_simps split: sum.splits if_splits)
  ultimately show ?thesis using idle
    by (auto simp: idle_def set_eq_iff held_iff can_reconfigure_def split: option.splits)
qed

section \<open>Recovery\<close>

definition cleared :: "string \<Rightarrow> 'a actor \<Rightarrow> bool" where
  "cleared i s \<longleftrightarrow> nothing_held i s \<and> ac_forwarded s = []"

definition stays_clear :: "string \<Rightarrow> 'a actor \<Rightarrow> 'a actor \<Rightarrow> bool" where
  "stays_clear i s s' \<longleftrightarrow> (cleared i s \<longrightarrow> cleared i s')"

lemma kept_clear: "kept s s' \<Longrightarrow> stays_clear i s s'"
  by (auto simp: kept_def stays_clear_def cleared_def nothing_held_def held_def exists_step)

interpretation clear: supervision "stays_clear i" for i
proof
  fix a b c :: "'a actor"
  show "stays_clear i a b \<Longrightarrow> stays_clear i b c \<Longrightarrow> stays_clear i a c" by (simp add: stays_clear_def)
qed (auto intro: kept_clear kept.on_store kept.on_process kept.on_replies kept.on_open kept.on_writes kept.on_uuids
       kept.on_captures kept.same)

lemma framed_clear: "framed kept m \<Longrightarrow> framed (stays_clear i) m"
  by (simp add: framed_def kept_clear)

lemma clear_list: "framed (stays_clear i) clear_forwarded"
  by (auto simp: framed_def clear_forwarded_def eff_apply stays_clear_def cleared_def nothing_held_def held_def)

lemma clear_after: "framed (stays_clear i) (after_event env i previous)"
  unfolding after_event_def turn_boundary_def settle_queue_def boundary_failed_def
  by (intro clear.supervision_rules clear_list kept_simple_handlers [THEN framed_clear]
      framed_clear [OF kept_send_immediate] framed_clear [OF kept_dispatch_next])

lemma ends_clear_iff: "framed (stays_clear i) m \<longleftrightarrow> ends (cleared i) m (\<lambda>_. cleared i) (cleared i)"
  by (simp add: framed_def stays_clear_def ends_def split_beta split: sum.split)

lemma ends_conj:
  "ends P m Q E \<Longrightarrow> ends P' m Q' E' \<Longrightarrow>
   ends (\<lambda>s. P s \<and> P' s) m (\<lambda>x s. Q x s \<and> Q' x s) (\<lambda>s. E s \<and> E' s)"
  by (simp add: ends_def split_beta split: sum.splits) blast

lemma ends_both: "ends P m (\<lambda>_. Q) Q \<Longrightarrow> P s \<Longrightarrow> m s = (r, t) \<Longrightarrow> Q t"
  by (cases r) (auto simp: ends_def dest!: spec [of _ s])

lemma recover_clears: "ends (present i) (recover_round env i e) (\<lambda>_. cleared i) (cleared i)"
proof -
  have clear: "ends (present i) clear_forwarded (\<lambda>_ s. present i s \<and> ac_forwarded s = []) (cleared i)"
    unfolding clear_forwarded_def by (rule ends_change) simp
  have "ends (\<lambda>s. ac_forwarded s = []) (ignore (db_uncertain env i)) (\<lambda>_ s. ac_forwarded s = []) (\<lambda>s. ac_forwarded s = [])"
    using kept.framed_ignore [OF kept.framed_uncertain, of env i]
    by (auto simp: ends_def framed_def kept_def split_beta split: sum.split)
  from ends_conj [OF ends_ignore_uncertain this]
  have give_up: "ends (\<lambda>s. present i s \<and> ac_forwarded s = []) (ignore (db_uncertain env i)) (\<lambda>_. cleared i) (cleared i)"
    by (rule ends_weaken) (auto simp: cleared_def)
  show ?thesis unfolding recover_round_def
    by (rule ends_seq [OF clear], rule ends_seq [OF give_up], rule ends_clear_iff [THEN iffD1])
       (intro clear.supervision_rules framed_clear [OF kept_reject_immediate])
qed

text \<open>Messages that are recorded as uncertain.\<close>

definition given_up :: "queue_row set \<Rightarrow> 'a actor \<Rightarrow> bool" where
  "given_up R s \<longleftrightarrow> (\<forall>r \<in> R. \<exists>r' \<in> set (db_queue (ac_store s)). row_evolves r r' \<and> q_status r' = Uncertain)"

definition held_rows :: "string \<Rightarrow> 'a actor \<Rightarrow> queue_row set" where
  "held_rows i s = {r \<in> set (db_queue (ac_store s)). q_session_id r = i \<and> q_status r = Forwarded}"

lemma given_up_step:
  assumes "store_step (ac_store s) (ac_store s')" "given_up R s" "queue_ok (ac_store s)"
  shows "given_up R s'"
  unfolding given_up_def
proof
  fix r assume "r \<in> R"
  with assms(2) obtain a where a: "a \<in> set (db_queue (ac_store s))" "row_evolves r a" "q_status a = Uncertain"
    by (auto simp: given_up_def)
  have "queue_evolves (db_queue (ac_store s)) (db_queue (ac_store s'))" using assms(1,3) by (simp add: store_step_def queue_safe_def)
  from queue_evolves_row [OF this a(1)] obtain b where b: "b \<in> set (db_queue (ac_store s'))" "row_evolves a b" by blast
  moreover have "q_status b = Uncertain" using b(2) a(3) moves_final [of Uncertain] by (simp add: row_evolves_def live_def)
  ultimately show "\<exists>r' \<in> set (db_queue (ac_store s')). row_evolves r r' \<and> q_status r' = Uncertain"
    using row_evolves_trans [OF a(2)] by blast
qed

lemma uncertain_gives_up:
  assumes "present i s" "ignore (db_uncertain env i) s = (r, s')"
  shows "given_up (held_rows i s) s' \<and> (queue_ok (ac_store s) \<longrightarrow> queue_ok (ac_store s'))"
proof -
  let ?p = "\<lambda>r. q_session_id r = i \<and> q_status r = Forwarded"
  obtain st where st: "uncertain_forwarded (re_enc env) (re_parse env) (ac_store s) i = Inr st"
    using uncertain_total [OF assms(1)] by blast
  then have q: "db_queue st = update_where ?p (\<lambda>r. r\<lparr>q_status := Uncertain\<rparr>) (db_queue (ac_store s))"
    by (auto simp: uncertain_forwarded_def Let_def dest!: store_event_queue split: if_splits)
  have "ac_store s' = st"
    using assms(2) st by (auto simp: ignore_def db_uncertain_def db_put_def seq_def attempt_def ret_def)
  moreover have "\<exists>r' \<in> set (update_where ?p (\<lambda>r. r\<lparr>q_status := Uncertain\<rparr>) rs). row_evolves r r' \<and> q_status r' = Uncertain"
    if "r \<in> set rs" "?p r" for r rs
  proof
    show "r\<lparr>q_status := Uncertain\<rparr> \<in> set (update_where ?p (\<lambda>r. r\<lparr>q_status := Uncertain\<rparr>) rs)"
      using that unfolding update_where_def by (auto intro!: image_eqI [of _ _ r])
  qed (use that in \<open>simp add: row_evolves_def\<close>)
  moreover have "queue_ok (ac_store s) \<longrightarrow> queue_ok st" using uncertain_forwarded_safe [OF st] by (simp add: queue_safe_def)
  ultimately show ?thesis by (auto simp: given_up_def held_rows_def q)
qed

lemma recover_gives_up:
  assumes "present i t1" "queue_ok (ac_store t1)" "seq (recover_round env i e) (\<lambda>_. after_event env i previous) t1 = (ok, u)"
  shows "given_up (held_rows i t1) u"
proof -
  have "\<exists>rest. recover_round env i e = seq clear_forwarded (\<lambda>_. seq (ignore (db_uncertain env i)) rest) \<and> (\<forall>x. framed (actor_grows i) (rest x))"
    unfolding recover_round_def by (rule exI, rule conjI [OF refl], intro allI grows_rules)
  then obtain rest where rest: "recover_round env i e = seq clear_forwarded (\<lambda>_. seq (ignore (db_uncertain env i)) rest)"
    "\<And>x. framed (actor_grows i) (rest x)" by blast
  have grows: "framed (actor_grows i) (seq (rest ()) (\<lambda>_. after_event env i previous))"
    unfolding after_event_def by (intro grows_rules grows_boundary rest(2))
  define c where "c = t1\<lparr>ac_forwarded := []\<rparr>"
  obtain v s' where v: "ignore (db_uncertain env i) c = (v, s')" by fastforce
  have c: "present i c" "held_rows i c = held_rows i t1" using assms(1) by (simp_all add: c_def held_rows_def)
  from uncertain_gives_up [OF c(1) v] have g: "given_up (held_rows i t1) s'" "queue_ok (ac_store s')"
    using assms(2) by (simp_all add: c(2)) (simp add: c_def)
  have "v = Inr ()" using v by (auto simp: ignore_def seq_def attempt_def ret_def split: prod.splits)
  have first: "seq clear_forwarded g t1 = g () c" for g :: "unit \<Rightarrow> ('a, unit) run"
    by (simp add: seq_def clear_forwarded_def change_def c_def)
  have second: "seq (ignore (db_uncertain env i)) g c = g () s'" for g :: "unit \<Rightarrow> ('a, unit) run"
    using v \<open>v = Inr ()\<close> by (simp add: seq_def)
  have "seq (rest ()) (\<lambda>_. after_event env i previous) s' = (ok, u)"
    using assms(3) by (simp only: rest(1) seq_assoc first second)
  from framedD [OF grows this] have "store_step (ac_store s') (ac_store u)" by (simp add: actor_grows_def)
  then show ?thesis by (rule given_up_step [OF _ g])
qed

text \<open>C4: after a round whose event failed, be it a broken pipe, an unexpected exit or a deadline, every message that was at
  the agent when the event failed is recorded as uncertain, so it is neither resent nor taken for answered; none of the
  session is believed to be at the agent any more, and the actor waits for none. The messages that were at the agent
  before the event and are not among these were answered or handed back by the event itself. The log and the admitted
  requests only grow on the way.\<close>

theorem failed_round_recovers:
  assumes "handle_event env i ev t = (Inl e, t1)" and "session_exists (ac_store t) i"
    and "actor_round env i ev t = (ok, u)"
  shows "ac_forwarded u = [] \<and> (\<forall>r \<in> set (db_queue (ac_store u)). q_session_id r = i \<longrightarrow> q_status r \<noteq> Forwarded) \<and>
    prefix (db_requests (ac_store t)) (db_requests (ac_store u)) \<and> prefix (db_events (ac_store t)) (db_events (ac_store u)) \<and>
    (queue_ok (ac_store t) \<longrightarrow>
       (\<forall>r \<in> set (db_queue (ac_store t1)). q_session_id r = i \<and> q_status r = Forwarded \<longrightarrow>
          (\<exists>r' \<in> set (db_queue (ac_store u)). q_request_id r' = q_request_id r \<and> q_session_id r' = i \<and> q_status r' = Uncertain)) \<and>
       (\<forall>r \<in> set (db_queue (ac_store t)). \<exists>r1 \<in> set (db_queue (ac_store t1)). row_evolves r r1))"
proof -
  have step1: "store_step (ac_store t) (ac_store t1)"
    using framedD [OF grows_handle_event assms(1)] by (simp add: actor_grows_def)
  have "present i t1" using step1 assms(2) exists_step by blast
  obtain previous where u: "actor_round env i ev t = seq (recover_round env i e) (\<lambda>_. after_event env i previous) t1"
    using actor_round_parts [OF assms(1)] by (metis Inl_not_Inr insert_iff empty_iff old.sum.simps(5))
  have "ends (present i) (seq (recover_round env i e) (\<lambda>_. after_event env i previous)) (\<lambda>_. cleared i) (cleared i)"
    using clear_after by (intro ends_seq [OF recover_clears]) (simp add: ends_clear_iff)
  from ends_both [OF this \<open>present i t1\<close>] have "cleared i u" using u assms(3) by metis
  then have none: "ac_forwarded u = []" "\<forall>r \<in> set (db_queue (ac_store u)). q_session_id r = i \<longrightarrow> q_status r \<noteq> Forwarded"
    by (auto simp: cleared_def nothing_held_def set_eq_iff held_iff)
  have up: "\<forall>r \<in> set (db_queue (ac_store t1)). q_session_id r = i \<and> q_status r = Forwarded \<longrightarrow>
       (\<exists>r' \<in> set (db_queue (ac_store u)). q_request_id r' = q_request_id r \<and> q_session_id r' = i \<and> q_status r' = Uncertain)"
    and evolved: "\<forall>r \<in> set (db_queue (ac_store t)). \<exists>r1 \<in> set (db_queue (ac_store t1)). row_evolves r r1"
    if "queue_ok (ac_store t)"
  proof -
    have q: "queue_ok (ac_store t1)" "queue_evolves (db_queue (ac_store t)) (db_queue (ac_store t1))"
      using step1 that by (simp_all add: store_step_def queue_safe_def)
    have "given_up (held_rows i t1) u" using recover_gives_up [OF \<open>present i t1\<close> q(1)] u assms(3) by metis
    then show "\<forall>r \<in> set (db_queue (ac_store t1)). q_session_id r = i \<and> q_status r = Forwarded \<longrightarrow>
       (\<exists>r' \<in> set (db_queue (ac_store u)). q_request_id r' = q_request_id r \<and> q_session_id r' = i \<and> q_status r' = Uncertain)"
      by (fastforce simp: given_up_def held_rows_def row_evolves_def)
    show "\<forall>r \<in> set (db_queue (ac_store t)). \<exists>r1 \<in> set (db_queue (ac_store t1)). row_evolves r r1"
      using queue_evolves_row [OF q(2)] by blast
  qed
  have "store_step (ac_store t) (ac_store u)"
    using round_grows [of i t env ev] assms(3) by (simp add: actor_grows_def)
  then show ?thesis using none up evolved by (simp add: store_step_def)
qed

section \<open>Witnesses\<close>

lemma sample_orderly: "orderly sample_adapter"
  by (auto simp: orderly_def sample_adapter_def split: agent_input.splits if_splits)

lemma sample_present: "session_exists (ac_store sample_actor) ''s''" "db_queue (ac_store sample_actor) = []"
  by (simp_all add: session_exists_def sample_actor_def sample_store_def empty_store_def)

lemma handed_over_messages_tracked_witness:
  "\<exists>t. actor_reaches sample_env ''s'' sample_actor t \<and> session_exists (ac_store t) ''s''"
proof -
  have "orderly (re_adapter sample_env)" using sample_orderly by (simp add: sample_env_def)
  from handed_over_messages_tracked [OF this actor_reaches.start sample_present(1)] show ?thesis
    using sample_present(2) actor_reaches.start by fastforce
qed

lemma sample_opens:
  "handle_event sample_env ''s'' (EvControl (CtlOpen sample_config 7)) sample_actor =
     (Inr Proceed, snd (handle_event sample_env ''s'' (EvControl (CtlOpen sample_config 7)) sample_actor)) \<and>
   ac_safe_to_close (snd (actor_round sample_env ''s'' (EvControl (CtlOpen sample_config 7)) sample_actor))"
  by (simp add: actor_round_def handle_event_def handle_control_def on_open_def open_process_def settle_opening_def
      turn_boundary_def settle_queue_def send_immediate_def update_safe_def queue_waiting_def
      dispatch_next_def session_status_def run_simps actor_run store_run sample_run Let_def
       queue_state_def queued_def pending_rows_def queue_key_def)

lemma safe_to_close_sound_witness:
  "\<exists>ok u. actor_round sample_env ''s'' (EvControl (CtlOpen sample_config 7)) sample_actor = (ok, u) \<and>
     ac_safe_to_close u \<and> ac_immediate u = None"
proof -
  let ?ev = "EvControl (CtlOpen sample_config 7)"
  obtain ok u where u: "actor_round sample_env ''s'' ?ev sample_actor = (ok, u)" by fastforce
  have "orderly (re_adapter sample_env)" using sample_orderly by (simp add: sample_env_def)
  from safe_to_close_sound [OF this actor_reaches.start sample_present(1) _ conjunct1 [OF sample_opens] _ u]
  show ?thesis using sample_opens sample_present(2) u by auto
qed

definition sample_held :: queue_row where
  "sample_held = \<lparr>q_position = 1, q_request_id = ''m'', q_session_id = ''s'',
     q_admission = \<lparr>qm_request_id = ''m'', qm_text = ''hi'', qm_model = None, qm_effort = None, qm_permission_mode = None,
       qm_revision = 1, qm_created_at = 0\<rparr>,
     q_data = \<lparr>qm_request_id = ''m'', qm_text = ''hi'', qm_model = None, qm_effort = None, qm_permission_mode = None,
       qm_revision = 1, qm_created_at = 0\<rparr>,
     q_fingerprint = None, q_status = Forwarded, q_sort_order = 1\<rparr>"

lemma failed_round_recovers_witness:
  "\<exists>ok u. actor_round sample_env ''s'' EvTurnDeadline
      (sample_actor\<lparr>ac_store := sample_store\<lparr>db_queue := [sample_held], db_queue_position := 1\<rparr>, ac_forwarded := [(''m'', 1)]\<rparr>) = (ok, u) \<and>
    ac_forwarded u = [] \<and> (\<exists>r' \<in> set (db_queue (ac_store u)). q_request_id r' = ''m'' \<and> q_status r' = Uncertain)"
proof -
  let ?t = "sample_actor\<lparr>ac_store := sample_store\<lparr>db_queue := [sample_held], db_queue_position := 1\<rparr>, ac_forwarded := [(''m'', 1)]\<rparr>"
  obtain ok u where u: "actor_round sample_env ''s'' EvTurnDeadline ?t = (ok, u)" by fastforce
  have "handle_event sample_env ''s'' EvTurnDeadline ?t = (Inl TurnTimeout, ?t)"
    by (simp add: handle_event_def eff_apply)
  moreover have "session_exists (ac_store ?t) ''s''"
    by (simp add: session_exists_def sample_store_def empty_store_def)
  moreover have "queue_ok (ac_store ?t)" by (simp add: queue_ok_def live_rows_def sample_held_def live_def sample_store_def empty_store_def)
  ultimately show ?thesis using failed_round_recovers [OF _ _ u] u by (fastforce simp: sample_held_def)
qed

end
