(* ===== verification/Traex.thy ===== *)
theory Traex
  imports Runtime "HOL-Library.AList"
begin

text \<open>
  The Traex adapter (\<open>agents/traex.rs\<close>): JSON-RPC over lines. The adapter is a state and one definition per
  method, in the effect of \<open>Effects\<close>; the JSON codec of serde is \<open>enc\<close> and \<open>dec\<close>. A hash
  set is a list without repetition and a hash map an association list. JSON numbers are their values. The two
  methods \<open>admit_turn\<close> and \<open>notification\<close> call each other; the inner call always meets a running turn,
  so the recursion is one level deep: \<open>tx_notify\<close> takes the admission as an argument, and the equations of
  the source are lemmas.
\<close>

section \<open>State\<close>

datatype (plugins only: code size) traex_phase =
  PhFresh | PhInitializing | PhOpening | PhReady | PhStarting | PhRunning

record pending_request =
  pq_method :: string
  pq_interrupt_turn :: "string option"
  pq_queued_input :: "(string \<times> string) option"

record background_command =
  bc_turn :: string
  bc_process :: "string option"

record traex =
  tx_phase :: traex_phase
  tx_discovering :: bool
  tx_cwd :: string
  tx_resume :: "string option"
  tx_thread :: "string option"
  tx_turn :: "string option"
  tx_completed_turn :: "string option"
  tx_completed_success :: bool
  tx_steered :: "string list"
  tx_early_completions :: "(string \<times> json) list"
  tx_title :: "string option"
  tx_pending_prompt :: "string option"
  tx_platform_instructions :: string
  tx_native_instructions :: "string option"
  tx_config :: "launch_config option"
  tx_model_provider :: "string option"
  tx_counter :: "64 word"
  tx_pending :: "(string \<times> pending_request) list"
  tx_approvals :: "(string \<times> string) list"
  tx_streamed :: "string list"
  tx_tools :: "string list"
  tx_background :: "(string \<times> background_command) list"
  tx_children :: "string list"
  tx_interrupt_requested :: bool
  tx_rename :: "string option"

definition traex_default :: traex where
  "traex_default =
     \<lparr>tx_phase = PhFresh, tx_discovering = False, tx_cwd = [], tx_resume = None, tx_thread = None, tx_turn = None,
      tx_completed_turn = None, tx_completed_success = False, tx_steered = [], tx_early_completions = [],
      tx_title = None, tx_pending_prompt = None, tx_platform_instructions = [], tx_native_instructions = None,
      tx_config = None, tx_model_provider = None, tx_counter = 0, tx_pending = [], tx_approvals = [],
      tx_streamed = [], tx_tools = [], tx_background = [], tx_children = [], tx_interrupt_requested = False,
      tx_rename = None\<rparr>"

datatype (plugins only: code size) traex_error =
    FieldMissing string | TooManyRequests | CounterExhausted | TurnPreparing | CommandsUnsupported | TooManyInputs
  | ConfigMissing | ThreadMissing | PermissionUnsupported | NativeFailed string string | ResultMissing
  | DeliveredElsewhere | DeliveryTurnChanged | InitializeOutOfOrder | ProviderMissing | ResumedElsewhere
  | UnexpectedResponse | TooManyOpenApprovals | TooManyCompletions | TooManyMessages | DeltaInvalid | NotTerminal
  | NativeError string | ReplyInvalid | ChildInvalid | TooManyChildren | TooManyTools | TooManyBackground
  | BackgroundTurnMissing | ToolStatusInvalid | CannotStart | TitleBusy | ApprovalGone | ApprovalIdInvalid
  | ApprovalKind | QuestionMismatch | QuestionOptionInvalid | InvalidJson | UnsupportedOperation
  | ProviderUrlInvalid | QuestionCount | QuestionSecret | QuestionDuplicate | QuestionOptions | QuestionTextMissing

type_synonym 'b tx = "(traex, traex_error, 'b) eff"

section \<open>Messages\<close>

definition input_rejected_prefix :: string where
  "input_rejected_prefix = map char_of
    [84 :: nat, 114, 97, 101, 120, 32, 230, 156, 170, 230, 142, 165, 230, 148, 182, 230, 182, 136,
     230, 129, 175, 239, 188, 154]"

definition input_rejected_default :: string where
  "input_rejected_default = map char_of
    [229 :: nat, 142, 159, 231, 148, 159, 229, 143, 145, 233, 128, 129, 232, 175, 183, 230, 177,
     130, 232, 162, 171, 230, 139, 146, 231, 187, 157]"

definition title_rejected_default :: string where
  "title_rejected_default = map char_of
    [84 :: nat, 114, 97, 101, 120, 32, 230, 139, 146, 231, 187, 157, 228, 191, 174, 230, 148, 185,
     230, 160, 135, 233, 162, 152]"

definition native_request_default :: string where
  "native_request_default = map char_of
    [229 :: nat, 142, 159, 231, 148, 159, 232, 175, 183, 230, 177, 130, 229, 164, 177, 232, 180,
     165]"

definition native_error_default :: string where
  "native_error_default = map char_of
    [229 :: nat, 142, 159, 231, 148, 159, 230, 137, 167, 232, 161, 140, 229, 164, 177, 232, 180,
     165]"

definition interrupted_default :: string where
  "interrupted_default = map char_of
    [84 :: nat, 114, 97, 101, 120, 32, 229, 183, 178, 228, 184, 173, 230, 150, 173]"

definition failed_default :: string where
  "failed_default = map char_of
    [84 :: nat, 114, 97, 101, 120, 32, 230, 137, 167, 232, 161, 140, 229, 164, 177, 232, 180, 165]"

definition background_prefix :: string where
  "background_prefix = map char_of
    [229 :: nat, 145, 189, 228, 187, 164, 229, 183, 178, 232, 189, 172, 229, 133, 165, 229, 144,
     142, 229, 143, 176, 239, 188, 140, 231, 187, 147, 230, 158, 156, 229, 190, 133, 231, 161, 174,
     232, 174, 164, 239, 188, 136, 229, 183, 165, 229, 133, 183, 32, 73, 68, 239, 188, 154]"

definition background_infix :: string where
  "background_infix = map char_of
    [239 :: nat, 188, 140, 232, 191, 155, 231, 168, 139, 32, 73, 68, 239, 188, 154]"

definition background_suffix :: string where
  "background_suffix = map char_of
    [239 :: nat, 188, 137, 10]"

definition process_unknown :: string where
  "process_unknown = map char_of
    [230 :: nat, 156, 170, 230, 143, 144, 228, 190, 155]"

section \<open>JSON\<close>

definition json_get :: "json \<Rightarrow> string \<Rightarrow> json option" where
  "json_get v k = (case v of JObject kvs \<Rightarrow> map_of kvs k | _ \<Rightarrow> None)"

fun json_list :: "json \<Rightarrow> json list option" where
  "json_list (JArray xs) = Some xs"
| "json_list _ = None"

fun json_object :: "json \<Rightarrow> (string \<times> json) list option" where
  "json_object (JObject kvs) = Some kvs"
| "json_object _ = None"

text \<open>\<open>as_u64\<close> and \<open>as_i64\<close>.\<close>

fun json_u64 :: "json \<Rightarrow> nat option" where
  "json_u64 (JNumber r) = (if r \<in> \<int> \<and> 0 \<le> r \<and> r < 2 ^ 64 then Some (nat \<lfloor>r\<rfloor>) else None)"
| "json_u64 _ = None"

fun json_i64 :: "json \<Rightarrow> int option" where
  "json_i64 (JNumber r) = (if r \<in> \<int> \<and> - (2 ^ 63) \<le> r \<and> r < 2 ^ 63 then Some \<lfloor>r\<rfloor> else None)"
| "json_i64 _ = None"

definition str_or :: "string \<Rightarrow> json \<Rightarrow> string" where
  "str_or d v = (case json_str v of Some s \<Rightarrow> s | None \<Rightarrow> d)"

definition opt_string :: "string option \<Rightarrow> json" where
  "opt_string v = (case v of None \<Rightarrow> JNull | Some s \<Rightarrow> JString s)"

definition trim_start :: "string \<Rightarrow> string" where
  "trim_start s = concat (dropWhile is_whitespace (chars s))"

definition slash :: "string \<Rightarrow> bool" where
  "slash prompt = (take 1 (trim_start prompt) = ''/'')"

definition write_json :: "(json \<Rightarrow> bytes) \<Rightarrow> json \<Rightarrow> action" where
  "write_json enc v = Write (enc v @ [10])"

definition tx_field :: "json \<Rightarrow> string \<Rightarrow> traex_error + string" where
  "tx_field v k =
     (case json_str (json_field v k) of
        Some s \<Rightarrow> if s \<noteq> [] \<and> length s \<le> 1024 then Inr s else Inl (FieldMissing k)
      | None \<Rightarrow> Inl (FieldMissing k))"

definition command_process :: "json \<Rightarrow> string option" where
  "command_process item =
     (case (case json_str (json_field item ''processId'') of
              Some s \<Rightarrow> Some s
            | None \<Rightarrow>
                (let v = json_field (json_field item ''rawOutput'') ''process_id''
                 in case v of JString s \<Rightarrow> Some s | _ \<Rightarrow> map_option decimal (json_u64 v))) of
        Some p \<Rightarrow> if p \<noteq> [] \<and> length p \<le> 1024 then Some p else None
      | None \<Rightarrow> None)"

section \<open>Requests to the agent\<close>

definition request_key :: "nat \<Rightarrow> string" where
  "request_key n = ''latte-'' @ decimal n"

definition tx_request :: "(json \<Rightarrow> bytes) \<Rightarrow> string \<Rightarrow> json \<Rightarrow> action tx" where
  "tx_request enc method params =
     seq (look (\<lambda>s. length (tx_pending s))) (\<lambda>n.
     seq (require (n < 32) TooManyRequests) (\<lambda>_.
     seq (look tx_counter) (\<lambda>c.
     seq (require (c \<noteq> -1) CounterExhausted) (\<lambda>_.
     let rid = request_key (unat (c + 1))
     in seq (change (\<lambda>s. s\<lparr>tx_counter := c + 1,
               tx_pending := AList.update rid
                 \<lparr>pq_method = method,
                  pq_interrupt_turn = (if method = ''turn/interrupt'' then tx_turn s else None),
                  pq_queued_input = None\<rparr> (tx_pending s)\<rparr>)) (\<lambda>_.
        ret (write_json enc (JObject [(''id'', JString rid), (''method'', JString method), (''params'', params)])))))))"

definition tx_initialize :: "(json \<Rightarrow> bytes) \<Rightarrow> action list tx" where
  "tx_initialize enc =
     seq (change (\<lambda>s. s\<lparr>tx_phase := PhInitializing\<rparr>)) (\<lambda>_.
     seq (tx_request enc ''initialize''
            (JObject [(''clientInfo'', JObject [(''name'', JString ''latte-work''), (''version'', JString ''0.1.0'')])]))
       (\<lambda>a. ret [a]))"

definition text_input :: "string \<Rightarrow> json" where
  "text_input prompt = JArray [JObject [(''type'', JString ''text''), (''text'', JString prompt)]]"

definition tx_steer :: "(json \<Rightarrow> bytes) \<Rightarrow> string \<Rightarrow> string \<Rightarrow> action list tx" where
  "tx_steer enc rid prompt =
     seq (look (\<lambda>s. s)) (\<lambda>s.
     seq (require (\<not> (tx_phase s \<noteq> PhRunning \<or> tx_turn s = None)) TurnPreparing) (\<lambda>_.
     seq (require (\<not> slash prompt) CommandsUnsupported) (\<lambda>_.
     seq (require (length (tx_steered s) + length (filter (\<lambda>(_, p). pq_queued_input p \<noteq> None) (tx_pending s)) < 16)
            TooManyInputs) (\<lambda>_.
     seq (tx_request enc ''turn/steer''
            (JObject [(''threadId'', opt_string (tx_thread s)), (''expectedTurnId'', opt_string (tx_turn s)),
                      (''input'', text_input prompt)])) (\<lambda>a.
     seq (change (\<lambda>t. t\<lparr>tx_pending := map (\<lambda>(k, p).
            (k, if k = request_key (unat (tx_counter t))
                then p\<lparr>pq_queued_input := map_option (\<lambda>turn. (rid, turn)) (tx_turn s)\<rparr> else p)) (tx_pending t)\<rparr>)) (\<lambda>_.
       ret [a]))))))"

definition config_model :: "launch_config \<Rightarrow> string option" where
  "config_model cfg = (case lc_traex_model cfg of Some m \<Rightarrow> Some (msel_model m) | None \<Rightarrow> lc_model cfg)"

definition tx_start :: "(json \<Rightarrow> bytes) \<Rightarrow> string \<Rightarrow> action list tx" where
  "tx_start enc prompt =
     seq (require (\<not> slash prompt) CommandsUnsupported) (\<lambda>_.
     seq (change (\<lambda>s. s\<lparr>tx_phase := PhStarting, tx_early_completions := [], tx_streamed := [], tx_tools := []\<rparr>)) (\<lambda>_.
     seq (look (\<lambda>s. s)) (\<lambda>s.
     seq (from_result (of_option ConfigMissing (tx_config s))) (\<lambda>cfg.
     seq (tx_request enc ''turn/start''
            (JObject ([(''threadId'', opt_string (tx_thread s)), (''input'', text_input prompt),
                       (''model'', opt_string (config_model cfg)),
                       (''effort'', opt_string (map_option effort_as_str (lc_effort cfg))),
                       (''modelProvider'', opt_string (tx_model_provider s))] @
                      (case lc_traex_model cfg of
                         Some m \<Rightarrow> [(''modelBackendVariant'', JString (msel_backend_variant m))]
                       | None \<Rightarrow> [])))) (\<lambda>a.
       ret [a])))))"

definition tx_interrupt :: "(json \<Rightarrow> bytes) \<Rightarrow> action list tx" where
  "tx_interrupt enc =
     seq (look (\<lambda>s. s)) (\<lambda>s.
       case tx_turn s of
         Some turn \<Rightarrow>
           seq (tx_request enc ''turn/interrupt''
                  (JObject [(''threadId'', opt_string (tx_thread s)), (''turnId'', JString turn)])) (\<lambda>a. ret [a])
       | None \<Rightarrow>
           if tx_phase s = PhStarting
           then seq (change (\<lambda>s. s\<lparr>tx_interrupt_requested := True\<rparr>)) (\<lambda>_. ret [])
           else ret [Interrupted])"

definition instructions_of :: "traex \<Rightarrow> (string \<times> json) list" where
  "instructions_of s =
     (if tx_platform_instructions s = [] then []
      else [(''developerInstructions'', JString (
              let native = (case tx_native_instructions s of Some t \<Rightarrow> t | None \<Rightarrow> [])
              in if native = [] then tx_platform_instructions s
                 else native @ [CHR 0x0A, CHR 0x0A] @ tx_platform_instructions s))])"

definition permission_params :: "string option \<Rightarrow> traex_error + (string \<times> json) list" where
  "permission_params mode =
     (case mode of
        None \<Rightarrow> Inr []
      | Some m \<Rightarrow>
          if m = ''default''
          then Inr [(''approvalPolicy'', JString ''on-request''), (''sandbox'', JString ''workspace-write''),
                    (''approvalsReviewer'', JString ''user'')]
          else if m = ''bypass_permissions''
          then Inr [(''approvalPolicy'', JString ''never''), (''sandbox'', JString ''danger-full-access''),
                    (''approvalsReviewer'', JString ''user'')]
          else Inl PermissionUnsupported)"

definition tx_open_thread :: "(json \<Rightarrow> bytes) \<Rightarrow> action list tx" where
  "tx_open_thread enc =
     seq (look (\<lambda>s. s)) (\<lambda>s.
     seq (from_result (of_option ConfigMissing (tx_config s))) (\<lambda>cfg.
     seq (from_result (permission_params (lc_permission_mode cfg))) (\<lambda>perm.
     let params = [(''cwd'', JString (tx_cwd s)), (''model'', opt_string (config_model cfg)),
                   (''modelProvider'', opt_string (tx_model_provider s))] @ instructions_of s @
                  (case lc_traex_model cfg of
                     Some m \<Rightarrow> [(''config'', JObject [(''model_backend_variant'', JString (msel_backend_variant m))])]
                   | None \<Rightarrow> []) @ perm
     in seq (case tx_resume s of
               Some r \<Rightarrow> tx_request enc ''thread/resume'' (JObject (params @ [(''threadId'', JString r)]))
             | None \<Rightarrow> tx_request enc ''thread/start'' (JObject params)) (\<lambda>a. ret [a]))))"

section \<open>Items\<close>

definition agent_message :: "json \<Rightarrow> string \<Rightarrow> bool \<Rightarrow> action list tx" where
  "agent_message item i completed =
     seq (look tx_streamed) (\<lambda>streamed.
       if completed \<and> i \<notin> set streamed
       then seq (from_result (of_option ReplyInvalid (json_str (json_field item ''text'')))) (\<lambda>t.
            seq (require (length streamed < 4096) TooManyMessages) (\<lambda>_.
            seq (change (\<lambda>s. s\<lparr>tx_streamed := List.insert i (tx_streamed s)\<rparr>)) (\<lambda>_.
              ret [ActEvent (Text t)])))
       else ret [])"

definition item_name :: "string \<Rightarrow> json \<Rightarrow> traex_error + string option" where
  "item_name kind item =
     (if kind = ''commandExecution'' then Inr (Some ''Bash'')
      else if kind = ''fileChange'' then Inr (Some ''FileChange'')
      else if kind = ''mcpToolCall''
      then Inr (Some (''mcp__'' @ str_or ''unknown'' (json_field item ''server'') @ ''__'' @
                      str_or ''unknown'' (json_field item ''tool'')))
      else if kind = ''dynamicToolCall'' then (case tx_field item ''tool'' of Inl e \<Rightarrow> Inl e | Inr t \<Rightarrow> Inr (Some t))
      else if kind = ''webSearch'' then Inr (Some ''WebSearch'')
      else if kind = ''collabAgentToolCall'' then Inr (Some ''Agent'')
      else Inr None)"

definition add_child :: "string \<Rightarrow> unit tx" where
  "add_child child =
     seq (look tx_children) (\<lambda>cs.
     seq (require (\<not> (length cs \<ge> 512 \<and> child \<notin> set cs)) TooManyChildren) (\<lambda>_.
       change (\<lambda>s. s\<lparr>tx_children := List.insert child (tx_children s)\<rparr>)))"

definition child_state :: "string \<times> json \<Rightarrow> unit tx" where
  "child_state c =
     (if json_str (json_field (snd c) ''status'') \<in>
           {Some ''completed'', Some ''errored'', Some ''shutdown'', Some ''notFound''}
      then change (\<lambda>s. s\<lparr>tx_children := removeAll (fst c) (tx_children s)\<rparr>)
      else add_child (fst c))"

definition collab_children :: "json \<Rightarrow> unit tx" where
  "collab_children item =
     seq (each (\<lambda>child. seq (from_result (of_option ChildInvalid (json_str child))) add_child)
           (case json_list (json_field item ''receiverThreadIds'') of Some xs \<Rightarrow> xs | None \<Rightarrow> [])) (\<lambda>_.
       each child_state (case json_object (json_field item ''agentsStates'') of Some kvs \<Rightarrow> kvs | None \<Rightarrow> []))"

definition tool_input :: "string \<Rightarrow> json \<Rightarrow> json" where
  "tool_input kind item =
     (if kind = ''commandExecution''
      then JObject [(''command'', json_field item ''command''), (''cwd'', json_field item ''cwd'')]
      else if kind = ''mcpToolCall'' \<or> kind = ''dynamicToolCall'' then json_field item ''arguments''
      else item)"

definition tool_started :: "string \<Rightarrow> string \<Rightarrow> string \<Rightarrow> json \<Rightarrow> action list tx" where
  "tool_started kind i name item =
     seq (look (\<lambda>s. s)) (\<lambda>s.
       if i \<notin> set (tx_tools s) \<and> map_of (tx_background s) i = None
       then seq (require (length (tx_tools s) < 4096) TooManyTools) (\<lambda>_.
            seq (change (\<lambda>s. s\<lparr>tx_tools := List.insert i (tx_tools s)\<rparr>)) (\<lambda>_.
              ret [ActEvent (Tool i name (tool_input kind item))]))
       else ret [])"

definition backgrounded :: "json \<Rightarrow> string \<Rightarrow> action list tx" where
  "backgrounded item i =
     seq (look (\<lambda>s. s)) (\<lambda>s.
     seq (require (\<not> (length (tx_background s) \<ge> 512 \<and> map_of (tx_background s) i = None)) TooManyBackground) (\<lambda>_.
     let old = map_of (tx_background s) i;
         process = (case command_process item of
                      Some p \<Rightarrow> Some p
                    | None \<Rightarrow> (case old of Some c \<Rightarrow> bc_process c | None \<Rightarrow> None))
     in seq (from_result (of_option BackgroundTurnMissing
              (case old of Some c \<Rightarrow> Some (bc_turn c) | None \<Rightarrow> tx_turn s))) (\<lambda>turn.
        seq (change (\<lambda>s. s\<lparr>tx_background :=
              AList.update i \<lparr>bc_turn = turn, bc_process = process\<rparr> (tx_background s)\<rparr>)) (\<lambda>_.
          ret [ActEvent (Notice (background_prefix @ i @ background_infix @
                 (case process of Some p \<Rightarrow> p | None \<Rightarrow> process_unknown) @ background_suffix @
                 str_or [] (json_field item ''aggregatedOutput'')))]))))"

definition finished_status :: "json \<Rightarrow> bool" where
  "finished_status item \<longleftrightarrow> json_str (json_field item ''status'') \<in> {Some ''completed'', Some ''failed''}"

definition release_command :: "json \<Rightarrow> string \<Rightarrow> unit tx" where
  "release_command item i =
     (if \<not> finished_status item then ret ()
      else seq (change (\<lambda>s. s\<lparr>tx_background := AList.delete i (tx_background s)\<rparr>)) (\<lambda>_.
             case (json_i64 (json_field item ''exitCode''), command_process item) of
               (Some _, Some p) \<Rightarrow>
                 change (\<lambda>s. s\<lparr>tx_background := filter (\<lambda>(_, c). bc_process c \<noteq> Some p) (tx_background s)\<rparr>)
             | _ \<Rightarrow> ret ()))"

definition tool_failed :: "json \<Rightarrow> bool" where
  "tool_failed item \<longleftrightarrow>
     json_str (json_field item ''status'') \<in> {Some ''failed'', Some ''declined''} \<or>
     json_field item ''success'' = JBool False \<or>
     (case json_i64 (json_field item ''exitCode'') of Some c \<Rightarrow> c \<noteq> 0 | None \<Rightarrow> False)"

definition tool_output :: "string \<Rightarrow> json \<Rightarrow> json" where
  "tool_output kind item =
     (if kind = ''commandExecution'' then json_field item ''aggregatedOutput''
      else case json_get item ''result'' of Some r \<Rightarrow> r | None \<Rightarrow> item)"

definition tool_completed :: "string \<Rightarrow> string \<Rightarrow> json \<Rightarrow> action list tx" where
  "tool_completed kind i item =
     (if kind = ''commandExecution'' \<and> json_field item ''status'' = JString ''backgrounded'' then backgrounded item i
      else
        seq (require (kind = ''webSearch'' \<or>
               json_str (json_field item ''status'') \<in> {Some ''completed'', Some ''failed'', Some ''declined''})
               ToolStatusInvalid) (\<lambda>_.
        seq (if kind = ''commandExecution'' then release_command item i else ret ()) (\<lambda>_.
          ret [ActEvent (ToolResult i (tool_output kind item) (tool_failed item))])))"

definition tx_item :: "json \<Rightarrow> bool \<Rightarrow> action list tx" where
  "tx_item item completed =
     seq (from_result (tx_field item ''type'')) (\<lambda>kind.
     seq (from_result (tx_field item ''id'')) (\<lambda>i.
       if kind = ''reasoning'' then ret [ActEvent (Progress PhaseThinking)]
       else if kind = ''agentMessage'' then agent_message item i completed
       else
         seq (from_result (item_name kind item)) (\<lambda>name.
           case name of
             None \<Rightarrow> ret []
           | Some name \<Rightarrow>
               seq (if kind = ''collabAgentToolCall'' then collab_children item else ret ()) (\<lambda>_.
               seq (tool_started kind i name item) (\<lambda>started.
               seq (if completed then tool_completed kind i item else ret []) (\<lambda>done.
                 ret (started @ done)))))))"

section \<open>Notifications\<close>

definition turn_completed :: "json \<Rightarrow> action list tx" where
  "turn_completed params =
     seq (from_result (tx_field (json_field params ''turn'') ''status'')) (\<lambda>status.
     seq (require (status \<in> {''completed'', ''failed'', ''interrupted''}) NotTerminal) (\<lambda>_.
     let failed = (status \<noteq> ''completed'');
         message = (if failed
                    then Some (str_or (if status = ''interrupted'' then interrupted_default else failed_default)
                                 (json_field (json_field (json_field params ''turn'') ''error'') ''message''))
                    else None)
     in seq (look tx_steered) (\<lambda>steered.
        seq (change (\<lambda>s. s\<lparr>tx_phase := PhReady, tx_approvals := [], tx_completed_turn := tx_turn s, tx_turn := None,
                            tx_completed_success := \<not> failed, tx_streamed := [], tx_tools := [], tx_steered := []\<rparr>)) (\<lambda>_.
          ret ((if \<not> failed \<and> steered \<noteq> [] then [InputsConsumed steered] else []) @ [Finished failed message])))))"

definition message_delta :: "json \<Rightarrow> action list tx" where
  "message_delta params =
     seq (from_result (tx_field params ''itemId'')) (\<lambda>i.
     seq (look tx_streamed) (\<lambda>streamed.
     seq (require (\<not> (length streamed \<ge> 4096 \<and> i \<notin> set streamed)) TooManyMessages) (\<lambda>_.
     seq (change (\<lambda>s. s\<lparr>tx_streamed := List.insert i (tx_streamed s)\<rparr>)) (\<lambda>_.
     seq (from_result (of_option DeltaInvalid (json_str (json_field params ''delta'')))) (\<lambda>t.
       ret [ActEvent (Progress PhaseReplying), ActEvent (Text t)])))))"

text \<open>The events of the running turn.\<close>

definition running_event :: "string \<Rightarrow> json \<Rightarrow> action list tx" where
  "running_event method params =
     (if method = ''item/agentMessage/delta'' then message_delta params
      else if method \<in> {''item/reasoning/summaryTextDelta'', ''item/reasoning/textDelta''}
      then ret [ActEvent (Progress PhaseThinking)]
      else if method \<in> {''item/started'', ''item/completed''}
      then tx_item (json_field params ''item'') (method = ''item/completed'')
      else if method = ''turn/completed'' then turn_completed params
      else if method = ''error'' \<and> json_field params ''willRetry'' \<noteq> JBool True
      then fail (NativeError (str_or native_error_default (json_field (json_field params ''error'') ''message'')))
      else ret [])"

definition early_completion :: "json \<Rightarrow> json \<Rightarrow> action list tx" where
  "early_completion message params =
     seq (from_result (tx_field (json_field params ''turn'') ''id'')) (\<lambda>i.
     seq (look tx_early_completions) (\<lambda>early.
     seq (require (\<not> (length early \<ge> 32 \<and> map_of early i = None)) TooManyCompletions) (\<lambda>_.
     seq (change (\<lambda>s. s\<lparr>tx_early_completions := AList.update i message (tx_early_completions s)\<rparr>)) (\<lambda>_.
       ret []))))"

definition late_command :: "traex \<Rightarrow> string \<Rightarrow> json \<Rightarrow> background_command option" where
  "late_command s method params =
     (if method = ''item/completed'' \<and> json_field (json_field params ''item'') ''type'' = JString ''commandExecution''
      then (case json_str (json_field (json_field params ''item'') ''id'') of
              Some i \<Rightarrow> map_of (tx_background s) i | None \<Rightarrow> None)
      else None)"

definition tx_notify :: "(json \<Rightarrow> action list tx) \<Rightarrow> json \<Rightarrow> action list tx" where
  "tx_notify admit message =
     (let params = json_field message ''params''; method = str_or [] (json_field message ''method'')
      in seq (look (\<lambda>s. s)) (\<lambda>s.
           if json_str (json_field params ''threadId'') \<noteq> tx_thread s then ret []
           else if method = ''thread/name/updated''
           then ret (case json_str (json_field params ''threadName'') of
                       Some t \<Rightarrow> if trim t \<noteq> [] then [NativeName t] else [] | None \<Rightarrow> [])
           else if method = ''turn/started'' \<and> tx_phase s = PhStarting then admit (json_field params ''turn'')
           else if method = ''turn/completed'' \<and> tx_phase s = PhStarting \<and> tx_turn s = None
           then early_completion message params
           else case late_command s method params of
             Some c \<Rightarrow>
               if json_str (json_field params ''turnId'') = Some (bc_turn c)
               then tx_item (json_field params ''item'') True else ret []
           | None \<Rightarrow>
               if tx_phase s \<notin> {PhRunning, PhStarting} then ret []
               else
                 let turn = (if method = ''turn/completed'' then json_str (json_field (json_field params ''turn'') ''id'')
                             else json_str (json_field params ''turnId''))
                 in if turn = None \<or> turn \<noteq> tx_turn s then ret [] else running_event method params))"

definition tx_admit_turn :: "(json \<Rightarrow> bytes) \<Rightarrow> json \<Rightarrow> action list tx" where
  "tx_admit_turn enc turn =
     seq (from_result (tx_field turn ''id'')) (\<lambda>i.
     seq (change (\<lambda>s. s\<lparr>tx_turn := Some i, tx_phase := PhRunning\<rparr>)) (\<lambda>_.
     seq (look tx_thread) (\<lambda>thread.
     seq (from_result (of_option ThreadMissing thread)) (\<lambda>thread.
     seq (look (\<lambda>s. map_of (tx_early_completions s) i)) (\<lambda>completion.
     seq (change (\<lambda>s. s\<lparr>tx_early_completions := []\<rparr>)) (\<lambda>_.
     seq (case completion of Some c \<Rightarrow> tx_notify (\<lambda>_. ret []) c | None \<Rightarrow> ret []) (\<lambda>replayed.
     seq (look tx_interrupt_requested) (\<lambda>requested.
     seq (change (\<lambda>s. s\<lparr>tx_interrupt_requested := False\<rparr>)) (\<lambda>_.
     seq (if requested then tx_interrupt enc else ret []) (\<lambda>stop.
       ret ([NativeSession thread] @ replayed @ stop)))))))))))"

definition tx_notification :: "(json \<Rightarrow> bytes) \<Rightarrow> json \<Rightarrow> action list tx" where
  "tx_notification enc = tx_notify (tx_admit_turn enc)"

section \<open>Responses\<close>

definition rejected_request :: "pending_request \<Rightarrow> json \<Rightarrow> action list tx" where
  "rejected_request req err =
     (let text = (\<lambda>d. str_or d (json_field err ''message''))
      in case pq_queued_input req of
           Some (rid, _) \<Rightarrow> ret [InputRejected rid (input_rejected_prefix @ text input_rejected_default)]
         | None \<Rightarrow>
             seq (look tx_completed_turn) (\<lambda>completed.
               if pq_method req = ''turn/interrupt'' \<and> pq_interrupt_turn req \<noteq> None \<and> pq_interrupt_turn req = completed
               then ret [Interrupted]
               else if pq_method req = ''thread/name/set''
               then seq (change (\<lambda>s. s\<lparr>tx_rename := None\<rparr>)) (\<lambda>_. ret [TitleRenamed (Inl (text title_rejected_default))])
               else fail (NativeFailed (pq_method req) (text native_request_default))))"

definition steer_confirmed :: "string \<Rightarrow> string \<Rightarrow> json \<Rightarrow> action list tx" where
  "steer_confirmed rid expected result =
     seq (require (json_str (json_field result ''turnId'') = Some expected) DeliveredElsewhere) (\<lambda>_.
     seq (look (\<lambda>s. s)) (\<lambda>s.
       if tx_turn s = Some expected \<and> tx_phase s = PhRunning
       then seq (change (\<lambda>s. s\<lparr>tx_steered := List.insert rid (tx_steered s)\<rparr>)) (\<lambda>_. ret [])
       else if tx_completed_turn s = Some expected
       then ret (if tx_completed_success s then [InputsConsumed [rid]] else [])
       else fail DeliveryTurnChanged))"

definition initialized :: "(json \<Rightarrow> bytes) \<Rightarrow> action list tx" where
  "initialized enc =
     seq (look (\<lambda>s. s)) (\<lambda>s.
       if tx_discovering s then ret [Commands []]
       else
         seq (require (tx_phase s = PhInitializing) InitializeOutOfOrder) (\<lambda>_.
         seq (change (\<lambda>s. s\<lparr>tx_phase := PhOpening\<rparr>)) (\<lambda>_.
         seq (if (case tx_config s of Some c \<Rightarrow> lc_provider c \<noteq> None | None \<Rightarrow> False) \<and> tx_platform_instructions s = []
              then tx_open_thread enc
              else seq (tx_request enc ''config/read''
                          (JObject [(''includeLayers'', JBool False), (''cwd'', JString (tx_cwd s))])) (\<lambda>a. ret [a])) (\<lambda>acts.
           ret (write_json enc (JObject [(''method'', JString ''initialized'')]) # acts)))))"

text \<open>What the native configuration says of the instructions, the provider and the model.\<close>

definition instructions_known :: "json \<Rightarrow> bool" where
  "instructions_known native =
     (case json_get native ''developer_instructions'' of Some (JString _) \<Rightarrow> True | Some JNull \<Rightarrow> True | _ \<Rightarrow> False)"

definition native_model :: "json \<Rightarrow> launch_config \<Rightarrow> launch_config" where
  "native_model native cfg =
     (if lc_model cfg \<noteq> None then cfg
      else let model = json_str (json_field native ''model'')
           in cfg\<lparr>lc_model := model,
                  lc_traex_model := map_option (\<lambda>m. \<lparr>msel_model = m,
                    msel_backend_variant = str_or ''standard'' (json_field native ''model_backend_variant'')\<rparr>) model\<rparr>)"

definition config_loaded :: "(json \<Rightarrow> bytes) \<Rightarrow> json \<Rightarrow> action list tx" where
  "config_loaded enc native =
     seq (change (\<lambda>s. s\<lparr>tx_native_instructions := json_str (json_field native ''developer_instructions'')\<rparr>)) (\<lambda>_.
     seq (change (\<lambda>s. if tx_platform_instructions s \<noteq> [] \<and> \<not> instructions_known native
                      then s\<lparr>tx_platform_instructions := []\<rparr> else s)) (\<lambda>_.
     seq (look tx_config) (\<lambda>cfg.
     seq (if (case cfg of Some c \<Rightarrow> lc_provider c = None | None \<Rightarrow> False)
          then (case json_str (json_field native ''model_provider'') of
                  Some p \<Rightarrow> if p \<noteq> [] then change (\<lambda>s. s\<lparr>tx_model_provider := Some p\<rparr>) else fail ProviderMissing
                | None \<Rightarrow> fail ProviderMissing)
          else ret ()) (\<lambda>_.
     seq (change (\<lambda>s. s\<lparr>tx_config := map_option (native_model native) (tx_config s)\<rparr>)) (\<lambda>_.
       tx_open_thread enc)))))"

definition thread_opened :: "(json \<Rightarrow> bytes) \<Rightarrow> json \<Rightarrow> action list tx" where
  "thread_opened enc result =
     seq (from_result (tx_field (json_field result ''thread'') ''id'')) (\<lambda>thread.
     seq (look (\<lambda>s. s)) (\<lambda>s.
     seq (require (\<not> (\<exists>r. tx_resume s = Some r \<and> r \<noteq> thread)) ResumedElsewhere) (\<lambda>_.
     seq (change (\<lambda>s. s\<lparr>tx_thread := Some thread, tx_phase := PhReady\<rparr>)) (\<lambda>_.
     seq (case tx_title s of
            None \<Rightarrow> ret []
          | Some title \<Rightarrow>
              seq (change (\<lambda>s. s\<lparr>tx_title := None, tx_rename := Some title\<rparr>)) (\<lambda>_.
              seq (tx_request enc ''thread/name/set''
                     (JObject [(''threadId'', JString thread), (''name'', JString title)])) (\<lambda>a. ret [a]))) (\<lambda>named.
     seq (case tx_pending_prompt s of
            None \<Rightarrow> ret []
          | Some prompt \<Rightarrow> seq (change (\<lambda>s. s\<lparr>tx_pending_prompt := None\<rparr>)) (\<lambda>_. tx_start enc prompt)) (\<lambda>started.
       ret ([ActReady] @ named @ started)))))))"

definition title_confirmed :: "action list tx" where
  "title_confirmed =
     seq (look tx_rename) (\<lambda>r.
     seq (change (\<lambda>s. s\<lparr>tx_rename := None\<rparr>)) (\<lambda>_.
       ret (case r of Some title \<Rightarrow> [TitleRenamed (Inr title)] | None \<Rightarrow> [])))"

definition accepted_request :: "(json \<Rightarrow> bytes) \<Rightarrow> pending_request \<Rightarrow> json \<Rightarrow> action list tx" where
  "accepted_request enc req result =
     (case pq_queued_input req of
        Some (rid, expected) \<Rightarrow> steer_confirmed rid expected result
      | None \<Rightarrow>
          (let method = pq_method req
           in if method = ''initialize'' then initialized enc
              else if method = ''config/read'' then config_loaded enc (json_field result ''config'')
              else if method \<in> {''thread/start'', ''thread/resume''} then thread_opened enc result
              else if method = ''turn/start''
              then seq (look tx_phase) (\<lambda>ph. if ph = PhStarting then tx_admit_turn enc (json_field result ''turn'') else ret [])
              else if method = ''turn/interrupt'' then ret [Interrupted]
              else if method = ''thread/name/set'' then title_confirmed
              else fail UnexpectedResponse))"

definition tx_response :: "(json \<Rightarrow> bytes) \<Rightarrow> json \<Rightarrow> action list tx" where
  "tx_response enc message =
     (case json_str (json_field message ''id'') of
        None \<Rightarrow> ret []
      | Some i \<Rightarrow>
          seq (look (\<lambda>s. map_of (tx_pending s) i)) (\<lambda>req. case req of
            None \<Rightarrow> ret []
          | Some req \<Rightarrow>
              seq (change (\<lambda>s. s\<lparr>tx_pending := AList.delete i (tx_pending s)\<rparr>)) (\<lambda>_.
                case json_get message ''error'' of
                  Some err \<Rightarrow> rejected_request req err
                | None \<Rightarrow> seq (from_result (of_option ResultMissing (json_get message ''result''))) (accepted_request enc req))))"

section \<open>Requests of the agent\<close>

fun question_options :: "json list \<Rightarrow> traex_error + question_option list" where
  "question_options [] = Inr []"
| "question_options (v # vs) =
     (case tx_field v ''label'' of
        Inl e \<Rightarrow> Inl e
      | Inr label \<Rightarrow>
          (case question_options vs of
             Inl e \<Rightarrow> Inl e
           | Inr rest \<Rightarrow> Inr (\<lparr>qo_label = label, qo_description = str_or [] (json_field v ''description'')\<rparr> # rest)))"

definition parse_question :: "string list \<Rightarrow> json \<Rightarrow> traex_error + user_question" where
  "parse_question ids q =
     (if json_field q ''isSecret'' = JBool True then Inl QuestionSecret
      else case tx_field q ''id'' of
        Inl e \<Rightarrow> Inl e
      | Inr i \<Rightarrow>
          if i \<in> set ids then Inl QuestionDuplicate
          else case (case json_list (json_field q ''options'') of
                       None \<Rightarrow> Inr []
                     | Some vs \<Rightarrow> if length vs > 32 then Inl QuestionOptions else question_options vs) of
            Inl e \<Rightarrow> Inl e
          | Inr os \<Rightarrow>
              (case json_str (json_field q ''question'') of
                 None \<Rightarrow> Inl QuestionTextMissing
               | Some t \<Rightarrow> Inr \<lparr>uq_id = i, uq_header = str_or [] (json_field q ''header''), uq_text = t, uq_options = os,
                              uq_multi_select = (json_field q ''multiSelect'' = JBool True)\<rparr>))"

fun parse_questions :: "string list \<Rightarrow> json list \<Rightarrow> traex_error + user_question list" where
  "parse_questions ids [] = Inr []"
| "parse_questions ids (q # qs) =
     (case parse_question ids q of
        Inl e \<Rightarrow> Inl e
      | Inr u \<Rightarrow> (case parse_questions (uq_id u # ids) qs of Inl e \<Rightarrow> Inl e | Inr us \<Rightarrow> Inr (u # us)))"

definition tx_questions :: "json \<Rightarrow> traex_error + user_question list" where
  "tx_questions params =
     (case json_list (json_field params ''questions'') of
        Some qs \<Rightarrow> if qs \<noteq> [] \<and> length qs \<le> 8 then parse_questions [] qs else Inl QuestionCount
      | None \<Rightarrow> Inl QuestionCount)"

definition rpc_error :: "(json \<Rightarrow> bytes) \<Rightarrow> json \<Rightarrow> int \<Rightarrow> string \<Rightarrow> action" where
  "rpc_error enc i code m =
     write_json enc (JObject [(''id'', i),
       (''error'', JObject [(''code'', JNumber (of_int code)), (''message'', JString m)])])"

definition without_identity :: "json \<Rightarrow> json" where
  "without_identity v =
     (case v of
        JObject kvs \<Rightarrow> JObject (filter (\<lambda>(k, _). k \<notin> {''threadId'', ''turnId'', ''itemId'', ''startedAtMs''}) kvs)
      | _ \<Rightarrow> v)"

definition approval_tool :: "string \<Rightarrow> string option" where
  "approval_tool method =
     (if method = ''item/commandExecution/requestApproval'' then Some ''Bash''
      else if method = ''item/fileChange/requestApproval'' then Some ''FileChange''
      else if method = ''item/permissions/requestApproval'' then Some ''Permissions'' else None)"

definition tx_native_request :: "(json \<Rightarrow> bytes) \<Rightarrow> (json \<Rightarrow> string) \<Rightarrow> json \<Rightarrow> action list tx" where
  "tx_native_request enc str message =
     (let params = json_field message ''params''; method = str_or [] (json_field message ''method'');
          native = json_field message ''id''; i = str native; item = json_str (json_field params ''itemId'')
      in seq (look (\<lambda>s. s)) (\<lambda>s.
           if json_str (json_field params ''threadId'') \<noteq> tx_thread s \<or>
              json_str (json_field params ''turnId'') \<noteq> tx_turn s \<or> tx_phase s \<noteq> PhRunning
           then ret [rpc_error enc native (- 32602) ''Request does not belong to the active Latte turn'']
           else case approval_tool method of
             Some tool \<Rightarrow>
               seq (require (\<not> (length (tx_approvals s) \<ge> 32 \<or> map_of (tx_approvals s) i \<noteq> None)) TooManyOpenApprovals) (\<lambda>_.
               seq (change (\<lambda>s. s\<lparr>tx_approvals := AList.update i method (tx_approvals s)\<rparr>)) (\<lambda>_.
                 ret [ActApproval i item tool (without_identity params)]))
           | None \<Rightarrow>
               if method = ''item/tool/requestUserInput''
               then seq (from_result (tx_questions params)) (\<lambda>qs.
                      ret [ActQuestion i item
                             (JObject [(''id'', native), (''method'', JString method), (''params'', params)]) qs])
               else ret [rpc_error enc native (- 32601) ''Unsupported Traex request in Latte Work'']))"

section \<open>Answers to the agent\<close>

definition tx_approval :: "(json \<Rightarrow> bytes) \<Rightarrow> (string \<Rightarrow> json option) \<Rightarrow> string \<Rightarrow> json \<Rightarrow> bool \<Rightarrow> action list tx" where
  "tx_approval enc dec i input allow =
     seq (look (\<lambda>s. map_of (tx_approvals s) i)) (\<lambda>m.
     seq (from_result (of_option ApprovalGone m)) (\<lambda>method.
     seq (change (\<lambda>s. s\<lparr>tx_approvals := AList.delete i (tx_approvals s)\<rparr>)) (\<lambda>_.
     seq (from_result (of_option ApprovalIdInvalid (dec i))) (\<lambda>native.
     seq (if method \<in> {''item/commandExecution/requestApproval'', ''item/fileChange/requestApproval''}
          then ret (JObject [(''decision'', JString (if allow then ''accept'' else ''decline''))])
          else if method = ''item/permissions/requestApproval''
          then ret (JObject [(''permissions'', if allow then json_field input ''permissions'' else JObject []),
                             (''scope'', JString ''turn'')])
          else fail ApprovalKind) (\<lambda>result.
       ret [write_json enc (JObject [(''id'', native), (''result'', result)])])))))"

fun answer_labels :: "question_option list \<Rightarrow> u32 list \<Rightarrow> traex_error + string list" where
  "answer_labels opts [] = Inr []"
| "answer_labels opts (k # ks) =
     (if unat k < length opts
      then (case answer_labels opts ks of Inl e \<Rightarrow> Inl e | Inr ls \<Rightarrow> Inr (qo_label (opts ! unat k) # ls))
      else Inl QuestionOptionInvalid)"

definition free_text :: "question_answer \<Rightarrow> string list" where
  "free_text a = (case qa_text a of Some t \<Rightarrow> if trim t \<noteq> [] then [t] else [] | None \<Rightarrow> [])"

fun mapped_answers :: "user_question list \<Rightarrow> (string \<times> json) list \<Rightarrow> question_answer list \<Rightarrow> traex_error + (string \<times> json) list" where
  "mapped_answers qs acc [] = Inr acc"
| "mapped_answers qs acc (a # as) =
     (case find (\<lambda>q. uq_id q = qa_question_id a) qs of
        None \<Rightarrow> Inl QuestionMismatch
      | Some q \<Rightarrow>
          (case answer_labels (uq_options q) (qa_option_indices a) of
             Inl e \<Rightarrow> Inl e
           | Inr ls \<Rightarrow>
               mapped_answers qs
                 (AList.update (uq_id q) (JObject [(''answers'', JArray (map JString (ls @ free_text a)))]) acc) as))"

definition tx_answer :: "(json \<Rightarrow> bytes) \<Rightarrow> json \<Rightarrow> user_question list \<Rightarrow> question_answer list option \<Rightarrow> action list tx" where
  "tx_answer enc input qs answers =
     seq (from_result (case answers of Some as \<Rightarrow> mapped_answers qs [] as | None \<Rightarrow> Inr [])) (\<lambda>mapped.
       ret [write_json enc (JObject [(''id'', json_field input ''id''), (''result'', JObject [(''answers'', JObject mapped)])])])"

section \<open>The adapter\<close>

definition tx_has_background_work :: "traex \<Rightarrow> bool" where
  "tx_has_background_work s \<longleftrightarrow> tx_children s \<noteq> [] \<or> tx_background s \<noteq> []"

definition tx_can_reconfigure :: "traex \<Rightarrow> bool" where
  "tx_can_reconfigure s \<longleftrightarrow> tx_phase s = PhReady \<and> \<not> tx_has_background_work s \<and> tx_pending s = []"

definition tx_can_start_turn :: "traex \<Rightarrow> bool" where
  "tx_can_start_turn s \<longleftrightarrow> tx_phase s = PhReady \<and> tx_pending s = []"

definition tx_set_session_title :: "string option \<Rightarrow> bool \<Rightarrow> traex \<Rightarrow> traex" where
  "tx_set_session_title title resuming s = s\<lparr>tx_title := (if resuming then None else title)\<rparr>"

definition tx_rename_title :: "(json \<Rightarrow> bytes) \<Rightarrow> string \<Rightarrow> action list tx" where
  "tx_rename_title enc title =
     seq (look (\<lambda>s. s)) (\<lambda>s.
     seq (require (\<not> (tx_phase s \<notin> {PhReady, PhRunning} \<or> tx_rename s \<noteq> None)) TitleBusy) (\<lambda>_.
     seq (change (\<lambda>s. s\<lparr>tx_rename := Some title\<rparr>)) (\<lambda>_.
     seq (tx_request enc ''thread/name/set''
            (JObject [(''threadId'', opt_string (tx_thread s)), (''name'', JString title)])) (\<lambda>a. ret [a]))))"

definition tx_start_turn :: "(json \<Rightarrow> bytes) \<Rightarrow> string \<Rightarrow> action list tx" where
  "tx_start_turn enc prompt =
     seq (look tx_phase) (\<lambda>ph.
       if ph = PhFresh
       then seq (require (\<not> slash prompt) CommandsUnsupported) (\<lambda>_.
            seq (change (\<lambda>s. s\<lparr>tx_pending_prompt := Some prompt\<rparr>)) (\<lambda>_. tx_initialize enc))
       else if ph = PhReady then tx_start enc prompt
       else fail CannotStart)"

definition tx_message :: "(json \<Rightarrow> bytes) \<Rightarrow> (json \<Rightarrow> string) \<Rightarrow> (string \<Rightarrow> json option) \<Rightarrow> string \<Rightarrow> action list tx" where
  "tx_message enc str dec line =
     seq (from_result (of_option InvalidJson (dec line))) (\<lambda>message.
       if json_get message ''method'' \<noteq> None
       then if json_get message ''id'' \<noteq> None then tx_native_request enc str message else tx_notification enc message
       else tx_response enc message)"

fun tx_advance :: "(json \<Rightarrow> bytes) \<Rightarrow> (json \<Rightarrow> string) \<Rightarrow> (string \<Rightarrow> json option) \<Rightarrow> agent_input \<Rightarrow> action list tx" where
  "tx_advance enc str dec InOpen =
     seq (look tx_phase) (\<lambda>ph. if ph = PhFresh then tx_initialize enc else fail UnsupportedOperation)"
| "tx_advance enc str dec InDiscoverCommands =
     seq (change (\<lambda>s. s\<lparr>tx_discovering := True\<rparr>)) (\<lambda>_. tx_initialize enc)"
| "tx_advance enc str dec (InStart prompt) = tx_start_turn enc prompt"
| "tx_advance enc str dec InInterrupt = tx_interrupt enc"
| "tx_advance enc str dec (InQueue rid prompt) = tx_steer enc rid prompt"
| "tx_advance enc str dec (InRenameTitle rid title) = tx_rename_title enc title"
| "tx_advance enc str dec (InApproval i input allow) = tx_approval enc dec i input allow"
| "tx_advance enc str dec (InQuestionAnswer i input qs answers) = tx_answer enc input qs answers"
| "tx_advance enc str dec (InMessage line) = tx_message enc str dec line"

definition traex_adapter :: "(json \<Rightarrow> bytes) \<Rightarrow> (json \<Rightarrow> string) \<Rightarrow> (string \<Rightarrow> json option) \<Rightarrow> (traex_error \<Rightarrow> string) \<Rightarrow> traex agent_adapter" where
  "traex_adapter enc str dec show =
     \<lparr>ad_can_reconfigure = tx_can_reconfigure, ad_can_start_turn = tx_can_start_turn,
      ad_has_background_work = tx_has_background_work, ad_knows_subagent = (\<lambda>_ _. False),
      ad_advance = (\<lambda>s input. case tx_advance enc str dec input s of
                               (Inl e, t) \<Rightarrow> (Inl (show e), t) | (Inr acts, t) \<Rightarrow> (Inr acts, t))\<rparr>"

section \<open>Launching\<close>

text \<open>\<open>agent_environment::command\<close> gives the command to extend, \<open>skills\<close> the platform instructions of a
  settings directory, \<open>fresh\<close> the provider id of this process, and the url crate is its parser with the path,
  the setter of the path and the printer. A removed variable is one set to nothing.\<close>

record 'u url_ops =
  url_parse :: "string \<Rightarrow> 'u option"
  url_path :: "'u \<Rightarrow> string"
  url_with_path :: "'u \<Rightarrow> string \<Rightarrow> 'u"
  url_text :: "'u \<Rightarrow> string"

record agent_command =
  cmd_args :: "string list"
  cmd_env :: "(string \<times> string option) list"
  cmd_cwd :: string

definition TOKEN :: string where
  "TOKEN = ''LATTE_WORK_TRAEX_PROVIDER_TOKEN''"

fun wire_api :: "provider_protocol \<Rightarrow> string" where
  "wire_api AnthropicMessages = ''anthropic_messages''"
| "wire_api OpenaiChat = ''chat_completions''"
| "wire_api OpenaiResponses = ''responses''"

text \<open>\<open>trim_matches('/')\<close> leaves nothing exactly of a path of slashes.\<close>

definition traex_base :: "'u url_ops \<Rightarrow> provider \<Rightarrow> 'u \<Rightarrow> 'u" where
  "traex_base u p base =
     (if pv_protocol p = AnthropicMessages \<and> list_all ((=) CHR ''/'') (url_path u base)
      then url_with_path u base ''/v1'' else base)"

definition join_with :: "string \<Rightarrow> string list \<Rightarrow> string" where
  "join_with sep parts = (case parts of [] \<Rightarrow> [] | x # xs \<Rightarrow> x @ concat (map ((@) sep) xs))"

definition quoted :: "string \<Rightarrow> string" where
  "quoted s = [CHR 0x22] @ s @ [CHR 0x22]"

definition auth_fields :: "provider_auth \<Rightarrow> string list" where
  "auth_fields auth =
     (if auth = AuthNone then []
      else [''env_key='' @ quoted TOKEN,
            ''auth_header_name='' @ quoted (if auth = Bearer then ''Authorization'' else ''x-api-key''),
            ''auth_token_style='' @ quoted (if auth = Bearer then ''bearer'' else ''raw'')])"

definition configure_provider ::
  "'u url_ops \<Rightarrow> (json \<Rightarrow> string) \<Rightarrow> agent_command \<Rightarrow> resolved_provider \<Rightarrow> string \<Rightarrow> agent_command option" where
  "configure_provider u str cmd rp i =
     (let p = rp_metadata rp
      in case url_parse u (pv_base_url p) of
           None \<Rightarrow> None
         | Some base \<Rightarrow>
             let fields = [''name='' @ quoted ''Latte Work'',
                           ''base_url='' @ str (JString (url_text u (traex_base u p base))),
                           ''wire_api='' @ quoted (wire_api (pv_protocol p)),
                           ''requires_openai_auth=false'', ''supports_websockets=false''] @ auth_fields (pv_auth p)
             in Some (cmd\<lparr>cmd_env := AList.update TOKEN (if pv_auth p = AuthNone then None else Some (rp_credential rp)) (cmd_env cmd),
                          cmd_args := cmd_args cmd @
                            [''-c'', ''model_providers.'' @ i @ ''={'' @ join_with '','' fields @ ''}'',
                             ''-c'', ''model_provider='' @ quoted i]\<rparr>))"

definition tx_command ::
  "'u url_ops \<Rightarrow> (json \<Rightarrow> string) \<Rightarrow> (string \<Rightarrow> string) \<Rightarrow> string \<Rightarrow> agent_command \<Rightarrow>
   string \<Rightarrow> string option \<Rightarrow> launch_config \<Rightarrow> agent_command tx" where
  "tx_command u str skills fresh base cwd resume cfg =
     seq (require (lc_permission_mode cfg \<in> {None, Some ''default'', Some ''bypass_permissions''}) PermissionUnsupported) (\<lambda>_.
     let resolved = (if lc_model cfg = None
                     then cfg\<lparr>lc_model := map_option (\<lambda>p. pv_model (rp_metadata p)) (lc_provider cfg)\<rparr> else cfg)
     in seq (change (\<lambda>s. s\<lparr>tx_platform_instructions := skills (lc_settings_dir cfg), tx_cwd := cwd, tx_resume := resume,
                tx_model_provider := map_option (\<lambda>_. fresh) (lc_provider cfg), tx_config := Some resolved\<rparr>)) (\<lambda>_.
        let cmd = base\<lparr>cmd_args := cmd_args base @ [''app-server'', ''--stdio''], cmd_cwd := cwd\<rparr>
        in case lc_provider cfg of
             None \<Rightarrow> ret cmd
           | Some rp \<Rightarrow> from_result (of_option ProviderUrlInvalid (configure_provider u str cmd rp fresh))))"

end
