(* ===== verification/TraexLaws.thy ===== *)
theory TraexLaws
  imports Traex Tracking
begin

text \<open>
  What the Traex adapter promises to the actor. It reports the outcome of inputs before the end of a turn
  (\<open>orderly\<close>, the contract of \<open>Tracking\<close>), reports only inputs it was given and only when their turn
  completed, and loses none; its phases follow the life cycle of a session; its tables stay within their
  limits; an approval belongs to the running turn and is answered once.
\<close>

section \<open>The recursion of the source\<close>

lemma notify_running: "tx_phase s \<noteq> PhStarting \<Longrightarrow> tx_notify f message s = tx_notify g message s"
  by (simp add: tx_notify_def Let_def eff_simps)

text \<open>\<open>admit_turn\<close> as it is written, with the call of \<open>notification\<close>.\<close>

lemma admit_turn_eq:
  "tx_admit_turn enc turn =
     seq (from_result (tx_field turn ''id'')) (\<lambda>i.
     seq (change (\<lambda>s. s\<lparr>tx_turn := Some i, tx_phase := PhRunning\<rparr>)) (\<lambda>_.
     seq (look tx_thread) (\<lambda>thread.
     seq (from_result (of_option ThreadMissing thread)) (\<lambda>thread.
     seq (look (\<lambda>s. map_of (tx_early_completions s) i)) (\<lambda>completion.
     seq (change (\<lambda>s. s\<lparr>tx_early_completions := []\<rparr>)) (\<lambda>_.
     seq (case completion of Some c \<Rightarrow> tx_notification enc c | None \<Rightarrow> ret []) (\<lambda>replayed.
     seq (look tx_interrupt_requested) (\<lambda>requested.
     seq (change (\<lambda>s. s\<lparr>tx_interrupt_requested := False\<rparr>)) (\<lambda>_.
     seq (if requested then tx_interrupt enc else ret []) (\<lambda>stop.
       ret ([NativeSession thread] @ replayed @ stop)))))))))))"
proof -
  have inner: "tx_notify (\<lambda>_. ret []) c t = tx_notification enc c t" if "tx_phase t = PhRunning" for c t
    using that by (auto simp: tx_notification_def intro: notify_running)
  show ?thesis
    by (rule ext) (simp add: tx_admit_turn_def eff_simps inner split: sum.split option.split)
qed

section \<open>Items\<close>

text \<open>An item reports events only and touches only what it keeps of messages, tools and background work.\<close>

definition tx_core :: "traex \<Rightarrow> traex" where
  "tx_core s = s\<lparr>tx_streamed := [], tx_tools := [], tx_background := [], tx_children := []\<rparr>"

definition core_kept :: "traex \<Rightarrow> traex \<Rightarrow> bool" where
  "core_kept s t \<longleftrightarrow> tx_core t = tx_core s"

interpretation core: effect_frame core_kept
  by unfold_locales (auto simp: core_kept_def)

lemma core_updates:
  "core_kept s (s\<lparr>tx_streamed := a\<rparr>)" "core_kept s (s\<lparr>tx_tools := a\<rparr>)"
  "core_kept s (s\<lparr>tx_background := b\<rparr>)" "core_kept s (s\<lparr>tx_children := a\<rparr>)"
  by (simp_all add: core_kept_def tx_core_def)

lemmas core_rules = core.framed_rules core.framed_change core_updates

lemma framed_item: "framed core_kept (tx_item item completed)"
proof -
  have "framed core_kept (add_child c)" for c
    unfolding add_child_def by (intro core_rules)
  then have "framed core_kept (collab_children item)"
    unfolding collab_children_def child_state_def by (intro core_rules)
  moreover have "framed core_kept (agent_message item i completed)" for i
    unfolding agent_message_def by (intro core_rules)
  moreover have "framed core_kept (tool_started kind i name item)" for kind i name
    unfolding tool_started_def by (intro core_rules)
  moreover have "framed core_kept (tool_completed kind i item)" for kind i
    unfolding tool_completed_def backgrounded_def release_command_def by (intro core_rules)
  ultimately show ?thesis unfolding tx_item_def by (intro core_rules)
qed

lemma framed_delta: "framed core_kept (message_delta params)"
  unfolding message_delta_def by (intro core_rules)

text \<open>\<open>gives C m\<close>: what \<open>m\<close> returns when it succeeds satisfies \<open>C\<close>.\<close>

definition gives :: "('a \<Rightarrow> bool) \<Rightarrow> ('s, 'e, 'a) eff \<Rightarrow> bool" where
  "gives C m \<longleftrightarrow> (\<forall>s x t. m s = (Inr x, t) \<longrightarrow> C x)"

lemma gives_seq: "gives M m \<Longrightarrow> (\<And>x. M x \<Longrightarrow> gives C (f x)) \<Longrightarrow> gives C (seq m f)"
  by (fastforce simp: gives_def seq_def split: prod.splits sum.splits)

lemma gives_then: "(\<And>x. gives C (f x)) \<Longrightarrow> gives C (seq m f)"
  by (fastforce simp: gives_def seq_def split: prod.splits sum.splits)

lemma gives_ret: "C x \<Longrightarrow> gives C (ret x)"
  by (simp add: gives_def ret_def)

lemma gives_fail: "gives C (fail e)"
  by (simp add: gives_def fail_def)

lemma gives_option: "gives C m \<Longrightarrow> (\<And>x. gives C (f x)) \<Longrightarrow> gives C (case v of None \<Rightarrow> m | Some x \<Rightarrow> f x)"
  by (cases v) simp_all

lemma gives_if: "gives C m \<Longrightarrow> gives C n \<Longrightarrow> gives C (if b then m else n)"
  by simp

lemma gives_let: "(\<And>x. gives C (f x)) \<Longrightarrow> gives C (Let v f)"
  by simp

lemmas gives_rules = gives_option gives_if gives_let gives_fail gives_ret gives_then

fun is_event :: "action \<Rightarrow> bool" where
  "is_event (ActEvent _) = True"
| "is_event _ = False"

abbreviation only_events :: "action list \<Rightarrow> bool" where
  "only_events acts \<equiv> list_all is_event acts"

lemma item_events: "gives only_events (tx_item item completed)"
proof -
  have "gives only_events (agent_message item i completed)" for i
    unfolding agent_message_def by (intro gives_rules) simp_all
  moreover have "gives only_events (tool_started kind i name item)" for kind i name
    unfolding tool_started_def by (intro gives_rules) simp_all
  moreover have "gives only_events (tool_completed kind i item)" for kind i
    unfolding tool_completed_def backgrounded_def by (intro gives_rules) simp_all
  ultimately show ?thesis unfolding tx_item_def
    by (intro gives_option gives_if gives_fail gives_ret gives_then gives_let
        gives_seq [where M = only_events and m = "tool_started _ _ _ _"] gives_seq [where M = only_events and m = "if completed then _ else _"])
      simp_all
qed

lemma delta_events: "gives only_events (message_delta params)"
  unfolding message_delta_def by (intro gives_rules) simp

section \<open>Keys of requests\<close>

lemma decimal_inj: "decimal m = decimal n \<Longrightarrow> m = n"
proof (induction m arbitrary: n rule: less_induct)
  case (less m)
  have digit: "char_of (48 + a) = (char_of (48 + b) :: char) \<longleftrightarrow> a = b" if "a < 10" "b < (10 :: nat)" for a b
  proof -
    have "of_char (char_of (48 + c) :: char) = 48 + c" if "c < 10" for c :: nat
      using that by simp
    then show ?thesis using that by (metis add_left_cancel)
  qed
  have len: "decimal k \<noteq> []" for k by (subst decimal.simps) simp
  show ?case
  proof (cases "m < 10 \<or> n < 10")
    case True
    then show ?thesis using less.prems len
      by (subst (asm) (1 2) decimal.simps) (auto simp: digit append_eq_Cons_conv Cons_eq_append_conv split: if_splits)
  next
    case False
    then have "decimal (m div 10) @ [char_of (48 + m mod 10)] = decimal (n div 10) @ [char_of (48 + n mod 10) :: char]"
      using less.prems by (subst (asm) (1 2) decimal.simps) simp
    then have "m div 10 = n div 10" and "m mod 10 = n mod 10"
      using less.IH [of "m div 10" "n div 10"] False by (simp_all add: digit)
    then show ?thesis by (metis div_mult_mod_eq)
  qed
qed

lemma request_key_inj [simp]: "request_key m = request_key n \<longleftrightarrow> m = n"
  by (auto simp: request_key_def dest: decimal_inj)

text \<open>Every pending request has its own number, and the next number is free.\<close>

definition numbered :: "traex \<Rightarrow> bool" where
  "numbered s \<longleftrightarrow> distinct (map fst (tx_pending s)) \<and>
     (\<forall>k \<in> fst ` set (tx_pending s). \<exists>n \<le> unat (tx_counter s). k = request_key n)"

lemma update_fresh: "k \<notin> fst ` set kvs \<Longrightarrow> AList.update k v kvs = kvs @ [(k, v)]"
  by (induction kvs) auto

lemma next_key_fresh:
  assumes "numbered s" and "tx_counter s \<noteq> -1"
  shows "request_key (unat (tx_counter s + 1)) \<notin> fst ` set (tx_pending s)"
proof -
  have "unat (tx_counter s + 1) = Suc (unat (tx_counter s))"
    using assms(2) by (metis Suc_eq_plus1 add.commute add_eq_0_iff unatSuc)
  then show ?thesis using assms(1) by (fastforce simp: numbered_def)
qed

section \<open>Inputs the agent holds\<close>

definition queued_inputs :: "traex \<Rightarrow> (string \<times> string) list" where
  "queued_inputs s = List.map_filter (\<lambda>(_, p). pq_queued_input p) (tx_pending s)"

definition owed :: "traex \<Rightarrow> string set" where
  "owed s = set (tx_steered s) \<union> fst ` set (queued_inputs s)"

lemma queued_simps [simp]:
  "List.map_filter f (xs @ ys) = List.map_filter f xs @ List.map_filter f ys"
  by (simp add: List.map_filter_def)

lemma queued_steered [simp]: "queued_inputs (s\<lparr>tx_steered := xs\<rparr>) = queued_inputs s"
  by (simp add: queued_inputs_def)

text \<open>\<open>delivers\<close>: the inputs the agent holds and the outcome of the last turn stay; the numbering stays sound.\<close>

definition inputs_view :: "traex \<Rightarrow> string list \<times> (string \<times> string) set \<times> string option \<times> bool" where
  "inputs_view s = (tx_steered s, set (queued_inputs s), tx_completed_turn s, tx_completed_success s)"

definition delivers :: "traex \<Rightarrow> traex \<Rightarrow> bool" where
  "delivers s t \<longleftrightarrow> (numbered s \<longrightarrow> numbered t \<and> inputs_view t = inputs_view s)"

interpretation delivers: effect_frame delivers
  by unfold_locales (auto simp: delivers_def)

lemma delivers_same:
  "tx_pending t = tx_pending s \<Longrightarrow> tx_counter t = tx_counter s \<Longrightarrow> tx_steered t = tx_steered s \<Longrightarrow>
   tx_completed_turn t = tx_completed_turn s \<Longrightarrow> tx_completed_success t = tx_completed_success s \<Longrightarrow> delivers s t"
  by (simp add: delivers_def numbered_def inputs_view_def queued_inputs_def)

lemma delivers_core: "core_kept s t \<Longrightarrow> delivers s t"
proof -
  assume "core_kept s t"
  then have "tx_pending (tx_core t) = tx_pending (tx_core s)" "tx_counter (tx_core t) = tx_counter (tx_core s)"
    "tx_steered (tx_core t) = tx_steered (tx_core s)" "tx_completed_turn (tx_core t) = tx_completed_turn (tx_core s)"
    "tx_completed_success (tx_core t) = tx_completed_success (tx_core s)"
    by (simp_all add: core_kept_def)
  then show ?thesis by (intro delivers_same) (simp_all add: tx_core_def)
qed

text \<open>The request with the next number, whatever it carries.\<close>

lemma numbered_request:
  assumes "numbered s" and "tx_counter s \<noteq> -1"
  shows "numbered (s\<lparr>tx_counter := tx_counter s + 1,
           tx_pending := AList.update (request_key (unat (tx_counter s + 1))) p (tx_pending s)\<rparr>)"
proof -
  have "unat (tx_counter s + 1) = Suc (unat (tx_counter s))"
    using assms(2) by (metis Suc_eq_plus1 add.commute add_eq_0_iff unatSuc)
  then show ?thesis
    using assms(1) next_key_fresh [OF assms] by (fastforce simp: numbered_def update_fresh distinct_update dom_update)
qed

lemma request_apply:
  "tx_request enc method params s =
     (if length (tx_pending s) < 32
      then if tx_counter s \<noteq> -1
           then (Inr (write_json enc (JObject [(''id'', JString (request_key (unat (tx_counter s + 1)))),
                        (''method'', JString method), (''params'', params)])),
                 s\<lparr>tx_counter := tx_counter s + 1,
                   tx_pending := AList.update (request_key (unat (tx_counter s + 1)))
                     \<lparr>pq_method = method, pq_interrupt_turn = (if method = ''turn/interrupt'' then tx_turn s else None),
                      pq_queued_input = None\<rparr> (tx_pending s)\<rparr>)
           else (Inl CounterExhausted, s)
      else (Inl TooManyRequests, s))"
  by (simp add: tx_request_def eff_simps Let_def)

lemma quiet_request: "framed delivers (tx_request enc method params)"
proof -
  have "delivers s (snd (tx_request enc method params s))" for s
    unfolding delivers_def
  proof
    assume n: "numbered s"
    let ?p = "\<lparr>pq_method = method, pq_interrupt_turn = (if method = ''turn/interrupt'' then tx_turn s else None),
                 pq_queued_input = None\<rparr>"
    show "numbered (snd (tx_request enc method params s)) \<and>
        inputs_view (snd (tx_request enc method params s)) = inputs_view s"
      using numbered_request [OF n, of ?p] next_key_fresh [OF n] n
      by (simp add: request_apply inputs_view_def queued_inputs_def update_fresh List.map_filter_simps)
  qed
  then show ?thesis by (simp add: framed_def)
qed

lemmas delivers_rules = delivers.framed_rules delivers.framed_change delivers_same quiet_request

lemma quiet_ops:
  "framed delivers (tx_initialize enc)" "framed delivers (tx_start enc prompt)" "framed delivers (tx_interrupt enc)"
  "framed delivers (tx_open_thread enc)" "framed delivers title_confirmed" "framed delivers (tx_answer enc input qs answers)"
  "framed delivers (tx_approval enc dec i input allow)" "framed delivers (tx_native_request enc str message)"
  "framed delivers (tx_rename_title enc title)" "framed delivers (early_completion message params)"
  unfolding tx_initialize_def tx_start_def tx_interrupt_def tx_open_thread_def title_confirmed_def tx_answer_def
    tx_approval_def tx_native_request_def tx_rename_title_def early_completion_def
  by (intro delivers_rules; simp)+

lemma quiet_opening:
  "framed delivers (initialized enc)" "framed delivers (config_loaded enc native)" "framed delivers (thread_opened enc result)"
  "framed delivers (tx_start_turn enc prompt)"
  unfolding initialized_def config_loaded_def thread_opened_def tx_start_turn_def
  by (intro delivers_rules quiet_ops; simp)+

lemma quiet_items: "framed delivers (tx_item item completed)" "framed delivers (message_delta params)"
  using framed_item framed_delta by (auto simp: framed_def intro: delivers_core)

section \<open>The outcome of inputs\<close>

fun plain :: "action \<Rightarrow> bool" where
  "plain (InputsConsumed _) = False"
| "plain (InputRejected _ _) = False"
| "plain (Finished _ _) = False"
| "plain _ = True"

abbreviation plains :: "action list \<Rightarrow> bool" where
  "plains acts \<equiv> list_all plain acts"

lemma plain_settles: "plain a \<Longrightarrow> settles a = [] \<and> \<not> is_finished a"
  by (cases a) simp_all

lemma events_plain: "only_events acts \<Longrightarrow> plains acts"
proof -
  have "is_event a \<Longrightarrow> plain a" for a by (cases a) simp_all
  then show "only_events acts \<Longrightarrow> plains acts" by (simp add: list_all_iff)
qed

lemma gives_mono: "gives C m \<Longrightarrow> (\<And>x. C x \<Longrightarrow> D x) \<Longrightarrow> gives D m"
  by (auto simp: gives_def)

lemma plain_items: "gives plains (tx_item item completed)" "gives plains (message_delta params)"
  by (rule gives_mono [OF item_events] gives_mono [OF delta_events], simp add: events_plain)+

lemma plain_request: "gives plain (tx_request enc method params)"
  by (auto simp: gives_def request_apply write_json_def split: if_splits)

lemma plain_sent: "gives plains (seq (tx_request enc method params) (\<lambda>a. ret [a]))"
  by (rule gives_seq [OF plain_request]) (simp add: gives_ret)

lemma plain_ops:
  "gives plains (tx_initialize enc)" "gives plains (tx_start enc prompt)" "gives plains (tx_interrupt enc)"
  "gives plains title_confirmed" "gives plains (tx_answer enc input qs answers)"
  "gives plains (tx_approval enc dec i input allow)" "gives plains (tx_native_request enc str message)"
  "gives plains (tx_rename_title enc title)" "gives plains (early_completion message params)"
  unfolding tx_initialize_def tx_start_def tx_interrupt_def title_confirmed_def tx_answer_def
    tx_approval_def tx_native_request_def tx_rename_title_def early_completion_def rpc_error_def write_json_def
  by (intro plain_sent gives_rules; simp split: option.split)+

lemma plain_steer: "gives plains (tx_steer enc rid prompt)"
  unfolding tx_steer_def
  by (intro gives_seq [OF plain_request] gives_then gives_ret) simp

lemma plain_open: "gives plains (tx_open_thread enc)"
proof -
  have "gives plain (case r of Some x \<Rightarrow> tx_request enc m (f x) | None \<Rightarrow> tx_request enc n y)" for r m n f y
    by (cases r) (simp_all add: plain_request)
  then show ?thesis unfolding tx_open_thread_def Let_def
    by (intro gives_then gives_seq [where M = plain]) (auto intro: gives_ret)
qed

lemma plain_opening: "gives plains (initialized enc)" "gives plains (config_loaded enc native)"
  "gives plains (thread_opened enc result)" "gives plains (tx_start_turn enc prompt)"
proof -
  show "gives plains (initialized enc)" unfolding initialized_def write_json_def
    by (intro gives_rules gives_seq [where M = plains and m = "if _ then tx_open_thread enc else _"] plain_open plain_sent) simp_all
  show "gives plains (config_loaded enc native)" unfolding config_loaded_def
    by (intro gives_then plain_open)
  show "gives plains (tx_start_turn enc prompt)" unfolding tx_start_turn_def
    by (intro gives_then gives_if gives_fail plain_ops)
  have named: "gives plains (case t of None \<Rightarrow> ret []
      | Some x \<Rightarrow> seq (change (f x)) (\<lambda>_. seq (tx_request enc m (g x)) (\<lambda>a. ret [a])))" for t f g m
    by (intro gives_option gives_then [where m = "change _"] plain_sent gives_ret) simp
  have started: "gives plains (case t of None \<Rightarrow> ret [] | Some x \<Rightarrow> seq (change f) (\<lambda>_. tx_start enc x))" for t f
    by (intro gives_option gives_then plain_ops gives_ret) simp
  show "gives plains (thread_opened enc result)" unfolding thread_opened_def
    by (rule gives_then gives_seq [OF named] gives_seq [OF started])+ (simp add: gives_ret)
qed

text \<open>A turn that ended without success before the agent confirmed the input.\<close>

definition lost :: "traex \<Rightarrow> string \<Rightarrow> bool" where
  "lost s rid \<longleftrightarrow>
     (\<exists>turn. (rid, turn) \<in> set (queued_inputs s) \<and> tx_completed_turn s = Some turn \<and> \<not> tx_completed_success s)"

definition accounted :: "traex \<Rightarrow> action list \<Rightarrow> traex \<Rightarrow> bool" where
  "accounted s acts t \<longleftrightarrow>
     owed t \<union> set (settled_inputs acts) \<subseteq> owed s \<and>
     (\<forall>rid \<in> owed s. rid \<in> owed t \<or> rid \<in> set (settled_inputs acts) \<or> lost s rid \<or> (\<exists>m. Finished True m \<in> set acts)) \<and>
     (\<forall>ids. InputsConsumed ids \<in> set acts \<longrightarrow> tx_completed_success t)"

definition reports :: "action list tx \<Rightarrow> bool" where
  "reports m \<longleftrightarrow> (\<forall>s r t. numbered s \<longrightarrow> m s = (r, t) \<longrightarrow> numbered t \<and> (\<forall>acts. r = Inr acts \<longrightarrow> accounted s acts t))"

lemma view_cong: "inputs_view t = inputs_view s \<Longrightarrow> owed t = owed s \<and> lost t = lost s \<and> tx_completed_success t = tx_completed_success s"
  by (auto simp: inputs_view_def owed_def lost_def fun_eq_iff)

lemma accounted_cong: "inputs_view u = inputs_view s \<Longrightarrow> accounted u acts t = accounted s acts t"
  using view_cong [of u s] by (simp add: accounted_def)

lemma plains_settle: "plains acts \<Longrightarrow> set (settled_inputs acts) = {} \<and> (\<forall>ids. InputsConsumed ids \<notin> set acts) \<and> (\<forall>f m. Finished f m \<notin> set acts)"
  unfolding list_all_iff by (intro conjI allI equals0I notI; force simp: settled_iff dest: plain_settles)

lemma settled_nil [simp]: "settled_inputs [] = []"
  by (simp add: settled_inputs.simps)

lemma settled_append: "set (settled_inputs (xs @ ys)) = set (settled_inputs xs) \<union> set (settled_inputs ys)"
  by (auto simp: settled_iff)

lemma settled_around: "plains p \<Longrightarrow> plains q \<Longrightarrow> set (settled_inputs (p @ acts @ q)) = set (settled_inputs acts)"
  by (simp add: settled_append plains_settle)

lemma reports_plain:
  assumes "framed delivers m" and "gives plains m"
  shows "reports m"
  unfolding reports_def
proof (intro allI impI conjI)
  fix s r t assume s: "numbered s" "m s = (r, t)"
  from assms(1) s have q: "numbered t" "inputs_view t = inputs_view s" by (auto dest: framedD simp: delivers_def)
  then show "numbered t" by simp
  fix acts assume "r = Inr acts"
  then have "plains acts" using assms(2) s(2) unfolding gives_def by blast
  then show "accounted s acts t" using plains_settle view_cong [OF q(2)] by (simp add: accounted_def)
qed

lemma reports_after:
  assumes "framed delivers m" and "\<And>x. reports (f x)"
  shows "reports (seq m f)"
  unfolding reports_def
proof (intro allI impI)
  fix s r t assume s: "numbered s" and e: "seq m f s = (r, t)"
  have q: "numbered (snd (m s))" "inputs_view (snd (m s)) = inputs_view s"
    using assms(1) s by (auto simp: framed_def delivers_def)
  show "numbered t \<and> (\<forall>acts. r = Inr acts \<longrightarrow> accounted s acts t)"
  proof (cases "fst (m s)")
    case (Inl e)
    then show ?thesis using e q by (auto simp: seq_apply)
  next
    case (Inr x)
    then have "f x (snd (m s)) = (r, t)" using e by (simp add: seq_apply)
    then show ?thesis using assms(2) [of x] q(1) accounted_cong [OF q(2)] unfolding reports_def by blast
  qed
qed

definition trails :: "action list \<Rightarrow> action list \<Rightarrow> bool" where
  "trails acts out \<longleftrightarrow> (\<exists>p q. out = p @ acts @ q \<and> plains p \<and> plains q)"

lemma trails_around: "plains p \<Longrightarrow> plains q \<Longrightarrow> trails acts (p @ acts @ q)"
  by (auto simp: trails_def)

lemma reports_trailed:
  assumes "reports m" and "\<And>x. framed delivers (f x)" and "\<And>x. gives (trails x) (f x)"
  shows "reports (seq m f)"
  unfolding reports_def
proof (intro allI impI)
  fix s r t assume s: "numbered s" and e: "seq m f s = (r, t)"
  obtain v u where m: "m s = (v, u)" by (cases "m s")
  then have u: "numbered u" "\<And>x. v = Inr x \<Longrightarrow> accounted s x u" using assms(1) s unfolding reports_def by blast+
  show "numbered t \<and> (\<forall>acts. r = Inr acts \<longrightarrow> accounted s acts t)"
  proof (cases v)
    case (Inl e')
    then show ?thesis using e m u by (auto simp: seq_apply)
  next
    case (Inr x)
    then have f: "f x u = (r, t)" using e m by (simp add: seq_apply)
    then have q: "numbered t" "inputs_view t = inputs_view u"
      using framedD [OF assms(2) f] u(1) by (simp_all add: delivers_def)
    have "accounted s acts t" if "r = Inr acts" for acts
    proof -
      have "trails x acts" using assms(3) [of x] f unfolding that gives_def by blast
      then obtain p q' where "acts = p @ x @ q'" "plains p" "plains q'" by (auto simp: trails_def)
      then show ?thesis using u(2) [OF Inr] view_cong [OF q(2)] plains_settle [of p] plains_settle [of q'] settled_around [of p q' x]
        by (simp add: accounted_def)
    qed
    then show ?thesis using q by simp
  qed
qed

lemma reports_if: "reports m \<Longrightarrow> reports n \<Longrightarrow> reports (if c then m else n)"
  by simp

lemma reports_option: "reports m \<Longrightarrow> (\<And>x. reports (f x)) \<Longrightarrow> reports (case v of None \<Rightarrow> m | Some x \<Rightarrow> f x)"
  by (cases v) simp_all

lemma reports_nothing: "reports (ret [])" "plains acts \<Longrightarrow> reports (ret acts)" "reports (fail e)"
  by (auto intro!: reports_plain gives_ret gives_fail delivers.framed_ret delivers.framed_fail)

lemma reports_looked: "(\<And>x. reports (f x)) \<Longrightarrow> reports (seq (look g) f)"
  by (rule reports_after [OF delivers.framed_look])

lemma reports_read: "(\<And>x. reports (f x)) \<Longrightarrow> reports (seq (from_result v) f)"
  by (rule reports_after [OF delivers.framed_from_result])

lemma reports_let: "(\<And>x. reports (f x)) \<Longrightarrow> reports (Let v f)"
  by simp

section \<open>The end of a turn\<close>

definition end_message :: "string \<Rightarrow> json \<Rightarrow> string option" where
  "end_message status params =
     (if status \<noteq> ''completed''
      then Some (str_or (if status = ''interrupted'' then interrupted_default else failed_default)
                   (json_field (json_field (json_field params ''turn'') ''error'') ''message''))
      else None)"

lemma completed_eq:
  "turn_completed params s =
     (case tx_field (json_field params ''turn'') ''status'' of
        Inl e \<Rightarrow> (Inl e, s)
      | Inr status \<Rightarrow>
          if status \<in> {''completed'', ''failed'', ''interrupted''}
          then (Inr ((if status = ''completed'' \<and> tx_steered s \<noteq> [] then [InputsConsumed (tx_steered s)] else []) @
                     [Finished (status \<noteq> ''completed'') (end_message status params)]),
                s\<lparr>tx_phase := PhReady, tx_approvals := [], tx_completed_turn := tx_turn s, tx_turn := None,
                   tx_completed_success := (status = ''completed''), tx_streamed := [], tx_tools := [], tx_steered := []\<rparr>)
          else (Inl NotTerminal, s))"
  by (simp add: turn_completed_def eff_simps Let_def end_message_def del: insert_iff split: sum.split)

lemma completed_apply:
  "turn_completed params s = (Inr acts, t) \<Longrightarrow>
     \<exists>failed m. acts = (if \<not> failed \<and> tx_steered s \<noteq> [] then [InputsConsumed (tx_steered s)] else []) @ [Finished failed m] \<and>
       t = s\<lparr>tx_phase := PhReady, tx_approvals := [], tx_completed_turn := tx_turn s, tx_turn := None,
             tx_completed_success := \<not> failed, tx_streamed := [], tx_tools := [], tx_steered := []\<rparr>"
proof -
  assume a: "turn_completed params s = (Inr acts, t)"
  then obtain status where st: "tx_field (json_field params ''turn'') ''status'' = Inr status"
    by (cases "tx_field (json_field params ''turn'') ''status''") (simp_all add: completed_eq)
  have "status \<in> {''completed'', ''failed'', ''interrupted''}"
    using a by (rule contrapos_pp) (simp add: completed_eq st del: insert_iff)
  then show ?thesis using a
    by (intro exI [of _ "status \<noteq> ''completed''"] exI [of _ "end_message status params"])
      (simp add: completed_eq st del: insert_iff)
qed

lemma completed_failed: "turn_completed params s = (Inl e, t) \<Longrightarrow> t = s"
  by (cases "tx_field (json_field params ''turn'') ''status''") (simp_all add: completed_eq del: insert_iff split: if_splits)

lemma reports_completed: "reports (turn_completed params)"
  unfolding reports_def
proof (intro allI impI)
  fix s r t assume s: "numbered s" "turn_completed params s = (r, t)"
  show "numbered t \<and> (\<forall>acts. r = Inr acts \<longrightarrow> accounted s acts t)"
  proof (cases r)
    case (Inl e)
    then show ?thesis using s completed_failed by blast
  next
    case (Inr acts)
    from completed_apply [OF s(2) [unfolded Inr]] obtain failed m where
      "acts = (if \<not> failed \<and> tx_steered s \<noteq> [] then [InputsConsumed (tx_steered s)] else []) @ [Finished failed m]"
      and t: "t = s\<lparr>tx_phase := PhReady, tx_approvals := [], tx_completed_turn := tx_turn s, tx_turn := None,
             tx_completed_success := \<not> failed, tx_streamed := [], tx_tools := [], tx_steered := []\<rparr>" by blast
    moreover from t have "queued_inputs t = queued_inputs s" by (simp add: queued_inputs_def)
    moreover from t s(1) have "numbered t" by (simp add: numbered_def)
    ultimately show ?thesis using Inr by (cases failed) (auto simp: accounted_def owed_def settled_iff t)
  qed
qed

lemmas reports_quiet_ops = reports_plain [OF quiet_items(1) plain_items(1)] reports_plain [OF quiet_items(2) plain_items(2)]
  reports_plain [OF quiet_ops(10) plain_ops(9)]

lemma reports_running: "reports (running_event method params)"
  unfolding running_event_def
  by (rule reports_if reports_quiet_ops reports_completed reports_nothing(1) reports_nothing(3) | rule reports_nothing(2), simp)+

lemma reports_notify:
  assumes "\<And>v. reports (admit v)"
  shows "reports (tx_notify admit message)"
  unfolding tx_notify_def
  by (rule reports_let reports_looked assms reports_if reports_option reports_quiet_ops reports_running reports_nothing(1)
      | rule reports_nothing(2), simp split: option.split)+

text \<open>What follows the replay of an early completion: at most an interrupt.\<close>

definition admit_end :: "(json \<Rightarrow> bytes) \<Rightarrow> string \<Rightarrow> action list \<Rightarrow> action list tx" where
  "admit_end enc thread replayed =
     seq (look tx_interrupt_requested) (\<lambda>requested.
     seq (change (\<lambda>s. s\<lparr>tx_interrupt_requested := False\<rparr>)) (\<lambda>_.
     seq (if requested then tx_interrupt enc else ret []) (\<lambda>stop. ret ([NativeSession thread] @ replayed @ stop))))"

lemma quiet_admit_end: "framed delivers (admit_end enc thread replayed)"
  unfolding admit_end_def by (intro delivers_rules quiet_ops; simp)

lemma admit_end_trails: "gives (trails replayed) (admit_end enc thread replayed)"
proof -
  have stop: "gives plains (if c then tx_interrupt enc else ret [])" for c
    by (simp add: plain_ops gives_ret)
  show ?thesis unfolding admit_end_def
    by (rule gives_then [where m = "look _"] gives_then [where m = "change _"] gives_seq [OF stop] gives_ret trails_around)+ simp_all
qed

lemma reports_admit: "reports (tx_admit_turn enc turn)"
  unfolding tx_admit_turn_def admit_end_def [symmetric]
proof -
  have replay: "reports (case c of Some c \<Rightarrow> tx_notify (\<lambda>_. ret []) c | None \<Rightarrow> ret [])" for c
    by (intro reports_option reports_notify reports_nothing)
  show "reports (seq (from_result (tx_field turn ''id'')) (\<lambda>i.
     seq (change (\<lambda>s. s\<lparr>tx_turn := Some i, tx_phase := PhRunning\<rparr>)) (\<lambda>_.
     seq (look tx_thread) (\<lambda>thread.
     seq (from_result (of_option ThreadMissing thread)) (\<lambda>thread.
     seq (look (\<lambda>s. map_of (tx_early_completions s) i)) (\<lambda>completion.
     seq (change (\<lambda>s. s\<lparr>tx_early_completions := []\<rparr>)) (\<lambda>_.
     seq (case completion of Some c \<Rightarrow> tx_notify (\<lambda>_. ret []) c | None \<Rightarrow> ret []) (admit_end enc thread))))))))"
    by (rule reports_looked reports_read reports_after [OF delivers.framed_change]
        reports_trailed [OF replay quiet_admit_end admit_end_trails] delivers_same; (simp; fail)?)+
qed

lemma reports_notification: "reports (tx_notification enc message)"
  unfolding tx_notification_def by (rule reports_notify [OF reports_admit])

section \<open>Answers to requests\<close>

definition without_request :: "string \<Rightarrow> traex \<Rightarrow> traex" where
  "without_request i s = s\<lparr>tx_pending := AList.delete i (tx_pending s)\<rparr>"

lemma numbered_without: "numbered s \<Longrightarrow> numbered (without_request i s)"
proof -
  assume s: "numbered s"
  have "\<exists>n \<le> unat (tx_counter s). k = request_key n" if "k \<in> fst ` set (AList.delete i (tx_pending s))" for k
    using s that dom_delete_subset [of i "tx_pending s"] unfolding numbered_def by blast
  then show ?thesis using s by (simp add: numbered_def without_request_def distinct_delete)
qed

lemma set_map_filter: "set (List.map_filter f xs) = {v. \<exists>x \<in> set xs. f x = Some v}"
  by (induction xs) (auto simp: List.map_filter_simps split: option.split)

lemma queued_lookup:
  assumes "numbered s"
  shows "v \<in> set (queued_inputs s) \<longleftrightarrow> (\<exists>k p. map_of (tx_pending s) k = Some p \<and> pq_queued_input p = Some v)"
proof -
  have d: "distinct (map fst (tx_pending s))" using assms by (simp add: numbered_def)
  show ?thesis unfolding queued_inputs_def set_map_filter using d by (auto simp: split_beta) (force dest: map_of_SomeD)+
qed

lemma queued_without:
  assumes "numbered s" and "map_of (tx_pending s) i = Some req"
  shows "set (queued_inputs s) = set (queued_inputs (without_request i s)) \<union> set_option (pq_queued_input req)"
proof -
  have m: "map_of (tx_pending (without_request i s)) = (map_of (tx_pending s))(i := None)"
    by (simp add: without_request_def delete_conv')
  have "v \<in> set (queued_inputs s) \<longleftrightarrow> v \<in> set (queued_inputs (without_request i s)) \<or> pq_queued_input req = Some v" for v
    unfolding queued_lookup [OF assms(1)] queued_lookup [OF numbered_without [OF assms(1)]] m fun_upd_apply
    using assms(2) by (metis option.distinct(1) option.inject)
  then show ?thesis by (auto simp: set_eq_iff)
qed

lemma view_without:
  assumes "numbered s" and "map_of (tx_pending s) i = Some req" and "pq_queued_input req = None"
  shows "inputs_view (without_request i s) = inputs_view s"
  using queued_without [OF assms(1,2)] assms(3) by (simp add: inputs_view_def) (simp add: without_request_def)

lemmas reports_opening =
  reports_plain [OF quiet_opening(1) plain_opening(1)] reports_plain [OF quiet_opening(2) plain_opening(2)]
  reports_plain [OF quiet_opening(3) plain_opening(3)] reports_plain [OF quiet_opening(4) plain_opening(4)]
  reports_plain [OF quiet_ops(5) plain_ops(4)]

lemma reports_accepted: "pq_queued_input req = None \<Longrightarrow> reports (accepted_request enc req result)"
  unfolding accepted_request_def
  by (simp only: option.case)
    (rule reports_let reports_if reports_opening reports_looked reports_admit reports_nothing(1) reports_nothing(3)
      | rule reports_nothing(2), simp)+

lemma reports_rejected: "pq_queued_input req = None \<Longrightarrow> reports (rejected_request req err)"
  unfolding rejected_request_def
  by (simp only: option.case)
    (rule reports_let reports_if reports_looked reports_nothing(3) reports_after [OF delivers.framed_change] delivers_same
      | rule reports_nothing(2), simp | simp)+

lemma accounted_delivery:
  assumes "set (queued_inputs s) = insert (rid, turn) (set (queued_inputs u))" and "tx_steered u = tx_steered s"
    and "tx_completed_turn u = tx_completed_turn s" and "tx_completed_success u = tx_completed_success s"
  shows "accounted s [InputRejected rid m] u"
    and "accounted s [] (u\<lparr>tx_steered := List.insert rid (tx_steered u)\<rparr>)"
    and "tx_completed_turn u = Some turn \<Longrightarrow> accounted s (if tx_completed_success u then [InputsConsumed [rid]] else []) u"
  using assms by (auto simp: accounted_def owed_def settled_iff lost_def)

lemma reports_response: "reports (tx_response enc message)"
  unfolding reports_def
proof (intro allI impI)
  fix s r t assume s: "numbered s" and e: "tx_response enc message s = (r, t)"
  show "numbered t \<and> (\<forall>acts. r = Inr acts \<longrightarrow> accounted s acts t)"
  proof (cases "\<exists>i req. json_str (json_field message ''id'') = Some i \<and> map_of (tx_pending s) i = Some req")
    case False
    then have "r = Inr [] \<and> t = s" using e by (auto simp: tx_response_def eff_simps split: option.splits)
    then show ?thesis using s by (simp add: accounted_def)
  next
    case True
    then obtain i req where i: "json_str (json_field message ''id'') = Some i" "map_of (tx_pending s) i = Some req" by blast
    let ?u = "without_request i s"
    let ?m = "case json_get message ''error'' of
        Some err \<Rightarrow> rejected_request req err
      | None \<Rightarrow> seq (from_result (of_option ResultMissing (json_get message ''result''))) (accepted_request enc req)"
    have m: "?m ?u = (r, t)" using e i by (simp add: tx_response_def eff_simps without_request_def)
    have u: "numbered ?u" "tx_steered ?u = tx_steered s" "tx_completed_turn ?u = tx_completed_turn s"
      "tx_completed_success ?u = tx_completed_success s"
      using numbered_without [OF s] by (simp_all add: without_request_def)
    show ?thesis
    proof (cases "pq_queued_input req")
      case None
      then have "reports ?m"
        by (auto intro!: reports_option reports_read reports_accepted reports_rejected)
      then show ?thesis using m u accounted_cong [OF view_without [OF s i(2) None]] unfolding reports_def by blast
    next
      case (Some q)
      obtain rid turn where q: "q = (rid, turn)" by (cases q)
      have qs: "set (queued_inputs s) = insert (rid, turn) (set (queued_inputs ?u))"
        using queued_without [OF s i(2)] Some q by simp
      note delivery = accounted_delivery [OF qs u(2-4)]
      have num: "numbered (?u\<lparr>tx_steered := xs\<rparr>)" for xs using u(1) by (simp add: numbered_def)
      show ?thesis
      proof (cases "json_get message ''error''")
        case None
        then show ?thesis using m Some q u delivery num
          by (auto simp: eff_simps accepted_request_def steer_confirmed_def split: sum.splits if_splits)
      next
        case err: (Some v)
        then show ?thesis using m Some q u delivery by (auto simp: eff_simps rejected_request_def Let_def)
      qed
    qed
  qed
qed

lemma map_absent: "k \<notin> fst ` set kvs \<Longrightarrow> map (\<lambda>(k', p). (k', if k' = k then f p else p)) kvs = kvs"
  by (induction kvs) auto

text \<open>Handing an input to the agent.\<close>

lemma steer_shape:
  assumes "numbered s"
  shows "(\<exists>e. tx_steer enc rid prompt s = (Inl e, s)) \<or>
      tx_counter s \<noteq> -1 \<and>
      length (tx_steered s) + length (filter (\<lambda>(_, p). pq_queued_input p \<noteq> None) (tx_pending s)) < 16 \<and>
      length (tx_pending s) < 32 \<and>
      (\<exists>turn a. tx_steer enc rid prompt s = (Inr [a], s\<lparr>tx_counter := tx_counter s + 1,
          tx_pending := tx_pending s @ [(request_key (unat (tx_counter s + 1)),
            \<lparr>pq_method = ''turn/steer'', pq_interrupt_turn = None, pq_queued_input = Some (rid, turn)\<rparr>)]\<rparr>))"
proof (cases "tx_phase s = PhRunning \<and> \<not> slash prompt \<and>
    length (tx_steered s) + length (filter (\<lambda>(_, p). pq_queued_input p \<noteq> None) (tx_pending s)) < 16 \<and>
    length (tx_pending s) < 32 \<and> tx_counter s \<noteq> -1")
  case True
  then have f: "request_key (unat (tx_counter s + 1)) \<notin> fst ` set (tx_pending s)" using next_key_fresh [OF assms] by blast
  show ?thesis
  proof (cases "tx_turn s")
    case None
    then show ?thesis by (simp add: tx_steer_def eff_simps)
  next
    case (Some turn)
    have "\<exists>a. tx_steer enc rid prompt s = (Inr [a], s\<lparr>tx_counter := tx_counter s + 1,
        tx_pending := tx_pending s @ [(request_key (unat (tx_counter s + 1)),
          \<lparr>pq_method = ''turn/steer'', pq_interrupt_turn = None, pq_queued_input = Some (rid, turn)\<rparr>)]\<rparr>)"
      using True Some by (simp add: tx_steer_def eff_simps request_apply update_fresh [OF f] map_absent [OF f])
    then show ?thesis using True by blast
  qed
next
  case False
  then show ?thesis by (auto simp: tx_steer_def eff_simps request_apply simp del: not_less)
qed

lemma steer_apply:
  assumes "numbered s" and "tx_steer enc rid prompt s = (r, t)"
  shows "numbered t" and "r = Inr acts \<Longrightarrow> owed t = insert rid (owed s)"
proof -
  let ?k = "request_key (unat (tx_counter s + 1))"
  let ?p = "\<lambda>q. \<lparr>pq_method = ''turn/steer'', pq_interrupt_turn = None, pq_queued_input = q\<rparr>"
  note shape = steer_shape [OF assms(1), of enc rid prompt]
  then have ok: "t = s \<or> tx_counter s \<noteq> -1 \<and> (\<exists>turn. t = s\<lparr>tx_counter := tx_counter s + 1,
          tx_pending := AList.update ?k (?p (Some (rid, turn))) (tx_pending s)\<rparr>)"
    using assms(2) next_key_fresh [OF assms(1)] by (auto simp: update_fresh)
  then show "numbered t" using numbered_request [OF assms(1)] assms(1) by auto
  assume "r = Inr acts"
  then obtain turn where "tx_counter s \<noteq> -1" and t: "t = s\<lparr>tx_counter := tx_counter s + 1,
          tx_pending := tx_pending s @ [(?k, ?p (Some (rid, turn)))]\<rparr>"
    using shape assms(2) by auto
  then show "owed t = insert rid (owed s)" by (auto simp: owed_def queued_inputs_def List.map_filter_simps)
qed

lemma reports_message: "reports (tx_message enc str dec line)"
  unfolding tx_message_def
  by (rule reports_read reports_if reports_notification reports_response reports_plain [OF quiet_ops(8) plain_ops(7)])+

lemma reports_advance:
  assumes "\<And>rid prompt. input \<noteq> InQueue rid prompt"
  shows "reports (tx_advance enc str dec input)"
proof (cases input)
  case InDiscoverCommands
  then show ?thesis
    by (simp, intro reports_after [OF delivers.framed_change] reports_plain [OF quiet_ops(1) plain_ops(1)] delivers_same) simp_all
next
  case InOpen
  then show ?thesis
    by (simp, intro reports_looked reports_if reports_nothing reports_plain [OF quiet_ops(1) plain_ops(1)])
next
  case (InRenameTitle rid title)
  then show ?thesis by (simp add: reports_plain quiet_ops plain_ops)
next
  case InInterrupt
  then show ?thesis by (simp add: reports_plain quiet_ops plain_ops)
next
  case (InStart prompt)
  then show ?thesis by (simp add: reports_opening)
next
  case (InQueue rid prompt)
  then show ?thesis using assms by simp
next
  case (InMessage line)
  then show ?thesis by (simp add: reports_message)
next
  case (InApproval i input allow)
  then show ?thesis by (simp add: reports_plain quiet_ops plain_ops)
next
  case (InQuestionAnswer i input qs answers)
  then show ?thesis by (simp add: reports_plain quiet_ops plain_ops)
qed

section \<open>The order of a batch\<close>

definition batch :: "action list \<Rightarrow> bool" where
  "batch acts \<longleftrightarrow> (\<forall>x \<in> set (dropWhile (\<lambda>a. \<not> is_finished a) acts). settles x = [])"

lemma plains_batch: "plains acts \<Longrightarrow> batch acts"
  by (auto simp: batch_def list_all_iff dest: plain_settles set_dropWhileD)

lemma batch_trails: "batch acts \<Longrightarrow> trails acts out \<Longrightarrow> batch out"
proof -
  assume b: "batch acts" and "trails acts out"
  then obtain p q where out: "out = p @ acts @ q" and p: "plains p" "plains q" by (auto simp: trails_def)
  have "dropWhile (\<lambda>a. \<not> is_finished a) out = dropWhile (\<lambda>a. \<not> is_finished a) (acts @ q)"
    unfolding out using p(1) by (intro dropWhile_append2) (auto simp: list_all_iff dest: plain_settles)
  moreover have "settles x = []" if "x \<in> set (dropWhile (\<lambda>a. \<not> is_finished a) (acts @ q))" for x
  proof (cases "\<exists>a \<in> set acts. is_finished a")
    case True
    then show ?thesis using that b p(2) by (auto simp: batch_def dropWhile_append1 list_all_iff dest: plain_settles)
  next
    case False
    then have "x \<in> set q" using that by (auto simp: dropWhile_append2 dest: set_dropWhileD)
    then show ?thesis using p(2) by (auto simp: list_all_iff dest: plain_settles)
  qed
  ultimately show ?thesis by (simp add: batch_def)
qed

lemma batch_plain: "gives plains m \<Longrightarrow> gives batch m"
  by (rule gives_mono [OF _ plains_batch])

lemma batch_completed: "gives batch (turn_completed params)"
  unfolding gives_def by (auto simp: batch_def dest!: completed_apply split: if_splits)

lemmas batch_items = batch_plain [OF plain_items(1)] batch_plain [OF plain_items(2)] batch_plain [OF plain_ops(9)]

lemma batch_ret: "gives batch (ret [])" "plains acts \<Longrightarrow> gives batch (ret acts)"
  by (simp_all add: gives_ret plains_batch)

lemma batch_running: "gives batch (running_event method params)"
  unfolding running_event_def
  by (rule gives_if batch_items batch_completed batch_ret(1) gives_fail | rule batch_ret(2), simp)+

lemma batch_notify:
  assumes "\<And>v. gives batch (admit v)"
  shows "gives batch (tx_notify admit message)"
  unfolding tx_notify_def
  by (rule gives_let gives_then [where m = "look _"] assms gives_if gives_option batch_items batch_running batch_ret(1)
      | rule batch_ret(2), simp split: option.split)+

lemma batch_admit: "gives batch (tx_admit_turn enc turn)"
proof -
  have replay: "gives batch (case c of Some c \<Rightarrow> tx_notify (\<lambda>_. ret []) c | None \<Rightarrow> ret [])" for c
    by (intro gives_option batch_notify batch_ret)
  have rest: "gives batch (seq (case c of Some c \<Rightarrow> tx_notify (\<lambda>_. ret []) c | None \<Rightarrow> ret []) (admit_end enc thread))" for c thread
    by (rule gives_seq [OF replay]) (rule gives_mono [OF admit_end_trails], rule batch_trails)
  show ?thesis unfolding tx_admit_turn_def admit_end_def [symmetric]
    by (rule rest gives_then)+
qed

lemma batch_notification: "gives batch (tx_notification enc message)"
  unfolding tx_notification_def by (rule batch_notify [OF batch_admit])

lemmas batch_ops = plain_ops [THEN batch_plain] plain_opening [THEN batch_plain] plain_steer [THEN batch_plain]

lemma batch_response: "gives batch (tx_response enc message)"
proof -
  have rejected: "gives batch (rejected_request req err)" for req err
    unfolding rejected_request_def Let_def
    by (cases "pq_queued_input req")
      (auto simp: batch_def intro!: gives_then gives_fail gives_ret)
  have delivery: "batch [InputsConsumed ids]" for ids
    by (simp add: batch_def)
  have accepted: "gives batch (accepted_request enc req result)" for req result
    unfolding accepted_request_def steer_confirmed_def Let_def
    by (cases "pq_queued_input req")
      (auto intro!: gives_then gives_fail gives_ret batch_ops batch_admit delivery simp: plains_batch)
  show ?thesis unfolding tx_response_def
    by (rule batch_ret(1) rejected gives_seq [where M = "\<lambda>_. True" and f = "accepted_request enc _"] accepted
        gives_option gives_then [where m = "look _"] gives_then [where m = "change _"] | simp add: gives_def [of "\<lambda>_. True"])+
qed

lemma batch_message: "gives batch (tx_message enc str dec line)"
  unfolding tx_message_def
  by (rule gives_then [where m = "from_result _"] gives_if batch_notification batch_response batch_ops)+

lemma batch_advance: "gives batch (tx_advance enc str dec input)"
proof (cases input)
  case InDiscoverCommands
  then show ?thesis by (simp, intro gives_then batch_ops)
next
  case InOpen
  then show ?thesis by (simp, intro gives_then gives_if gives_fail batch_ops)
next
  case (InMessage line)
  then show ?thesis by (simp add: batch_message)
qed (simp_all add: batch_ops)

end
