(* ===== verification/TraexSession.thy ===== *)
theory TraexSession
  imports TraexLaws
begin

text \<open>
  The session of one Traex process: the states the adapter can reach, the limits of its tables, the life cycle
  of its phases and the approvals of the running turn, and the claims about the adapter.
\<close>

section \<open>Tables\<close>

text \<open>The lists stand for sets and maps, and each is within its limit.\<close>

definition tables :: "traex \<Rightarrow> bool" where
  "tables s \<longleftrightarrow>
     numbered s \<and> length (tx_pending s) \<le> 32 \<and>
     distinct (tx_steered s) \<and> length (tx_steered s) + length (queued_inputs s) \<le> 16 \<and>
     distinct (map fst (tx_early_completions s)) \<and> length (tx_early_completions s) \<le> 32 \<and>
     distinct (map fst (tx_approvals s)) \<and> length (tx_approvals s) \<le> 32 \<and>
     distinct (tx_streamed s) \<and> length (tx_streamed s) \<le> 4096 \<and>
     distinct (tx_tools s) \<and> length (tx_tools s) \<le> 4096 \<and>
     distinct (map fst (tx_background s)) \<and> length (tx_background s) \<le> 512 \<and>
     distinct (tx_children s) \<and> length (tx_children s) \<le> 512"

definition tabled :: "traex \<Rightarrow> traex \<Rightarrow> bool" where
  "tabled s t \<longleftrightarrow> (tables s \<longrightarrow> tables t)"

interpretation tabled: effect_frame tabled
  by unfold_locales (auto simp: tabled_def)

lemma alist_update_length: "length (AList.update k v kvs) \<le> (if map_of kvs k = None then Suc (length kvs) else length kvs)"
  by (induction kvs) auto

lemma update_within:
  "length kvs \<le> n \<Longrightarrow> \<not> (n \<le> length kvs \<and> map_of kvs k = None) \<Longrightarrow> length (AList.update k v kvs) \<le> n"
  using alist_update_length [of k v kvs] by (auto split: if_splits)

lemma insert_within:
  "length xs \<le> n \<Longrightarrow> \<not> (n \<le> length xs \<and> x \<notin> set xs) \<Longrightarrow> length (List.insert x xs) \<le> n"
  by (cases "x \<in> set xs") (simp_all add: List.insert_def)

lemma tabled_change:
  assumes "\<And>s. numbered (f s) = numbered s" and "\<And>s. tables s \<Longrightarrow> numbered (f s) \<Longrightarrow> tables (f s)"
  shows "framed tabled (change f)"
proof (rule tabled.framed_change)
  fix s show "tabled s (f s)" using assms unfolding tabled_def tables_def by blast
qed

lemma tabled_request: "framed tabled (tx_request enc method params)"
proof -
  have "tables (snd (tx_request enc method params s))" if "tables s" for s
  proof -
    from that have n: "numbered s" by (simp add: tables_def)
    let ?p = "\<lparr>pq_method = method, pq_interrupt_turn = (if method = ''turn/interrupt'' then tx_turn s else None),
                 pq_queued_input = None\<rparr>"
    show ?thesis using that numbered_request [OF n, of ?p] next_key_fresh [OF n]
      by (simp add: request_apply tables_def queued_inputs_def update_fresh List.map_filter_simps)
  qed
  then show ?thesis by (simp add: framed_def tabled_def)
qed

lemma numbered_same [simp]:
  "numbered (s\<lparr>tx_phase := ph\<rparr>) = numbered s" "numbered (s\<lparr>tx_turn := tn\<rparr>) = numbered s"
  "numbered (s\<lparr>tx_discovering := b\<rparr>) = numbered s" "numbered (s\<lparr>tx_thread := tn\<rparr>) = numbered s"
  "numbered (s\<lparr>tx_steered := xs\<rparr>) = numbered s" "numbered (s\<lparr>tx_early_completions := ec\<rparr>) = numbered s"
  "numbered (s\<lparr>tx_title := tn\<rparr>) = numbered s" "numbered (s\<lparr>tx_pending_prompt := tn\<rparr>) = numbered s"
  "numbered (s\<lparr>tx_platform_instructions := t\<rparr>) = numbered s" "numbered (s\<lparr>tx_native_instructions := tn\<rparr>) = numbered s"
  "numbered (s\<lparr>tx_config := c\<rparr>) = numbered s" "numbered (s\<lparr>tx_model_provider := tn\<rparr>) = numbered s"
  "numbered (s\<lparr>tx_approvals := ap\<rparr>) = numbered s" "numbered (s\<lparr>tx_streamed := xs\<rparr>) = numbered s"
  "numbered (s\<lparr>tx_tools := xs\<rparr>) = numbered s" "numbered (s\<lparr>tx_background := bg\<rparr>) = numbered s"
  "numbered (s\<lparr>tx_children := xs\<rparr>) = numbered s" "numbered (s\<lparr>tx_interrupt_requested := b\<rparr>) = numbered s"
  "numbered (s\<lparr>tx_rename := tn\<rparr>) = numbered s" "numbered (s\<lparr>tx_completed_turn := tn\<rparr>) = numbered s"
  "numbered (s\<lparr>tx_completed_success := b\<rparr>) = numbered s"
  by (simp_all add: numbered_def)

text \<open>Entering something into a table behind the test of its limit.\<close>

lemma tabled_guarded:
  "framed tabled (add_child c)" "framed tabled (early_completion message params)"
  "framed tabled (message_delta params)" "framed tabled (agent_message item i completed)"
  "framed tabled (tool_started kind i name item)" "framed tabled (backgrounded item i)"
  "framed tabled (tx_native_request enc str message)"
  unfolding framed_def tabled_def add_child_def early_completion_def message_delta_def agent_message_def
    tool_started_def backgrounded_def tx_native_request_def
  by (auto simp: eff_simps Let_def tables_def queued_inputs_def update_within insert_within distinct_update
        split: sum.split option.split)

lemma length_filter_bound: "length xs \<le> n \<Longrightarrow> length (filter P xs) \<le> n"
  by (rule le_trans [OF length_filter_le])

lemma distinct_filtered: "distinct (map fst kvs) \<Longrightarrow> distinct (map fst (filter P kvs))"
  by (induction kvs) auto

lemma length_delete_bound: "length kvs \<le> n \<Longrightarrow> length (AList.delete k kvs) \<le> n"
  by (rule le_trans [OF length_delete_le])

lemma length_remove_bound: "length xs \<le> n \<Longrightarrow> length (removeAll x xs) \<le> n"
  by (rule le_trans [OF length_removeAll_less_eq])

lemmas table_simps = tables_def queued_inputs_def distinct_delete distinct_filtered distinct_removeAll
  length_filter_bound length_delete_bound length_remove_bound

lemmas tabled_rules = tabled.framed_rules tabled_change tabled_request tabled_guarded

lemma tabled_item: "framed tabled (tx_item item completed)"
proof -
  have "framed tabled (collab_children item)"
    unfolding collab_children_def child_state_def by (intro tabled_rules; simp add: table_simps)
  moreover have "framed tabled (tool_completed kind i item)" for kind i
    unfolding tool_completed_def release_command_def by (intro tabled_rules; simp add: table_simps)
  ultimately show ?thesis unfolding tx_item_def by (intro tabled_rules)
qed

lemma tabled_ops:
  "framed tabled (tx_initialize enc)" "framed tabled (tx_start enc prompt)" "framed tabled (tx_interrupt enc)"
  "framed tabled (tx_open_thread enc)" "framed tabled title_confirmed" "framed tabled (tx_answer enc input qs answers)"
  "framed tabled (tx_approval enc dec i input allow)" "framed tabled (tx_rename_title enc title)"
  "framed tabled (turn_completed params)"
  unfolding tx_initialize_def tx_start_def tx_interrupt_def tx_open_thread_def title_confirmed_def tx_answer_def
    tx_approval_def tx_rename_title_def turn_completed_def
  by (intro tabled_rules; simp add: table_simps)+

lemma tabled_opening:
  "framed tabled (initialized enc)" "framed tabled (config_loaded enc native)" "framed tabled (thread_opened enc result)"
  "framed tabled (tx_start_turn enc prompt)"
  unfolding initialized_def config_loaded_def thread_opened_def tx_start_turn_def
  by (intro tabled_rules tabled_ops; simp add: table_simps)+

lemma tabled_notify:
  assumes "\<And>v. framed tabled (admit v)"
  shows "framed tabled (tx_notify admit message)"
  unfolding tx_notify_def running_event_def by (intro tabled_rules tabled_item tabled_ops assms)

lemma tabled_admit: "framed tabled (tx_admit_turn enc turn)"
  unfolding tx_admit_turn_def by (intro tabled_rules tabled_notify tabled_ops; simp add: table_simps)

lemma count_map_filter: "length (filter (\<lambda>(_, p). f p \<noteq> None) kvs) = length (List.map_filter (\<lambda>(_, p). f p) kvs)"
  by (induction kvs) (auto simp: List.map_filter_simps split: option.split)

lemma tabled_notification: "framed tabled (tx_notification enc message)"
  unfolding tx_notification_def by (rule tabled_notify [OF tabled_admit])

lemma tabled_steer: "framed tabled (tx_steer enc rid prompt)"
proof -
  have "tables t" if s: "tables s" and e: "tx_steer enc rid prompt s = (r, t)" for s r t
  proof -
    from s have n: "numbered s" by (simp add: tables_def)
    have count: "length (filter (\<lambda>(_, p). pq_queued_input p \<noteq> None) (tx_pending s)) = length (queued_inputs s)"
      by (simp only: queued_inputs_def count_map_filter)
    consider e where "tx_steer enc rid prompt s = (Inl e, s)"
      | turn a where "tx_counter s \<noteq> -1" and "length (tx_steered s) + length (queued_inputs s) < 16" and "length (tx_pending s) < 32"
        and "tx_steer enc rid prompt s = (Inr [a], s\<lparr>tx_counter := tx_counter s + 1,
          tx_pending := tx_pending s @ [(request_key (unat (tx_counter s + 1)),
            \<lparr>pq_method = ''turn/steer'', pq_interrupt_turn = None, pq_queued_input = Some (rid, turn)\<rparr>)]\<rparr>)"
      using steer_shape [OF n, unfolded count, of enc rid prompt] by blast
    then show ?thesis
    proof cases
      case 1
      then show ?thesis using e s by simp
    next
      case (2 turn a)
      then show ?thesis using e s numbered_request [OF n, of "\<lparr>pq_method = ''turn/steer'', pq_interrupt_turn = None,
            pq_queued_input = Some (rid, turn)\<rparr>"] next_key_fresh [OF n]
        by (auto simp: tables_def queued_inputs_def update_fresh List.map_filter_simps)
    qed
  qed
  then show ?thesis unfolding framed_def tabled_def by (metis surjective_pairing)
qed

lemma queued_length_without:
  assumes "distinct (map fst kvs)" and "map_of kvs i = Some p"
  shows "length (List.map_filter (\<lambda>(_, p). f p) kvs) =
    length (List.map_filter (\<lambda>(_, p). f p) (AList.delete i kvs)) + (if f p = None then 0 else 1)"
  using assms
proof (induction kvs)
  case (Cons kv kvs)
  then show ?case
    by (cases kv; cases "fst kv = i") (auto simp: List.map_filter_simps split: option.split)
qed simp

lemma tables_without: "tables s \<Longrightarrow> tables (without_request i s)"
proof -
  assume s: "tables s"
  then have d: "distinct (map fst (tx_pending s))" by (simp add: tables_def numbered_def)
  have "length (queued_inputs (without_request i s)) \<le> length (queued_inputs s)"
  proof (cases "map_of (tx_pending s) i")
    case None
    then show ?thesis by (simp add: without_request_def map_of_eq_None_iff)
  next
    case (Some p)
    then show ?thesis using queued_length_without [OF d Some, of pq_queued_input] by (simp add: queued_inputs_def without_request_def)
  qed
  moreover have "numbered (without_request i s)" using s by (simp add: tables_def numbered_without)
  ultimately show ?thesis using s by (simp add: tables_def length_delete_bound) (simp add: without_request_def length_delete_bound)
qed

lemma tabled_accepted:
  assumes "pq_queued_input req = None"
  shows "framed tabled (accepted_request enc req result)"
  using assms unfolding accepted_request_def Let_def
  by (simp only: option.case) (intro tabled_rules tabled_opening tabled_admit tabled_ops)

lemma tabled_rejected: "framed tabled (rejected_request req err)"
  unfolding rejected_request_def Let_def by (intro tabled_rules; simp add: table_simps)

lemma tabled_response: "framed tabled (tx_response enc message)"
proof -
  have "tables t" if s: "tables s" and e: "tx_response enc message s = (r, t)" for s r t
  proof (cases "\<exists>i req. json_str (json_field message ''id'') = Some i \<and> map_of (tx_pending s) i = Some req")
    case False
    then show ?thesis using e s by (auto simp: tx_response_def eff_simps split: option.splits)
  next
    case True
    then obtain i req where i: "json_str (json_field message ''id'') = Some i" "map_of (tx_pending s) i = Some req" by blast
    let ?u = "without_request i s"
    let ?m = "case json_get message ''error'' of
        Some err \<Rightarrow> rejected_request req err
      | None \<Rightarrow> seq (from_result (of_option ResultMissing (json_get message ''result''))) (accepted_request enc req)"
    have m: "?m ?u = (r, t)" using e i by (simp add: tx_response_def eff_simps without_request_def)
    have u: "tables ?u" using s by (rule tables_without)
    have d: "distinct (map fst (tx_pending s))" using s by (simp add: tables_def numbered_def)
    show ?thesis
    proof (cases "pq_queued_input req")
      case None
      then have "framed tabled ?m" by (intro tabled_rules tabled_accepted tabled_rejected)
      then show ?thesis using m u by (auto dest: framedD simp: tabled_def)
    next
      case (Some q)
      obtain rid turn where q: "q = (rid, turn)" by (cases q)
      have steered: "tables (?u\<lparr>tx_steered := List.insert rid (tx_steered ?u)\<rparr>)"
        using u s queued_length_without [OF d i(2), of pq_queued_input] Some
        by (auto simp: tables_def queued_inputs_def without_request_def insert_within List.insert_def)
      show ?thesis
      proof (cases "json_get message ''error''")
        case None
        then show ?thesis using m Some q u steered
          by (auto simp: eff_simps accepted_request_def steer_confirmed_def split: sum.splits if_splits)
      next
        case err: (Some v)
        then show ?thesis using m Some q u by (auto simp: eff_simps rejected_request_def Let_def)
      qed
    qed
  qed
  then show ?thesis unfolding framed_def tabled_def by (metis surjective_pairing)
qed

lemma tabled_advance: "framed tabled (tx_advance enc str dec input)"
proof (cases input)
  case InDiscoverCommands
  then show ?thesis by (simp, intro tabled_rules tabled_ops; simp add: table_simps)
next
  case InOpen
  then show ?thesis by (simp, intro tabled_rules tabled_ops)
next
  case (InMessage line)
  then show ?thesis
    by (simp add: tx_message_def, intro tabled_rules tabled_response tabled_notification)
qed (simp_all add: tabled_ops tabled_opening tabled_steer)

section \<open>Phases\<close>

text \<open>Which requests can be open in a phase.\<close>

fun allowed :: "traex_phase \<Rightarrow> string \<Rightarrow> bool" where
  "allowed PhFresh m = False"
| "allowed PhInitializing m = (m = ''initialize'')"
| "allowed PhOpening m = (m \<in> {''config/read'', ''thread/start'', ''thread/resume''})"
| "allowed _ m = (m \<notin> {''initialize'', ''config/read'', ''thread/start'', ''thread/resume''})"

definition phased :: "traex \<Rightarrow> bool" where
  "phased s \<longleftrightarrow>
     (\<forall>p \<in> snd ` set (tx_pending s). allowed (tx_phase s) (pq_method p)) \<and>
     (tx_phase s \<in> {PhInitializing, PhOpening} \<longrightarrow> length (tx_pending s) \<le> 1) \<and>
     (tx_turn s \<noteq> None \<longleftrightarrow> tx_phase s = PhRunning) \<and>
     (tx_phase s \<in> {PhReady, PhStarting, PhRunning} \<longrightarrow> tx_thread s \<noteq> None) \<and>
     (tx_phase s \<noteq> PhRunning \<longrightarrow> tx_approvals s = [])"

definition stays :: "traex \<Rightarrow> traex \<Rightarrow> bool" where
  "stays s t \<longleftrightarrow> (phased s \<longrightarrow> phased t \<and> tx_phase t = tx_phase s)"

interpretation stays: effect_frame stays
  by unfold_locales (auto simp: stays_def)

lemma stays_same:
  "tx_pending t = tx_pending s \<Longrightarrow> tx_phase t = tx_phase s \<Longrightarrow> tx_turn t = tx_turn s \<Longrightarrow> tx_thread t = tx_thread s \<Longrightarrow>
   tx_approvals t = tx_approvals s \<Longrightarrow> stays s t"
  by (simp add: stays_def phased_def)

lemma stays_core: "core_kept s t \<Longrightarrow> stays s t"
proof -
  assume "core_kept s t"
  then have "tx_pending (tx_core t) = tx_pending (tx_core s)" "tx_phase (tx_core t) = tx_phase (tx_core s)"
    "tx_turn (tx_core t) = tx_turn (tx_core s)" "tx_thread (tx_core t) = tx_thread (tx_core s)"
    "tx_approvals (tx_core t) = tx_approvals (tx_core s)"
    by (simp_all add: core_kept_def)
  then show ?thesis by (intro stays_same) (simp_all add: tx_core_def)
qed

lemma update_values: "snd ` set (AList.update k v kvs) \<subseteq> insert v (snd ` set kvs)"
  by (induction kvs) auto

lemma marked_allowed:
  "\<forall>p \<in> snd ` set kvs. allowed ph (pq_method p) \<Longrightarrow>
   \<forall>p \<in> snd ` set (map (\<lambda>(k, p). (k, if k = k' then p\<lparr>pq_queued_input := v\<rparr> else p)) kvs). allowed ph (pq_method p)"
  by (induction kvs) auto

lemma phased_allowed: "phased s \<Longrightarrow> \<forall>p \<in> snd ` set (tx_pending s). allowed (tx_phase s) (pq_method p)"
  unfolding phased_def by (elim conjE)

lemma phased_length: "phased s \<Longrightarrow> tx_phase s \<in> {PhInitializing, PhOpening} \<Longrightarrow> length (tx_pending s) \<le> 1"
  unfolding phased_def by (elim conjE) (erule mp)

lemma phased_pending:
  "phased s \<Longrightarrow> \<forall>p \<in> snd ` set kvs. allowed (tx_phase s) (pq_method p) \<Longrightarrow>
   (tx_phase s \<in> {PhInitializing, PhOpening} \<Longrightarrow> length kvs \<le> 1) \<Longrightarrow> phased (s\<lparr>tx_counter := c, tx_pending := kvs\<rparr>)"
  by (simp add: phased_def)

lemma request_phased:
  assumes "phased s" and "allowed (tx_phase s) method" and "tx_phase s \<in> {PhInitializing, PhOpening} \<Longrightarrow> tx_pending s = []"
  shows "phased (snd (tx_request enc method params s)) \<and> tx_phase (snd (tx_request enc method params s)) = tx_phase s"
proof -
  let ?k = "request_key (unat (tx_counter s + 1))"
  let ?p = "\<lparr>pq_method = method, pq_interrupt_turn = (if method = ''turn/interrupt'' then tx_turn s else None),
               pq_queued_input = None\<rparr>"
  have old: "\<forall>p \<in> snd ` set (tx_pending s). allowed (tx_phase s) (pq_method p)"
    using assms(1) unfolding phased_def by blast
  have "allowed (tx_phase s) (pq_method p)" if "p \<in> snd ` set (AList.update ?k ?p (tx_pending s))" for p
  proof (cases "p = ?p")
    case True
    then show ?thesis using assms(2) by simp
  next
    case False
    then show ?thesis using old that update_values [of ?k ?p "tx_pending s"] by blast
  qed
  moreover have "length (AList.update ?k ?p (tx_pending s)) \<le> 1" if "tx_phase s \<in> {PhInitializing, PhOpening}"
    using assms(3) [OF that] by simp
  ultimately have "phased (s\<lparr>tx_counter := tx_counter s + 1, tx_pending := AList.update ?k ?p (tx_pending s)\<rparr>)"
    by (intro phased_pending [OF assms(1)]) simp_all
  then show ?thesis using assms(1) unfolding request_apply by (simp split: if_split)
qed

text \<open>Everything that leaves the phase alone.\<close>

lemma stays_simple:
  "framed stays (tx_item item completed)" "framed stays (message_delta params)" "framed stays (early_completion message params)"
  "framed stays title_confirmed" "framed stays (tx_answer enc input qs answers)" "framed stays (steer_confirmed rid expected result)"
  "framed stays (rejected_request req err)"
proof -
  show "framed stays (tx_item item completed)" "framed stays (message_delta params)"
    using framed_item framed_delta by (auto simp: framed_def intro: stays_core)
  show "framed stays (early_completion message params)" "framed stays title_confirmed"
    "framed stays (tx_answer enc input qs answers)" "framed stays (steer_confirmed rid expected result)"
    "framed stays (rejected_request req err)"
    unfolding early_completion_def title_confirmed_def tx_answer_def steer_confirmed_def rejected_request_def
    by (intro stays.framed_rules stays.framed_change stays_same; simp)+
qed

lemma stays_approvals:
  "framed stays (tx_native_request enc str message)" "framed stays (tx_approval enc dec i input allow)"
proof -
  show "framed stays (tx_native_request enc str message)"
    unfolding framed_def stays_def tx_native_request_def
    by (auto simp: eff_simps Let_def phased_def split: sum.split option.split)
  have "stays s (s\<lparr>tx_approvals := AList.delete i (tx_approvals s)\<rparr>)" for s :: traex
    by (auto simp: stays_def phased_def)
  then show "framed stays (tx_approval enc dec i input allow)"
    unfolding tx_approval_def by (intro stays.framed_rules stays.framed_change)
qed

lemma stays_sent:
  "framed stays (tx_interrupt enc)" "framed stays (tx_rename_title enc title)" "framed stays (tx_steer enc rid prompt)"
proof -
  have sent: "stays s (snd (tx_request enc name params s))"
    if "tx_phase s \<in> {PhReady, PhStarting, PhRunning}"
      and "name \<notin> {''initialize'', ''config/read'', ''thread/start'', ''thread/resume''}" for s :: traex and name params
    using request_phased [of s name enc params] that by (auto simp: stays_def)
  show "framed stays (tx_interrupt enc)"
    unfolding framed_def
  proof
    fix s :: traex
    show "stays s (snd (tx_interrupt enc s))"
    proof (cases "tx_turn s")
      case None
      then show ?thesis by (simp add: tx_interrupt_def eff_simps stays_same)
    next
      case (Some turn)
      show ?thesis
      proof (cases "tx_phase s = PhRunning")
        case True
        then show ?thesis using Some sent [of s "''turn/interrupt''"]
          by (simp add: tx_interrupt_def eff_simps split: sum.split)
      next
        case False
        then show ?thesis using Some by (simp add: stays_def phased_def)
      qed
    qed
  qed
  show "framed stays (tx_rename_title enc title)"
    unfolding framed_def
  proof
    fix s :: traex
    let ?s = "s\<lparr>tx_rename := Some title\<rparr>"
    have s: "stays s ?s" by (simp add: stays_same)
    show "stays s (snd (tx_rename_title enc title s))"
    proof (cases "tx_phase s \<in> {PhReady, PhRunning} \<and> tx_rename s = None")
      case True
      then show ?thesis using sent [of ?s "''thread/name/set''"] stays.steps [OF s]
        by (auto simp: tx_rename_title_def eff_simps split: sum.split)
    next
      case False
      then show ?thesis by (auto simp: tx_rename_title_def eff_simps stays.same)
    qed
  qed
  show "framed stays (tx_steer enc rid prompt)"
    unfolding framed_def
  proof
    fix s :: traex
    have mark: "stays u (u\<lparr>tx_pending := map (\<lambda>(k, p). (k, if k = k' then p\<lparr>pq_queued_input := v\<rparr> else p)) (tx_pending u)\<rparr>)"
      for u :: traex and k' v
    proof -
      have "phased (u\<lparr>tx_counter := tx_counter u, tx_pending :=
          map (\<lambda>(k, p). (k, if k = k' then p\<lparr>pq_queued_input := v\<rparr> else p)) (tx_pending u)\<rparr>)" if u: "phased u"
      proof (rule phased_pending [OF u])
        show "\<forall>p \<in> snd ` set (map (\<lambda>(k, p). (k, if k = k' then p\<lparr>pq_queued_input := v\<rparr> else p)) (tx_pending u)).
            allowed (tx_phase u) (pq_method p)"
          by (rule marked_allowed [OF phased_allowed [OF u]])
      qed (use u in \<open>simp add: phased_def\<close>)
      then show ?thesis by (simp add: stays_def)
    qed
    show "stays s (snd (tx_steer enc rid prompt s))"
    proof (cases "tx_phase s = PhRunning")
      case True
      then have "stays s (snd (tx_request enc ''turn/steer'' params s))" for params
        by (intro sent) simp_all
      then show ?thesis using True
        by (auto simp: tx_steer_def eff_simps stays.same split: sum.split intro: stays.steps [OF _ mark])
    next
      case False
      then show ?thesis by (simp add: tx_steer_def eff_simps stays.same)
    qed
  qed
qed

section \<open>The life cycle\<close>

fun next_phases :: "traex_phase \<Rightarrow> traex_phase list" where
  "next_phases PhFresh = [PhInitializing]"
| "next_phases PhInitializing = [PhOpening]"
| "next_phases PhOpening = [PhReady, PhStarting]"
| "next_phases PhReady = [PhStarting]"
| "next_phases PhStarting = [PhRunning, PhReady]"
| "next_phases PhRunning = [PhReady]"

definition advances :: "traex \<Rightarrow> traex \<Rightarrow> bool" where
  "advances s t \<longleftrightarrow> phased t \<and> (tx_phase t = tx_phase s \<or> tx_phase t \<in> set (next_phases (tx_phase s)))"

lemma stays_moves: "framed stays m \<Longrightarrow> phased s \<Longrightarrow> m s = (r, t) \<Longrightarrow> advances s t"
  by (auto simp: advances_def stays_def dest: framedD)

lemma fresh_pending: "phased s \<Longrightarrow> tx_phase s = PhFresh \<Longrightarrow> tx_pending s = []"
  by (cases "tx_pending s") (auto simp: phased_def)

lemma initialize_moves:
  assumes "phased s" and "tx_phase s = PhFresh" and "tx_initialize enc s = (r, t)"
  shows "advances s t"
proof -
  let ?s = "s\<lparr>tx_phase := PhInitializing\<rparr>"
  have "phased ?s" using assms(1,2) fresh_pending [OF assms(1,2)] by (simp add: phased_def)
  moreover have "t = snd (tx_request enc ''initialize''
      (JObject [(''clientInfo'', JObject [(''name'', JString ''latte-work''), (''version'', JString ''0.1.0'')])]) ?s)"
    using assms(3) by (auto simp: tx_initialize_def eff_simps split: sum.splits)
  ultimately show ?thesis
    using request_phased [of ?s "''initialize''"] fresh_pending [OF assms(1,2)] assms(2) by (auto simp: advances_def)
qed

lemma start_moves:
  assumes "phased s" and "tx_phase s = PhReady" and "tx_start enc prompt s = (r, t)"
  shows "phased t \<and> tx_phase t \<in> {PhReady, PhStarting}"
proof -
  let ?s = "s\<lparr>tx_phase := PhStarting, tx_early_completions := [], tx_streamed := [], tx_tools := []\<rparr>"
  have s: "phased ?s" using assms(1,2) by (simp add: phased_def)
  have sent: "phased (snd (tx_request enc ''turn/start'' params ?s)) \<and> tx_phase (snd (tx_request enc ''turn/start'' params ?s)) = PhStarting"
    for params using request_phased [OF s, of "''turn/start''"] by simp
  show ?thesis
  proof (cases "slash prompt")
    case True
    then show ?thesis using assms by (auto simp: tx_start_def eff_simps)
  next
    case False
    then show ?thesis using assms(3) s sent
      by (auto simp: tx_start_def eff_simps of_option_def split: sum.splits option.splits)
  qed
qed

lemma open_thread_stays:
  assumes "phased s" and "tx_phase s = PhOpening" and "tx_pending s = []" and "tx_open_thread enc s = (r, t)"
  shows "phased t \<and> tx_phase t = PhOpening"
proof -
  have sent: "phased (snd (tx_request enc m params s)) \<and> tx_phase (snd (tx_request enc m params s)) = PhOpening"
    if "m \<in> {''thread/start'', ''thread/resume''}" for m params
    using request_phased [OF assms(1), of m] assms(2,3) that by auto
  show ?thesis using assms(1,2,4) sent [of "''thread/start''"] sent [of "''thread/resume''"]
    by (auto simp: tx_open_thread_def eff_simps Let_def split: sum.splits option.splits)
qed

lemma initialized_moves:
  assumes "phased s" and "tx_pending s = []" and "initialized enc s = (r, t)"
  shows "advances s t"
proof -
  let ?s = "s\<lparr>tx_phase := PhOpening\<rparr>"
  consider "tx_discovering s \<or> tx_phase s \<noteq> PhInitializing" | "\<not> tx_discovering s" and "tx_phase s = PhInitializing" by blast
  then show ?thesis
  proof cases
    case 1
    then show ?thesis using assms by (auto simp: initialized_def eff_simps advances_def split: if_splits)
  next
    case 2
    have s: "phased ?s" using assms(1,2) 2 by (simp add: phased_def)
    have opened: "phased (snd (tx_open_thread enc ?s)) \<and> tx_phase (snd (tx_open_thread enc ?s)) = PhOpening"
      using open_thread_stays [OF s] assms(2) by (cases "tx_open_thread enc ?s") simp
    have sent: "phased (snd (tx_request enc ''config/read'' params ?s)) \<and> tx_phase (snd (tx_request enc ''config/read'' params ?s)) = PhOpening"
      for params using request_phased [OF s, of "''config/read''"] assms(2) by simp
    show ?thesis using assms(3) 2 opened sent
      by (auto simp: initialized_def eff_simps advances_def split: sum.splits if_splits)
  qed
qed

lemma config_loaded_moves:
  assumes "phased s" and "tx_phase s = PhOpening" and "tx_pending s = []" and "config_loaded enc native s = (r, t)"
  shows "advances s t"
proof -
  let ?P = "\<lambda>s. phased s \<and> tx_phase s = PhOpening \<and> tx_pending s = []"
  let ?Q = "\<lambda>s. phased s \<and> tx_phase s = PhOpening"
  have provider: "ends ?P (if b then (case v of Some p \<Rightarrow> if p \<noteq> [] then change (\<lambda>s. s\<lparr>tx_model_provider := Some p\<rparr>)
      else fail ProviderMissing | None \<Rightarrow> fail ProviderMissing) else ret ()) (\<lambda>_. ?P) ?Q" for b v
    by (auto simp: ends_def eff_simps phased_def split: option.split)
  have opened: "ends ?P (tx_open_thread enc) (\<lambda>_. ?Q) ?Q"
    using open_thread_stays by (auto simp: ends_def split: sum.split)
  have "ends ?P (config_loaded enc native) (\<lambda>_. ?Q) ?Q"
    unfolding config_loaded_def
    by (rule ends_seq [OF ends_change [where Q = "\<lambda>_. ?P"]] ends_seq [OF ends_look [where Q = "\<lambda>_. ?P"]]
        ends_seq [OF provider] opened | simp add: phased_def)+
  then show ?thesis using assms by (auto simp: ends_def advances_def)
qed

lemma phased_same [simp]:
  "phased (s\<lparr>tx_title := tn, tx_rename := rn\<rparr>) = phased s" "phased (s\<lparr>tx_pending_prompt := tn\<rparr>) = phased s"
  "phased (s\<lparr>tx_early_completions := ec\<rparr>) = phased s" "phased (s\<lparr>tx_interrupt_requested := b\<rparr>) = phased s"
  by (simp_all add: phased_def)

lemma phased_ready: "phased s \<Longrightarrow> tx_phase s = PhOpening \<Longrightarrow> tx_pending s = [] \<Longrightarrow> phased (s\<lparr>tx_thread := Some th, tx_phase := PhReady\<rparr>)"
  by (simp add: phased_def)

lemma phased_running: "phased s \<Longrightarrow> tx_phase s = PhStarting \<Longrightarrow> phased (s\<lparr>tx_turn := Some i, tx_phase := PhRunning\<rparr>)"
  by (simp add: phased_def)

lemma ends_from_result: "(\<And>s. P s \<Longrightarrow> E s) \<Longrightarrow> ends P (from_result r) (\<lambda>_. P) E"
  by (auto simp: ends_def eff_simps split: sum.split)

lemma ends_snd: "ends P m (\<lambda>_. Q) E \<Longrightarrow> (\<And>s. Q s \<Longrightarrow> E s) \<Longrightarrow> P s \<Longrightarrow> E (snd (m s))"
  unfolding ends_def by (cases "m s", drule spec [of _ s]) (auto split: sum.splits)

lemma ends_same: "(\<And>s. P s \<Longrightarrow> Q (snd (m s))) \<Longrightarrow> (\<And>s. Q s \<Longrightarrow> E s) \<Longrightarrow> ends P m (\<lambda>_. Q) E"
  by (force simp: ends_def split: sum.split)

lemma thread_opened_moves:
  assumes "phased s" and "tx_phase s = PhOpening" and "tx_pending s = []" and "thread_opened enc result s = (r, t)"
  shows "advances s t"
proof -
  let ?O = "\<lambda>s. phased s \<and> tx_phase s = PhOpening \<and> tx_pending s = []"
  let ?P = "\<lambda>s. phased s \<and> tx_phase s = PhReady"
  let ?Q = "\<lambda>s. phased s \<and> (tx_phase s = PhOpening \<or> tx_phase s = PhReady \<or> tx_phase s = PhStarting)"
  have sent: "ends ?P (tx_request enc ''thread/name/set'' params) (\<lambda>_. ?P) ?Q" for params
  proof (rule ends_same)
    fix s :: traex
    assume "?P s"
    then show "?P (snd (tx_request enc ''thread/name/set'' params s))"
      using request_phased [of s "''thread/name/set''" enc params] by simp
  qed simp
  have named: "ends ?P (case title of None \<Rightarrow> ret [] | Some x \<Rightarrow> seq (change (\<lambda>s. s\<lparr>tx_title := None, tx_rename := Some x\<rparr>))
      (\<lambda>_. seq (tx_request enc ''thread/name/set'' (f x)) (\<lambda>a. ret [a]))) (\<lambda>_. ?P) ?Q" for title f
    by (cases title) (auto intro!: ends_ret ends_seq [OF ends_change [where Q = "\<lambda>_. ?P"]] ends_seq [OF sent])
  have start: "ends ?P (tx_start enc x) (\<lambda>_. ?Q) ?Q" for x
    using start_moves [of _ enc x] by (fastforce simp: ends_def split: sum.split)
  have started: "ends ?P (case prompt of None \<Rightarrow> ret [] | Some x \<Rightarrow> seq (change (\<lambda>s. s\<lparr>tx_pending_prompt := None\<rparr>))
      (\<lambda>_. tx_start enc x)) (\<lambda>_. ?Q) ?Q" for prompt
    by (cases prompt) (auto intro!: ends_ret ends_seq [OF ends_change [where Q = "\<lambda>_. ?P"]] start)
  have ready: "ends ?O (change (\<lambda>s. s\<lparr>tx_thread := Some th, tx_phase := PhReady\<rparr>)) (\<lambda>_. ?P) ?Q" for th
    by (rule ends_change) (simp add: phased_ready)
  have "ends ?O (thread_opened enc result) (\<lambda>_. ?Q) ?Q"
    unfolding thread_opened_def
    by (rule ends_seq [where P = ?O, OF ends_from_result] ends_seq [OF ends_look [where P = ?O and Q = "\<lambda>_. ?O"]]
        ends_seq [OF ends_require [where P = ?O and Q = "\<lambda>_. ?O"]] ends_seq [OF ready] ends_seq [OF named]
        ends_seq [OF started] ends_ret | (simp; fail))+
  then have "?Q (snd (thread_opened enc result s))" by (rule ends_snd) (use assms in simp_all)
  then show ?thesis using assms by (auto simp: advances_def)
qed

lemma completed_moves:
  assumes "phased s" and "tx_phase s = PhRunning" and "turn_completed params s = (r, t)"
  shows "advances s t"
proof (cases r)
  case (Inl e)
  then show ?thesis using assms completed_failed by (auto simp: advances_def)
next
  case (Inr acts)
  then obtain failed where "t = s\<lparr>tx_phase := PhReady, tx_approvals := [], tx_completed_turn := tx_turn s, tx_turn := None,
             tx_completed_success := \<not> failed, tx_streamed := [], tx_tools := [], tx_steered := []\<rparr>"
    using assms(3) completed_apply [of params s acts t] by blast
  then show ?thesis using assms(1,2) by (simp add: advances_def phased_def)
qed

text \<open>From one state, whatever the outcome.\<close>

definition led :: "traex \<Rightarrow> action list tx \<Rightarrow> bool" where
  "led s m \<longleftrightarrow> advances s (snd (m s))"

lemma led_if: "(c \<Longrightarrow> led s m) \<Longrightarrow> (\<not> c \<Longrightarrow> led s n) \<Longrightarrow> led s (if c then m else n)"
  by simp

lemma led_option: "(v = None \<Longrightarrow> led s m) \<Longrightarrow> (\<And>x. v = Some x \<Longrightarrow> led s (f x)) \<Longrightarrow> led s (case v of None \<Rightarrow> m | Some x \<Rightarrow> f x)"
  by (cases v) simp_all

lemma led_stays: "framed stays m \<Longrightarrow> phased s \<Longrightarrow> led s m"
  by (simp add: led_def framed_def stays_def advances_def)

lemma led_nothing: "phased s \<Longrightarrow> led s (ret x)" "phased s \<Longrightarrow> led s (fail e)"
  by (simp_all add: led_stays stays.framed_ret stays.framed_fail)

lemma led_look: "led s (f (g s)) \<Longrightarrow> led s (seq (look g) f)"
  by (simp add: led_def eff_simps)

lemma running_moves: "phased s \<Longrightarrow> tx_phase s = PhRunning \<Longrightarrow> led s (running_event method params)"
  unfolding running_event_def
  by (intro led_if led_nothing led_stays [OF stays_simple(1)] led_stays [OF stays_simple(2)])
    (auto simp: led_def intro: completed_moves surjective_pairing)

lemma notify_moves:
  assumes "phased s" and "\<And>v. tx_phase s = PhStarting \<Longrightarrow> led s (admit v)"
  shows "led s (tx_notify admit message)"
proof -
  have turn: "tx_turn s \<noteq> None \<longleftrightarrow> tx_phase s = PhRunning" using assms(1) by (simp add: phased_def)
  show ?thesis unfolding tx_notify_def Let_def
    by (intro led_look led_if led_option led_nothing [OF assms(1)] assms(2) led_stays [OF stays_simple(1) assms(1)]
        led_stays [OF stays_simple(3) assms(1)] running_moves [OF assms(1)]) (use turn in auto)
qed

lemma admit_moves:
  assumes "phased s" and "tx_phase s = PhStarting"
  shows "led s (tx_admit_turn enc turn)"
proof -
  let ?S = "\<lambda>s. phased s \<and> tx_phase s = PhStarting"
  let ?P = "\<lambda>s. phased s \<and> tx_phase s = PhRunning"
  let ?R = "\<lambda>s. phased s \<and> tx_phase s \<in> {PhRunning, PhReady}"
  let ?E = "\<lambda>s. phased s \<and> tx_phase s \<in> {PhStarting, PhRunning, PhReady}"
  have replay: "ends ?P (case c of Some c \<Rightarrow> tx_notify (\<lambda>_. ret []) c | None \<Rightarrow> ret []) (\<lambda>_. ?R) ?E" for c
  proof (rule ends_same)
    fix s :: traex
    assume s: "?P s"
    then have "led s (tx_notify (\<lambda>_. ret []) c)" for c by (intro notify_moves) auto
    then show "?R (snd ((case c of Some c \<Rightarrow> tx_notify (\<lambda>_. ret []) c | None \<Rightarrow> ret []) s))"
      using s by (cases c) (auto simp: led_def advances_def eff_simps)
  qed simp
  have stop: "ends ?R (if b then tx_interrupt enc else ret []) (\<lambda>_. ?R) ?E" for b
    using stays_sent(1) [of enc] by (intro ends_same) (auto simp: framed_def stays_def eff_simps)
  have admitted: "ends ?S (change (\<lambda>s. s\<lparr>tx_turn := Some i, tx_phase := PhRunning\<rparr>)) (\<lambda>_. ?P) ?E" for i
    by (rule ends_change) (simp add: phased_running)
  have cleared: "ends ?P (change (\<lambda>s. s\<lparr>tx_early_completions := []\<rparr>)) (\<lambda>_. ?P) ?E"
    by (rule ends_change) simp
  have "ends ?S (tx_admit_turn enc turn) (\<lambda>_. ?R) ?E"
    unfolding tx_admit_turn_def
    by (rule ends_seq [where P = ?S, OF ends_from_result] ends_seq [OF admitted] ends_seq [where P = ?P, OF ends_from_result]
        ends_seq [OF ends_look [where P = ?P and Q = "\<lambda>_. ?P"]] ends_seq [OF cleared] ends_seq [OF replay]
        ends_seq [OF ends_look [where P = ?R and Q = "\<lambda>_. ?R"]]
        ends_seq [OF ends_change [where P = ?R and Q = "\<lambda>_. ?R"]] ends_seq [OF stop] ends_ret
      | (simp; fail))+
  then have "?E (snd (tx_admit_turn enc turn s))" by (rule ends_snd) (use assms in simp_all)
  then show ?thesis using assms by (auto simp: led_def advances_def)
qed

lemma without_moves:
  assumes "phased s" and "map_of (tx_pending s) i = Some req"
  shows "phased (without_request i s)" and "tx_phase s \<in> {PhInitializing, PhOpening} \<Longrightarrow> tx_pending (without_request i s) = []"
    and "allowed (tx_phase s) (pq_method req)"
proof -
  have sub: "set (AList.delete i (tx_pending s)) \<subseteq> set (tx_pending s)" by (auto simp: AList.delete_eq)
  have "phased (s\<lparr>tx_counter := tx_counter s, tx_pending := AList.delete i (tx_pending s)\<rparr>)"
  proof (rule phased_pending [OF assms(1)])
    show "\<forall>p \<in> snd ` set (AList.delete i (tx_pending s)). allowed (tx_phase s) (pq_method p)"
      using phased_allowed [OF assms(1)] sub by blast
    show "length (AList.delete i (tx_pending s)) \<le> 1" if "tx_phase s \<in> {PhInitializing, PhOpening}"
      by (rule length_delete_bound) (rule phased_length [OF assms(1) that])
  qed
  then show "phased (without_request i s)" by (simp add: without_request_def)
  show "tx_pending (without_request i s) = []" if "tx_phase s \<in> {PhInitializing, PhOpening}"
  proof -
    have "length (tx_pending s) \<le> 1" by (rule phased_length [OF assms(1) that])
    then show ?thesis using assms(2)
      by (cases "tx_pending s") (auto simp: without_request_def split: if_splits)
  qed
  have "req \<in> snd ` set (tx_pending s)" using map_of_SomeD [OF assms(2)] by (force intro: rev_image_eqI)
  then show "allowed (tx_phase s) (pq_method req)" using phased_allowed [OF assms(1)] by blast
qed

lemma accepted_moves:
  assumes "phased s" and "allowed (tx_phase s) (pq_method req)"
    and "tx_phase s \<in> {PhInitializing, PhOpening} \<Longrightarrow> tx_pending s = []"
  shows "led s (accepted_request enc req result)"
proof (cases "pq_queued_input req")
  case (Some q)
  then show ?thesis using led_stays [OF stays_simple(6) assms(1)] by (cases q) (simp add: accepted_request_def)
next
  case None
  have led: "led s m" if "\<And>r t. m s = (r, t) \<Longrightarrow> advances s t" for m
    using that by (cases "m s") (simp add: led_def)
  have phase: "pq_method req = ''initialize'' \<Longrightarrow> tx_phase s = PhInitializing"
    "pq_method req \<in> {''config/read'', ''thread/start'', ''thread/resume''} \<Longrightarrow> tx_phase s = PhOpening"
    using assms(2) by (cases "tx_phase s"; auto)+
  show ?thesis unfolding accepted_request_def None Let_def option.case
  proof (intro led_if led_look led_nothing [OF assms(1)] led_stays [OF stays_simple(4) assms(1)])
    show "led s (initialized enc)" if "pq_method req = ''initialize''"
      using led initialized_moves [OF assms(1) assms(3)] phase(1) [OF that] by blast
    show "led s (config_loaded enc (json_field result ''config''))" if "pq_method req = ''config/read''"
      using led config_loaded_moves [OF assms(1) _ assms(3)] phase(2) that by blast
    show "led s (thread_opened enc result)" if "pq_method req \<in> {''thread/start'', ''thread/resume''}"
      using led thread_opened_moves [OF assms(1) _ assms(3)] phase(2) that by blast
  qed (rule admit_moves [OF assms(1)])
qed

lemma response_moves: "phased s \<Longrightarrow> led s (tx_response enc message)"
proof -
  assume s: "phased s"
  show ?thesis
  proof (cases "\<exists>i req. json_str (json_field message ''id'') = Some i \<and> map_of (tx_pending s) i = Some req")
    case False
    then show ?thesis using s by (auto simp: tx_response_def led_def advances_def eff_simps split: option.splits)
  next
    case True
    then obtain i req where i: "json_str (json_field message ''id'') = Some i" "map_of (tx_pending s) i = Some req" by blast
    let ?u = "without_request i s"
    let ?m = "case json_get message ''error'' of
        Some err \<Rightarrow> rejected_request req err
      | None \<Rightarrow> seq (from_result (of_option ResultMissing (json_get message ''result''))) (accepted_request enc req)"
    note u = without_moves [OF s i(2)]
    have ph: "tx_phase ?u = tx_phase s" by (simp add: without_request_def)
    have "led ?u (accepted_request enc req result)" for result
      by (rule accepted_moves) (use u ph in simp_all)
    moreover have "led ?u (rejected_request req v)" for v by (rule led_stays [OF stays_simple(7) u(1)])
    ultimately have "led ?u ?m" using u(1)
      by (auto simp: led_def eff_simps advances_def split: option.split sum.split)
    moreover have "tx_response enc message s = ?m ?u" using i by (simp add: tx_response_def eff_simps without_request_def)
    ultimately show ?thesis by (simp add: led_def advances_def ph)
  qed
qed

lemma message_moves: "phased s \<Longrightarrow> led s (tx_message enc str dec line)"
proof -
  assume s: "phased s"
  have notification: "led s (tx_notification enc message)" for message
    unfolding tx_notification_def by (rule notify_moves [OF s]) (rule admit_moves [OF s])
  show ?thesis unfolding tx_message_def
    by (cases "dec line")
      (use s notification response_moves [OF s] led_stays [OF stays_approvals(1) s] in
        \<open>auto simp: led_def eff_simps advances_def of_option_def\<close>)
qed

lemma advance_moves:
  assumes "phased s" and "input = InDiscoverCommands \<Longrightarrow> tx_phase s = PhFresh"
  shows "led s (tx_advance enc str dec input)"
proof (cases input)
  case InDiscoverCommands
  let ?s = "s\<lparr>tx_discovering := True\<rparr>"
  have "phased ?s" "tx_phase ?s = PhFresh" using assms InDiscoverCommands by (simp_all add: phased_def)
  then have "advances ?s (snd (tx_initialize enc ?s))" using initialize_moves by (metis surjective_pairing)
  then show ?thesis using InDiscoverCommands by (simp add: led_def eff_simps advances_def)
next
  case InOpen
  have "led s (tx_initialize enc)" if "tx_phase s = PhFresh"
    using initialize_moves [OF assms(1) that] by (metis led_def surjective_pairing)
  then show ?thesis using InOpen assms(1) by (simp add: led_look led_if led_nothing)
next
  case (InStart prompt)
  let ?s = "s\<lparr>tx_pending_prompt := Some prompt\<rparr>"
  have "advances ?s (snd (tx_initialize enc ?s))" if "tx_phase s = PhFresh"
    using initialize_moves [of ?s] assms(1) that by (metis phased_same(2) surjective_pairing traex.select_convs(1) traex.surjective traex.update_convs(12))
  moreover have "led s (tx_start enc prompt)" if "tx_phase s = PhReady"
    using start_moves [OF assms(1) that] that by (cases "tx_start enc prompt s") (auto simp: led_def advances_def)
  ultimately show ?thesis using InStart assms(1)
    by (auto simp: tx_start_turn_def led_def eff_simps advances_def)
next
  case (InMessage line)
  then show ?thesis using message_moves [OF assms(1)] by simp
qed (use assms in \<open>simp_all add: led_stays stays_sent stays_approvals stays_simple\<close>)

end
