(* ===== verification/TraexCredential.thy ===== *)
theory TraexCredential
  imports TraexSession
begin

text \<open>
  The credential of a provider leaves the server in the environment of the Traex process and nowhere else
  (\<open>agents/traex_provider.rs\<close>): as a non-interference of the adapter. \<open>blind c m\<close> says that replacing the
  credential in the state by \<open>c\<close> changes neither the outcome of \<open>m\<close> nor anything it leaves but the credential.
\<close>

definition with_credential :: "string \<Rightarrow> launch_config \<Rightarrow> launch_config" where
  "with_credential c cfg = cfg\<lparr>lc_provider := map_option (\<lambda>p. p\<lparr>rp_credential := c\<rparr>) (lc_provider cfg)\<rparr>"

definition recredited :: "string \<Rightarrow> traex \<Rightarrow> traex" where
  "recredited c s = s\<lparr>tx_config := map_option (with_credential c) (tx_config s)\<rparr>"

definition blind :: "string \<Rightarrow> 'b tx \<Rightarrow> bool" where
  "blind c m \<longleftrightarrow> (\<forall>s. m (recredited c s) = (fst (m s), recredited c (snd (m s))))"

lemma blind_pure: "blind c (ret x)" "blind c (fail e)" "blind c (require b e)" "blind c (from_result r)"
  by (simp_all add: blind_def eff_simps)

lemma blind_seq: "blind c m \<Longrightarrow> (\<And>x. blind c (f x)) \<Longrightarrow> blind c (seq m f)"
  by (simp add: blind_def seq_apply split: sum.split)

lemma blind_look: "(\<And>s. g (recredited c s) = g s) \<Longrightarrow> blind c (look g)"
  by (simp add: blind_def eff_simps)

lemma blind_state: "(\<And>s. f (recredited c s) = f s) \<Longrightarrow> (\<And>s. blind c (f s)) \<Longrightarrow> blind c (seq (look (\<lambda>s. s)) f)"
  by (simp add: blind_def eff_simps)

lemma blind_config: "(\<And>v. f (map_option (with_credential c) v) = f v) \<Longrightarrow> (\<And>v. blind c (f v)) \<Longrightarrow> blind c (seq (look tx_config) f)"
  by (simp add: blind_def eff_simps recredited_def)

lemma blind_change: "(\<And>s. f (recredited c s) = recredited c (f s)) \<Longrightarrow> blind c (change f)"
  by (simp add: blind_def eff_simps)

lemma blind_if: "blind c m \<Longrightarrow> blind c n \<Longrightarrow> blind c (if b then m else n)"
  by simp

lemma blind_option: "blind c m \<Longrightarrow> (\<And>x. blind c (f x)) \<Longrightarrow> blind c (case v of None \<Rightarrow> m | Some x \<Rightarrow> f x)"
  by (cases v) simp_all

lemma blind_prod: "(\<And>x y. blind c (f x y)) \<Longrightarrow> blind c (case v of (x, y) \<Rightarrow> f x y)"
  by (cases v) simp

lemma blind_each: "(\<And>x. blind c (f x)) \<Longrightarrow> blind c (each f xs)"
  by (induction xs) (simp_all add: blind_pure blind_seq)

lemma recredited_fields [simp]:
  "tx_phase (recredited c s) = tx_phase s" "tx_discovering (recredited c s) = tx_discovering s"
  "tx_cwd (recredited c s) = tx_cwd s" "tx_resume (recredited c s) = tx_resume s" "tx_thread (recredited c s) = tx_thread s"
  "tx_turn (recredited c s) = tx_turn s" "tx_completed_turn (recredited c s) = tx_completed_turn s"
  "tx_completed_success (recredited c s) = tx_completed_success s" "tx_steered (recredited c s) = tx_steered s"
  "tx_early_completions (recredited c s) = tx_early_completions s" "tx_title (recredited c s) = tx_title s"
  "tx_pending_prompt (recredited c s) = tx_pending_prompt s"
  "tx_platform_instructions (recredited c s) = tx_platform_instructions s"
  "tx_native_instructions (recredited c s) = tx_native_instructions s"
  "tx_model_provider (recredited c s) = tx_model_provider s" "tx_counter (recredited c s) = tx_counter s"
  "tx_pending (recredited c s) = tx_pending s" "tx_approvals (recredited c s) = tx_approvals s"
  "tx_streamed (recredited c s) = tx_streamed s" "tx_tools (recredited c s) = tx_tools s"
  "tx_background (recredited c s) = tx_background s" "tx_children (recredited c s) = tx_children s"
  "tx_interrupt_requested (recredited c s) = tx_interrupt_requested s" "tx_rename (recredited c s) = tx_rename s"
  by (simp_all add: recredited_def)

lemma with_credential_fields [simp]:
  "lc_settings_dir (with_credential c cfg) = lc_settings_dir cfg" "lc_model (with_credential c cfg) = lc_model cfg"
  "lc_traex_model (with_credential c cfg) = lc_traex_model cfg" "lc_effort (with_credential c cfg) = lc_effort cfg"
  "lc_permission_mode (with_credential c cfg) = lc_permission_mode cfg" "config_model (with_credential c cfg) = config_model cfg"
  "lc_provider (with_credential c cfg) = None \<longleftrightarrow> lc_provider cfg = None"
  "native_model native (with_credential c cfg) = with_credential c (native_model native cfg)"
  by (simp_all add: with_credential_def config_model_def native_model_def Let_def cong: option.case_cong)

lemma config_recredited: "tx_config (recredited c s) = map_option (with_credential c) (tx_config s)"
  by (simp add: recredited_def)

lemmas blind_rules = blind_option blind_prod blind_pure blind_seq blind_each blind_if

lemma blind_request: "blind c (tx_request enc method params)"
  by (auto simp: blind_def request_apply) (simp_all add: recredited_def)

lemma blind_items:
  "blind c (agent_message item i completed)" "blind c (collab_children item)" "blind c (tool_started kind i name item)"
  "blind c (tool_completed kind i item)" "blind c (message_delta params)"
  unfolding agent_message_def collab_children_def child_state_def add_child_def tool_started_def tool_completed_def
    backgrounded_def release_command_def message_delta_def Let_def
  by (intro blind_state blind_rules blind_look blind_change; simp add: recredited_def cong: option.case_cong)+

lemma blind_item: "blind c (tx_item item completed)"
  unfolding tx_item_def by (intro blind_rules blind_items)

lemma blind_sent: "blind c (seq (tx_request enc method params) (\<lambda>a. ret [a]))"
  by (intro blind_rules blind_request)

lemma blind_simple:
  "blind c (tx_initialize enc)" "blind c (tx_interrupt enc)" "blind c title_confirmed" "blind c (tx_answer enc input qs answers)"
  "blind c (tx_approval enc dec i input allow)" "blind c (tx_native_request enc str message)"
  "blind c (tx_rename_title enc title)" "blind c (early_completion message params)" "blind c (turn_completed params)"
  "blind c (rejected_request req err)" "blind c (steer_confirmed rid expected result)"
  unfolding tx_initialize_def tx_interrupt_def title_confirmed_def tx_answer_def tx_approval_def tx_native_request_def
    tx_rename_title_def early_completion_def turn_completed_def rejected_request_def steer_confirmed_def Let_def
  by (intro blind_state blind_sent blind_rules blind_look blind_change; simp add: recredited_def cong: option.case_cong)+

lemma blind_steer: "blind c (tx_steer enc rid prompt)"
  unfolding tx_steer_def
  by (intro blind_state blind_rules blind_request blind_change; simp add: recredited_def cong: option.case_cong if_cong)

lemma blind_start: "blind c (tx_start enc prompt)"
proof -
  have same: "seq (from_result (of_option ConfigMissing (tx_config (recredited c s)))) (f (recredited c s)) =
      seq (from_result (of_option ConfigMissing (tx_config s))) (f s)"
    if "\<And>cfg. f (recredited c s) (with_credential c cfg) = f s cfg" for f :: "traex \<Rightarrow> launch_config \<Rightarrow> action list tx" and s
    by (cases "tx_config s") (simp_all add: config_recredited of_option_def fun_eq_iff eff_simps that)
  show ?thesis unfolding tx_start_def
    by (intro blind_pure blind_seq [OF blind_pure(3)] blind_seq [OF blind_change] blind_state same blind_seq [OF blind_pure(4)] blind_sent;
        simp add: recredited_def cong: option.case_cong)
qed

lemma blind_open: "blind c (tx_open_thread enc)"
proof -
  have same: "seq (from_result (of_option ConfigMissing (tx_config (recredited c s)))) (f (recredited c s)) =
      seq (from_result (of_option ConfigMissing (tx_config s))) (f s)"
    if "\<And>cfg. f (recredited c s) (with_credential c cfg) = f s cfg" for f :: "traex \<Rightarrow> launch_config \<Rightarrow> action list tx" and s
    by (cases "tx_config s") (simp_all add: config_recredited of_option_def fun_eq_iff eff_simps that)
  show ?thesis unfolding tx_open_thread_def Let_def
    by (intro blind_state same blind_rules blind_request; simp add: instructions_of_def Let_def cong: option.case_cong if_cong)
qed

lemma blind_opening:
  "blind c (initialized enc)" "blind c (config_loaded enc native)" "blind c (thread_opened enc result)"
  "blind c (tx_start_turn enc prompt)"
proof -
  have provider: "(case tx_config (recredited c s) of Some g \<Rightarrow> lc_provider g \<noteq> None | None \<Rightarrow> False) =
      (case tx_config s of Some g \<Rightarrow> lc_provider g \<noteq> None | None \<Rightarrow> False)" for s
    by (simp add: config_recredited del: not_None_eq split: option.split)
  show "blind c (initialized enc)" unfolding initialized_def
    by (intro blind_state blind_rules blind_request blind_open blind_change; simp add: provider cong: if_cong)
      (simp add: recredited_def)
  show "blind c (config_loaded enc native)" unfolding config_loaded_def
    by (intro blind_config blind_rules blind_open blind_change)
      (auto simp: recredited_def option.map_comp comp_def split: option.split)
  show "blind c (thread_opened enc result)" unfolding thread_opened_def
    by (intro blind_state blind_rules blind_request blind_start blind_change; simp add: recredited_def cong: option.case_cong)
  show "blind c (tx_start_turn enc prompt)" unfolding tx_start_turn_def
    by (intro blind_rules blind_look blind_simple blind_start blind_change; simp add: recredited_def)
qed

lemma blind_notify:
  assumes "\<And>v. blind c (admit v)"
  shows "blind c (tx_notify admit message)"
  unfolding tx_notify_def Let_def running_event_def
  by (intro blind_state blind_rules assms blind_item blind_items blind_simple; simp add: late_command_def cong: option.case_cong if_cong)

lemma blind_admit: "blind c (tx_admit_turn enc turn)"
  unfolding tx_admit_turn_def
  by (intro blind_rules blind_look blind_notify blind_simple blind_change; simp add: recredited_def)

lemma blind_notification: "blind c (tx_notification enc message)"
  unfolding tx_notification_def by (rule blind_notify [OF blind_admit])

lemma blind_response: "blind c (tx_response enc message)"
proof -
  have "blind c (accepted_request enc req result)" for req result
    unfolding accepted_request_def Let_def
    by (intro blind_rules blind_look blind_simple blind_opening blind_admit; simp)
  then show ?thesis unfolding tx_response_def
    by (intro blind_rules blind_look blind_change blind_simple; simp add: recredited_def)
qed

lemma blind_advance: "blind c (tx_advance enc str dec input)"
proof (cases input)
  case InDiscoverCommands
  then show ?thesis by (simp, intro blind_rules blind_simple blind_change; simp add: recredited_def)
next
  case InOpen
  then show ?thesis by (simp, intro blind_rules blind_look blind_simple; simp)
next
  case (InMessage line)
  then show ?thesis
    by (simp add: tx_message_def, intro blind_rules blind_simple blind_notification blind_response)
qed (simp_all add: blind_simple blind_steer blind_opening)

section \<open>Launches\<close>

definition same_command :: "agent_command \<Rightarrow> agent_command \<Rightarrow> bool" where
  "same_command a b \<longleftrightarrow> cmd_args a = cmd_args b \<and> cmd_cwd a = cmd_cwd b \<and>
     (map_of (cmd_env a))(TOKEN := None) = (map_of (cmd_env b))(TOKEN := None)"

lemma configure_same:
  "rel_option same_command (configure_provider u str cmd (p\<lparr>rp_credential := c\<rparr>) i) (configure_provider u str cmd p i)"
  by (simp add: configure_provider_def Let_def same_command_def update_conv' split: option.split)

text \<open>Two launches with different credentials, side by side.\<close>

definition launches_alike :: "string \<Rightarrow> (traex_error + agent_command) \<times> traex \<Rightarrow> (traex_error + agent_command) \<times> traex \<Rightarrow> bool" where
  "launches_alike c a b \<longleftrightarrow>
     (case (fst a, fst b) of
        (Inl e, Inl e') \<Rightarrow> e = e'
      | (Inr cmd, Inr cmd') \<Rightarrow> same_command cmd cmd' \<and> snd a = recredited c (snd b)
      | _ \<Rightarrow> False)"

lemma command_alike:
  "launches_alike c (tx_command u str skills fresh base cwd resume (with_credential c cfg) s)
     (tx_command u str skills fresh base cwd resume cfg s)"
proof (cases "lc_provider cfg")
  case None
  then show ?thesis
    by (simp add: tx_command_def eff_simps Let_def launches_alike_def same_command_def with_credential_def recredited_def
        del: insert_iff)
next
  case (Some p)
  let ?cmd = "base\<lparr>cmd_args := cmd_args base @ [''app-server'', ''--stdio''], cmd_cwd := cwd\<rparr>"
  show ?thesis using configure_same [where u = u and str = str and cmd = ?cmd and p = p and c = c and i = fresh] Some
    by (cases "configure_provider u str ?cmd p fresh"; cases "configure_provider u str ?cmd (p\<lparr>rp_credential := c\<rparr>) fresh")
      (simp_all add: tx_command_def eff_simps Let_def launches_alike_def with_credential_def recredited_def of_option_def
        del: insert_iff)
qed

section \<open>Claim\<close>

text \<open>C22: the credential of the provider reaches the agent through its environment alone. Launches with two
  credentials fail alike or give the same arguments, working directory and environment up to the value of the
  token variable; from states that differ in the credential only, each input gives the same actions, hence the
  same bytes to the agent, and leaves states that again differ in the credential only.\<close>

theorem traex_credential_confined:
  "launches_alike c (tx_command u str skills fresh base cwd resume (with_credential c cfg) s)
     (tx_command u str skills fresh base cwd resume cfg s) \<and>
   tx_advance enc ser dec input (recredited c s) =
     (fst (tx_advance enc ser dec input s), recredited c (snd (tx_advance enc ser dec input s)))"
  using command_alike blind_advance unfolding blind_def by blast

end
