(* ===== verification/Claude.thy ===== *)
theory Claude
  imports Traex ToolContent
begin

text \<open>
  The Claude adapter (\<open>agents/claude.rs\<close>): the stream-json protocol of the Claude CLI. As for Traex, the
  adapter is a state and one definition per branch in the effect of \<open>Effects\<close>; serde is \<open>enc\<close>,
  \<open>str\<close> and \<open>dec\<close>. A hash set is a list without repetition, a hash map an association list whose
  order is the order of iteration. \<open>uuid n\<close> is the n-th random identifier; \<open>cl_uuids\<close> counts
  those drawn. Token counters are whole numbers within the exact range of a 64-bit float, and their sums are exact.
\<close>

section \<open>State\<close>

datatype (plugins only: code size) claude_phase =
  ClIdle | ClInitializing string | ClOpening | ClDiscovering | ClRunning | ClBetweenTurns | ClFinished

record claude =
  cl_initial_title :: "string option"
  cl_title_description :: "string option"
  cl_title_attempted :: bool
  cl_generating_title_for :: "string option"
  cl_native_named :: bool
  cl_native_session :: "string option"
  cl_renaming :: "(string \<times> string) option"
  cl_rename_result :: "string option"
  cl_streamed :: bool
  cl_streamed_children :: "string list"
  cl_child_overflow :: bool
  cl_emitted_text :: bool
  cl_context :: "context_usage option"
  cl_accounting_model :: "string option"
  cl_progress :: "execution_phase option"
  cl_stream_model :: "string option"
  cl_stream_usage :: json
  cl_live_totals :: "rat list"
  cl_live_steps :: rat
  cl_phase :: claude_phase
  cl_commands :: "string list"
  cl_skills :: "string list"
  cl_requested :: "string list"
  cl_pending_skill :: "string option"
  cl_skill_loads :: "string list"
  cl_tasks :: "string list"
  cl_agent_tasks :: "(string \<times> string option) list"
  cl_foreground :: "string list"
  cl_session_state :: "string option"
  cl_delegated :: bool
  cl_last_result :: "string option"
  cl_queued :: "(string \<times> string) list"
  cl_consumed :: "string list"
  cl_uuids :: nat

definition claude_default :: claude where
  "claude_default =
     \<lparr>cl_initial_title = None, cl_title_description = None, cl_title_attempted = False, cl_generating_title_for = None,
      cl_native_named = False, cl_native_session = None, cl_renaming = None, cl_rename_result = None,
      cl_streamed = False, cl_streamed_children = [], cl_child_overflow = False, cl_emitted_text = False,
      cl_context = None, cl_accounting_model = None, cl_progress = None, cl_stream_model = None,
      cl_stream_usage = JNull, cl_live_totals = [0, 0, 0, 0], cl_live_steps = 0, cl_phase = ClIdle,
      cl_commands = [], cl_skills = [], cl_requested = [], cl_pending_skill = None, cl_skill_loads = [],
      cl_tasks = [], cl_agent_tasks = [], cl_foreground = [], cl_session_state = None, cl_delegated = False,
      cl_last_result = None, cl_queued = [], cl_consumed = [], cl_uuids = 0\<rparr>"

datatype (plugins only: code size) claude_error =
    CommandNameInvalid | TooManyCommands | CommandsMissing | UnknownCommand string | TaskIdInvalid
  | ProviderProtocolUnsupported | SettingsNotWritten | NotReadyForTitle | TitlePendingAlready | AlreadyStarted
  | NotRunning | InboxFull | TurnAlreadyStarted | TurnNotStarted | JsonInvalid | CannotAnswer | CannotApprove
  | AnswerInvalid answer_error | QuestionArguments | AnswerMissing | QuestionNameMissing | OptionOutOfRange
  | AskedCount | AskedText | AskedTwice | AskedHeader | AskedOptions | AskedLabel | AskedDescription
  | StopFailedNatively | InitFailed string | TooManyTasks | TooManyAgents | AgentIdInvalid | ApprovalInvalid
  | ResultBeforeInit

type_synonym 'b cl = "(claude, claude_error, 'b) eff"

section \<open>Messages\<close>

definition title_invalid_notice :: string where
  "title_invalid_notice = map char_of
    [228 :: nat, 188, 154, 232, 175, 157, 232, 135, 170, 229, 138, 168, 229, 145, 189, 229, 144,
     141, 230, 156, 170, 232, 191, 148, 229, 155, 158, 230, 156, 137, 230, 149, 136, 230, 160, 135,
     233, 162, 152, 239, 188, 140, 228, 191, 157, 231, 149, 153, 229, 142, 159, 229, 144, 141, 231,
     167, 176, 227, 128, 130]"

definition title_failed_prefix :: string where
  "title_failed_prefix = map char_of
    [228 :: nat, 188, 154, 232, 175, 157, 232, 135, 170, 229, 138, 168, 229, 145, 189, 229, 144,
     141, 230, 156, 170, 229, 174, 140, 230, 136, 144, 239, 188, 140, 228, 191, 157, 231, 149, 153,
     229, 142, 159, 229, 144, 141, 231, 167, 176, 239, 188, 154]"

definition operation_unsupported :: string where
  "operation_unsupported = map char_of
    [229 :: nat, 189, 147, 229, 137, 141, 32, 65, 103, 101, 110, 116, 32, 228, 184, 141, 230, 148,
     175, 230, 140, 129, 230, 173, 164, 230, 147, 141, 228, 189, 156]"

definition rename_failed_prefix :: string where
  "rename_failed_prefix = map char_of
    [229 :: nat, 142, 159, 231, 148, 159, 228, 188, 154, 232, 175, 157, 230, 160, 135, 233, 162,
     152, 228, 191, 174, 230, 148, 185, 229, 164, 177, 232, 180, 165, 239, 188, 154]"

definition skipped_message :: string where
  "skipped_message = map char_of
    [231 :: nat, 148, 168, 230, 136, 183, 232, 183, 179, 232, 191, 135, 228, 186, 134, 230, 156,
     172, 230, 172, 161, 233, 151, 174, 233, 162, 152, 239, 188, 140, 232, 175, 183, 229, 139, 191,
     229, 129, 135, 229, 174, 154, 231, 148, 168, 230, 136, 183, 229, 183, 178, 229, 155, 158, 231,
     173, 148]"

definition denied_message :: string where
  "denied_message = map char_of
    [231 :: nat, 148, 168, 230, 136, 183, 230, 139, 146, 231, 187, 157, 228, 186, 134, 230, 156,
     172, 230, 172, 161, 229, 183, 165, 229, 133, 183, 232, 176, 131, 231, 148, 168]"

definition unreadable_question :: string where
  "unreadable_question = map char_of
    [76 :: nat, 97, 116, 116, 101, 32, 87, 111, 114, 107, 32, 230, 151, 160, 230, 179, 149, 232,
     175, 187, 229, 143, 150, 233, 151, 174, 233, 162, 152, 229, 143, 130, 230, 149, 176, 239, 188,
     155, 232, 175, 183, 233, 135, 141, 230, 150, 176, 230, 143, 144, 229, 135, 186, 230, 156, 137,
     230, 149, 136, 231, 154, 132, 233, 151, 174, 233, 162, 152]"

definition skill_loaded_prefix :: string where
  "skill_loaded_prefix = map char_of
    [229 :: nat, 183, 178, 229, 138, 160, 232, 189, 189, 32, 83, 107, 105, 108, 108, 239, 188, 154]"

section \<open>Values\<close>

definition json_set :: "json \<Rightarrow> string \<Rightarrow> json \<Rightarrow> json" where
  "json_set v k x = (case v of JObject kvs \<Rightarrow> JObject (AList.update k x kvs) | _ \<Rightarrow> JObject [(k, x)])"

definition token_count :: "json \<Rightarrow> string \<Rightarrow> rat option" where
  "token_count v k =
     (case json_u64 (json_field v k) of
        Some n \<Rightarrow> if n \<le> 9007199254740991 then Some (of_nat n) else None
      | None \<Rightarrow> None)"

definition count_or_zero :: "json \<Rightarrow> string \<Rightarrow> rat" where
  "count_or_zero v k = (case token_count v k of Some n \<Rightarrow> n | None \<Rightarrow> 0)"

definition usage_keys :: "string list" where
  "usage_keys = [''input_tokens'', ''cache_read_input_tokens'', ''cache_creation_input_tokens'', ''output_tokens'']"

definition model_key :: "string \<Rightarrow> string" where
  "model_key model = hd (split_on CHR ''['' (last (split_on CHR ''/'' model)))"

definition model_usage :: "json \<Rightarrow> string \<Rightarrow> json option" where
  "model_usage models model =
     (case json_get models model of
        Some exact \<Rightarrow> Some exact
      | None \<Rightarrow>
          (case json_object models of
             None \<Rightarrow> None
           | Some kvs \<Rightarrow>
               (case filter (\<lambda>(name, _). model_key name = model_key model) kvs of
                  [(_, usage)] \<Rightarrow> Some usage
                | _ \<Rightarrow> None)))"

definition bounded_field :: "json \<Rightarrow> string \<Rightarrow> nat \<Rightarrow> string option" where
  "bounded_field v k limit =
     (case json_str (json_field v k) of
        Some s \<Rightarrow> if s \<noteq> [] then Some (take_chars limit s) else None
      | None \<Rightarrow> None)"

definition native_task_id :: "json \<Rightarrow> claude_error + string" where
  "native_task_id message =
     (case json_str (json_field message ''task_id'') of
        Some i \<Rightarrow> if i \<noteq> [] \<and> length i \<le> 256 then Inr i else Inl TaskIdInvalid
      | None \<Rightarrow> Inl TaskIdInvalid)"

definition subagent_action :: "string \<Rightarrow> string option \<Rightarrow> json \<Rightarrow> subagent_status option \<Rightarrow> action" where
  "subagent_action i tool kvs status =
     ActEvent (SubagentEv
       \<lparr>su_id = i, su_tool_use_id = tool,
        su_title = (case bounded_field kvs ''description'' 512 of
                      Some t \<Rightarrow> Some t | None \<Rightarrow> bounded_field kvs ''title'' 512),
        su_agent_type = (case bounded_field kvs ''subagent_type'' 256 of
                           Some name \<Rightarrow> if trim name \<noteq> [] then Some (trim name) else None
                         | None \<Rightarrow> None),
        su_status = status,
        su_summary = bounded_field kvs ''summary'' 2048,
        su_last_tool = bounded_field kvs ''last_tool_name'' 256\<rparr>)"

definition display_name :: "json \<Rightarrow> string option" where
  "display_name entry =
     find (\<lambda>v. v \<noteq> [] \<and> chars_count v \<le> 80 \<and> \<not> any_control v)
       (List.map_filter (\<lambda>k. map_option trim (json_str (json_field entry k)))
          [''displayName'', ''display_name'', ''title''])"

definition command_name_valid :: "string \<Rightarrow> bool" where
  "command_name_valid name \<longleftrightarrow>
     name \<noteq> [] \<and> length name \<le> 256 \<and>
     \<not> list_ex (\<lambda>c. is_whitespace c \<or> is_control c \<or> c = ''/'') (chars name)"

fun command_entries :: "string list \<Rightarrow> json list \<Rightarrow> claude_error + slash_command list" where
  "command_entries names [] = Inr []"
| "command_entries names (entry # entries) =
     (case json_str (json_field entry ''name'') of
        None \<Rightarrow> Inl CommandNameInvalid
      | Some name \<Rightarrow>
          if \<not> command_name_valid name then Inl CommandNameInvalid
          else if name \<in> set names then command_entries names entries
          else
            and_then (command_entries (name # names) entries) (\<lambda>rest.
              Inr (\<lparr>sc_name = name, sc_display_name = display_name entry,
                     sc_description = take_chars 2048 (str_or [] (json_field entry ''description'')),
                     sc_argument_hint = take_chars 512 (str_or [] (json_field entry ''argumentHint'')),
                     sc_ui_action = (if name \<in> {''agents'', ''tasks'', ''list-agents''} then Some SubagentsUi else None)\<rparr>
                   # rest)))"

definition parse_commands :: "json \<Rightarrow> claude_error + slash_command list" where
  "parse_commands v =
     (case json_list v of
        None \<Rightarrow> Inl CommandsMissing
      | Some entries \<Rightarrow> if length entries > 2000 then Inl TooManyCommands else command_entries [] entries)"

fun asked_options :: "json list \<Rightarrow> claude_error + question_option list" where
  "asked_options [] = Inr []"
| "asked_options (option # options) =
     (case json_str (json_field option ''label'') of
        None \<Rightarrow> Inl AskedLabel
      | Some label \<Rightarrow>
          if trim label = [] \<or> length label > 1024 then Inl AskedLabel
          else
            (let description = str_or [] (json_field option ''description'')
             in if length description > 16 * 1024 then Inl AskedDescription
                else and_then (asked_options options) (\<lambda>rest.
                       Inr (\<lparr>qo_label = label, qo_description = description\<rparr> # rest))))"

fun asked_rows :: "nat \<Rightarrow> string list \<Rightarrow> json list \<Rightarrow> claude_error + user_question list" where
  "asked_rows index seen [] = Inr []"
| "asked_rows index seen (row # rows) =
     (case json_str (json_field row ''question'') of
        None \<Rightarrow> Inl AskedText
      | Some t \<Rightarrow>
          if trim t = [] \<or> length t > 32 * 1024 then Inl AskedText
          else if t \<in> set seen then Inl AskedTwice
          else
            (let header = str_or [] (json_field row ''header'')
             in if length header > 256 then Inl AskedHeader
                else
                  (case json_list (json_field row ''options'') of
                     None \<Rightarrow> Inl AskedOptions
                   | Some options \<Rightarrow>
                       if options = [] \<or> length options > 8 then Inl AskedOptions
                       else
                         and_then (asked_options options) (\<lambda>opts.
                         and_then (asked_rows (Suc index) (t # seen) rows) (\<lambda>rest.
                           Inr (\<lparr>uq_id = ''q'' @ decimal index, uq_header = header, uq_text = t, uq_options = opts,
                                  uq_multi_select = (json_field row ''multiSelect'' = JBool True)\<rparr> # rest))))))"

definition asked_questions :: "json \<Rightarrow> claude_error + user_question list" where
  "asked_questions input =
     (case json_list (json_field input ''questions'') of
        None \<Rightarrow> Inl QuestionArguments
      | Some rows \<Rightarrow> if rows = [] \<or> length rows > 4 then Inl AskedCount else asked_rows 0 [] rows)"

section \<open>Small operations\<close>

definition slash_name :: "string \<Rightarrow> string option" where
  "slash_name prompt =
     (case strip_prefix ''/'' (trim_start prompt) of
        None \<Rightarrow> None
      | Some rest \<Rightarrow>
          (let words = dropWhile is_whitespace (chars rest)
           in if words = [] then None else Some (concat (takeWhile (\<lambda>c. \<not> is_whitespace c) words))))"

definition remember_title_description :: "string \<Rightarrow> claude \<Rightarrow> claude" where
  "remember_title_description prompt s =
     (if cl_title_description s = None \<and> \<not> cl_title_attempted s \<and> trim prompt \<noteq> [] \<and> \<not> slash prompt
      then s\<lparr>cl_title_description := Some (take_chars 1024 prompt)\<rparr> else s)"

definition set_accounting_model :: "string option \<Rightarrow> claude \<Rightarrow> claude" where
  "set_accounting_model model s =
     s\<lparr>cl_context := (if cl_accounting_model s \<noteq> model
                      then map_option (\<lambda>c. c\<lparr>cu_window_tokens := None\<rparr>) (cl_context s) else cl_context s),
       cl_accounting_model := model\<rparr>"

definition update_context :: "string \<Rightarrow> json \<Rightarrow> claude \<Rightarrow> claude" where
  "update_context model usage s =
     (case token_count usage ''input_tokens'' of
        None \<Rightarrow> s
      | Some input \<Rightarrow>
          (let used = input + count_or_zero usage ''cache_read_input_tokens''
                            + count_or_zero usage ''cache_creation_input_tokens''
           in if used > 0
              then s\<lparr>cl_context := Some
                       \<lparr>cu_model = model, cu_used_tokens = used,
                        cu_window_tokens = (case cl_context s of
                                              Some c \<Rightarrow> if cu_model c = model then cu_window_tokens c else None
                                            | None \<Rightarrow> None)\<rparr>\<rparr>
              else s))"

definition remember_skill_command :: "string \<Rightarrow> claude \<Rightarrow> claude" where
  "remember_skill_command prompt s =
     (case slash_name prompt of
        Some name \<Rightarrow>
          if length (cl_requested s) < 64 \<and> name \<noteq> [] \<and> length name \<le> 256
          then s\<lparr>cl_requested := List.insert name (cl_requested s)\<rparr> else s
      | None \<Rightarrow> s)"

definition cl_has_background_work :: "claude \<Rightarrow> bool" where
  "cl_has_background_work s \<longleftrightarrow> cl_tasks s \<noteq> [] \<or> cl_foreground s \<noteq> []"

definition cl_knows_subagent :: "claude \<Rightarrow> string \<Rightarrow> bool" where
  "cl_knows_subagent s i \<longleftrightarrow> map_of (cl_agent_tasks s) i \<noteq> None"

definition cl_can_start_turn :: "claude \<Rightarrow> bool" where
  "cl_can_start_turn s \<longleftrightarrow> cl_phase s = ClBetweenTurns \<and> cl_queued s = [] \<and> cl_renaming s = None"

definition cl_can_reconfigure :: "claude \<Rightarrow> bool" where
  "cl_can_reconfigure s \<longleftrightarrow>
     cl_can_start_turn s \<and> cl_tasks s = [] \<and> cl_foreground s = [] \<and>
     (cl_session_state s = Some ''idle'' \<or> (cl_session_state s = None \<and> \<not> cl_delegated s))"

definition cl_set_session_title :: "string option \<Rightarrow> bool \<Rightarrow> claude \<Rightarrow> claude" where
  "cl_set_session_title title resuming s =
     s\<lparr>cl_native_named := (title \<noteq> None), cl_initial_title := (if resuming then None else title)\<rparr>"

definition reset_turn :: "claude \<Rightarrow> claude" where
  "reset_turn s =
     s\<lparr>cl_child_overflow := (if \<not> cl_has_background_work s \<and> cl_streamed_children s = [] then False
                             else cl_child_overflow s),
       cl_streamed := False, cl_pending_skill := None, cl_requested := [], cl_skill_loads := [],
       cl_emitted_text := False, cl_progress := None, cl_stream_model := None, cl_stream_usage := JNull,
       cl_live_totals := [0, 0, 0, 0], cl_live_steps := 0\<rparr>"

definition check_command :: "string \<Rightarrow> unit cl" where
  "check_command prompt =
     seq (look cl_commands) (\<lambda>commands.
       case slash_name prompt of
         Some name \<Rightarrow> require (name \<in> set commands) (UnknownCommand name)
       | None \<Rightarrow> ret ())"

definition cl_request :: "string \<Rightarrow> (string \<times> json) list \<Rightarrow> json" where
  "cl_request i kvs = JObject [(''type'', JString ''control_request''), (''request_id'', JString i), (''request'', JObject kvs)]"

definition cl_success :: "string \<Rightarrow> json \<Rightarrow> json" where
  "cl_success i response =
     JObject [(''type'', JString ''control_response''),
              (''response'', JObject [(''subtype'', JString ''success''), (''request_id'', JString i), (''response'', response)])]"

definition cl_deny :: "string \<Rightarrow> json" where
  "cl_deny message = JObject [(''behavior'', JString ''deny''), (''message'', JString message)]"

definition cl_initialize :: json where
  "cl_initialize = cl_request ''latte-init'' [(''subtype'', JString ''initialize'')]"

definition cl_prompt :: "string \<Rightarrow> json" where
  "cl_prompt t =
     JObject [(''type'', JString ''user''),
              (''message'', JObject [(''role'', JString ''user''), (''content'', JString t)]),
              (''parent_tool_use_id'', JNull), (''session_id'', JString [])]"

definition cl_approval :: "string \<Rightarrow> json \<Rightarrow> bool \<Rightarrow> json" where
  "cl_approval i input allow =
     cl_success i (if allow then JObject [(''behavior'', JString ''allow''), (''updatedInput'', input)] else cl_deny denied_message)"

section \<open>Loading of skills\<close>

definition record_skill_load :: "string \<Rightarrow> event_kind option cl" where
  "record_skill_load name =
     seq (look cl_skill_loads) (\<lambda>loads.
       if length loads \<ge> 64 \<or> name \<in> set loads then ret None
       else seq (change (\<lambda>s. s\<lparr>cl_skill_loads := List.insert name (cl_skill_loads s)\<rparr>)) (\<lambda>_.
              ret (Some (Notice (skill_loaded_prefix @ name)))))"

definition skill_text :: "json \<Rightarrow> string option" where
  "skill_text content =
     (case json_str content of
        Some t \<Rightarrow> Some t
      | None \<Rightarrow>
          (case json_list content of
             None \<Rightarrow> None
           | Some blocks \<Rightarrow>
               (case List.map_filter (\<lambda>b. if json_field b ''type'' = JString ''text''
                                           then json_str (json_field b ''text'') else None) blocks of
                  [] \<Rightarrow> None
                | t # _ \<Rightarrow> Some t)))"

definition expanded_command :: "claude \<Rightarrow> string \<Rightarrow> string option" where
  "expanded_command s t =
     (case split_once ''<command-name>/'' t of
        None \<Rightarrow> None
      | Some (_, rest) \<Rightarrow>
          (case split_once ''</command-name>'' rest of
             None \<Rightarrow> None
           | Some (name, _) \<Rightarrow>
               if name \<in> set (cl_commands s) \<and> name \<in> set (cl_requested s) then Some name else None))"

definition skill_directory :: "string \<Rightarrow> bool" where
  "skill_directory t \<longleftrightarrow>
     (case split_once [CHR 0x0A, CHR 0x0A] t of
        None \<Rightarrow> False
      | Some (header, body) \<Rightarrow>
          (case strip_prefix ''Base directory for this skill: '' header of
             None \<Rightarrow> False
           | Some directory \<Rightarrow> length directory \<le> 4096 \<and> take 1 directory = ''/'' \<and> trim body \<noteq> []))"

definition skill_load :: "json \<Rightarrow> event_kind option cl" where
  "skill_load message =
     seq (look (\<lambda>s. s)) (\<lambda>s.
       if cl_phase s \<noteq> ClRunning then ret None
       else
         (case skill_text (json_field (json_field message ''message'') ''content'') of
            None \<Rightarrow> ret None
          | Some t \<Rightarrow>
              if starts_with ''<command-message>'' t
              then
                (let pending = expanded_command s t
                 in seq (change (\<lambda>s. s\<lparr>cl_pending_skill := pending\<rparr>)) (\<lambda>_.
                      case pending of
                        Some name \<Rightarrow>
                          if json_field message ''isReplay'' = JBool True \<and> name \<in> set (cl_skills s)
                          then seq (change (\<lambda>s. s\<lparr>cl_pending_skill := None\<rparr>)) (\<lambda>_. record_skill_load name)
                          else ret None
                      | None \<Rightarrow> ret None))
              else if json_field message ''isSynthetic'' \<noteq> JBool True \<and> json_field message ''isMeta'' \<noteq> JBool True
              then seq (change (\<lambda>s. s\<lparr>cl_pending_skill := None\<rparr>)) (\<lambda>_. ret None)
              else if \<not> skill_directory t then ret None
              else
                (case cl_pending_skill s of
                   None \<Rightarrow> ret None
                 | Some name \<Rightarrow>
                     seq (change (\<lambda>s. s\<lparr>cl_pending_skill := None\<rparr>)) (\<lambda>_. record_skill_load name))))"

section \<open>Messages of a child\<close>

definition native_child :: "claude \<Rightarrow> string \<Rightarrow> string option" where
  "native_child s parent = map_option fst (find (\<lambda>(_, tool). tool = Some parent) (cl_agent_tasks s))"

definition tool_key :: "string \<Rightarrow> string" where
  "tool_key i = ''tool:'' @ i"

definition child_delta :: "json \<Rightarrow> string \<Rightarrow> action list cl" where
  "child_delta event parent =
     (if json_field event ''type'' = JString ''content_block_delta'' \<and>
         json_field (json_field event ''delta'') ''type'' = JString ''text_delta''
      then
        (case json_str (json_field (json_field event ''delta'') ''text'') of
           None \<Rightarrow> ret []
         | Some t \<Rightarrow>
             seq (change (\<lambda>s. if parent \<notin> set (cl_streamed_children s) \<and> length (cl_streamed_children s) \<ge> 512
                              then s\<lparr>cl_child_overflow := True\<rparr> else s)) (\<lambda>_.
             seq (look (\<lambda>s. s)) (\<lambda>s.
               if parent \<notin> set (cl_streamed_children s) \<and> cl_child_overflow s then ret []
               else seq (change (\<lambda>s. s\<lparr>cl_streamed_children := List.insert parent (cl_streamed_children s)\<rparr>)) (\<lambda>_.
                      ret [ActSubagentEvent parent (Text t)]))))
      else ret [])"

definition child_block :: "string option \<Rightarrow> bool \<Rightarrow> bool \<Rightarrow> string \<Rightarrow> json \<Rightarrow> action list" where
  "child_block native known streamed parent block =
     (if json_field block ''type'' = JString ''text'' \<and> known \<and> \<not> streamed
      then (case json_str (json_field block ''text'') of
              Some t \<Rightarrow> [ActSubagentEvent parent (Text t)] | None \<Rightarrow> [])
      else if json_field block ''type'' = JString ''tool_use''
      then
        (case (json_str (json_field block ''id''), json_str (json_field block ''name'')) of
           (Some i, Some name) \<Rightarrow>
             SourceUsed (parent @ '':'' @ i) name #
             (if known
              then [subagent_action (case native of Some n \<Rightarrow> n | None \<Rightarrow> tool_key parent) (Some parent)
                      (JObject [(''last_tool_name'', JString name)]) None,
                    ActSubagentEvent parent (Tool i name (json_field block ''input''))]
              else [])
         | _ \<Rightarrow> [])
      else [])"

definition child_result_block :: "string \<Rightarrow> json \<Rightarrow> action list" where
  "child_result_block parent block =
     (if json_field block ''type'' = JString ''tool_result''
      then (case json_str (json_field block ''tool_use_id'') of
              Some i \<Rightarrow> [ActSubagentEvent parent
                          (ToolResult i (tool_content (json_field block ''content'')) (json_field block ''is_error'' = JBool True))]
            | None \<Rightarrow> [])
      else [])"

definition message_blocks :: "json \<Rightarrow> json list" where
  "message_blocks m = (case json_list (json_field (json_field m ''message'') ''content'') of Some bs \<Rightarrow> bs | None \<Rightarrow> [])"

definition child_message :: "json \<Rightarrow> string \<Rightarrow> action list cl" where
  "child_message m parent =
     seq (look (\<lambda>s. s)) (\<lambda>s.
       let native = native_child s parent; known = (native \<noteq> None \<or> parent \<in> set (cl_foreground s));
           kind = json_str (json_field m ''type'')
       in if kind = Some ''stream_event'' \<and> known then child_delta (json_field m ''event'') parent
          else if kind = Some ''assistant''
          then
            (let streamed = (parent \<in> set (cl_streamed_children s))
             in seq (change (\<lambda>s. s\<lparr>cl_streamed_children := removeAll parent (cl_streamed_children s)\<rparr>)) (\<lambda>_.
                  ret (concat (map (child_block native known streamed parent) (message_blocks m)))))
          else if kind = Some ''user'' \<and> known
          then ret (concat (map (child_result_block parent) (message_blocks m)))
          else ret [])"

section \<open>Frames of the main conversation\<close>

definition top_level :: "json \<Rightarrow> bool" where
  "top_level m \<longleftrightarrow> json_field m ''parent_tool_use_id'' = JNull"

definition kind_of :: "json \<Rightarrow> string" where
  "kind_of m = str_or [] (json_field m ''type'')"

text \<open>The inputs a frame of the agent answers or replays.\<close>

definition attributed_ids :: "json \<Rightarrow> string list" where
  "attributed_ids m =
     List.map_filter json_str
       (take 64 (case json_list (json_field m ''user_message_uuids'') of Some ids \<Rightarrow> ids | None \<Rightarrow> []) @
        [json_field m ''user_message_uuid''] @
        (if kind_of m = ''user'' then [json_field m ''uuid''] else []))"

definition attributes :: "json \<Rightarrow> bool" where
  "attributes m \<longleftrightarrow>
     top_level m \<and>
     (kind_of m \<in> {''assistant'', ''stream_event'', ''result''} \<or>
      (kind_of m = ''user'' \<and> json_field m ''isReplay'' = JBool True))"

definition attribute_inputs :: "json \<Rightarrow> claude \<Rightarrow> claude" where
  "attribute_inputs m s =
     (if attributes m
      then s\<lparr>cl_consumed := fold (\<lambda>i ids. if map_of (cl_queued s) i \<noteq> None then List.insert i ids else ids)
                            (attributed_ids m) (cl_consumed s)\<rparr>
      else s)"

text \<open>Output between two turns starts a turn of its own.\<close>

definition autonomous_output :: "json \<Rightarrow> bool" where
  "autonomous_output m \<longleftrightarrow>
     top_level m \<and>
     (kind_of m = ''assistant'' \<or>
      (kind_of m = ''stream_event'' \<and>
       kind_of (json_field m ''event'') \<in> {''message_start'', ''content_block_start'', ''content_block_delta''}))"

definition begin_autonomous :: "json \<Rightarrow> action list cl" where
  "begin_autonomous m =
     seq (look cl_phase) (\<lambda>ph.
       if ph = ClBetweenTurns \<and> autonomous_output m
       then seq (change (\<lambda>s. (reset_turn s)\<lparr>cl_phase := ClRunning\<rparr>)) (\<lambda>_. ret [TurnStarted])
       else ret [])"

section \<open>Titles\<close>

definition title_valid :: "string \<Rightarrow> bool" where
  "title_valid t \<longleftrightarrow> t \<noteq> [] \<and> chars_count t \<le> 200 \<and> \<not> any_control t"

definition title_generated :: "json \<Rightarrow> action list cl" where
  "title_generated m =
     seq (look (\<lambda>s. s)) (\<lambda>s.
     seq (change (\<lambda>s. s\<lparr>cl_generating_title_for := None\<rparr>)) (\<lambda>_.
       case cl_generating_title_for s of
         None \<Rightarrow> ret []
       | Some native \<Rightarrow>
           if cl_native_named s \<or> cl_native_session s \<noteq> Some native then ret []
           else
             (let response = json_field m ''response''
              in if json_field response ''subtype'' = JString ''success''
                 then ret (case map_option trim (json_str (json_field (json_field response ''response'') ''title'')) of
                             Some t \<Rightarrow> if title_valid t then [GeneratedTitle native t]
                                       else [ActEvent (Notice title_invalid_notice)]
                           | None \<Rightarrow> [ActEvent (Notice title_invalid_notice)])
                 else ret [ActEvent (Notice (title_failed_prefix @
                        (case bounded_field response ''error'' 300 of Some e \<Rightarrow> e | None \<Rightarrow> operation_unsupported)))])))"

definition rename_answered :: "json \<Rightarrow> string \<Rightarrow> action list cl" where
  "rename_answered m requested =
     seq (change (\<lambda>s. s\<lparr>cl_renaming := None\<rparr>)) (\<lambda>_.
       if json_field (json_field m ''response'') ''subtype'' = JString ''success''
       then
         seq (look cl_rename_result) (\<lambda>confirmed.
         seq (change (\<lambda>s. s\<lparr>cl_native_named := True, cl_rename_result := None\<rparr>)) (\<lambda>_.
           ret [TitleRenamed (Inr (case confirmed of Some t \<Rightarrow> t | None \<Rightarrow> requested))]))
       else
         ret [TitleRenamed (Inl (rename_failed_prefix @
                str_or operation_unsupported (json_field (json_field m ''response'') ''error'')))])"

definition foreign_session :: "claude \<Rightarrow> json \<Rightarrow> bool" where
  "foreign_session s m \<longleftrightarrow>
     (case (cl_native_session s, json_str (json_field m ''session_id'')) of
        (Some i, Some incoming) \<Rightarrow> incoming \<noteq> i
      | _ \<Rightarrow> False)"

definition title_changed :: "json \<Rightarrow> action list cl" where
  "title_changed m =
     (case bounded_field m ''title'' 800 of
        None \<Rightarrow> ret []
      | Some t \<Rightarrow>
          seq (look cl_renaming) (\<lambda>renaming.
          seq (change (\<lambda>s. s\<lparr>cl_native_named := True,
                             cl_rename_result := (if renaming \<noteq> None then Some t else cl_rename_result s)\<rparr>)) (\<lambda>_.
            ret (if renaming \<noteq> None then [] else [NativeName t]))))"

section \<open>Initialization\<close>

definition catalog_names :: "json \<Rightarrow> string list" where
  "catalog_names v =
     concat (map (\<lambda>c. List.map_filter json_str [json_field c ''name''] @
                      List.map_filter json_str (case json_list (json_field c ''aliases'') of Some xs \<Rightarrow> xs | None \<Rightarrow> []))
       (case json_list v of Some cs \<Rightarrow> cs | None \<Rightarrow> []))"

definition add_commands :: "string list \<Rightarrow> claude \<Rightarrow> claude" where
  "add_commands names s = s\<lparr>cl_commands := fold List.insert names (cl_commands s)\<rparr>"

definition session_initialized :: "(json \<Rightarrow> bytes) \<Rightarrow> json \<Rightarrow> string option \<Rightarrow> action list cl" where
  "session_initialized enc catalog prompt =
     seq (change (\<lambda>s. s\<lparr>cl_phase := ClRunning\<rparr>)) (\<lambda>_.
     seq (if (case prompt of Some p \<Rightarrow> slash p | None \<Rightarrow> False)
          then seq (from_result (parse_commands catalog)) (\<lambda>cs. change (add_commands (map sc_name cs)))
          else ret ()) (\<lambda>_.
     seq (change (add_commands (catalog_names catalog))) (\<lambda>_.
       case prompt of
         Some p \<Rightarrow> seq (check_command p) (\<lambda>_. ret [ActReady, write_json enc (cl_prompt p)])
       | None \<Rightarrow> seq (change (\<lambda>s. s\<lparr>cl_phase := ClBetweenTurns\<rparr>)) (\<lambda>_. ret [ActReady]))))"

definition cl_initialized :: "(json \<Rightarrow> bytes) \<Rightarrow> (json \<Rightarrow> string) \<Rightarrow> json \<Rightarrow> action list cl" where
  "cl_initialized enc str m =
     (let response = json_field m ''response''; catalog = json_field (json_field response ''response'') ''commands''
      in if json_field response ''subtype'' \<noteq> JString ''success''
         then fail (InitFailed (str (json_field response ''error'')))
         else
           seq (look cl_phase) (\<lambda>ph.
             case ph of
               ClDiscovering \<Rightarrow>
                 seq (from_result (parse_commands catalog)) (\<lambda>cs.
                 seq (change (\<lambda>s. s\<lparr>cl_phase := ClFinished\<rparr>)) (\<lambda>_. ret [Commands cs]))
             | ClInitializing p \<Rightarrow> session_initialized enc catalog (Some p)
             | ClOpening \<Rightarrow> session_initialized enc catalog None
             | _ \<Rightarrow> ret []))"

definition interrupt_answered :: "json \<Rightarrow> action list cl" where
  "interrupt_answered m =
     (if json_field (json_field m ''response'') ''subtype'' \<noteq> JString ''success'' then fail StopFailedNatively
      else ret [Interrupted])"

section \<open>System messages\<close>

definition system_init :: "json \<Rightarrow> action list cl" where
  "system_init m =
     seq (change (\<lambda>s. s\<lparr>cl_skills := remdups (filter (\<lambda>n. n \<in> set (cl_commands s)) (List.map_filter json_str
            (case json_list (json_field m ''skills'') of
               Some skills \<Rightarrow> if length skills \<le> 2000 then skills else [] | None \<Rightarrow> [])))\<rparr>)) (\<lambda>_.
     let named = json_str (json_field m ''session_id'')
     in seq (case named of Some i \<Rightarrow> change (\<lambda>s. s\<lparr>cl_native_session := Some i\<rparr>) | None \<Rightarrow> ret ()) (\<lambda>_.
        seq (case bounded_field m ''model'' 256 of
               Some model \<Rightarrow> change (set_accounting_model (Some model)) | None \<Rightarrow> ret ()) (\<lambda>_.
          ret (case named of Some i \<Rightarrow> [NativeSession i] | None \<Rightarrow> []))))"

text \<open>A place for an agent task: one that is no longer running makes room.\<close>

definition agent_slot :: "string \<Rightarrow> unit cl" where
  "agent_slot i =
     seq (look (\<lambda>s. s)) (\<lambda>s.
       if length (cl_agent_tasks s) \<ge> 256 \<and> map_of (cl_agent_tasks s) i = None
       then
         (case find (\<lambda>k. k \<notin> set (cl_tasks s)) (map fst (cl_agent_tasks s)) of
            Some old \<Rightarrow> change (\<lambda>s. s\<lparr>cl_agent_tasks := AList.delete old (cl_agent_tasks s)\<rparr>)
          | None \<Rightarrow> fail TooManyAgents)
       else ret ())"

definition task_started :: "json \<Rightarrow> action list cl" where
  "task_started m =
     seq (from_result (native_task_id m)) (\<lambda>i.
     seq (look cl_tasks) (\<lambda>tasks.
     seq (require (\<not> (length tasks \<ge> 256 \<and> i \<notin> set tasks)) TooManyTasks) (\<lambda>_.
     seq (change (\<lambda>s. s\<lparr>cl_tasks := List.insert i (cl_tasks s)\<rparr>)) (\<lambda>_.
     seq (look cl_foreground) (\<lambda>foreground.
     let tool = bounded_field m ''tool_use_id'' 256
     in if json_field m ''task_type'' = JString ''local_agent'' \<or> (\<exists>t \<in> set_option tool. t \<in> set foreground)
        then
          seq (case tool of Some t \<Rightarrow> change (\<lambda>s. s\<lparr>cl_foreground := removeAll t (cl_foreground s)\<rparr>) | None \<Rightarrow> ret ()) (\<lambda>_.
          seq (agent_slot i) (\<lambda>_.
          seq (change (\<lambda>s. s\<lparr>cl_agent_tasks := AList.update i tool (cl_agent_tasks s)\<rparr>)) (\<lambda>_.
            ret [subagent_action i tool m (Some SubRunning)])))
        else ret [])))))"

definition task_status :: "string option \<Rightarrow> subagent_status option" where
  "task_status raw =
     (if raw \<in> {Some ''running'', Some ''pending''} then Some SubRunning
      else if raw = Some ''paused'' then Some SubPaused
      else if raw = Some ''completed'' then Some SubCompleted
      else if raw = Some ''failed'' then Some SubFailed
      else if raw \<in> {Some ''stopped'', Some ''killed''} then Some SubStopped else None)"

definition untitled :: "action \<Rightarrow> action" where
  "untitled a = (case a of ActEvent (SubagentEv u) \<Rightarrow> ActEvent (SubagentEv (u\<lparr>su_title := None\<rparr>)) | _ \<Rightarrow> a)"

definition task_event :: "json \<Rightarrow> action list cl" where
  "task_event m =
     seq (from_result (native_task_id m)) (\<lambda>i.
     let patch = json_field m ''patch''; subtype = json_field m ''subtype'';
         source = (if subtype = JString ''task_updated'' \<and> json_object patch \<noteq> None then patch else m);
         raw = (case json_str (json_field source ''status'') of
                  Some s \<Rightarrow> Some s | None \<Rightarrow> json_str (json_field m ''status''))
     in seq (look (\<lambda>s. map_of (cl_agent_tasks s) i)) (\<lambda>known.
        seq (if raw \<in> {Some ''completed'', Some ''failed'', Some ''stopped'', Some ''killed''}
             then change (\<lambda>s. s\<lparr>cl_tasks := removeAll i (cl_tasks s)\<rparr>) else ret ()) (\<lambda>_.
          ret (case known of
                 None \<Rightarrow> []
               | Some tool \<Rightarrow>
                   [(if subtype = JString ''task_progress'' then untitled else (\<lambda>a. a))
                      (subagent_action i tool source (task_status raw))]))))"

definition context_dropped :: "action list cl" where
  "context_dropped = seq (change (\<lambda>s. s\<lparr>cl_context := None\<rparr>)) (\<lambda>_. ret [ActEvent (Usage None None)])"

definition system_message :: "json \<Rightarrow> action list cl" where
  "system_message m =
     (let subtype = str_or [] (json_field m ''subtype'')
      in if subtype = ''init'' \<and> top_level m then system_init m
         else if subtype = ''session_state_changed''
         then seq (change (\<lambda>s. s\<lparr>cl_session_state := json_str (json_field m ''state'')\<rparr>)) (\<lambda>_. ret [])
         else if subtype = ''task_started'' then task_started m
         else if subtype \<in> {''task_notification'', ''task_updated'', ''task_progress''} then task_event m
         else if subtype = ''compact_boundary'' then context_dropped
         else ret [])"

section \<open>Requests of the agent\<close>

definition control_request :: "(json \<Rightarrow> bytes) \<Rightarrow> json \<Rightarrow> action list cl" where
  "control_request enc m =
     (let i = str_or [] (json_field m ''request_id''); request = json_field m ''request'';
          input = json_field request ''input''; tool = json_str (json_field request ''tool_use_id'')
      in if json_field request ''subtype'' = JString ''can_use_tool''
         then
           seq (require (\<not> (i = [] \<or> json_object input = None)) ApprovalInvalid) (\<lambda>_.
             if json_field request ''tool_name'' = JString ''AskUserQuestion''
             then ret (case asked_questions input of
                         Inr qs \<Rightarrow> [ActQuestion i tool input qs]
                       | Inl _ \<Rightarrow> [write_json enc (cl_success i (cl_deny unreadable_question))])
             else ret [ActApproval i tool (str_or ''Tool'' (json_field request ''tool_name'')) input])
         else ret [write_json enc (JObject [(''type'', JString ''control_response''),
                (''response'', JObject [(''subtype'', JString ''error''), (''request_id'', JString i),
                   (''error'', JString ''Unsupported control request in Latte Work v0.1'')])])])"

section \<open>Streamed output\<close>

definition merged_usage :: "json \<Rightarrow> (string \<times> json) list \<Rightarrow> json" where
  "merged_usage usage delta =
     JObject (fold (\<lambda>(k, v). AList.update k v) delta (case json_object usage of Some kvs \<Rightarrow> kvs | None \<Rightarrow> []))"

definition live_usage :: "claude \<Rightarrow> json \<Rightarrow> action list" where
  "live_usage s usage =
     (let current = map (count_or_zero usage) usage_keys; totals = map2 (+) (cl_live_totals s) current
      in if current ! 0 + current ! 1 + current ! 2 > 0
         then [ActEvent (Usage (cl_context s) (Some
                \<lparr>tu_input_tokens = Some (totals ! 0), tu_cache_read_tokens = Some (totals ! 1),
                 tu_cache_write_tokens = Some (totals ! 2),
                 tu_output_tokens = map_option (\<lambda>v. cl_live_totals s ! 3 + v) (token_count usage ''output_tokens''),
                 tu_model_time_ms = None, tu_steps = Some (cl_live_steps s + 1)\<rparr>))]
         else [])"

definition stream_usage :: "json \<Rightarrow> action list cl" where
  "stream_usage event =
     (let kind = kind_of event
      in if kind = ''message_start''
         then seq (change (\<lambda>s. s\<lparr>cl_stream_model := json_str (json_field (json_field event ''message'') ''model''),
                                 cl_stream_usage := json_field (json_field event ''message'') ''usage''\<rparr>)) (\<lambda>_. ret [])
         else if kind = ''message_delta''
         then
           seq (look (\<lambda>s. s)) (\<lambda>s.
             case (cl_stream_model s, json_object (json_field event ''usage'')) of
               (Some model, Some delta) \<Rightarrow>
                 (let usage = merged_usage (cl_stream_usage s) delta
                  in seq (change (\<lambda>s. update_context model usage (s\<lparr>cl_stream_usage := usage\<rparr>))) (\<lambda>_.
                       look (\<lambda>s. live_usage s usage)))
             | _ \<Rightarrow> ret [])
         else if kind = ''message_stop''
         then
           seq (look cl_stream_model) (\<lambda>model.
           seq (change (\<lambda>s. if model = None then s
                            else s\<lparr>cl_stream_model := None,
                                   cl_live_totals := map2 (+) (cl_live_totals s) (map (count_or_zero (cl_stream_usage s)) usage_keys),
                                   cl_live_steps := cl_live_steps s + 1\<rparr>)) (\<lambda>_. ret []))
         else ret [])"

definition stream_phase :: "json \<Rightarrow> execution_phase option" where
  "stream_phase event =
     (let kind = kind_of event
      in if kind = ''content_block_start''
         then (let block = kind_of (json_field event ''content_block'')
               in if block \<in> {''thinking'', ''redacted_thinking''} then Some PhaseThinking
                  else if block = ''text'' then Some PhaseReplying else Some PhaseWaiting)
         else if kind = ''content_block_delta''
         then (if kind_of (json_field event ''delta'') = ''thinking_delta'' then Some PhaseThinking else None)
         else if kind \<in> {''message_start'', ''message_stop'', ''content_block_stop''} then Some PhaseWaiting
         else None)"

definition stream_progress :: "json \<Rightarrow> action list cl" where
  "stream_progress event =
     seq (look cl_progress) (\<lambda>current.
       case stream_phase event of
         Some ph \<Rightarrow>
           if current \<noteq> Some ph
           then seq (change (\<lambda>s. s\<lparr>cl_progress := Some ph\<rparr>)) (\<lambda>_. ret [ActEvent (Progress ph)]) else ret []
       | None \<Rightarrow> ret [])"

definition stream_text :: "json \<Rightarrow> action list cl" where
  "stream_text event =
     (if kind_of event = ''content_block_delta'' \<and> kind_of (json_field event ''delta'') = ''text_delta''
      then
        (case json_str (json_field (json_field event ''delta'') ''text'') of
           Some t \<Rightarrow> seq (change (\<lambda>s. s\<lparr>cl_progress := Some PhaseReplying, cl_streamed := True, cl_emitted_text := True\<rparr>))
                       (\<lambda>_. ret [ActEvent (Text t)])
         | None \<Rightarrow> ret [])
      else ret [])"

definition stream_event :: "json \<Rightarrow> action list cl" where
  "stream_event m =
     (let event = json_field m ''event''
      in if top_level m
         then seq (stream_usage event) (\<lambda>a. seq (stream_progress event) (\<lambda>b. seq (stream_text event) (\<lambda>c. ret (a @ b @ c))))
         else ret [])"

section \<open>Whole messages\<close>

text \<open>A loop that pushes actions.\<close>

primrec gather :: "('x \<Rightarrow> action list cl) \<Rightarrow> 'x list \<Rightarrow> action list cl" where
  "gather f [] = ret []"
| "gather f (x # xs) = seq (f x) (\<lambda>a. seq (gather f xs) (\<lambda>b. ret (a @ b)))"

definition message_context :: "json \<Rightarrow> action list cl" where
  "message_context m =
     (if top_level m
      then
        seq (look cl_context) (\<lambda>previous.
        let message = json_field m ''message''
        in seq (case json_str (json_field message ''model'') of
                  Some model \<Rightarrow> change (update_context model (json_field message ''usage'')) | None \<Rightarrow> ret ()) (\<lambda>_.
           look (\<lambda>s. if cl_context s \<noteq> previous then [ActEvent (Usage (cl_context s) None)] else [])))
      else ret [])"

definition delegate :: "bool \<Rightarrow> json \<Rightarrow> action list cl" where
  "delegate main block =
     seq (change (\<lambda>s. s\<lparr>cl_delegated := True\<rparr>)) (\<lambda>_.
       if main
       then
         seq (from_result (case json_str (json_field block ''id'') of
                Some i \<Rightarrow> if i \<noteq> [] \<and> length i \<le> 256 then Inr i else Inl AgentIdInvalid
              | None \<Rightarrow> Inl AgentIdInvalid)) (\<lambda>i.
         seq (look cl_foreground) (\<lambda>foreground.
         seq (require (\<not> (length foreground \<ge> 256 \<and> i \<notin> set foreground)) TooManyAgents) (\<lambda>_.
         seq (change (\<lambda>s. s\<lparr>cl_foreground := List.insert i (cl_foreground s)\<rparr>)) (\<lambda>_.
           ret [subagent_action (tool_key i) (Some i) (json_field block ''input'') (Some SubRunning)]))))
       else ret [])"

definition assistant_block :: "bool \<Rightarrow> json \<Rightarrow> action list cl" where
  "assistant_block main block =
     seq (look cl_streamed) (\<lambda>streamed.
       if kind_of block = ''text'' \<and> \<not> streamed \<and> main
       then
         (case json_str (json_field block ''text'') of
            Some t \<Rightarrow> seq (change (\<lambda>s. s\<lparr>cl_emitted_text := True\<rparr>)) (\<lambda>_. ret [ActEvent (Text t)])
          | None \<Rightarrow> ret [])
       else if kind_of block = ''tool_use''
       then
         seq (if json_str (json_field block ''name'') \<in> {Some ''Agent'', Some ''Task''} then delegate main block else ret [])
           (\<lambda>agent.
             ret (agent @ [ActEvent (Tool (str_or [] (json_field block ''id'')) (str_or ''Tool'' (json_field block ''name''))
                                       (json_field block ''input''))]))
       else ret [])"

definition assistant_message :: "json \<Rightarrow> action list cl" where
  "assistant_message m =
     seq (message_context m) (\<lambda>a.
     seq (gather (assistant_block (top_level m)) (message_blocks m)) (\<lambda>b.
     seq (change (\<lambda>s. s\<lparr>cl_streamed := False\<rparr>)) (\<lambda>_. ret (a @ b))))"

definition agent_returned :: "(json \<Rightarrow> string) \<Rightarrow> json \<Rightarrow> string \<Rightarrow> action" where
  "agent_returned str block i =
     subagent_action (tool_key i) (Some i)
       (JObject [(''summary'', JString (case json_field block ''content'' of JString t \<Rightarrow> t | v \<Rightarrow> str v))])
       (Some (if json_field block ''is_error'' = JBool True then SubFailed else SubCompleted))"

definition user_block :: "(json \<Rightarrow> string) \<Rightarrow> bool \<Rightarrow> json \<Rightarrow> action list cl" where
  "user_block str main block =
     (if json_field block ''type'' = JString ''tool_result'' \<and> main
      then
        seq (look cl_foreground) (\<lambda>foreground.
        let tool = json_str (json_field block ''tool_use_id'');
            agent = (case tool of Some i \<Rightarrow> if i \<in> set foreground then [i] else [] | None \<Rightarrow> [])
        in seq (change (\<lambda>s. s\<lparr>cl_foreground := filter (\<lambda>i. i \<notin> set agent) (cl_foreground s)\<rparr>)) (\<lambda>_.
             ret (map (agent_returned str block) agent @
               [ActEvent (ToolResult (str_or [] (json_field block ''tool_use_id'')) (tool_content (json_field block ''content''))
                  (json_field block ''is_error'' = JBool True))])))
      else ret [])"

definition user_message :: "(json \<Rightarrow> string) \<Rightarrow> json \<Rightarrow> action list cl" where
  "user_message str m =
     seq (skill_load m) (\<lambda>event.
     seq (gather (user_block str (top_level m)) (message_blocks m)) (\<lambda>b.
       ret ((case event of Some e \<Rightarrow> [ActEvent e] | None \<Rightarrow> []) @ b)))"

section \<open>Results\<close>

definition result_failed :: "json \<Rightarrow> bool" where
  "result_failed m \<longleftrightarrow>
     json_field m ''is_error'' = JBool True \<or> starts_with ''error'' (str_or [] (json_field m ''subtype''))"

text \<open>The result of a child does not end the turn of its parent.\<close>

definition child_result :: "json \<Rightarrow> string \<Rightarrow> action list cl" where
  "child_result m parent =
     seq (change (\<lambda>s. s\<lparr>cl_streamed_children := removeAll parent (cl_streamed_children s)\<rparr>)) (\<lambda>_.
     seq (look (\<lambda>s. s)) (\<lambda>s.
     let native = native_child s parent
     in if native \<noteq> None \<or> parent \<in> set (cl_foreground s)
        then
          (let i = (case native of Some n \<Rightarrow> n | None \<Rightarrow> tool_key parent)
           in seq (change (\<lambda>s. s\<lparr>cl_foreground := (if native = None then removeAll parent (cl_foreground s) else cl_foreground s),
                                cl_tasks := removeAll i (cl_tasks s)\<rparr>)) (\<lambda>_.
                ret [subagent_action i (Some parent) (JObject [(''summary'', json_field m ''result'')])
                       (Some (if result_failed m then SubFailed else SubCompleted))]))
        else ret []))"

definition consume_inputs :: "action list cl" where
  "consume_inputs =
     seq (look (\<lambda>s. List.map_filter (map_of (cl_queued s)) (cl_consumed s))) (\<lambda>consumed.
     seq (change (\<lambda>s. s\<lparr>cl_queued := filter (\<lambda>(k, _). k \<notin> set (cl_consumed s)) (cl_queued s), cl_consumed := []\<rparr>)) (\<lambda>_.
       ret (if consumed \<noteq> [] then [InputsConsumed consumed] else [])))"

definition first_some :: "'x option list \<Rightarrow> 'x option" where
  "first_some xs = (case List.map_filter (\<lambda>x. x) xs of [] \<Rightarrow> None | x # _ \<Rightarrow> Some x)"

definition context_window :: "json \<Rightarrow> string option \<Rightarrow> context_usage \<Rightarrow> context_usage" where
  "context_window models accounting c =
     (if models = JNull then c
      else c\<lparr>cu_window_tokens :=
             (case first_some [json_get models (cu_model c), Option.bind accounting (json_get models),
                               model_usage models (cu_model c), Option.bind accounting (model_usage models)] of
                None \<Rightarrow> None
              | Some usage \<Rightarrow>
                  (case token_count usage ''contextWindow'' of
                     Some n \<Rightarrow> if n > 0 then Some n else None | None \<Rightarrow> None))\<rparr>)"

definition turn_totals :: "json \<Rightarrow> turn_usage" where
  "turn_totals m =
     (let usage = json_field m ''usage''
      in \<lparr>tu_input_tokens = token_count usage ''input_tokens'',
          tu_cache_read_tokens = token_count usage ''cache_read_input_tokens'',
          tu_cache_write_tokens = token_count usage ''cache_creation_input_tokens'',
          tu_output_tokens = token_count usage ''output_tokens'',
          tu_model_time_ms = token_count m ''duration_api_ms'', tu_steps = token_count m ''num_turns''\<rparr>)"

definition title_request :: "(json \<Rightarrow> bytes) \<Rightarrow> json \<Rightarrow> action list cl" where
  "title_request enc m =
     seq (look (\<lambda>s. s)) (\<lambda>s.
       if result_failed m \<or> cl_title_attempted s \<or> cl_native_named s then ret []
       else
         seq (change (\<lambda>s. s\<lparr>cl_title_description := None\<rparr>)) (\<lambda>_.
           case (cl_title_description s, cl_native_session s) of
             (Some description, Some native) \<Rightarrow>
               seq (change (\<lambda>s. s\<lparr>cl_title_attempted := True, cl_generating_title_for := Some native\<rparr>)) (\<lambda>_.
                 ret [MetadataWrite (enc (cl_request ''latte-generate-title''
                        [(''subtype'', JString ''generate_session_title''), (''description'', JString description),
                         (''persist'', JBool True)]) @ [10])])
           | _ \<Rightarrow> ret []))"

definition nonempty_result :: "json \<Rightarrow> string option" where
  "nonempty_result m = (case json_str (json_field m ''result'') of Some t \<Rightarrow> if t \<noteq> [] then Some t else None | None \<Rightarrow> None)"

text \<open>The end of a running turn.\<close>

definition turn_ended :: "(json \<Rightarrow> bytes) \<Rightarrow> (json \<Rightarrow> string) \<Rightarrow> json \<Rightarrow> action list cl" where
  "turn_ended enc str m =
     (let failed = result_failed m; result = json_str (json_field m ''result'')
      in seq (look cl_phase) (\<lambda>ph.
         seq (require (ph = ClRunning) ResultBeforeInit) (\<lambda>_.
         seq (change (\<lambda>s. s\<lparr>cl_phase := ClBetweenTurns,
                cl_context := map_option (context_window (json_field m ''modelUsage'') (cl_accounting_model s)) (cl_context s)\<rparr>)) (\<lambda>_.
         seq (look (\<lambda>s. s)) (\<lambda>s.
         let usage = (if cl_context s \<noteq> None \<or> json_object (json_field m ''usage'') \<noteq> None
                      then [ActEvent (Usage (cl_context s) (Some (turn_totals m)))] else []);
             message = (if failed then Some (case result of Some t \<Rightarrow> t | None \<Rightarrow> str (json_field m ''errors'')) else None);
             text = (if \<not> failed \<and> \<not> cl_emitted_text s
                     then (case nonempty_result m of Some t \<Rightarrow> [ActEvent (Text t)] | None \<Rightarrow> []) else [])
         in seq (title_request enc m) (\<lambda>title.
            seq (change (\<lambda>s. s\<lparr>cl_last_result := result\<rparr>)) (\<lambda>_.
              ret (usage @ text @ title @ [Finished failed message]))))))))"

text \<open>A result between two turns: a trailing or repeated success is no turn.\<close>

definition turn_result :: "(json \<Rightarrow> bytes) \<Rightarrow> (json \<Rightarrow> string) \<Rightarrow> json \<Rightarrow> action list cl" where
  "turn_result enc str m =
     seq (look (\<lambda>s. s)) (\<lambda>s.
     let text = nonempty_result m
     in if cl_phase s = ClBetweenTurns \<and> \<not> result_failed m \<and> (text = None \<or> text = cl_last_result s) then ret []
        else if cl_phase s = ClBetweenTurns
        then seq (change (\<lambda>s. (reset_turn s)\<lparr>cl_phase := ClRunning\<rparr>)) (\<lambda>_.
             seq (turn_ended enc str m) (\<lambda>acts. ret (TurnStarted # acts)))
        else turn_ended enc str m)"

definition result_message :: "(json \<Rightarrow> bytes) \<Rightarrow> (json \<Rightarrow> string) \<Rightarrow> json \<Rightarrow> action list cl" where
  "result_message enc str m =
     (case json_str (json_field m ''parent_tool_use_id'') of
        Some (c # cs) \<Rightarrow> child_result m (c # cs)
      | _ \<Rightarrow> seq consume_inputs (\<lambda>consumed. seq (turn_result enc str m) (\<lambda>acts. ret (consumed @ acts))))"

section \<open>Decoding\<close>

definition cl_dispatch :: "(json \<Rightarrow> bytes) \<Rightarrow> (json \<Rightarrow> string) \<Rightarrow> json \<Rightarrow> action list cl" where
  "cl_dispatch enc str m =
     (let kind = kind_of m
      in if kind = ''control_response'' then
           (if json_field (json_field m ''response'') ''request_id'' = JString ''latte-interrupt'' then interrupt_answered m
            else if json_field (json_field m ''response'') ''request_id'' = JString ''latte-init'' then cl_initialized enc str m
            else ret [])
         else if kind = ''system'' then system_message m
         else if kind = ''conversation_reset'' then context_dropped
         else if kind = ''control_request'' then control_request enc m
         else if kind = ''stream_event'' then stream_event m
         else if kind = ''assistant'' then assistant_message m
         else if kind = ''user'' then user_message str m
         else if kind = ''result'' then result_message enc str m
         else ret [])"

text \<open>The cases decided before the match on the type.\<close>

definition cl_frame :: "(json \<Rightarrow> bytes) \<Rightarrow> (json \<Rightarrow> string) \<Rightarrow> json \<Rightarrow> action list cl" where
  "cl_frame enc str m =
     seq (look (\<lambda>s. s)) (\<lambda>s.
     let answer = (kind_of m = ''control_response''); rid = json_field (json_field m ''response'') ''request_id'';
         titled = (kind_of m = ''system'' \<and> json_field m ''subtype'' = JString ''session_title_changed'')
     in if answer \<and> rid = JString ''latte-generate-title'' then title_generated m
        else
          (case cl_renaming s of
             Some (i, requested) \<Rightarrow>
               if answer \<and> rid = JString i then rename_answered m requested
               else if titled \<and> foreign_session s m then ret []
               else if titled \<and> top_level m then title_changed m
               else cl_dispatch enc str m
           | None \<Rightarrow>
               if titled \<and> foreign_session s m then ret []
               else if titled \<and> top_level m then title_changed m
               else cl_dispatch enc str m))"

definition cl_decode :: "(json \<Rightarrow> bytes) \<Rightarrow> (json \<Rightarrow> string) \<Rightarrow> json \<Rightarrow> action list cl" where
  "cl_decode enc str m =
     (case (json_str (json_field m ''parent_tool_use_id''), kind_of m \<in> {''assistant'', ''stream_event'', ''user''}) of
        (Some parent, True) \<Rightarrow> child_message m parent
      | _ \<Rightarrow>
          seq (change (attribute_inputs m)) (\<lambda>_.
          seq (begin_autonomous m) (\<lambda>started.
          seq (cl_frame enc str m) (\<lambda>acts. ret (started @ acts)))))"

section \<open>Inputs of the actor\<close>

definition cl_rename_title :: "(json \<Rightarrow> bytes) \<Rightarrow> string \<Rightarrow> string \<Rightarrow> action list cl" where
  "cl_rename_title enc i title =
     seq (look (\<lambda>s. s)) (\<lambda>s.
     seq (require (cl_phase s \<in> {ClRunning, ClBetweenTurns}) NotReadyForTitle) (\<lambda>_.
     seq (require (cl_renaming s = None) TitlePendingAlready) (\<lambda>_.
     seq (change (\<lambda>s. s\<lparr>cl_renaming := Some (i, title), cl_rename_result := None\<rparr>)) (\<lambda>_.
       ret [write_json enc (cl_request i [(''subtype'', JString ''rename_session''), (''title'', JString title),
              (''source'', JString ''host'')])]))))"

definition cl_begin :: "(json \<Rightarrow> bytes) \<Rightarrow> claude_phase \<Rightarrow> action list cl" where
  "cl_begin enc ph =
     seq (look cl_phase) (\<lambda>p.
     seq (require (p = ClIdle) AlreadyStarted) (\<lambda>_.
     seq (change (\<lambda>s. s\<lparr>cl_phase := ph\<rparr>)) (\<lambda>_. ret [write_json enc cl_initialize])))"

definition cl_interrupt :: "(json \<Rightarrow> bytes) \<Rightarrow> action list cl" where
  "cl_interrupt enc =
     seq (look cl_phase) (\<lambda>ph.
       if ph \<noteq> ClRunning then ret [Interrupted]
       else ret [write_json enc (cl_request ''latte-interrupt'' [(''subtype'', JString ''interrupt'')])])"

definition cl_queue :: "(json \<Rightarrow> bytes) \<Rightarrow> (nat \<Rightarrow> string) \<Rightarrow> string \<Rightarrow> string \<Rightarrow> action list cl" where
  "cl_queue enc uuid rid prompt =
     seq (look (\<lambda>s. s)) (\<lambda>s.
     seq (require (cl_phase s = ClRunning) NotRunning) (\<lambda>_.
     seq (check_command prompt) (\<lambda>_.
     seq (require (length (cl_queued s) < 16) InboxFull) (\<lambda>_.
     let u = uuid (cl_uuids s)
     in seq (change (\<lambda>s. remember_skill_command prompt
               (s\<lparr>cl_uuids := Suc (cl_uuids s), cl_queued := AList.update u rid (cl_queued s)\<rparr>))) (\<lambda>_.
          ret [write_json enc (json_set (cl_prompt prompt) ''uuid'' (JString u))])))))"

definition cl_start :: "(json \<Rightarrow> bytes) \<Rightarrow> string \<Rightarrow> action list cl" where
  "cl_start enc prompt =
     seq (look cl_phase) (\<lambda>ph.
       if ph = ClBetweenTurns
       then
         seq (check_command prompt) (\<lambda>_.
         seq (change (\<lambda>s. (remember_skill_command prompt (reset_turn (remember_title_description prompt s)))
                            \<lparr>cl_phase := ClRunning\<rparr>)) (\<lambda>_.
           ret [write_json enc (cl_prompt prompt)]))
       else
         seq (require (ph = ClIdle) TurnAlreadyStarted) (\<lambda>_.
         seq (change (\<lambda>s. remember_skill_command prompt (remember_title_description prompt
                            (s\<lparr>cl_phase := ClInitializing prompt\<rparr>)))) (\<lambda>_.
           ret [write_json enc cl_initialize])))"

definition cl_message :: "(json \<Rightarrow> bytes) \<Rightarrow> (json \<Rightarrow> string) \<Rightarrow> (string \<Rightarrow> json option) \<Rightarrow> string \<Rightarrow> action list cl" where
  "cl_message enc str dec line =
     seq (look cl_phase) (\<lambda>ph.
     seq (require (ph \<notin> {ClIdle, ClFinished}) TurnNotStarted) (\<lambda>_.
     seq (from_result (of_option JsonInvalid (dec line))) (\<lambda>m. cl_decode enc str m)))"

text \<open>The label of an option is read by index; \<open>validate\<close> has checked the indices.\<close>

definition chosen_labels :: "user_question \<Rightarrow> question_answer \<Rightarrow> claude_error + string list" where
  "chosen_labels q a =
     (if list_all (\<lambda>k. unat k < length (uq_options q)) (qa_option_indices a)
      then Inr (map (\<lambda>k. qo_label (uq_options q ! unat k)) (qa_option_indices a) @
                (case qa_text a of Some t \<Rightarrow> if trim t \<noteq> [] then [trim t] else [] | None \<Rightarrow> []))
      else Inl OptionOutOfRange)"

fun answer_values :: "question_answer list \<Rightarrow> (string \<times> json) list \<Rightarrow> (user_question \<times> json) list \<Rightarrow>
    claude_error + (string \<times> json) list" where
  "answer_values answers vs [] = Inr vs"
| "answer_values answers vs ((q, native) # rows) =
     and_then (of_option AnswerMissing (find (\<lambda>a. qa_question_id a = uq_id q) answers)) (\<lambda>a.
     and_then (chosen_labels q a) (\<lambda>labels.
     and_then (of_option QuestionNameMissing (json_str (json_field native ''question''))) (\<lambda>name.
       answer_values answers (AList.update name (JString (join_with '', '' labels)) vs) rows)))"

definition answered_input :: "json \<Rightarrow> user_question list \<Rightarrow> question_answer list \<Rightarrow> claude_error + json" where
  "answered_input input qs answers =
     (case validate_questions qs answers of
        Inl e \<Rightarrow> Inl (AnswerInvalid e)
      | Inr _ \<Rightarrow>
          and_then (of_option QuestionArguments (json_list (json_field input ''questions''))) (\<lambda>rows.
          and_then (answer_values answers [] (zip qs rows)) (\<lambda>vs.
            Inr (json_set input ''answers'' (JObject vs)))))"

definition cl_answer :: "(json \<Rightarrow> bytes) \<Rightarrow> string \<Rightarrow> json \<Rightarrow> user_question list \<Rightarrow> question_answer list option \<Rightarrow> action list cl" where
  "cl_answer enc i input qs answers =
     seq (look cl_phase) (\<lambda>ph.
     seq (require (ph \<in> {ClRunning, ClBetweenTurns}) CannotAnswer) (\<lambda>_.
     seq (from_result (case answers of
            Some as \<Rightarrow> and_then (answered_input input qs as) (\<lambda>v. Inr (cl_approval i v True))
          | None \<Rightarrow> Inr (cl_success i (cl_deny skipped_message)))) (\<lambda>response.
       ret [write_json enc response])))"

definition cl_approve :: "(json \<Rightarrow> bytes) \<Rightarrow> string \<Rightarrow> json \<Rightarrow> bool \<Rightarrow> action list cl" where
  "cl_approve enc i input allow =
     seq (look cl_phase) (\<lambda>ph.
     seq (require (ph \<in> {ClRunning, ClBetweenTurns}) CannotApprove) (\<lambda>_.
       ret [write_json enc (cl_approval i input allow)]))"

fun cl_advance :: "(json \<Rightarrow> bytes) \<Rightarrow> (json \<Rightarrow> string) \<Rightarrow> (string \<Rightarrow> json option) \<Rightarrow> (nat \<Rightarrow> string) \<Rightarrow> agent_input \<Rightarrow> action list cl" where
  "cl_advance enc str dec uuid (InRenameTitle i title) = cl_rename_title enc i title"
| "cl_advance enc str dec uuid InOpen = cl_begin enc ClOpening"
| "cl_advance enc str dec uuid InInterrupt = cl_interrupt enc"
| "cl_advance enc str dec uuid InDiscoverCommands = cl_begin enc ClDiscovering"
| "cl_advance enc str dec uuid (InQueue rid prompt) = cl_queue enc uuid rid prompt"
| "cl_advance enc str dec uuid (InStart prompt) = cl_start enc prompt"
| "cl_advance enc str dec uuid (InMessage line) = cl_message enc str dec line"
| "cl_advance enc str dec uuid (InQuestionAnswer i input qs answers) = cl_answer enc i input qs answers"
| "cl_advance enc str dec uuid (InApproval i input allow) = cl_approve enc i input allow"

definition claude_adapter :: "(json \<Rightarrow> bytes) \<Rightarrow> (json \<Rightarrow> string) \<Rightarrow> (string \<Rightarrow> json option) \<Rightarrow> (nat \<Rightarrow> string) \<Rightarrow>
    (claude_error \<Rightarrow> string) \<Rightarrow> claude agent_adapter" where
  "claude_adapter enc str dec uuid show =
     \<lparr>ad_can_reconfigure = cl_can_reconfigure, ad_can_start_turn = cl_can_start_turn,
      ad_has_background_work = cl_has_background_work, ad_knows_subagent = cl_knows_subagent,
      ad_advance = (\<lambda>s input. case cl_advance enc str dec uuid input s of
                               (Inl e, t) \<Rightarrow> (Inl (show e), t) | (Inr acts, t) \<Rightarrow> (Inr acts, t))\<rparr>"

section \<open>Launching\<close>

text \<open>\<open>base\<close> is the command of \<open>agent_environment\<close>, \<open>skills\<close> the platform instructions of a settings
  directory, \<open>path\<close> the private settings file if it could be created and written. The result is the
  command and the content of that file.\<close>

definition provider_model :: "launch_config \<Rightarrow> provider \<Rightarrow> string" where
  "provider_model cfg p = (case lc_model cfg of Some m \<Rightarrow> m | None \<Rightarrow> pv_model p)"

definition model_variables :: "string list" where
  "model_variables =
     [''ANTHROPIC_MODEL'', ''ANTHROPIC_DEFAULT_MODEL'', ''ANTHROPIC_DEFAULT_HAIKU_MODEL'',
      ''ANTHROPIC_DEFAULT_SONNET_MODEL'', ''ANTHROPIC_DEFAULT_OPUS_MODEL'', ''ANTHROPIC_DEFAULT_FABLE_MODEL'',
      ''ANTHROPIC_SMALL_FAST_MODEL'', ''CLAUDE_CODE_SUBAGENT_MODEL'']"

definition cleared_variables :: "string list" where
  "cleared_variables =
     [''ANTHROPIC_AUTH_TOKEN'', ''ANTHROPIC_API_KEY'', ''CLAUDE_CODE_OAUTH_TOKEN'', ''ANTHROPIC_CUSTOM_HEADERS'',
      ''CLAUDE_CODE_USE_BEDROCK'', ''CLAUDE_CODE_USE_VERTEX'', ''CLAUDE_CODE_USE_FOUNDRY'']"

definition strip_suffix :: "string \<Rightarrow> string \<Rightarrow> string option" where
  "strip_suffix p s = map_option rev (strip_prefix (rev p) (rev s))"

definition base_model :: "string \<Rightarrow> string" where
  "base_model model = (case strip_suffix ''[1m]'' model of Some b \<Rightarrow> b | None \<Rightarrow> model)"

definition window_variables :: "provider \<Rightarrow> string \<Rightarrow> (string \<times> string) list" where
  "window_variables p model =
     (if base_model model \<in> set (pv_models_1m p)
      then (let extended = (base_model model \<noteq> model)
            in [(''CLAUDE_CODE_DISABLE_1M_CONTEXT'', if extended then ''0'' else ''1''),
                (''CLAUDE_CODE_MAX_CONTEXT_TOKENS'', if extended then ''1000000'' else ''200000'')])
      else [])"

definition credential_variable :: "resolved_provider \<Rightarrow> string \<times> string" where
  "credential_variable rp =
     (case pv_auth (rp_metadata rp) of
        Bearer \<Rightarrow> (''ANTHROPIC_AUTH_TOKEN'', rp_credential rp)
      | ApiKey \<Rightarrow> (''ANTHROPIC_API_KEY'', rp_credential rp)
      | AuthNone \<Rightarrow> (''ANTHROPIC_AUTH_TOKEN'', ''latte-work-no-auth''))"

definition provider_variables :: "launch_config \<Rightarrow> resolved_provider \<Rightarrow> (string \<times> string) list" where
  "provider_variables cfg rp =
     (let p = rp_metadata rp; model = provider_model cfg p
      in case credential_variable rp of
           (key, credential) \<Rightarrow>
             AList.update key credential
               ([(''ANTHROPIC_BASE_URL'', pv_base_url p)] @ map (\<lambda>k. (k, model)) model_variables @
                map (\<lambda>k. (k, [])) cleared_variables @ window_variables p model))"

definition session_arguments :: "claude \<Rightarrow> string option \<Rightarrow> launch_config \<Rightarrow> string \<Rightarrow> string list" where
  "session_arguments s resume cfg instructions =
     (if instructions \<noteq> [] then [''--append-system-prompt'', instructions] else []) @
     (case (resume, cl_initial_title s) of (None, Some t) \<Rightarrow> [''--name='' @ t] | _ \<Rightarrow> []) @
     [''-p'', ''--input-format'', ''stream-json'', ''--output-format'', ''stream-json'', ''--verbose'',
      ''--include-partial-messages'', ''--replay-user-messages'', ''--permission-prompt-tool'', ''stdio''] @
     (if cl_phase s = ClDiscovering then [''--no-session-persistence''] else []) @
     (case resume of Some i \<Rightarrow> [''--resume='' @ i] | None \<Rightarrow> []) @
     (case lc_permission_mode cfg of Some mode \<Rightarrow> [''--permission-mode='' @ mode] | None \<Rightarrow> []) @
     (case lc_effort cfg of Some l \<Rightarrow> [''--effort='' @ effort_as_str l] | None \<Rightarrow> [])"

definition effort_variable :: "launch_config \<Rightarrow> (string \<times> string) list" where
  "effort_variable cfg = (case lc_effort cfg of Some l \<Rightarrow> [(''CLAUDE_CODE_EFFORT_LEVEL'', effort_as_str l)] | None \<Rightarrow> [])"

definition set_variables :: "(string \<times> string) list \<Rightarrow> agent_command \<Rightarrow> agent_command" where
  "set_variables vs cmd = cmd\<lparr>cmd_env := fold (\<lambda>(k, v). AList.update k (Some v)) vs (cmd_env cmd)\<rparr>"

definition text_fields :: "(string \<times> string) list \<Rightarrow> json" where
  "text_fields vs = JObject (map (\<lambda>(k, v). (k, JString v)) vs)"

definition launch_settings :: "launch_config \<Rightarrow> json" where
  "launch_settings cfg =
     (case lc_provider cfg of
        Some rp \<Rightarrow>
          JObject [(''env'', text_fields (fold (\<lambda>(k, v). AList.update k v) (effort_variable cfg) (provider_variables cfg rp))),
                   (''model'', JString (provider_model cfg (rp_metadata rp))), (''apiKeyHelper'', JString [])]
      | None \<Rightarrow> JObject [(''env'', text_fields (effort_variable cfg))])"

definition model_argument :: "launch_config \<Rightarrow> string option \<Rightarrow> string list" where
  "model_argument cfg resume =
     (case (lc_provider cfg, lc_model cfg) of
        (Some rp, _) \<Rightarrow> [''--model='' @ provider_model cfg (rp_metadata rp)]
      | (None, Some model) \<Rightarrow> [''--model='' @ model]
      | (None, None) \<Rightarrow> if resume \<noteq> None then [''--model=default''] else [])"

definition cl_command :: "(json \<Rightarrow> bytes) \<Rightarrow> (string \<Rightarrow> string) \<Rightarrow> string option \<Rightarrow> agent_command \<Rightarrow>
    string \<Rightarrow> string option \<Rightarrow> launch_config \<Rightarrow> (agent_command \<times> bytes) cl" where
  "cl_command enc skills path base cwd resume cfg =
     seq (change (\<lambda>s. set_accounting_model
            (case lc_model cfg of Some m \<Rightarrow> Some m | None \<Rightarrow> map_option (\<lambda>p. pv_model (rp_metadata p)) (lc_provider cfg))
            (s\<lparr>cl_native_session := resume\<rparr>))) (\<lambda>_.
     seq (look (\<lambda>s. session_arguments s resume cfg (skills (lc_settings_dir cfg)))) (\<lambda>arguments.
     seq (require (\<forall>p \<in> set_option (lc_provider cfg). pv_protocol (rp_metadata p) = AnthropicMessages)
            ProviderProtocolUnsupported) (\<lambda>_.
     seq (from_result (of_option SettingsNotWritten path)) (\<lambda>file.
     let opened = base\<lparr>cmd_cwd := cwd,
           cmd_env := AList.update ''CLAUDE_CODE_SDK_READS_SESSION_STATE'' (Some ''1'')
                        (AList.update ''CLAUDECODE'' None (cmd_env base))\<rparr>;
         named = set_variables (case lc_provider cfg of Some rp \<Rightarrow> provider_variables cfg rp | None \<Rightarrow> [])
                   (set_variables (effort_variable cfg) opened)
     in ret (named\<lparr>cmd_args := cmd_args base @ arguments @ model_argument cfg resume @ [''--settings'', file]\<rparr>,
             enc (launch_settings cfg))))))"

end
