(* ===== verification/ClaudeLaws.thy ===== *)
theory ClaudeLaws
  imports Claude TraexLaws "HOL-Library.Multiset"
begin

text \<open>
  What the steps of the Claude adapter leave alone. \<open>anchored\<close> is the frame of everything but the handful of
  operations that start or end a turn or take or settle an input; \<open>placids\<close> says of their actions that the
  actor sees no turn and no input in them.
\<close>

section \<open>Operations that do not touch turns and inputs\<close>

definition anchored :: "claude \<Rightarrow> claude \<Rightarrow> bool" where
  "anchored s t \<longleftrightarrow>
     cl_phase t = cl_phase s \<and> cl_queued t = cl_queued s \<and> cl_consumed t = cl_consumed s \<and> cl_uuids t = cl_uuids s"

interpretation anchored: effect_frame anchored
  by unfold_locales (auto simp: anchored_def)

fun placid :: "action \<Rightarrow> bool" where
  "placid TurnStarted = False"
| "placid (Finished _ _) = False"
| "placid (InputsConsumed _) = False"
| "placid (InputRejected _ _) = False"
| "placid _ = True"

abbreviation placids :: "action list \<Rightarrow> bool" where
  "placids acts \<equiv> list_all placid acts"

lemma placid_settles: "placid a \<Longrightarrow> settles a = [] \<and> \<not> is_finished a"
  by (cases a) simp_all

lemma subagent_placid [simp]: "placid (subagent_action i tool kvs status)" "placid (untitled (subagent_action i tool kvs status))"
  by (simp_all add: subagent_action_def untitled_def)

lemma write_placid [simp]: "placid (write_json enc v)" "settles (write_json enc v) = []"
  by (simp_all add: write_json_def)

lemma placids_concat: "(\<And>x. x \<in> set xs \<Longrightarrow> placids (f x)) \<Longrightarrow> placids (concat (map f xs))"
  by (induction xs) auto

text \<open>An operation that is anchored and placid.\<close>

definition hushed :: "action list cl \<Rightarrow> bool" where
  "hushed m \<longleftrightarrow> (\<forall>s. anchored s (snd (m s)) \<and> (\<forall>acts. fst (m s) = Inr acts \<longrightarrow> placids acts))"

lemma hushed_then: "framed anchored m \<Longrightarrow> (\<And>x. hushed (f x)) \<Longrightarrow> hushed (seq m f)"
  unfolding hushed_def framed_def by (auto simp: seq_apply split: sum.split intro: anchored.steps)

lemma hushed_after: "hushed m \<Longrightarrow> (\<And>acts. placids acts \<Longrightarrow> hushed (f acts)) \<Longrightarrow> hushed (seq m f)"
proof -
  assume m: "hushed m" and f: "\<And>acts. placids acts \<Longrightarrow> hushed (f acts)"
  have "anchored s (snd (seq m f s)) \<and> (\<forall>acts. fst (seq m f s) = Inr acts \<longrightarrow> placids acts)" for s
  proof (cases "fst (m s)")
    case (Inl e)
    then show ?thesis using m by (simp add: hushed_def seq_apply)
  next
    case (Inr acts)
    then have "placids acts" and st: "anchored s (snd (m s))" using m unfolding hushed_def by blast+
    then have "hushed (f acts)" using f by blast
    then show ?thesis using Inr st by (auto simp: hushed_def seq_apply intro: anchored.steps)
  qed
  then show ?thesis unfolding hushed_def by blast
qed

lemma hushed_ret: "placids acts \<Longrightarrow> hushed (ret acts)"
  by (simp add: hushed_def eff_simps anchored.same)

lemma hushed_fail: "hushed (fail e)"
  by (simp add: hushed_def eff_simps anchored.same)

lemma hushed_look: "(\<And>s. placids (f s)) \<Longrightarrow> hushed (look f)"
  by (simp add: hushed_def eff_simps anchored.same)

lemma hushed_if: "(c \<Longrightarrow> hushed m) \<Longrightarrow> (\<not> c \<Longrightarrow> hushed n) \<Longrightarrow> hushed (if c then m else n)"
  by simp

lemma hushed_option: "hushed m \<Longrightarrow> (\<And>x. hushed (f x)) \<Longrightarrow> hushed (case v of None \<Rightarrow> m | Some x \<Rightarrow> f x)"
  by (cases v) simp_all

lemma hushed_let: "(\<And>x. hushed (f x)) \<Longrightarrow> hushed (Let v f)"
  by simp

lemma hushed_prod: "(\<And>x y. hushed (f x y)) \<Longrightarrow> hushed (case v of (x, y) \<Rightarrow> f x y)"
  by (cases v) simp

lemma hushed_gather: "(\<And>x. hushed (f x)) \<Longrightarrow> hushed (gather f xs)"
  by (induction xs) (auto intro!: hushed_after hushed_ret)

lemma hushed_framed: "hushed m \<Longrightarrow> framed anchored m"
  by (simp add: hushed_def framed_def)

lemmas anchored_rules = anchored.framed_rules anchored.framed_change

lemmas hushed_rules = hushed_option hushed_prod hushed_let hushed_if hushed_fail hushed_gather hushed_ret hushed_then

lemma update_fields [simp]:
  "cl_phase (update_context model usage s) = cl_phase s" "cl_queued (update_context model usage s) = cl_queued s"
  "cl_consumed (update_context model usage s) = cl_consumed s" "cl_uuids (update_context model usage s) = cl_uuids s"
  "cl_phase (set_accounting_model a s) = cl_phase s" "cl_queued (set_accounting_model a s) = cl_queued s"
  "cl_consumed (set_accounting_model a s) = cl_consumed s" "cl_uuids (set_accounting_model a s) = cl_uuids s"
  "cl_phase (add_commands ns s) = cl_phase s" "cl_queued (add_commands ns s) = cl_queued s"
  "cl_consumed (add_commands ns s) = cl_consumed s" "cl_uuids (add_commands ns s) = cl_uuids s"
  "cl_phase (remember_title_description p s) = cl_phase s" "cl_queued (remember_title_description p s) = cl_queued s"
  "cl_consumed (remember_title_description p s) = cl_consumed s" "cl_uuids (remember_title_description p s) = cl_uuids s"
  "cl_phase (remember_skill_command p s) = cl_phase s" "cl_queued (remember_skill_command p s) = cl_queued s"
  "cl_consumed (remember_skill_command p s) = cl_consumed s" "cl_uuids (remember_skill_command p s) = cl_uuids s"
  "cl_phase (reset_turn s) = cl_phase s" "cl_queued (reset_turn s) = cl_queued s"
  "cl_consumed (reset_turn s) = cl_consumed s" "cl_uuids (reset_turn s) = cl_uuids s"
  by (simp_all add: update_context_def set_accounting_model_def add_commands_def Let_def reset_turn_def
      remember_title_description_def remember_skill_command_def split: option.split)

lemma anchored_small:
  "framed anchored (check_command p)" "framed anchored (record_skill_load name)" "framed anchored (skill_load m)"
  "framed anchored (agent_slot i)"
  unfolding check_command_def record_skill_load_def skill_load_def agent_slot_def
  by (intro anchored_rules; simp add: anchored_def)+

lemma hushed_titles: "hushed (title_generated m)" "hushed (rename_answered m requested)" "hushed (title_changed m)"
  unfolding title_generated_def rename_answered_def title_changed_def
  by (intro hushed_rules anchored_rules; simp add: anchored_def split: option.split)+

lemma hushed_system: "hushed (system_message m)"
proof -
  have "hushed (system_init m)" unfolding system_init_def
    by (intro hushed_rules anchored_rules; simp add: anchored_def split: option.split)
  moreover have "hushed (task_started m)" unfolding task_started_def
    by (intro hushed_rules anchored_rules anchored_small; simp add: anchored_def)
  moreover have "hushed (task_event m)" unfolding task_event_def
    by (intro hushed_rules anchored_rules; simp add: anchored_def split: option.split)
  moreover have "hushed context_dropped" unfolding context_dropped_def
    by (intro hushed_rules anchored_rules; simp add: anchored_def)
  ultimately show ?thesis unfolding system_message_def
    by (intro hushed_rules anchored_rules; simp add: anchored_def)
qed

lemma hushed_requests: "hushed (control_request enc m)" "hushed (interrupt_answered m)" "hushed context_dropped"
  unfolding control_request_def interrupt_answered_def context_dropped_def
  by (intro hushed_rules anchored_rules; simp add: anchored_def split: sum.split)+

lemma hushed_stream: "hushed (stream_event m)"
proof -
  have "hushed (stream_usage event)" for event unfolding stream_usage_def
    by (intro hushed_rules anchored_rules hushed_look; simp add: anchored_def live_usage_def Let_def)
  moreover have "hushed (stream_progress event)" "hushed (stream_text event)" for event
    unfolding stream_progress_def stream_text_def
    by (intro hushed_rules anchored_rules; simp add: anchored_def)+
  ultimately show ?thesis unfolding stream_event_def
    by (intro hushed_let hushed_if hushed_after hushed_ret) simp_all
qed

lemma hushed_assistant: "hushed (assistant_message m)"
proof -
  have "hushed (message_context m)" unfolding message_context_def
    by (intro hushed_rules anchored_rules hushed_look; simp add: anchored_def)
  moreover have d: "hushed (delegate main b)" for main b unfolding delegate_def
    by (intro hushed_rules anchored_rules; simp add: anchored_def)
  have "hushed (if c then delegate main b else ret [])" for c main b using d by (simp add: hushed_ret)
  then have "hushed (assistant_block main b)" for main b unfolding assistant_block_def
    by (intro hushed_then [OF anchored.framed_look] hushed_if hushed_option hushed_then [where m = "change _"]
        hushed_after [where m = "if _ then delegate _ _ else _"] hushed_ret anchored.framed_change d) (simp_all add: anchored_def)
  ultimately show ?thesis unfolding assistant_message_def
    by (intro hushed_after [where m = "message_context _"] hushed_after [where m = "gather _ _"] hushed_gather
        hushed_then [where m = "change _"] hushed_ret anchored.framed_change) (simp_all add: anchored_def)
qed

lemma hushed_user: "hushed (user_message str m)"
proof -
  have "hushed (user_block str main b)" for main b unfolding user_block_def
    by (intro hushed_rules anchored_rules; simp add: anchored_def agent_returned_def list_all_iff)
  then show ?thesis unfolding user_message_def
    by (intro hushed_then [where m = "skill_load _"] hushed_after [where m = "gather _ _"] hushed_gather hushed_ret anchored_small)
      (auto split: option.split)
qed

lemma hushed_child: "hushed (child_message m parent)" "hushed (child_result m parent)"
proof -
  have "hushed (child_delta event parent)" for event unfolding child_delta_def
    by (intro hushed_rules anchored_rules; simp add: anchored_def)
  moreover have "placids (child_block native known streamed parent b)" "placids (child_result_block parent b)" for native known streamed b
    by (simp_all add: child_block_def child_result_block_def split: option.split)
  ultimately show "hushed (child_message m parent)" unfolding child_message_def
    by (intro hushed_rules anchored_rules placids_concat; simp add: anchored_def)
  show "hushed (child_result m parent)" unfolding child_result_def
    by (intro hushed_rules anchored_rules; simp add: anchored_def)
qed

lemma hushed_inputs:
  "hushed (cl_rename_title enc i title)" "hushed (cl_interrupt enc)" "hushed (cl_answer enc i input qs answers)"
  "hushed (cl_approve enc i input allow)"
  unfolding cl_rename_title_def cl_interrupt_def cl_answer_def cl_approve_def
  by (intro hushed_rules anchored_rules; simp add: anchored_def)+

section \<open>Starting and ending turns\<close>

fun turns :: "bool \<Rightarrow> action list \<Rightarrow> bool option" where
  "turns b [] = Some b"
| "turns b (TurnStarted # acts) = (if b then None else turns True acts)"
| "turns b (Finished _ _ # acts) = (if b then turns False acts else None)"
| "turns b (_ # acts) = turns b acts"

lemma turns_append: "turns b (xs @ ys) = (case turns b xs of None \<Rightarrow> None | Some c \<Rightarrow> turns c ys)"
  by (induction b xs rule: turns.induct) auto

lemma turns_placid: "placids acts \<Longrightarrow> turns b acts = Some b"
proof (induction acts arbitrary: b)
  case (Cons a acts)
  then show ?case by (cases a) auto
qed simp

lemma title_request_step:
  obtains acts t where "title_request enc m s = (Inr acts, t)" and "placids acts" and "anchored s t"
proof -
  have "hushed (title_request enc m)" unfolding title_request_def
    by (intro hushed_rules anchored_rules; simp add: anchored_def)
  moreover have "\<exists>acts t. title_request enc m s = (Inr acts, t)"
    by (auto simp: title_request_def eff_simps split: option.split)
  ultimately show thesis using that unfolding hushed_def by (metis fst_conv snd_conv)
qed

lemma turn_ended_step:
  "cl_phase s = ClRunning \<Longrightarrow> \<exists>acts f msg t. turn_ended enc str m s = (Inr (acts @ [Finished f msg]), t) \<and> placids acts \<and>
     anchored (s\<lparr>cl_phase := ClBetweenTurns\<rparr>) t"
  "cl_phase s \<noteq> ClRunning \<Longrightarrow> turn_ended enc str m s = (Inl ResultBeforeInit, s)"
proof -
  assume r: "cl_phase s = ClRunning"
  let ?u = "s\<lparr>cl_phase := ClBetweenTurns,
    cl_context := map_option (context_window (json_field m ''modelUsage'') (cl_accounting_model s)) (cl_context s)\<rparr>"
  obtain acts t where title: "title_request enc m ?u = (Inr acts, t)" and a: "placids acts" "anchored ?u t"
    by (rule title_request_step)
  have e: "turn_ended enc str m s =
     (Inr (((if cl_context ?u \<noteq> None \<or> json_object (json_field m ''usage'') \<noteq> None
             then [ActEvent (Usage (cl_context ?u) (Some (turn_totals m)))] else []) @
           (if \<not> result_failed m \<and> \<not> cl_emitted_text ?u
            then (case nonempty_result m of Some t \<Rightarrow> [ActEvent (Text t)] | None \<Rightarrow> []) else []) @ acts) @
          [Finished (result_failed m) (if result_failed m then Some (case json_str (json_field m ''result'') of
               Some t \<Rightarrow> t | None \<Rightarrow> str (json_field m ''errors'')) else None)]),
      t\<lparr>cl_last_result := json_str (json_field m ''result'')\<rparr>)"
    by (simp add: turn_ended_def eff_simps Let_def r title)
  show "\<exists>acts f msg t. turn_ended enc str m s = (Inr (acts @ [Finished f msg]), t) \<and> placids acts \<and>
     anchored (s\<lparr>cl_phase := ClBetweenTurns\<rparr>) t"
    unfolding e by (intro exI conjI, rule refl) (use a in \<open>auto simp: anchored_def split: option.split\<close>)
next
  assume "cl_phase s \<noteq> ClRunning"
  then show "turn_ended enc str m s = (Inl ResultBeforeInit, s)" by (simp add: turn_ended_def eff_simps Let_def)
qed

text \<open>A result in each phase.\<close>

lemma turn_result_step:
  "cl_phase s = ClRunning \<Longrightarrow> \<exists>acts f msg t. turn_result enc str m s = (Inr (acts @ [Finished f msg]), t) \<and> placids acts \<and>
     anchored (s\<lparr>cl_phase := ClBetweenTurns\<rparr>) t"
  "cl_phase s = ClBetweenTurns \<Longrightarrow> \<exists>t. anchored s t \<and> (turn_result enc str m s = (Inr [], t) \<or>
     (\<exists>acts f msg. turn_result enc str m s = (Inr (TurnStarted # acts @ [Finished f msg]), t) \<and> placids acts))"
  "cl_phase s \<notin> {ClRunning, ClBetweenTurns} \<Longrightarrow> turn_result enc str m s = (Inl ResultBeforeInit, s)"
proof -
  assume "cl_phase s = ClRunning"
  then show "\<exists>acts f msg t. turn_result enc str m s = (Inr (acts @ [Finished f msg]), t) \<and> placids acts \<and>
     anchored (s\<lparr>cl_phase := ClBetweenTurns\<rparr>) t"
    using turn_ended_step(1) [of s enc str m] by (simp add: turn_result_def eff_simps Let_def)
next
  assume b: "cl_phase s = ClBetweenTurns"
  let ?u = "(reset_turn s)\<lparr>cl_phase := ClRunning\<rparr>"
  obtain acts f msg t where e: "turn_ended enc str m ?u = (Inr (acts @ [Finished f msg]), t)" "placids acts"
    "anchored (?u\<lparr>cl_phase := ClBetweenTurns\<rparr>) t"
    using turn_ended_step(1) [of ?u enc str m] by auto
  have "anchored s t" using e(3) b by (simp add: anchored_def)
  then show "\<exists>t. anchored s t \<and> (turn_result enc str m s = (Inr [], t) \<or>
     (\<exists>acts f msg. turn_result enc str m s = (Inr (TurnStarted # acts @ [Finished f msg]), t) \<and> placids acts))"
    using b e(1,2) anchored.same
    by (cases "\<not> result_failed m \<and> (nonempty_result m = None \<or> nonempty_result m = cl_last_result s)")
      (auto simp: turn_result_def eff_simps Let_def)
next
  assume "cl_phase s \<notin> {ClRunning, ClBetweenTurns}"
  then show "turn_result enc str m s = (Inl ResultBeforeInit, s)"
    using turn_ended_step(2) [of s enc str m] by (simp add: turn_result_def eff_simps Let_def)
qed

section \<open>The inbox\<close>

text \<open>An identifier names one input, a confirmed input is still in the inbox, and the inbox is empty before the first turn.\<close>

definition inbox_sound :: "(nat \<Rightarrow> string) \<Rightarrow> claude \<Rightarrow> bool" where
  "inbox_sound uuid s \<longleftrightarrow>
     distinct (map fst (cl_queued s)) \<and> length (cl_queued s) \<le> 16 \<and>
     (\<forall>k \<in> fst ` set (cl_queued s). \<exists>n < cl_uuids s. k = uuid n) \<and>
     distinct (cl_consumed s) \<and> set (cl_consumed s) \<subseteq> fst ` set (cl_queued s) \<and>
     (cl_queued s \<noteq> [] \<longrightarrow> cl_phase s \<in> {ClRunning, ClBetweenTurns})"

definition inbox :: "claude \<Rightarrow> string multiset" where
  "inbox s = mset (map snd (cl_queued s))"

definition announced :: "'e + action list \<Rightarrow> string multiset" where
  "announced r = (case r of Inl _ \<Rightarrow> {#} | Inr acts \<Rightarrow> mset (concat (map settles acts)))"

definition in_turn :: "claude_phase \<Rightarrow> bool" where
  "in_turn ph \<longleftrightarrow> ph = ClRunning \<or> (\<exists>p. ph = ClInitializing p)"

fun phase_moves :: "claude_phase \<Rightarrow> claude_phase \<Rightarrow> bool" where
  "phase_moves ClIdle q = (q \<in> {ClIdle, ClOpening, ClDiscovering} \<or> (\<exists>p. q = ClInitializing p))"
| "phase_moves (ClInitializing p) q = (q \<in> {ClInitializing p, ClRunning})"
| "phase_moves ClOpening q = (q \<in> {ClOpening, ClBetweenTurns})"
| "phase_moves ClDiscovering q = (q \<in> {ClDiscovering, ClFinished})"
| "phase_moves ClRunning q = (q \<in> {ClRunning, ClBetweenTurns})"
| "phase_moves ClBetweenTurns q = (q \<in> {ClBetweenTurns, ClRunning})"
| "phase_moves ClFinished q = (q = ClFinished)"

lemma phase_moves_same [simp]: "phase_moves p p"
  by (cases p) simp_all

text \<open>What a step does to turns and inputs.\<close>

definition law :: "(nat \<Rightarrow> string) \<Rightarrow> claude \<Rightarrow> 'e + action list \<Rightarrow> claude \<Rightarrow> bool" where
  "law uuid s r t \<longleftrightarrow>
     inbox_sound uuid t \<and> inbox t + announced r = inbox s \<and> phase_moves (cl_phase s) (cl_phase t) \<and>
     (\<forall>acts. r = Inr acts \<longrightarrow> turns (in_turn (cl_phase s)) acts = Some (in_turn (cl_phase t)))"

definition lawful :: "(nat \<Rightarrow> string) \<Rightarrow> action list cl \<Rightarrow> bool" where
  "lawful uuid m \<longleftrightarrow> (\<forall>s. inbox_sound uuid s \<longrightarrow> law uuid s (fst (m s)) (snd (m s)))"

lemma inbox_anchored: "anchored s t \<Longrightarrow> inbox_sound uuid t = inbox_sound uuid s \<and> inbox t = inbox s"
  by (simp add: anchored_def inbox_sound_def inbox_def)

lemma announced_placid: "placids acts \<Longrightarrow> announced (Inr acts) = {#}"
  by (induction acts) (auto simp: announced_def dest: placid_settles)

lemma announced_if_placid: "(\<And>acts. r = Inr acts \<Longrightarrow> placids acts) \<Longrightarrow> announced r = {#}"
  by (cases r) (simp_all add: announced_placid, simp add: announced_def)

lemma announced_simps [simp]: "announced (Inl e) = {#}" "announced (Inr []) = {#}"
  "announced (Inr (a # acts) :: 'e + action list) = mset (settles a) + announced (Inr acts :: 'e + action list)"
  "announced (Inr (xs @ ys) :: 'e + action list) = announced (Inr xs :: 'e + action list) + announced (Inr ys :: 'e + action list)"
  by (simp_all add: announced_def)

lemma lawful_hushed: "hushed m \<Longrightarrow> lawful uuid m"
  unfolding lawful_def
proof (intro allI impI)
  fix s assume m: "hushed m" and s: "inbox_sound uuid s"
  then have a: "anchored s (snd (m s))" and c: "\<And>acts. fst (m s) = Inr acts \<Longrightarrow> placids acts" by (auto simp: hushed_def)
  have "announced (fst (m s)) = {#}" using c by (cases "fst (m s)") (simp_all add: announced_placid)
  then show "law uuid s (fst (m s)) (snd (m s))"
    using a s inbox_anchored [OF a] c by (auto simp: law_def anchored_def turns_placid)
qed

lemma lawful_if: "(c \<Longrightarrow> lawful uuid m) \<Longrightarrow> (\<not> c \<Longrightarrow> lawful uuid n) \<Longrightarrow> lawful uuid (if c then m else n)"
  by simp

lemma lawful_option: "lawful uuid m \<Longrightarrow> (\<And>x. lawful uuid (f x)) \<Longrightarrow> lawful uuid (case v of None \<Rightarrow> m | Some x \<Rightarrow> f x)"
  by (cases v) simp_all

lemma lawful_prod: "(\<And>x y. lawful uuid (f x y)) \<Longrightarrow> lawful uuid (case v of (x, y) \<Rightarrow> f x y)"
  by (cases v) simp

lemma lawful_let: "(\<And>x. lawful uuid (f x)) \<Longrightarrow> lawful uuid (Let v f)"
  by simp

lemma lawful_look: "(\<And>x. lawful uuid (f x)) \<Longrightarrow> lawful uuid (seq (look g) f)"
  by (simp add: lawful_def eff_simps)

lemmas lawful_rules = lawful_option lawful_prod lawful_let lawful_if lawful_look

text \<open>Taking the confirmed inputs out of the inbox.\<close>

lemma taken_inputs:
  fixes q :: "(string \<times> string) list"
  assumes "distinct (map fst q)" and "distinct c" and "set c \<subseteq> fst ` set q"
  shows "mset (map snd (filter (\<lambda>(k, _). k \<notin> set c) q)) + mset (List.map_filter (map_of q) c) = mset (map snd q)"
  using assms(2,3)
proof (induction c)
  case Nil
  then show ?case by (simp add: List.map_filter_simps split_beta)
next
  case (Cons x c)
  then obtain v where v: "(x, v) \<in> set q" by auto
  then have m: "map_of q x = Some v" using assms(1) by simp
  have other: "x \<notin> fst ` set ws \<Longrightarrow> filter (\<lambda>(k, _). k \<noteq> x) ws = ws" for ws :: "(string \<times> string) list"
    by (induction ws) auto
  have one: "filter (\<lambda>(k, _). k \<notin> set c) q = us @ (x, v) # vs \<Longrightarrow> x \<notin> fst ` set us \<Longrightarrow> x \<notin> fst ` set vs \<Longrightarrow>
      filter (\<lambda>(k, _). k \<notin> set (x # c)) q = us @ vs" for us vs
  proof -
    assume e: "filter (\<lambda>(k, _). k \<notin> set c) q = us @ (x, v) # vs" and n: "x \<notin> fst ` set us" "x \<notin> fst ` set vs"
    have "filter (\<lambda>(k, _). k \<notin> set (x # c)) q = filter (\<lambda>(k, _). k \<noteq> x) (filter (\<lambda>(k, _). k \<notin> set c) q)"
      by (simp add: case_prod_unfold conj_commute)
    also have "\<dots> = us @ vs" unfolding e using n by (simp add: other)
    finally show ?thesis .
  qed
  have "(x, v) \<in> set (filter (\<lambda>(k, _). k \<notin> set c) q)" using v Cons.prems(1) by simp
  then obtain us vs where e: "filter (\<lambda>(k, _). k \<notin> set c) q = us @ (x, v) # vs" by (meson split_list)
  have "distinct (map fst (us @ (x, v) # vs))" unfolding e [symmetric]
    using assms(1) by (induction q) (auto simp: split_beta)
  then have "x \<notin> fst ` set us" "x \<notin> fst ` set vs" by auto
  from one [OF e this] show ?case using Cons.IH Cons.prems e m by (simp add: List.map_filter_simps)
qed

lemma consume_apply:
  "consume_inputs s = (Inr (if List.map_filter (map_of (cl_queued s)) (cl_consumed s) \<noteq> []
       then [InputsConsumed (List.map_filter (map_of (cl_queued s)) (cl_consumed s))] else []),
     s\<lparr>cl_queued := filter (\<lambda>(k, _). k \<notin> set (cl_consumed s)) (cl_queued s), cl_consumed := []\<rparr>)"
  by (simp add: consume_inputs_def eff_simps)

lemma filter_keys: "distinct (map fst q) \<Longrightarrow> distinct (map fst (filter P q))"
  by (induction q) auto

lemma consume_sound:
  assumes "inbox_sound uuid s" and "consume_inputs s = (r, t)"
  shows "inbox_sound uuid t" and "inbox t + announced r = inbox s" and "cl_phase t = cl_phase s"
proof -
  have t: "t = s\<lparr>cl_queued := filter (\<lambda>(k, _). k \<notin> set (cl_consumed s)) (cl_queued s), cl_consumed := []\<rparr>"
    using assms(2) by (simp add: consume_apply)
  have "length (filter P (cl_queued s)) \<le> 16" for P
    using assms(1) by (intro le_trans [OF length_filter_le]) (simp add: inbox_sound_def)
  then show "inbox_sound uuid t" using assms(1) unfolding t by (auto simp: inbox_sound_def filter_keys)
  show "inbox t + announced r = inbox s" using assms taken_inputs [of "cl_queued s" "cl_consumed s"]
    by (auto simp: consume_apply inbox_def inbox_sound_def)
  show "cl_phase t = cl_phase s" using t by simp
qed

lemma lawful_result: "lawful uuid (result_message enc str m)"
proof -
  have "lawful uuid (seq consume_inputs (\<lambda>consumed. seq (turn_result enc str m) (\<lambda>acts. ret (consumed @ acts))))"
    (is "lawful uuid ?m")
    unfolding lawful_def
  proof (intro allI impI)
    fix s assume s: "inbox_sound uuid s"
    obtain ids u where c: "consume_inputs s = (Inr ids, u)" by (simp add: consume_apply)
    have ids: "ids = [] \<or> (\<exists>xs. ids = [InputsConsumed xs])" using c by (simp add: consume_apply split: if_splits) auto
    note u = consume_sound [OF s c]
    have tu: "turns b ids = Some b" for b using ids by auto
    show "law uuid s (fst (?m s)) (snd (?m s))"
    proof (cases "cl_phase s = ClRunning")
      case True
      then have ph: "cl_phase u = ClRunning" using u(3) by simp
      obtain acts f msg t where e: "turn_result enc str m u = (Inr (acts @ [Finished f msg]), t)" "placids acts"
        "anchored (u\<lparr>cl_phase := ClBetweenTurns\<rparr>) t"
        using turn_result_step(1) [OF ph] by metis
      have "inbox_sound uuid t \<and> inbox t = inbox u" using e(3) u(1) by (auto simp: anchored_def inbox_sound_def inbox_def)
      then show ?thesis using u e True tu
        by (auto simp: law_def seq_apply eff_simps c turns_append turns_placid announced_placid in_turn_def anchored_def)
    next
      case False
      show ?thesis
      proof (cases "cl_phase s = ClBetweenTurns")
        case True
        then have ph: "cl_phase u = ClBetweenTurns" using u(3) by simp
        obtain t where t: "anchored u t" and "turn_result enc str m u = (Inr [], t) \<or>
            (\<exists>acts f msg. turn_result enc str m u = (Inr (TurnStarted # acts @ [Finished f msg]), t) \<and> placids acts)"
          using turn_result_step(2) [OF ph] by metis
        then show ?thesis using u True tu inbox_anchored [OF t]
          by (auto simp: law_def seq_apply eff_simps c turns_append turns_placid announced_placid in_turn_def anchored_def)
      next
        case b: False
        then have empty: "cl_queued s = []" "cl_consumed s = []" using s False by (auto simp: inbox_sound_def)
        then have "announced (Inr ids :: claude_error + action list) = {#}"
          using c by (auto simp: consume_apply List.map_filter_simps)
        moreover have "turn_result enc str m u = (Inl ResultBeforeInit, u)"
          using turn_result_step(3) [of u enc str m] False b u(3) by simp
        ultimately show ?thesis using u by (simp add: law_def seq_apply eff_simps c)
      qed
    qed
  qed
  then show ?thesis unfolding result_message_def
    by (auto intro: lawful_hushed hushed_child split: option.split list.split)
qed

lemma initialized_step:
  assumes "session_initialized enc catalog prompt s = (r, t)"
  shows "cl_queued t = cl_queued s \<and> cl_consumed t = cl_consumed s \<and> cl_uuids t = cl_uuids s \<and>
    (\<forall>acts. r = Inr acts \<longrightarrow> placids acts) \<and>
    (case prompt of None \<Rightarrow> r = Inr [ActReady] \<and> cl_phase t = ClBetweenTurns | Some p \<Rightarrow> cl_phase t = ClRunning)"
  using assms
  by (auto simp: session_initialized_def eff_simps check_command_def split: option.splits sum.splits if_splits)

lemma lawful_initialized: "lawful uuid (cl_initialized enc str m)"
proof -
  have session_law: "law uuid s (fst (session_initialized enc catalog prompt s)) (snd (session_initialized enc catalog prompt s))"
    if "inbox_sound uuid s" and "cl_phase s = (case prompt of None \<Rightarrow> ClOpening | Some p \<Rightarrow> ClInitializing p)" for catalog prompt s
    using initialized_step [of enc catalog prompt s] that
    by (cases "session_initialized enc catalog prompt s"; cases prompt)
      (auto simp: law_def inbox_sound_def inbox_def announced_if_placid turns_placid in_turn_def)
  then have open_law: "law uuid s (fst (session_initialized enc catalog None s)) (snd (session_initialized enc catalog None s))"
      if "inbox_sound uuid s" and "cl_phase s = ClOpening" for catalog s
    using that by (metis option.simps(4))
  have start_law: "law uuid s (fst (session_initialized enc catalog (Some p) s)) (snd (session_initialized enc catalog (Some p) s))"
      if "inbox_sound uuid s" and "cl_phase s = ClInitializing p" for catalog p s
    using session_law [of s "Some p" catalog] that by simp
  have "law uuid s (fst (cl_initialized enc str m s)) (snd (cl_initialized enc str m s))" if s: "inbox_sound uuid s" for s
  proof -
    let ?catalog = "json_field (json_field (json_field m ''response'') ''response'') ''commands''"
    have stay: "law uuid s (Inl e) s" "law uuid s (Inr []) s" for e using s by (simp_all add: law_def)
    have found: "law uuid s (Inr [Commands cs]) (s\<lparr>cl_phase := ClFinished\<rparr>)" if "cl_phase s = ClDiscovering" for cs
      using s that by (auto simp: law_def inbox_sound_def inbox_def in_turn_def)
    show ?thesis
    proof (cases "json_field (json_field m ''response'') ''subtype'' = JString ''success''")
      case False
      then show ?thesis using stay by (simp add: cl_initialized_def Let_def eff_simps)
    next
      case True
      then show ?thesis using stay found open_law [OF s] start_law [OF s]
        by (cases "cl_phase s"; cases "parse_commands ?catalog") (simp_all add: cl_initialized_def Let_def eff_simps)
    qed
  qed
  then show ?thesis by (simp add: lawful_def)
qed

lemma lawful_frame: "lawful uuid (cl_frame enc str m)"
proof -
  have "lawful uuid (cl_dispatch enc str m)" unfolding cl_dispatch_def
    by (intro lawful_rules lawful_result lawful_initialized lawful_hushed [OF hushed_system] hushed_requests [THEN lawful_hushed]
        lawful_hushed [OF hushed_stream] lawful_hushed [OF hushed_assistant] lawful_hushed [OF hushed_user]
        lawful_hushed [OF hushed_ret]) simp_all
  then show ?thesis unfolding cl_frame_def
    by (intro lawful_rules hushed_titles [THEN lawful_hushed] lawful_hushed [OF hushed_ret]) simp_all
qed

section \<open>A step of the adapter\<close>

lemma attribute_sound:
  "inbox_sound uuid s \<Longrightarrow> inbox_sound uuid (attribute_inputs m s)" "inbox (attribute_inputs m s) = inbox s"
  "cl_phase (attribute_inputs m s) = cl_phase s"
proof -
  have known: "set (fold (\<lambda>i ids. if map_of q i \<noteq> None then List.insert i ids else ids) xs ys) \<subseteq> set ys \<union> fst ` set q \<and>
      (distinct ys \<longrightarrow> distinct (fold (\<lambda>i ids. if map_of q i \<noteq> None then List.insert i ids else ids) xs ys))"
    for xs ys :: "string list" and q :: "(string \<times> string) list"
  proof (induction xs arbitrary: ys)
    case (Cons x xs)
    have "map_of q x \<noteq> None \<Longrightarrow> x \<in> fst ` set q" by (simp add: map_of_eq_None_iff)
    then show ?case
      using Cons.IH [of "if map_of q x \<noteq> None then List.insert x ys else ys"] by (auto split: if_splits)
  qed simp
  show "inbox_sound uuid s \<Longrightarrow> inbox_sound uuid (attribute_inputs m s)"
    using known [of "cl_queued s" "attributed_ids m" "cl_consumed s"] by (auto simp: attribute_inputs_def inbox_sound_def)
  show "inbox (attribute_inputs m s) = inbox s" "cl_phase (attribute_inputs m s) = cl_phase s"
    by (simp_all add: attribute_inputs_def inbox_def)
qed

lemma lawful_decode: "lawful uuid (cl_decode enc str m)"
proof -
  let ?rest = "\<lambda>m. seq (change (attribute_inputs m)) (\<lambda>_. seq (begin_autonomous m) (\<lambda>started.
      seq (cl_frame enc str m) (\<lambda>acts. ret (started @ acts))))"
  have "law uuid s (fst (?rest m s)) (snd (?rest m s))" if s: "inbox_sound uuid s" for s
  proof -
    let ?u = "attribute_inputs m s"
    have u: "inbox_sound uuid ?u" "inbox ?u = inbox s" "cl_phase ?u = cl_phase s" by (simp_all add: attribute_sound s)
    show ?thesis
    proof (cases "cl_phase s = ClBetweenTurns \<and> autonomous_output m")
      case True
      let ?v = "(reset_turn ?u)\<lparr>cl_phase := ClRunning\<rparr>"
      have v: "inbox_sound uuid ?v" "inbox ?v = inbox s" using u True by (simp_all add: inbox_sound_def inbox_def)
      obtain r t where e: "cl_frame enc str m ?v = (r, t)" by fastforce
      have "law uuid ?v r t" using lawful_frame [of uuid enc str m] v(1) e by (simp add: lawful_def) (metis fst_conv snd_conv)
      then show ?thesis using True u v e
        by (cases r) (auto simp: law_def eff_simps begin_autonomous_def in_turn_def)
    next
      case False
      obtain r t where e: "cl_frame enc str m ?u = (r, t)" by fastforce
      have "law uuid ?u r t" using lawful_frame [of uuid enc str m] u(1) e by (simp add: lawful_def) (metis fst_conv snd_conv)
      then show ?thesis using False u e by (cases r) (auto simp: law_def eff_simps begin_autonomous_def)
    qed
  qed
  then have "lawful uuid (?rest m)" by (simp add: lawful_def)
  then show ?thesis unfolding cl_decode_def
    by (auto intro: lawful_hushed hushed_child split: option.split bool.split)
qed

fun handed :: "agent_input \<Rightarrow> 'e + 'a \<Rightarrow> string multiset" where
  "handed (InQueue rid prompt) (Inr _) = {#rid#}"
| "handed _ _ = {#}"

fun starting :: "agent_input \<Rightarrow> bool" where
  "starting (InStart _) = True"
| "starting _ = False"

definition steps_on :: "(nat \<Rightarrow> string) \<Rightarrow> agent_input \<Rightarrow> claude \<Rightarrow> claude_error + action list \<Rightarrow> claude \<Rightarrow> bool" where
  "steps_on uuid input s r t \<longleftrightarrow>
     inbox_sound uuid t \<and> inbox t + announced r = inbox s + handed input r \<and> phase_moves (cl_phase s) (cl_phase t) \<and>
     (\<forall>acts. r = Inr acts \<longrightarrow> turns (in_turn (cl_phase s) \<or> starting input) acts = Some (in_turn (cl_phase t)))"

lemma lawful_steps:
  assumes "lawful uuid m" and "inbox_sound uuid s" and "m s = (r, t)" and "\<not> starting input" and "handed input r = {#}"
  shows "steps_on uuid input s r t"
proof -
  have "law uuid s r t" using assms(1-3) unfolding lawful_def by (metis fst_conv snd_conv)
  then show ?thesis using assms(4,5) by (simp add: law_def steps_on_def)
qed

lemma begin_lawful: "ph \<in> {ClOpening, ClDiscovering} \<Longrightarrow> lawful uuid (cl_begin enc ph)"
  by (auto simp: lawful_def law_def cl_begin_def eff_simps inbox_sound_def inbox_def in_turn_def write_json_def)

lemma queue_steps:
  assumes "inj uuid" and "inbox_sound uuid s" and "cl_queue enc uuid rid prompt s = (r, t)"
  shows "steps_on uuid (InQueue rid prompt) s r t"
proof (cases r)
  case (Inl e)
  then have "t = s" using assms(3)
    by (auto simp: cl_queue_def eff_simps check_command_def Let_def split: option.splits if_splits)
  then show ?thesis using assms(2) Inl by (simp add: steps_on_def)
next
  case (Inr acts)
  let ?u = "uuid (cl_uuids s)"
  let ?s = "s\<lparr>cl_uuids := Suc (cl_uuids s), cl_queued := AList.update ?u rid (cl_queued s)\<rparr>"
  have e: "cl_phase s = ClRunning" "length (cl_queued s) < 16" "t = remember_skill_command prompt ?s"
      "acts = [write_json enc (json_set (cl_prompt prompt) ''uuid'' (JString ?u))]"
    using assms(3) Inr by (auto simp: cl_queue_def eff_simps check_command_def Let_def split: option.splits if_splits)
  have "?u \<notin> fst ` set (cl_queued s)"
  proof
    assume "?u \<in> fst ` set (cl_queued s)"
    then obtain n where "n < cl_uuids s" "?u = uuid n" using assms(2) unfolding inbox_sound_def by blast
    then show False using assms(1) by (auto dest: injD)
  qed
  then have q: "cl_queued t = cl_queued s @ [(?u, rid)]" using e(3) by (simp add: update_fresh)
  then show ?thesis using assms(2) e Inr \<open>?u \<notin> fst ` set (cl_queued s)\<close>
    by (auto simp: steps_on_def inbox_sound_def inbox_def in_turn_def announced_placid turns_placid less_Suc_eq)
qed

lemma sound_running:
  "inbox_sound uuid s \<Longrightarrow> cl_queued t = cl_queued s \<Longrightarrow> cl_consumed t = cl_consumed s \<Longrightarrow> cl_uuids t = cl_uuids s \<Longrightarrow>
   cl_phase t = ClRunning \<or> cl_queued s = [] \<Longrightarrow> inbox_sound uuid t \<and> inbox t = inbox s"
  by (auto simp: inbox_sound_def inbox_def)

lemma start_steps:
  assumes "inbox_sound uuid s" and "cl_start enc prompt s = (r, t)"
  shows "steps_on uuid (InStart prompt) s r t"
proof (cases r)
  case (Inl e)
  then have "t = s" using assms(2) by (auto simp: cl_start_def eff_simps check_command_def split: option.splits if_splits)
  then show ?thesis using assms(1) Inl by (simp add: steps_on_def)
next
  case (Inr acts)
  then have e: "\<exists>v. acts = [write_json enc v]" "cl_queued t = cl_queued s" "cl_consumed t = cl_consumed s" "cl_uuids t = cl_uuids s"
    "cl_phase s = ClBetweenTurns \<and> cl_phase t = ClRunning \<or> cl_phase s = ClIdle \<and> cl_phase t = ClInitializing prompt"
    using assms(2) by (auto simp: cl_start_def eff_simps check_command_def split: option.splits if_splits)
  then have "cl_phase t = ClRunning \<or> cl_queued s = []" using assms(1) by (auto simp: inbox_sound_def)
  then show ?thesis using sound_running [OF assms(1) e(2-4)] e Inr
    by (auto simp: steps_on_def in_turn_def announced_placid turns_placid)
qed

lemma lawful_advance:
  assumes "\<not> starting input" and "\<forall>rid prompt. input \<noteq> InQueue rid prompt"
  shows "lawful uuid (cl_advance enc str dec uuid input)"
proof -
  have "lawful uuid (cl_message enc str dec line)" for line unfolding cl_message_def
    by (simp add: lawful_def eff_simps law_def lawful_decode [unfolded lawful_def law_def] split: sum.split)
  then show ?thesis using assms
    by (cases input) (simp_all add: begin_lawful lawful_hushed hushed_inputs)
qed

lemma advance_steps:
  assumes "inj uuid" and "inbox_sound uuid s" and "cl_advance enc str dec uuid input s = (r, t)"
  shows "steps_on uuid input s r t"
proof (cases "starting input \<or> (\<exists>rid prompt. input = InQueue rid prompt)")
  case True
  then show ?thesis using queue_steps [OF assms(1,2)] start_steps [OF assms(2)] assms(3) by (cases input) auto
next
  case False
  moreover have "handed input r = {#}" using False by (cases input) auto
  ultimately show ?thesis using lawful_steps [OF lawful_advance assms(2,3)] by blast
qed

section \<open>The order of a batch\<close>

lemma placids_batch: "placids acts \<Longrightarrow> batch acts"
  by (auto simp: batch_def list_all_iff dest: placid_settles set_dropWhileD)

lemma batch_hushed: "hushed m \<Longrightarrow> gives batch m"
  unfolding gives_def hushed_def by (metis placids_batch fst_conv)

lemma batch_before: "(\<And>x. x \<in> set xs \<Longrightarrow> \<not> is_finished x) \<Longrightarrow> batch acts \<Longrightarrow> batch (xs @ acts)"
  by (auto simp: batch_def dropWhile_append2)

lemma batch_ended: "placids acts \<Longrightarrow> batch (acts @ [Finished f msg])"
  by (rule batch_before) (auto simp: batch_def list_all_iff dest: placid_settles)

lemma batch_result: "gives batch (result_message enc str m)"
proof -
  have turn: "batch acts" if "turn_result enc str m s = (Inr acts, t)" for acts s t
  proof (cases "cl_phase s = ClRunning")
    case True
    then show ?thesis using turn_result_step(1) [OF True, of enc str m] that by (auto simp: batch_ended)
  next
    case False
    show ?thesis
    proof (cases "cl_phase s = ClBetweenTurns")
      case True
      have "batch (TurnStarted # acts @ [Finished f msg])" if "placids acts" for acts f msg
        using batch_before [of "[TurnStarted]"] batch_ended [OF that] by simp
      then show ?thesis using turn_result_step(2) [OF True, of enc str m] that by (auto simp: batch_def)
    next
      case b: False
      then show ?thesis using turn_result_step(3) [of s enc str m] that False by simp
    qed
  qed
  have "gives batch (seq consume_inputs (\<lambda>consumed. seq (turn_result enc str m) (\<lambda>acts. ret (consumed @ acts))))"
  proof (rule gives_seq)
    show "gives (\<lambda>acts. \<forall>x \<in> set acts. \<not> is_finished x) consume_inputs"
      by (auto simp: gives_def consume_apply split: if_splits)
    have "gives batch (turn_result enc str m)" using turn unfolding gives_def by blast
    then show "gives batch (seq (turn_result enc str m) (\<lambda>acts. ret (ids @ acts)))" if "\<forall>x \<in> set ids. \<not> is_finished x" for ids
      using that by (intro gives_seq [where M = batch] gives_ret batch_before) auto
  qed
  then show ?thesis unfolding result_message_def
    by (auto intro: batch_hushed hushed_child split: option.split list.split)
qed

lemma batch_initialized: "gives batch (cl_initialized enc str m)"
proof -
  have "gives batch (session_initialized enc catalog prompt)" for catalog prompt
    unfolding gives_def using initialized_step by (metis placids_batch)
  then show ?thesis unfolding cl_initialized_def
    by (auto simp: Let_def gives_fail batch_ret split: claude_phase.split
        intro!: gives_then [where m = "look _"] gives_then [where m = "change _"] gives_then [where m = "from_result _"] placids_batch gives_ret)
qed

lemma gives_case_prod: "(\<And>x y. gives C (f x y)) \<Longrightarrow> gives C (case v of (x, y) \<Rightarrow> f x y)"
  by (cases v) simp

lemma batch_frame: "gives batch (cl_frame enc str m)"
proof -
  have "gives batch (cl_dispatch enc str m)" unfolding cl_dispatch_def Let_def
    by (intro gives_if batch_result batch_initialized batch_hushed hushed_system hushed_requests hushed_stream
        hushed_assistant hushed_user hushed_ret) simp_all
  note parts = this hushed_titles [THEN batch_hushed] batch_hushed [OF hushed_ret, of "[]", simplified]
  show ?thesis unfolding cl_frame_def Let_def
    by (rule gives_then [where m = "look _"] gives_if gives_option gives_case_prod parts)+
qed

lemma batch_decode: "gives batch (cl_decode enc str m)"
proof -
  have started: "gives (\<lambda>acts. \<forall>x \<in> set acts. \<not> is_finished x) (begin_autonomous m)"
    unfolding begin_autonomous_def by (intro gives_then gives_if gives_ret) simp_all
  have "gives batch (seq (change (attribute_inputs m)) (\<lambda>_. seq (begin_autonomous m) (\<lambda>started.
      seq (cl_frame enc str m) (\<lambda>acts. ret (started @ acts)))))"
    by (intro gives_then [where m = "change _"] gives_seq [OF started] gives_seq [OF batch_frame] gives_ret batch_before) auto
  then show ?thesis unfolding cl_decode_def
    by (auto intro: batch_hushed hushed_child split: option.split bool.split)
qed

lemma batch_claude: "gives batch (cl_advance enc str dec uuid input)"
proof -
  have "gives batch (cl_begin enc ph)" "gives batch (cl_queue enc uuid rid prompt)" "gives batch (cl_start enc prompt)"
    "gives batch (cl_message enc str dec line)" for ph rid prompt line
    unfolding cl_begin_def cl_queue_def cl_start_def cl_message_def Let_def
    by (intro gives_then gives_if gives_ret batch_decode; simp add: placids_batch)+
  then show ?thesis by (cases input) (simp_all add: batch_hushed hushed_inputs)
qed

end
