(* ===== verification/TraexClaims.thy ===== *)
theory TraexClaims
  imports TraexSession
begin

text \<open>
  The states a Traex adapter reaches, a sample session on a four-line protocol, and the claims about the adapter:
  the contract with the actor, the outcome of inputs, the life cycle, the tables, the approvals and the launch.
\<close>

section \<open>Reachable states\<close>

text \<open>A fresh adapter after \<open>set_session_title\<close> and \<open>command\<close> differs from the default in what the launch fixes.\<close>

definition launched :: "traex \<Rightarrow> bool" where
  "launched s \<longleftrightarrow> s\<lparr>tx_cwd := [], tx_resume := None, tx_title := None, tx_platform_instructions := [], tx_config := None,
     tx_model_provider := None\<rparr> = traex_default"

lemma command_launches:
  "tx_command u str skills fresh base cwd resume cfg (tx_set_session_title title resuming traex_default) = (r, s) \<Longrightarrow> launched s"
  by (auto simp: tx_command_def tx_set_session_title_def launched_def traex_default_def eff_simps Let_def
        split: option.splits if_splits)

inductive tx_reaches :: "(json \<Rightarrow> bytes) \<Rightarrow> (json \<Rightarrow> string) \<Rightarrow> (string \<Rightarrow> json option) \<Rightarrow> traex \<Rightarrow> bool"
  for enc str dec where
  start: "launched s \<Longrightarrow> tx_reaches enc str dec s"
| step: "tx_reaches enc str dec s \<Longrightarrow> (input = InDiscoverCommands \<Longrightarrow> tx_phase s = PhFresh) \<Longrightarrow>
    tx_advance enc str dec input s = (r, t) \<Longrightarrow> tx_reaches enc str dec t"

lemma launched_fields:
  assumes "launched s"
  shows "tx_phase s = PhFresh" "tx_pending s = []" "tx_steered s = []" "tx_early_completions s = []" "tx_approvals s = []"
    "tx_streamed s = []" "tx_tools s = []" "tx_background s = []" "tx_children s = []" "tx_turn s = None"
proof -
  let ?s = "s\<lparr>tx_cwd := [], tx_resume := None, tx_title := None, tx_platform_instructions := [], tx_config := None,
     tx_model_provider := None\<rparr>"
  have s: "?s = traex_default" using assms by (simp add: launched_def)
  show "tx_phase s = PhFresh" using arg_cong [OF s, of tx_phase] by (simp add: traex_default_def)
  show "tx_pending s = []" using arg_cong [OF s, of tx_pending] by (simp add: traex_default_def)
  show "tx_steered s = []" using arg_cong [OF s, of tx_steered] by (simp add: traex_default_def)
  show "tx_early_completions s = []" using arg_cong [OF s, of tx_early_completions] by (simp add: traex_default_def)
  show "tx_approvals s = []" using arg_cong [OF s, of tx_approvals] by (simp add: traex_default_def)
  show "tx_streamed s = []" using arg_cong [OF s, of tx_streamed] by (simp add: traex_default_def)
  show "tx_tools s = []" using arg_cong [OF s, of tx_tools] by (simp add: traex_default_def)
  show "tx_background s = []" using arg_cong [OF s, of tx_background] by (simp add: traex_default_def)
  show "tx_children s = []" using arg_cong [OF s, of tx_children] by (simp add: traex_default_def)
  show "tx_turn s = None" using arg_cong [OF s, of tx_turn] by (simp add: traex_default_def)
qed

lemma reaches_tables: "tx_reaches enc str dec s \<Longrightarrow> tables s"
proof (induction rule: tx_reaches.induct)
  case (start s)
  then show ?case using launched_fields [OF start]
    by (simp add: tables_def numbered_def queued_inputs_def List.map_filter_simps)
next
  case (step s input r t)
  then show ?case using framedD [OF tabled_advance step.hyps(3)] by (simp add: tabled_def)
qed

lemma reaches_phased: "tx_reaches enc str dec s \<Longrightarrow> phased s"
proof (induction rule: tx_reaches.induct)
  case (start s)
  then show ?case using launched_fields [OF start] by (simp add: phased_def)
next
  case (step s input r t)
  then show ?case using advance_moves [OF step.IH step.hyps(2), where input = input and enc = enc and str = str and dec = dec] by (simp add: led_def advances_def)
qed

section \<open>A sample session\<close>

definition sample_dec :: "string \<Rightarrow> json option" where
  "sample_dec line = (
     if line = ''a'' then Some (JObject [(''id'', JString ''latte-1''), (''result'', JNull)])
     else if line = ''b'' then Some (JObject [(''id'', JString ''latte-2''),
       (''result'', JObject [(''config'', JObject [(''model_provider'', JString ''p'')])])])
     else if line = ''c'' then Some (JObject [(''id'', JString ''latte-3''),
       (''result'', JObject [(''thread'', JObject [(''id'', JString ''t'')])])])
     else if line = ''d'' then Some (JObject [(''id'', JString ''latte-4''),
       (''result'', JObject [(''turn'', JObject [(''id'', JString ''u'')])])])
     else if line = ''e'' then Some (JObject [(''id'', JString ''latte-5''), (''result'', JObject [(''turnId'', JString ''u'')])])
     else if line = ''f'' then Some (JObject [(''method'', JString ''turn/completed''), (''params'', JObject [(''threadId'', JString ''t''),
       (''turn'', JObject [(''id'', JString ''u''), (''status'', JString ''completed'')])])])
     else if line = ''g'' then Some (JObject [(''method'', JString ''item/fileChange/requestApproval''), (''id'', JNull),
       (''params'', JObject [(''threadId'', JString ''t''), (''turnId'', JString ''u'')])])
     else None)"

abbreviation sample_step :: "agent_input \<Rightarrow> traex \<Rightarrow> (traex_error + action list) \<times> traex" where
  "sample_step \<equiv> tx_advance (\<lambda>_. []) (\<lambda>_. ''g'') sample_dec"

definition sample_launch :: traex where
  "sample_launch = traex_default\<lparr>tx_config := Some \<lparr>lc_provider = None, lc_settings_dir = [], lc_model = Some ''m'',
     lc_traex_model = None, lc_effort = None, lc_permission_mode = None\<rparr>\<rparr>"

definition sample_running :: traex where
  "sample_running = sample_launch\<lparr>tx_phase := PhRunning, tx_model_provider := Some ''p'', tx_thread := Some ''t'',
     tx_turn := Some ''u'', tx_counter := 4\<rparr>"

lemmas sample_traex = sample_launch_def sample_running_def traex_default_def sample_dec_def

lemmas message_run = tx_message_def json_get_def tx_response_def run_simps of_option_def accepted_request_def Let_def
  tx_initialize_def request_apply initialized_def config_loaded_def thread_opened_def
  tx_open_thread_def permission_params_def instructions_of_def native_model_def instructions_known_def tx_field_def
  tx_start_turn_def tx_start_def tx_admit_turn_def

lemma slash_hi [simp]: "slash ''hi'' = False"
  by (simp add: slash_def trim_start_def is_whitespace_def utf8_width_def byte_def)

fun sample_states :: "agent_input list \<Rightarrow> traex \<Rightarrow> traex" where
  "sample_states [] s = s"
| "sample_states (x # xs) s = sample_states xs (snd (sample_step x s))"

lemma sample_keys [simp]:
  "request_key 1 = ''latte-1''" "request_key 2 = ''latte-2''" "request_key 3 = ''latte-3''" "request_key 4 = ''latte-4''"
  "request_key 5 = ''latte-5''"
  by code_simp+

lemma sample_key_one [simp]: "request_key (Suc 0) = ''latte-1''"
  using sample_keys(1) by simp

definition sample_opening :: traex where
  "sample_opening = sample_launch\<lparr>tx_phase := PhOpening, tx_model_provider := Some ''p'', tx_counter := 3,
     tx_pending := [(''latte-3'', \<lparr>pq_method = ''thread/start'', pq_interrupt_turn = None, pq_queued_input = None\<rparr>)]\<rparr>"

definition sample_ready :: traex where
  "sample_ready = sample_launch\<lparr>tx_phase := PhReady, tx_model_provider := Some ''p'', tx_thread := Some ''t'', tx_counter := 3\<rparr>"

definition sample_starting :: traex where
  "sample_starting = sample_ready\<lparr>tx_phase := PhStarting, tx_counter := 4,
     tx_pending := [(''latte-4'', \<lparr>pq_method = ''turn/start'', pq_interrupt_turn = None, pq_queued_input = None\<rparr>)]\<rparr>"

lemma sample_thread_asked: "sample_states [InOpen, InMessage ''a'', InMessage ''b''] sample_launch = sample_opening"
  by (simp add: sample_traex sample_opening_def message_run)

lemma sample_thread: "snd (sample_step (InMessage ''c'') sample_opening) = sample_ready"
  by (simp add: sample_traex sample_opening_def sample_ready_def message_run)

lemma sample_starts: "snd (sample_step (InStart ''hi'') sample_ready) = sample_starting"
  by (simp add: sample_traex sample_starting_def sample_ready_def message_run)

lemma sample_admits: "snd (sample_step (InMessage ''d'') sample_starting) = sample_running"
  by (simp add: sample_traex sample_starting_def sample_ready_def message_run)

definition sample_waiting :: traex where
  "sample_waiting = sample_running\<lparr>tx_counter := 5, tx_steered := [''q'']\<rparr>"

lemma sample_steers:
  "sample_states [InQueue ''q'' ''hi'', InMessage ''e''] sample_running = sample_waiting"
  by (simp add: sample_traex sample_waiting_def message_run tx_steer_def steer_confirmed_def List.insert_def)

lemma sample_finishes:
  "sample_step (InMessage ''f'') sample_waiting =
     (Inr [InputsConsumed [''q''], Finished False None],
      sample_waiting\<lparr>tx_phase := PhReady, tx_completed_turn := Some ''u'', tx_turn := None, tx_completed_success := True,
        tx_steered := []\<rparr>)"
  by (simp add: sample_traex sample_waiting_def message_run tx_notification_def tx_notify_def running_event_def
      turn_completed_def str_or_def late_command_def)

lemma reaches_states:
  assumes "tx_reaches (\<lambda>_. []) (\<lambda>_. ''g'') sample_dec s" and "InDiscoverCommands \<notin> set inputs"
  shows "tx_reaches (\<lambda>_. []) (\<lambda>_. ''g'') sample_dec (sample_states inputs s)"
  using assms
proof (induction inputs arbitrary: s)
  case (Cons x xs)
  have "tx_reaches (\<lambda>_. []) (\<lambda>_. ''g'') sample_dec (snd (sample_step x s))"
    by (rule tx_reaches.step [OF Cons.prems(1), of x "fst (sample_step x s)"]) (use Cons.prems(2) in auto)
  then show ?case using Cons.IH Cons.prems(2) by simp
qed simp

lemma sample_reaches_running: "tx_reaches (\<lambda>_. []) (\<lambda>_. ''g'') sample_dec sample_running"
proof -
  have "tx_reaches (\<lambda>_. []) (\<lambda>_. ''g'') sample_dec sample_launch"
    by (rule tx_reaches.start) (simp add: launched_def sample_traex)
  then have "tx_reaches (\<lambda>_. []) (\<lambda>_. ''g'') sample_dec sample_opening"
    using reaches_states [of sample_launch "[InOpen, InMessage ''a'', InMessage ''b'']"] by (simp only: sample_thread_asked) simp
  then have "tx_reaches (\<lambda>_. []) (\<lambda>_. ''g'') sample_dec sample_ready"
    using reaches_states [of sample_opening "[InMessage ''c'']"] by (simp add: sample_thread del: tx_advance.simps)
  then have "tx_reaches (\<lambda>_. []) (\<lambda>_. ''g'') sample_dec sample_starting"
    using reaches_states [of sample_ready "[InStart ''hi'']"] by (simp add: sample_starts del: tx_advance.simps)
  then show ?thesis
    using reaches_states [of sample_starting "[InMessage ''d'']"] by (simp add: sample_admits del: tx_advance.simps)
qed

lemma sample_reaches_waiting: "tx_reaches (\<lambda>_. []) (\<lambda>_. ''g'') sample_dec sample_waiting"
  using reaches_states [OF sample_reaches_running, of "[InQueue ''q'' ''hi'', InMessage ''e'']"] by (simp only: sample_steers) simp

section \<open>Claims\<close>

lemma orderly_traex: "orderly (traex_adapter enc str dec show)"
proof -
  have "batch acts" if "tx_advance enc str dec input s = (Inr acts, t)" for input s acts t
    using batch_advance [of enc str dec input] that unfolding gives_def by blast
  then show ?thesis
    by (auto simp: orderly_def traex_adapter_def batch_def split: sum.splits prod.splits)
qed

fun offered :: "agent_input \<Rightarrow> string set" where
  "offered (InQueue rid prompt) = {rid}"
| "offered _ = {}"

lemma plain_accounted:
  assumes "plains acts" and "owed t = insert rid (owed s)"
  shows "owed t \<union> set (settled_inputs acts) = owed s \<union> {rid}" and "InputsConsumed ids \<notin> set acts"
  using plains_settle [OF assms(1)] assms(2) by auto

text \<open>C15: the adapter accounts for every input handed to it. In each successful step what it still owes an answer
  for or reports was owed before or has just been handed over, so it invents no outcome. An owed input stays
  owed or is reported, unless a turn ends without success in this step or had ended so before the
  agent confirmed the input. An input is reported as consumed only after a turn that completed with success.\<close>

theorem traex_inputs_accounted:
  assumes "tx_reaches enc str dec s" and "tx_advance enc str dec input s = (Inr acts, t)"
  shows "owed t \<union> set (settled_inputs acts) \<subseteq> owed s \<union> offered input \<and>
    (\<forall>rid \<in> owed s \<union> offered input. rid \<in> owed t \<or> rid \<in> set (settled_inputs acts) \<or>
       (\<exists>m. Finished True m \<in> set acts) \<or>
       (\<exists>turn. (rid, turn) \<in> set (queued_inputs s) \<and> tx_completed_turn s = Some turn \<and> \<not> tx_completed_success s)) \<and>
    (\<forall>ids. InputsConsumed ids \<in> set acts \<longrightarrow> tx_completed_success t)"
proof -
  have n: "numbered s" using reaches_tables [OF assms(1)] by (simp add: tables_def)
  show ?thesis
  proof (cases "\<exists>rid prompt. input = InQueue rid prompt")
    case True
    then obtain rid prompt where input: "input = InQueue rid prompt" by blast
    then have e: "tx_steer enc rid prompt s = (Inr acts, t)" using assms(2) by simp
    have "plains acts" using plain_steer [of enc rid prompt] e unfolding gives_def by blast
    with plain_accounted [of acts t rid s] steer_apply(2) [OF n e] show ?thesis unfolding input by auto
  next
    case False
    then have "offered input = {}" by (cases input) auto
    moreover have "accounted s acts t" using reports_advance [of input enc str dec] False n assms(2) unfolding reports_def by blast
    ultimately show ?thesis unfolding accounted_def lost_def by auto
  qed
qed

theorem traex_inputs_accounted_witness:
  "\<exists>t. sample_step (InMessage ''f'') sample_waiting = (Inr [InputsConsumed [''q''], Finished False None], t) \<and>
     tx_completed_success t \<and> ''q'' \<in> owed sample_waiting"
  using traex_inputs_accounted [OF sample_reaches_waiting sample_finishes] sample_finishes by (auto simp: settled_iff)

text \<open>C19: the phases of a session follow its life cycle, whatever the agent sends and whatever fails: a step leaves the
  phase or moves it to one of its successors. A turn is known exactly while the session runs, the thread is
  known from the moment it is ready, approvals are open only during a turn, and while the session is opened
  there is at most one request, of the kind the phase waits for.\<close>

theorem traex_lifecycle:
  assumes "tx_reaches enc str dec s" and "input = InDiscoverCommands \<Longrightarrow> tx_phase s = PhFresh"
    and "tx_advance enc str dec input s = (r, t)"
  shows "(tx_phase t = tx_phase s \<or> tx_phase t \<in> set (next_phases (tx_phase s))) \<and>
    (tx_turn t \<noteq> None \<longleftrightarrow> tx_phase t = PhRunning) \<and>
    (tx_phase t \<in> {PhReady, PhStarting, PhRunning} \<longrightarrow> tx_thread t \<noteq> None) \<and>
    (tx_phase t \<noteq> PhRunning \<longrightarrow> tx_approvals t = []) \<and>
    (\<forall>p \<in> snd ` set (tx_pending t). allowed (tx_phase t) (pq_method p)) \<and>
    (tx_phase t \<in> {PhInitializing, PhOpening} \<longrightarrow> length (tx_pending t) \<le> 1)"
proof -
  have "advances s t"
    using advance_moves [OF reaches_phased [OF assms(1)] assms(2), where input = input and enc = enc and str = str and dec = dec]
      assms(3) by (simp add: led_def)
  then show ?thesis unfolding advances_def phased_def by blast
qed

theorem traex_lifecycle_witness:
  "tx_phase (snd (sample_step (InMessage ''f'') sample_waiting)) = PhReady \<and> tx_turn (snd (sample_step (InMessage ''f'') sample_waiting)) = None"
  using traex_lifecycle [OF sample_reaches_waiting _ sample_finishes] unfolding sample_finishes by simp

text \<open>C37: the tables of the adapter are maps and sets and stay within the limits of the code, in every state any sequence of
  inputs reaches: 32 open requests, 16 inputs with the agent, 32 early completions, 32 approvals, 4096 messages
  and tools of a turn, 512 background commands and children.\<close>

theorem traex_tables_bounded:
  assumes "tx_reaches enc str dec s"
  shows "distinct (map fst (tx_pending s)) \<and> length (tx_pending s) \<le> 32 \<and>
    distinct (tx_steered s) \<and> length (tx_steered s) + length (queued_inputs s) \<le> 16 \<and>
    distinct (map fst (tx_early_completions s)) \<and> length (tx_early_completions s) \<le> 32 \<and>
    distinct (map fst (tx_approvals s)) \<and> length (tx_approvals s) \<le> 32 \<and>
    distinct (tx_streamed s) \<and> length (tx_streamed s) \<le> 4096 \<and> distinct (tx_tools s) \<and> length (tx_tools s) \<le> 4096 \<and>
    distinct (map fst (tx_background s)) \<and> length (tx_background s) \<le> 512 \<and>
    distinct (tx_children s) \<and> length (tx_children s) \<le> 512"
  using reaches_tables [OF assms] unfolding tables_def numbered_def by (elim conjE) (intro conjI)

theorem traex_tables_bounded_witness: "length (tx_steered sample_waiting) \<le> 16"
  using traex_tables_bounded [OF sample_reaches_waiting] by simp

text \<open>C38: an approval can be answered once and only while its turn runs. An answer that is accepted finds the approval in
  the table during a turn and takes it out, so that every further answer to it fails and leaves the state alone.\<close>

theorem traex_approval_once:
  assumes "tx_reaches enc str dec s" and "tx_advance enc str dec (InApproval i input allow) s = (Inr acts, t)"
  shows "tx_phase s = PhRunning \<and> map_of (tx_approvals s) i \<noteq> None \<and>
    (\<exists>result. acts = [write_json enc (JObject [(''id'', the (dec i)), (''result'', result)])]) \<and>
    tx_advance enc str dec (InApproval i input' allow') t = (Inl ApprovalGone, t)"
proof -
  obtain m where m: "map_of (tx_approvals s) i = Some m"
    using assms(2) by (cases "map_of (tx_approvals s) i") (auto simp: tx_approval_def eff_simps of_option_def)
  then have "tx_approvals s \<noteq> []" by auto
  then have "tx_phase s = PhRunning" using reaches_phased [OF assms(1)] by (auto simp: phased_def)
  moreover have "map_of (tx_approvals t) i = None"
    using assms(2) m by (auto simp: tx_approval_def eff_simps of_option_def delete_conv' split: option.splits if_splits)
  ultimately show ?thesis using assms(2) m
    by (auto simp: tx_approval_def eff_simps of_option_def split: option.splits if_splits)
qed

lemma sample_asks:
  "snd (sample_step (InMessage ''g'') sample_running) =
     sample_running\<lparr>tx_approvals := [(''g'', ''item/fileChange/requestApproval'')]\<rparr>"
  by (simp add: sample_traex message_run tx_native_request_def str_or_def approval_tool_def)

theorem traex_approval_once_witness:
  "fst (sample_step (InApproval ''g'' JNull True) (sample_running\<lparr>tx_approvals := [(''g'', ''item/fileChange/requestApproval'')]\<rparr>)) =
     Inr [Write [10]] \<and> tx_phase sample_running = PhRunning"
proof -
  let ?s = "sample_running\<lparr>tx_approvals := [(''g'', ''item/fileChange/requestApproval'')]\<rparr>"
  have r: "tx_reaches (\<lambda>_. []) (\<lambda>_. ''g'') sample_dec ?s"
    using reaches_states [OF sample_reaches_running, of "[InMessage ''g'']"] by (simp add: sample_asks del: tx_advance.simps)
  have e: "sample_step (InApproval ''g'' JNull True) ?s = (Inr [Write [10]], sample_running)"
    by (simp add: sample_traex message_run tx_approval_def write_json_def)
  from traex_approval_once [OF r e] e show ?thesis by simp
qed

end
