(* ===== verification/ClaudeClaims.thy ===== *)
theory ClaudeClaims
  imports ClaudeLaws TraexClaims
begin

text \<open>
  The states a Claude adapter reaches, the limits of its tables, the separation of children from the main
  conversation, a sample session, and the claims about the adapter.
\<close>

section \<open>Tables\<close>

definition cl_tables :: "claude \<Rightarrow> bool" where
  "cl_tables s \<longleftrightarrow>
     distinct (cl_tasks s) \<and> length (cl_tasks s) \<le> 256 \<and>
     distinct (map fst (cl_agent_tasks s)) \<and> length (cl_agent_tasks s) \<le> 256 \<and>
     distinct (cl_foreground s) \<and> length (cl_foreground s) \<le> 256 \<and>
     distinct (cl_streamed_children s) \<and> length (cl_streamed_children s) \<le> 512 \<and>
     distinct (cl_skill_loads s) \<and> length (cl_skill_loads s) \<le> 64 \<and>
     distinct (cl_requested s) \<and> length (cl_requested s) \<le> 64"

definition bounded :: "claude \<Rightarrow> claude \<Rightarrow> bool" where
  "bounded s t \<longleftrightarrow> (cl_tables s \<longrightarrow> cl_tables t)"

interpretation bounded: effect_frame bounded
  by unfold_locales (auto simp: bounded_def)

lemma bounded_gather: "(\<And>x. framed bounded (f x)) \<Longrightarrow> framed bounded (gather f xs)"
  by (induction xs) (auto intro!: bounded.framed_seq bounded.framed_ret)

lemmas bounded_rules = bounded.framed_rules bounded.framed_change bounded_gather

text \<open>The tables an update does not touch.\<close>

lemma bounded_same:
  "cl_tasks t = cl_tasks s \<Longrightarrow> cl_agent_tasks t = cl_agent_tasks s \<Longrightarrow> cl_foreground t = cl_foreground s \<Longrightarrow>
   cl_streamed_children t = cl_streamed_children s \<Longrightarrow> cl_skill_loads t = cl_skill_loads s \<Longrightarrow>
   cl_requested t = cl_requested s \<Longrightarrow> bounded s t"
  by (simp add: bounded_def cl_tables_def)

lemma table_fields [simp]:
  "cl_tasks (update_context model usage s) = cl_tasks s" "cl_agent_tasks (update_context model usage s) = cl_agent_tasks s"
  "cl_foreground (update_context model usage s) = cl_foreground s" "cl_streamed_children (update_context model usage s) = cl_streamed_children s"
  "cl_skill_loads (update_context model usage s) = cl_skill_loads s" "cl_requested (update_context model usage s) = cl_requested s"
  "cl_tasks (set_accounting_model a s) = cl_tasks s" "cl_agent_tasks (set_accounting_model a s) = cl_agent_tasks s"
  "cl_foreground (set_accounting_model a s) = cl_foreground s" "cl_streamed_children (set_accounting_model a s) = cl_streamed_children s"
  "cl_skill_loads (set_accounting_model a s) = cl_skill_loads s" "cl_requested (set_accounting_model a s) = cl_requested s"
  "cl_tasks (add_commands ns s) = cl_tasks s" "cl_agent_tasks (add_commands ns s) = cl_agent_tasks s"
  "cl_foreground (add_commands ns s) = cl_foreground s" "cl_streamed_children (add_commands ns s) = cl_streamed_children s"
  "cl_skill_loads (add_commands ns s) = cl_skill_loads s" "cl_requested (add_commands ns s) = cl_requested s"
  "cl_tasks (attribute_inputs m s) = cl_tasks s" "cl_agent_tasks (attribute_inputs m s) = cl_agent_tasks s"
  "cl_foreground (attribute_inputs m s) = cl_foreground s" "cl_streamed_children (attribute_inputs m s) = cl_streamed_children s"
  "cl_skill_loads (attribute_inputs m s) = cl_skill_loads s" "cl_requested (attribute_inputs m s) = cl_requested s"
  "cl_tasks (remember_title_description p s) = cl_tasks s" "cl_agent_tasks (remember_title_description p s) = cl_agent_tasks s"
  "cl_foreground (remember_title_description p s) = cl_foreground s" "cl_streamed_children (remember_title_description p s) = cl_streamed_children s"
  "cl_skill_loads (remember_title_description p s) = cl_skill_loads s" "cl_requested (remember_title_description p s) = cl_requested s"
  by (simp_all add: update_context_def set_accounting_model_def add_commands_def attribute_inputs_def
      remember_title_description_def Let_def split: option.split)

lemma bounded_reset [simp]:
  "bounded s ((reset_turn s)\<lparr>cl_phase := ph\<rparr>)"
  "bounded s (remember_skill_command p (remember_title_description p (s\<lparr>cl_phase := ph\<rparr>)))"
  "bounded s (remember_skill_command p (s\<lparr>cl_uuids := n, cl_queued := q\<rparr>))"
  "bounded s ((remember_skill_command p (reset_turn (remember_title_description p s)))\<lparr>cl_phase := ph\<rparr>)"
  by (auto simp: bounded_def cl_tables_def reset_turn_def remember_skill_command_def insert_within
      split: option.split)

text \<open>Entering something into a table behind the test of its limit.\<close>

lemma bounded_skill: "framed bounded (record_skill_load name)"
  unfolding framed_def bounded_def record_skill_load_def
  by (auto simp: eff_simps cl_tables_def)

lemma bounded_delta: "framed bounded (child_delta event parent)"
  unfolding framed_def bounded_def child_delta_def
  by (auto simp: eff_simps cl_tables_def insert_within split: option.split)

lemma bounded_delegate: "framed bounded (delegate main block)"
  unfolding framed_def bounded_def delegate_def
  by (auto simp: eff_simps cl_tables_def insert_within split: sum.split)

lemma delete_shorter: "k \<in> set (map fst kvs) \<Longrightarrow> length (AList.delete k kvs) < length kvs"
proof (induction kvs)
  case (Cons kv kvs)
  then show ?case using length_delete_le [of k kvs] by (cases kv) (auto simp: less_Suc_eq_le Suc_le_eq)
qed simp

lemma slot_apply:
  assumes "cl_tables s" and "agent_slot i s = (Inr (), t)"
  shows "cl_tables (t\<lparr>cl_agent_tasks := AList.update i tool (cl_agent_tasks t)\<rparr>)"
proof (cases "length (cl_agent_tasks s) \<ge> 256 \<and> map_of (cl_agent_tasks s) i = None")
  case False
  then show ?thesis using assms by (auto simp: agent_slot_def eff_simps cl_tables_def update_within distinct_update)
next
  case True
  then obtain old where old: "find (\<lambda>k. k \<notin> set (cl_tasks s)) (map fst (cl_agent_tasks s)) = Some old"
    and t: "t = s\<lparr>cl_agent_tasks := AList.delete old (cl_agent_tasks s)\<rparr>"
    using assms(2) by (auto simp: agent_slot_def eff_simps split: option.splits)
  have "old \<in> set (map fst (cl_agent_tasks s))" using old by (auto simp: find_Some_iff)
  then have "length (AList.delete old (cl_agent_tasks s)) < length (cl_agent_tasks s)"
    by (rule delete_shorter)
  then show ?thesis using assms(1) t alist_update_length [of i tool "AList.delete old (cl_agent_tasks s)"]
    by (auto simp: cl_tables_def distinct_update distinct_delete split: if_splits)
qed

lemma bounded_started: "framed bounded (task_started m)"
proof -
  have slot: "framed bounded (seq (agent_slot i) (\<lambda>_. seq (change (\<lambda>s. s\<lparr>cl_agent_tasks := AList.update i tool (cl_agent_tasks s)\<rparr>)) (\<lambda>_. ret acts)))"
    for i tool and acts :: "action list"
  proof -
    have "bounded s (snd (agent_slot i s))" for s
      by (auto simp: agent_slot_def eff_simps bounded_def cl_tables_def distinct_delete length_delete_bound split: option.split)
    then show ?thesis using slot_apply
      by (auto simp: framed_def seq_apply eff_simps bounded_def split: sum.split) (metis prod.collapse)
  qed
  have insert: "framed bounded (seq (look cl_tasks) (\<lambda>tasks. seq (require (\<not> (length tasks \<ge> 256 \<and> i \<notin> set tasks)) TooManyTasks)
      (\<lambda>_. seq (change (\<lambda>s. s\<lparr>cl_tasks := List.insert i (cl_tasks s)\<rparr>)) f)))" if "\<And>x. framed bounded (f x)" for i f
  proof -
    have "framed bounded (seq (look cl_tasks) (\<lambda>tasks. seq (require (\<not> (length tasks \<ge> 256 \<and> i \<notin> set tasks)) TooManyTasks)
        (\<lambda>_. change (\<lambda>s. s\<lparr>cl_tasks := List.insert i (cl_tasks s)\<rparr>))))"
      by (auto simp: framed_def bounded_def eff_simps cl_tables_def insert_within)
    from bounded.framed_seq [OF this that] show ?thesis by (simp only: seq_assoc)
  qed
  show ?thesis unfolding task_started_def
    by (intro bounded.framed_seq bounded.framed_from_result insert bounded.framed_look bounded.framed_let bounded.framed_if
        slot bounded.framed_ret bounded.framed_option bounded.framed_change)
      (auto simp: bounded_def cl_tables_def distinct_removeAll length_remove_bound)
qed

lemmas table_shrinks = bounded_def cl_tables_def distinct_removeAll length_remove_bound length_filter_bound

lemma bounded_system: "framed bounded (system_message m)"
  unfolding system_message_def system_init_def task_event_def context_dropped_def
  by (intro bounded_rules bounded_started; simp add: table_shrinks)

lemma bounded_titles:
  "framed bounded (title_generated m)" "framed bounded (rename_answered m requested)" "framed bounded (title_changed m)"
  "framed bounded (control_request enc m)" "framed bounded (interrupt_answered m)" "framed bounded context_dropped"
  unfolding title_generated_def rename_answered_def title_changed_def control_request_def interrupt_answered_def context_dropped_def
  by (intro bounded_rules; simp add: table_shrinks)+

lemma bounded_check: "framed bounded (check_command p)"
  unfolding check_command_def by (intro bounded_rules)

lemma bounded_initialized: "framed bounded (cl_initialized enc str m)"
proof -
  have session: "framed bounded (session_initialized enc catalog prompt)" for catalog prompt
    unfolding session_initialized_def by (intro bounded_rules bounded_check; simp add: table_shrinks)
  have "framed bounded (case ph of ClDiscovering \<Rightarrow> seq (from_result r) (\<lambda>cs. seq (change (\<lambda>s. s\<lparr>cl_phase := ClFinished\<rparr>)) (\<lambda>_. ret (f cs)))
      | ClInitializing p \<Rightarrow> session_initialized enc catalog (Some p) | ClOpening \<Rightarrow> session_initialized enc catalog None
      | _ \<Rightarrow> ret [])" for ph r f catalog
    by (cases ph) (auto intro!: bounded_rules session simp: table_shrinks)
  then show ?thesis unfolding cl_initialized_def by (intro bounded_rules)
qed

lemma bounded_output: "framed bounded (stream_event m)" "framed bounded (assistant_message m)" "framed bounded (user_message str m)"
proof -
  show "framed bounded (stream_event m)"
    unfolding stream_event_def stream_usage_def stream_progress_def stream_text_def
    by (intro bounded_rules; simp add: table_shrinks)
  show "framed bounded (assistant_message m)"
    unfolding assistant_message_def message_context_def assistant_block_def
    by (intro bounded_rules bounded_delegate; simp add: table_shrinks)
  show "framed bounded (user_message str m)"
    unfolding user_message_def user_block_def skill_load_def
    by (intro bounded_rules bounded_skill; simp add: table_shrinks)
qed

lemma bounded_child: "framed bounded (child_message m parent)" "framed bounded (child_result m parent)"
  unfolding child_message_def child_result_def
  by (intro bounded_rules bounded_delta; simp add: table_shrinks)+

lemma bounded_results: "framed bounded (result_message enc str m)"
proof -
  have ended: "framed bounded (turn_ended enc str m)"
    unfolding turn_ended_def title_request_def by (intro bounded_rules; simp add: table_shrinks)
  have "framed bounded consume_inputs" unfolding consume_inputs_def
    by (intro bounded_rules; simp add: table_shrinks)
  moreover have "framed bounded (turn_result enc str m)"
    unfolding turn_result_def by (intro bounded_rules ended) simp
  ultimately show ?thesis unfolding result_message_def
    by (intro bounded_rules bounded_child)
qed

lemma bounded_decode: "framed bounded (cl_decode enc str m)"
proof -
  have "framed bounded (cl_dispatch enc str m)" unfolding cl_dispatch_def
    by (intro bounded_rules bounded_titles bounded_initialized bounded_system bounded_output bounded_results)
  then have "framed bounded (cl_frame enc str m)" unfolding cl_frame_def
    by (intro bounded_rules bounded_titles)
  moreover have "framed bounded (begin_autonomous m)" unfolding begin_autonomous_def by (intro bounded_rules) simp
  ultimately have "framed bounded (seq (change (attribute_inputs m)) (\<lambda>_. seq (begin_autonomous m) (\<lambda>started.
      seq (cl_frame enc str m) (\<lambda>acts. ret (started @ acts)))))"
    by (intro bounded_rules) (simp_all add: bounded_same)
  then show ?thesis unfolding cl_decode_def by (auto intro: bounded_child split: option.split bool.split)
qed

lemma bounded_advance: "framed bounded (cl_advance enc str dec uuid input)"
proof -
  have "framed bounded (cl_message enc str dec line)" for line
    unfolding cl_message_def by (intro bounded_rules bounded_decode)
  moreover have "framed bounded (cl_start enc prompt)" "framed bounded (cl_queue enc uuid rid prompt)" for rid prompt
    unfolding cl_start_def cl_queue_def by (intro bounded_rules bounded_check; simp)+
  moreover have "framed bounded (cl_begin enc ph)" "framed bounded (cl_rename_title enc i title)" "framed bounded (cl_interrupt enc)"
    "framed bounded (cl_answer enc i v qs answers)" "framed bounded (cl_approve enc i v allow)" for ph i title v qs answers allow
    unfolding cl_begin_def cl_rename_title_def cl_interrupt_def cl_answer_def cl_approve_def
    by (intro bounded_rules; simp add: table_shrinks)+
  ultimately show ?thesis by (cases input) simp_all
qed

section \<open>Children\<close>

text \<open>What a frame of a child can change, and what it can put out.\<close>

definition child_action :: "string \<Rightarrow> action \<Rightarrow> bool" where
  "child_action parent a =
     (case a of
        ActSubagentEvent p _ \<Rightarrow> p = parent
      | SourceUsed i _ \<Rightarrow> (\<exists>rest. i = parent @ '':'' @ rest)
      | ActEvent (SubagentEv u) \<Rightarrow> su_tool_use_id u = Some parent
      | _ \<Rightarrow> False)"

definition main_view :: "claude \<Rightarrow> claude" where
  "main_view s = s\<lparr>cl_streamed_children := [], cl_child_overflow := False, cl_foreground := [], cl_tasks := []\<rparr>"

definition confined :: "string \<Rightarrow> action list cl \<Rightarrow> bool" where
  "confined parent m \<longleftrightarrow>
     (\<forall>s. \<exists>acts t. m s = (Inr acts, t) \<and> main_view t = main_view s \<and> list_all (child_action parent) acts)"

lemma confined_ret: "list_all (child_action parent) acts \<Longrightarrow> confined parent (ret acts)"
  by (simp add: confined_def eff_simps)

lemma confined_look: "(\<And>x. confined parent (f x)) \<Longrightarrow> confined parent (seq (look g) f)"
  by (simp add: confined_def eff_simps)

lemma confined_change:
  assumes "\<And>s. main_view (g s) = main_view s" and "confined parent m"
  shows "confined parent (seq (change g) (\<lambda>_. m))"
  unfolding confined_def
proof
  fix s
  from assms(2) obtain acts t where "m (g s) = (Inr acts, t)" "main_view t = main_view (g s)" "list_all (child_action parent) acts"
    unfolding confined_def by blast
  then show "\<exists>acts t. seq (change g) (\<lambda>_. m) s = (Inr acts, t) \<and> main_view t = main_view s \<and> list_all (child_action parent) acts"
    using assms(1) [of s] by (simp add: eff_simps)
qed

lemma confined_if: "(c \<Longrightarrow> confined parent m) \<Longrightarrow> (\<not> c \<Longrightarrow> confined parent n) \<Longrightarrow> confined parent (if c then m else n)"
  by simp

lemma confined_option: "confined parent m \<Longrightarrow> (\<And>x. confined parent (f x)) \<Longrightarrow> confined parent (case v of None \<Rightarrow> m | Some x \<Rightarrow> f x)"
  by (cases v) simp_all

lemma confined_let: "(\<And>x. confined parent (f x)) \<Longrightarrow> confined parent (Let v f)"
  by simp

lemmas confined_rules = confined_option confined_let confined_if confined_look confined_ret confined_change

lemma child_blocks: "list_all (child_action parent) (child_block native known streamed parent b)"
  "list_all (child_action parent) (child_result_block parent b)"
  by (simp_all add: child_block_def child_result_block_def child_action_def subagent_action_def split: option.split)

lemma child_concat: "(\<And>b. list_all (child_action parent) (f b)) \<Longrightarrow> list_all (child_action parent) (concat (map f bs))"
  by (induction bs) simp_all

lemma confined_message: "confined parent (child_message m parent)"
  unfolding child_message_def child_delta_def
  by (intro confined_rules child_concat child_blocks; simp add: main_view_def child_action_def)

lemma confined_result: "confined parent (child_result m parent)"
  unfolding child_result_def
  by (intro confined_rules; simp add: main_view_def child_action_def subagent_action_def)

lemma confined_decode:
  assumes "json_str (json_field m ''parent_tool_use_id'') = Some parent" and "parent \<noteq> []"
    and "kind_of m \<in> {''assistant'', ''stream_event'', ''user'', ''result''}"
  shows "confined parent (cl_decode enc str m)"
proof (cases "kind_of m = ''result''")
  case False
  then show ?thesis using assms confined_message [of parent m] by (auto simp: cl_decode_def)
next
  case True
  obtain c cs where parent: "parent = c # cs" using assms(2) by (cases parent) auto
  have "\<not> top_level m" using assms(1) by (auto simp: top_level_def)
  then have "cl_decode enc str m s = child_result m parent s" for s
    using True assms(1) parent
    by (cases "child_result m parent s") (simp add: cl_decode_def eff_simps attribute_inputs_def attributes_def begin_autonomous_def autonomous_output_def
        cl_frame_def cl_dispatch_def result_message_def split: option.split sum.split)
  then show ?thesis using confined_result [of parent m] by (simp add: confined_def)
qed

section \<open>Reachable states\<close>

text \<open>What \<open>set_session_title\<close> and \<open>command\<close> set before the first input.\<close>

definition cl_launched :: "claude \<Rightarrow> bool" where
  "cl_launched s \<longleftrightarrow>
     s\<lparr>cl_initial_title := None, cl_native_named := False, cl_native_session := None, cl_accounting_model := None\<rparr> = claude_default"

definition launching :: "claude \<Rightarrow> claude \<Rightarrow> bool" where
  "launching s t \<longleftrightarrow> (cl_launched s \<longrightarrow> cl_launched t)"

interpretation launching: effect_frame launching
  by unfold_locales (auto simp: launching_def)

lemma claude_launches:
  assumes "cl_command enc skills path base cwd resume cfg (cl_set_session_title title resuming claude_default) = (r, s)"
  shows "cl_launched s"
proof -
  have "launching s (set_accounting_model a (s\<lparr>cl_native_session := i\<rparr>))" for s a i
    by (cases s) (simp add: launching_def cl_launched_def claude_default_def set_accounting_model_def)
  then have "framed launching (cl_command enc skills path base cwd resume cfg)"
    unfolding cl_command_def by (intro launching.framed_rules launching.framed_change)
  moreover have "cl_launched (cl_set_session_title title resuming claude_default)"
    by (simp add: cl_launched_def cl_set_session_title_def claude_default_def)
  ultimately show ?thesis using assms by (auto simp: launching_def dest: framedD)
qed

inductive cl_reaches :: "(json \<Rightarrow> bytes) \<Rightarrow> (json \<Rightarrow> string) \<Rightarrow> (string \<Rightarrow> json option) \<Rightarrow> (nat \<Rightarrow> string) \<Rightarrow> claude \<Rightarrow> bool"
  for enc str dec uuid where
  start: "cl_launched s \<Longrightarrow> cl_reaches enc str dec uuid s"
| step: "cl_reaches enc str dec uuid s \<Longrightarrow> cl_advance enc str dec uuid input s = (r, t) \<Longrightarrow> cl_reaches enc str dec uuid t"

lemma cl_launched_fields:
  assumes "cl_launched s"
  shows "cl_phase s = ClIdle" "cl_queued s = []" "cl_consumed s = []" "cl_tasks s = []" "cl_agent_tasks s = []"
    "cl_foreground s = []" "cl_streamed_children s = []" "cl_skill_loads s = []" "cl_requested s = []"
proof -
  let ?s = "s\<lparr>cl_initial_title := None, cl_native_named := False, cl_native_session := None, cl_accounting_model := None\<rparr>"
  have s: "?s = claude_default" using assms by (simp add: cl_launched_def)
  show "cl_phase s = ClIdle" using arg_cong [OF s, of cl_phase] by (simp add: claude_default_def)
  show "cl_queued s = []" using arg_cong [OF s, of cl_queued] by (simp add: claude_default_def)
  show "cl_consumed s = []" using arg_cong [OF s, of cl_consumed] by (simp add: claude_default_def)
  show "cl_tasks s = []" using arg_cong [OF s, of cl_tasks] by (simp add: claude_default_def)
  show "cl_agent_tasks s = []" using arg_cong [OF s, of cl_agent_tasks] by (simp add: claude_default_def)
  show "cl_foreground s = []" using arg_cong [OF s, of cl_foreground] by (simp add: claude_default_def)
  show "cl_streamed_children s = []" using arg_cong [OF s, of cl_streamed_children] by (simp add: claude_default_def)
  show "cl_skill_loads s = []" using arg_cong [OF s, of cl_skill_loads] by (simp add: claude_default_def)
  show "cl_requested s = []" using arg_cong [OF s, of cl_requested] by (simp add: claude_default_def)
qed

lemma reaches_sound:
  assumes "inj uuid" and "cl_reaches enc str dec uuid s"
  shows "inbox_sound uuid s"
  using assms(2)
proof (induction rule: cl_reaches.induct)
  case (start s)
  then show ?case by (simp add: inbox_sound_def cl_launched_fields)
next
  case (step s input r t)
  then show ?case using advance_steps [OF assms(1) step.IH step.hyps(2)] by (simp add: steps_on_def)
qed

lemma reaches_bounded: "cl_reaches enc str dec uuid s \<Longrightarrow> cl_tables s"
proof (induction rule: cl_reaches.induct)
  case (start s)
  then show ?case by (simp add: cl_tables_def cl_launched_fields)
next
  case (step s input r t)
  then show ?case using framedD [OF bounded_advance step.hyps(2)] by (simp add: bounded_def)
qed

section \<open>A sample session\<close>

text \<open>A turn with one input handed over while it runs: the frames of the CLI are named by letters.\<close>

definition cl_sample_dec :: "string \<Rightarrow> json option" where
  "cl_sample_dec line = (
     if line = ''i'' then Some (JObject [(''type'', JString ''control_response''),
       (''response'', JObject [(''subtype'', JString ''success''), (''request_id'', JString ''latte-init'')])])
     else if line = ''u'' then Some (JObject [(''type'', JString ''user''), (''isReplay'', JBool True), (''uuid'', JString [])])
     else if line = ''a'' then Some (JObject [(''type'', JString ''assistant''), (''message'', JObject [(''content'',
       JArray [JObject [(''type'', JString ''tool_use''), (''name'', JString ''Task''), (''id'', JString ''k'')]])])])
     else if line = ''c'' then Some (JObject [(''type'', JString ''result''), (''parent_tool_use_id'', JString ''k''),
       (''result'', JString ''ok'')])
     else if line = ''r'' then Some (JObject [(''type'', JString ''result''), (''result'', JString ''ok'')])
     else None)"

definition cl_sample_uuid :: "nat \<Rightarrow> string" where
  "cl_sample_uuid n = replicate n CHR ''x''"

lemma inj_sample_uuid: "inj cl_sample_uuid"
  by (rule injI) (simp add: cl_sample_uuid_def replicate_eq_replicate)

abbreviation cl_sample_step :: "agent_input \<Rightarrow> claude \<Rightarrow> (claude_error + action list) \<times> claude" where
  "cl_sample_step \<equiv> cl_advance (\<lambda>_. []) (\<lambda>_. []) cl_sample_dec cl_sample_uuid"

definition cl_sample_running :: claude where
  "cl_sample_running = claude_default\<lparr>cl_title_description := Some ''hi'', cl_phase := ClRunning\<rparr>"

definition cl_sample_holding :: claude where
  "cl_sample_holding = cl_sample_running\<lparr>cl_queued := [([], ''q'')], cl_consumed := [[]], cl_uuids := 1\<rparr>"

lemmas claude_run = run_simps cl_sample_dec_def cl_sample_uuid_def claude_default_def of_option_def Let_def
  cl_start_def cl_queue_def cl_message_def cl_decode_def begin_autonomous_def attribute_inputs_def attributes_def attributed_ids_def
  autonomous_output_def cl_frame_def cl_dispatch_def cl_initialized_def session_initialized_def check_command_def catalog_names_def
  add_commands_def kind_of_def top_level_def str_or_def List.map_filter_simps

lemma slash_name_hi [simp]: "slash_name ''hi'' = None"
  by (simp add: slash_name_def trim_start_def is_whitespace_def utf8_width_def byte_def)

lemma sample_starts_running:
  "cl_sample_step (InMessage ''i'') (snd (cl_sample_step (InStart ''hi'') claude_default)) =
     (Inr [ActReady, Write [10]], cl_sample_running)"
  by (simp add: claude_run cl_sample_running_def remember_title_description_def remember_skill_command_def write_json_def
      trim_def slash_def trim_start_def is_whitespace_def utf8_width_def byte_def take_chars_def)

lemma sample_hands_over:
  "snd (cl_sample_step (InMessage ''u'') (snd (cl_sample_step (InQueue ''q'' ''hi'') cl_sample_running))) = cl_sample_holding"
  by (simp add: claude_run cl_sample_running_def cl_sample_holding_def remember_skill_command_def user_message_def skill_load_def
      skill_text_def message_blocks_def List.insert_def)

lemma sample_ends:
  "cl_sample_step (InMessage ''r'') cl_sample_holding =
     (Inr [InputsConsumed [''q''], ActEvent (Text ''ok''), Finished False None],
      cl_sample_running\<lparr>cl_title_description := None, cl_phase := ClBetweenTurns, cl_uuids := 1, cl_last_result := Some ''ok''\<rparr>)"
  by (simp add: claude_run cl_sample_running_def cl_sample_holding_def result_message_def consume_apply turn_result_def turn_ended_def
      result_failed_def nonempty_result_def title_request_def)

lemma sample_reaches: "cl_reaches (\<lambda>_. []) (\<lambda>_. []) cl_sample_dec cl_sample_uuid cl_sample_running"
  "cl_reaches (\<lambda>_. []) (\<lambda>_. []) cl_sample_dec cl_sample_uuid cl_sample_holding"
proof -
  let ?R = "cl_reaches (\<lambda>_. []) (\<lambda>_. []) cl_sample_dec cl_sample_uuid"
  have step: "?R s \<Longrightarrow> ?R (snd (cl_sample_step input s))" for s input
    by (rule cl_reaches.step [where input = input and r = "fst (cl_sample_step input s)"]) simp_all
  have "?R claude_default" by (rule cl_reaches.start) (simp add: cl_launched_def claude_default_def)
  then show r: "?R cl_sample_running"
    using step [of "snd (cl_sample_step (InStart ''hi'') claude_default)" "InMessage ''i''"] step [of claude_default "InStart ''hi''"]
    by (simp only: sample_starts_running snd_conv)
  show "?R cl_sample_holding" using step [OF step [OF r], of "InMessage ''u''" "InQueue ''q'' ''hi''"]
    by (simp only: sample_hands_over)
qed

section \<open>Claims\<close>

text \<open>C17: both adapters keep the contract on which the actor relies: in no batch of actions they return, whatever
  their state and whatever the agent sends, is the outcome of an input reported behind the end of a turn.\<close>

theorem adapters_orderly:
  "orderly (claude_adapter enc str dec uuid show) \<and> orderly (traex_adapter enc' str' dec' show')"
proof
  have "batch acts" if "cl_advance enc str dec uuid input s = (Inr acts, t)" for input s acts t
    using batch_claude [of enc str dec uuid input] that unfolding gives_def by blast
  then show "orderly (claude_adapter enc str dec uuid show)"
    by (auto simp: orderly_def claude_adapter_def batch_def split: sum.splits prod.splits)
  show "orderly (traex_adapter enc' str' dec' show')" by (rule orderly_traex)
qed

text \<open>C16: the Claude adapter neither loses an input handed to it nor reports one twice, also where a step fails. As bags
  of request ids, what it holds after a step and what the step reports is what it held before and what the step
  handed over. It never holds more than sixteen inputs, and none before the first turn runs.\<close>

theorem claude_inputs_conserved:
  assumes "inj uuid" and "cl_reaches enc str dec uuid s" and "cl_advance enc str dec uuid input s = (r, t)"
  shows "mset (map snd (cl_queued t)) + (case r of Inl _ \<Rightarrow> {#} | Inr acts \<Rightarrow> mset (concat (map settles acts))) =
      mset (map snd (cl_queued s)) + (case (input, r) of (InQueue rid prompt, Inr _) \<Rightarrow> {#rid#} | _ \<Rightarrow> {#}) \<and>
    length (cl_queued t) \<le> 16 \<and> (cl_phase t \<notin> {ClRunning, ClBetweenTurns} \<longrightarrow> cl_queued t = [])"
proof -
  have e: "steps_on uuid input s r t" by (rule advance_steps [OF assms(1) reaches_sound [OF assms(1,2)] assms(3)])
  have "handed input r = (case (input, r) of (InQueue rid prompt, Inr _) \<Rightarrow> {#rid#} | _ \<Rightarrow> {#})"
    by (cases input; cases r) simp_all
  with e show ?thesis unfolding steps_on_def inbox_def announced_def inbox_sound_def by auto
qed

theorem claude_inputs_conserved_witness:
  "\<exists>t. cl_sample_step (InMessage ''r'') cl_sample_holding =
     (Inr [InputsConsumed [''q''], ActEvent (Text ''ok''), Finished False None], t) \<and> cl_queued t = []"
  using claude_inputs_conserved [OF inj_sample_uuid sample_reaches(2) sample_ends] sample_ends
  by (auto simp: cl_sample_holding_def)

text \<open>What the actor sees of a run: the actions of the steps, and a start where the actor itself starts a turn.\<close>

inductive cl_logs :: "(json \<Rightarrow> bytes) \<Rightarrow> (json \<Rightarrow> string) \<Rightarrow> (string \<Rightarrow> json option) \<Rightarrow> (nat \<Rightarrow> string) \<Rightarrow> action list \<Rightarrow> claude \<Rightarrow> bool"
  for enc str dec uuid where
  launch: "cl_launched s \<Longrightarrow> cl_logs enc str dec uuid [] s"
| round: "cl_logs enc str dec uuid seen s \<Longrightarrow> cl_advance enc str dec uuid input s = (Inr acts, t) \<Longrightarrow>
    cl_logs enc str dec uuid (seen @ (if starting input then [TurnStarted] else []) @ acts) t"

lemma logs_reach: "cl_logs enc str dec uuid seen s \<Longrightarrow> cl_reaches enc str dec uuid s"
  by (induction rule: cl_logs.induct) (auto intro: cl_reaches.intros)

lemma start_refused:
  "cl_advance enc str dec uuid input s = (Inr acts, t) \<Longrightarrow> starting input \<Longrightarrow> \<not> in_turn (cl_phase s)"
  by (cases input) (auto simp: cl_start_def eff_simps in_turn_def split: if_splits)

text \<open>C18: turns begin and end alternately in every run of the Claude adapter. Whatever frames the agent sends, no turn
  is started while one runs, no end is reported without a running turn, and a turn is open in the log exactly
  while the phase of the adapter says so; the phase itself only moves along the life cycle.\<close>

theorem claude_turns_alternate:
  assumes "inj uuid" and "cl_logs enc str dec uuid seen s" and "cl_advance enc str dec uuid input s = (r, t)"
  shows "turns False seen = Some (cl_phase s = ClRunning \<or> (\<exists>p. cl_phase s = ClInitializing p)) \<and>
    phase_moves (cl_phase s) (cl_phase t)"
proof
  have "turns False seen = Some (in_turn (cl_phase s))"
    using assms(2)
  proof (induction rule: cl_logs.induct)
    case (launch s)
    then show ?case by (simp add: cl_launched_fields in_turn_def)
  next
    case (round seen s input acts t)
    have "steps_on uuid input s (Inr acts) t"
      by (rule advance_steps [OF assms(1) reaches_sound [OF assms(1) logs_reach [OF round.hyps(1)]] round.hyps(2)])
    then show ?case using round.IH start_refused [OF round.hyps(2)] by (auto simp: steps_on_def turns_append)
  qed
  then show "turns False seen = Some (cl_phase s = ClRunning \<or> (\<exists>p. cl_phase s = ClInitializing p))"
    by (simp add: in_turn_def)
  show "phase_moves (cl_phase s) (cl_phase t)"
    using advance_steps [OF assms(1) reaches_sound [OF assms(1) logs_reach [OF assms(2)]] assms(3)] by (simp add: steps_on_def)
qed

lemma sample_logs: "cl_logs (\<lambda>_. []) (\<lambda>_. []) cl_sample_dec cl_sample_uuid [TurnStarted, Write [10], ActReady, Write [10]] cl_sample_running"
proof -
  let ?L = "cl_logs (\<lambda>_. []) (\<lambda>_. []) cl_sample_dec cl_sample_uuid"
  let ?s = "snd (cl_sample_step (InStart ''hi'') claude_default)"
  have "?L [] claude_default" by (rule cl_logs.launch) (simp add: cl_launched_def claude_default_def)
  moreover have "cl_sample_step (InStart ''hi'') claude_default = (Inr [Write [10]], ?s)"
    by (simp add: claude_run write_json_def)
  ultimately have "?L [TurnStarted, Write [10]] ?s" using cl_logs.round [of _ _ _ _ "[]" claude_default "InStart ''hi''"] by fastforce
  from cl_logs.round [OF this sample_starts_running] show ?thesis by simp
qed

theorem claude_turns_alternate_witness:
  "turns False [TurnStarted, Write [10], ActReady, Write [10]] = Some True \<and> phase_moves ClRunning ClRunning"
  using claude_turns_alternate [OF inj_sample_uuid sample_logs, of "InMessage []"] by (simp add: cl_sample_running_def)

text \<open>C20: a frame of a child (the frames with a parent tool use) never disturbs the conversation of its parent. The step
  succeeds, changes nothing but the bookkeeping of children and background tasks, and puts out only events of
  that child, updates of the subagent of that tool use, and sources named after it.\<close>

theorem claude_children_confined:
  assumes "json_str (json_field m ''parent_tool_use_id'') = Some parent" and "parent \<noteq> []"
    and "json_str (json_field m ''type'') \<in> {Some ''assistant'', Some ''stream_event'', Some ''user'', Some ''result''}"
  shows "\<exists>acts streamed overflow foreground tasks.
    cl_decode enc str m s = (Inr acts, s\<lparr>cl_streamed_children := streamed, cl_child_overflow := overflow,
                                         cl_foreground := foreground, cl_tasks := tasks\<rparr>) \<and>
    (\<forall>a \<in> set acts. case a of
        ActSubagentEvent p _ \<Rightarrow> p = parent
      | SourceUsed i _ \<Rightarrow> (\<exists>rest. i = parent @ '':'' @ rest)
      | ActEvent (SubagentEv u) \<Rightarrow> su_tool_use_id u = Some parent
      | _ \<Rightarrow> False)"
proof -
  have "kind_of m \<in> {''assistant'', ''stream_event'', ''user'', ''result''}"
    using assms(3) by (auto simp: kind_of_def str_or_def)
  from confined_decode [OF assms(1,2) this] obtain acts t where e: "cl_decode enc str m s = (Inr acts, t)"
    and v: "main_view t = main_view s" and a: "list_all (child_action parent) acts"
    unfolding confined_def by blast
  have t: "t = s\<lparr>cl_streamed_children := cl_streamed_children t, cl_child_overflow := cl_child_overflow t,
              cl_foreground := cl_foreground t, cl_tasks := cl_tasks t\<rparr>"
    using v by (cases s; cases t) (simp add: main_view_def)
  have shape: "\<forall>a \<in> set acts. case a of
        ActSubagentEvent p _ \<Rightarrow> p = parent
      | SourceUsed i _ \<Rightarrow> (\<exists>rest. i = parent @ '':'' @ rest)
      | ActEvent (SubagentEv u) \<Rightarrow> su_tool_use_id u = Some parent
      | _ \<Rightarrow> False"
    using a unfolding list_all_iff child_action_def .
  show ?thesis by (intro exI conjI, rule trans [OF e], rule arg_cong [where f = "Pair (Inr acts)", OF t], rule shape)
qed

theorem claude_children_confined_witness:
  "\<exists>acts t. cl_decode (\<lambda>_. []) (\<lambda>_. []) (JObject [(''type'', JString ''result''), (''parent_tool_use_id'', JString ''k'')])
     (cl_sample_running\<lparr>cl_foreground := [''k'']\<rparr>) = (Inr acts, t) \<and> cl_phase t = ClRunning"
proof -
  let ?m = "JObject [(''type'', JString ''result''), (''parent_tool_use_id'', JString ''k'')]"
  let ?s = "cl_sample_running\<lparr>cl_foreground := [''k'']\<rparr>"
  have "json_str (json_field ?m ''parent_tool_use_id'') = Some ''k''" "''k'' \<noteq> []"
    "json_str (json_field ?m ''type'') \<in> {Some ''assistant'', Some ''stream_event'', Some ''user'', Some ''result''}"
    by simp_all
  from claude_children_confined [OF this, of "\<lambda>_. []" "\<lambda>_. []" ?s] obtain acts streamed overflow foreground tasks
    where "cl_decode (\<lambda>_. []) (\<lambda>_. []) ?m ?s = (Inr acts, ?s\<lparr>cl_streamed_children := streamed, cl_child_overflow := overflow,
        cl_foreground := foreground, cl_tasks := tasks\<rparr>)" by blast
  then show ?thesis by (simp add: cl_sample_running_def)
qed

text \<open>C39: the tables of the Claude adapter are maps and sets and stay within the limits of the code in every state any
  sequence of inputs reaches: 256 background tasks, agent tasks and agents in the foreground, 512 streaming
  children, 64 loaded and requested skills.\<close>

theorem claude_tables_bounded:
  assumes "cl_reaches enc str dec uuid s"
  shows "distinct (cl_tasks s) \<and> length (cl_tasks s) \<le> 256 \<and>
    distinct (map fst (cl_agent_tasks s)) \<and> length (cl_agent_tasks s) \<le> 256 \<and>
    distinct (cl_foreground s) \<and> length (cl_foreground s) \<le> 256 \<and>
    distinct (cl_streamed_children s) \<and> length (cl_streamed_children s) \<le> 512 \<and>
    distinct (cl_skill_loads s) \<and> length (cl_skill_loads s) \<le> 64 \<and>
    distinct (cl_requested s) \<and> length (cl_requested s) \<le> 64"
  using reaches_bounded [OF assms] unfolding cl_tables_def .

theorem claude_tables_bounded_witness: "length (cl_requested cl_sample_holding) \<le> 64"
  using claude_tables_bounded [OF sample_reaches(2)] by blast

end
