(* ===== verification/ClaudeHistory.thy ===== *)
theory ClaudeHistory
  imports Claude Sources References
begin

text \<open>
  The history of a child session (\<open>agents/claude.rs\<close>, \<open>agents/claude_sessions.rs\<close>): the native file is a
  line of JSON per record. \<open>read_child_page\<close> reads whole records in bounded forward pages and
  \<open>parse_child_history\<close> turns a page into events; \<open>parse_child_transcript\<close> keeps a bounded window of the
  tail; a handback is promoted to a report when its delivery is confirmed. Parameters: \<open>dec\<close> reads the JSON of a
  line, \<open>parse\<close> that of a text, \<open>hide\<close> is \<open>LaunchConfig::redact_event\<close> with serde,
  \<open>now\<close> the time of the call, \<open>enc\<close> the encoding of an event. The file is its identity and its
  bytes, which \<open>open_child_path\<close> has opened.
\<close>

datatype (plugins only: code size) history_error =
    RecordInvalid | ForeignRecord | RecordTooWide | HandbacksTooLarge | NotRedacted string | FileReplaced | FileShrunk
  | RecordTooLong | EventRefused error | ReportEndless

section \<open>Records\<close>

definition native_event :: "string \<Rightarrow> json \<Rightarrow> event_kind option" where
  "native_event kind block =
     (let t = json_str (json_field block ''type'')
      in if kind = ''assistant'' \<and> t = Some ''text'' then map_option Text (json_str (json_field block ''text''))
         else if kind = ''assistant'' \<and> t = Some ''tool_use''
         then (case (json_str (json_field block ''id''), json_str (json_field block ''name'')) of
                 (Some i, Some name) \<Rightarrow> Some (Tool i name (json_field block ''input''))
               | _ \<Rightarrow> None)
         else if kind = ''user'' \<and> t = Some ''tool_result''
         then map_option (\<lambda>i. ToolResult i (tool_content (json_field block ''content'')) (json_field block ''is_error'' = JBool True))
                (json_str (json_field block ''tool_use_id''))
         else None)"

definition block_delivered :: "(string \<Rightarrow> json option) \<Rightarrow> json \<Rightarrow> bool" where
  "block_delivered parse block =
     handback_delivered parse (json_field block ''content'') (json_field block ''is_error'' = JBool True)"

text \<open>The blocks of a record of this child; nothing of a record of another type.\<close>

definition record_blocks :: "string \<Rightarrow> string \<Rightarrow> json \<Rightarrow> history_error + json list" where
  "record_blocks parent child v =
     (if kind_of v \<notin> {''assistant'', ''user''} then Inr []
      else if json_field v ''sessionId'' \<noteq> JString parent \<or> json_field v ''agentId'' \<noteq> JString child \<or>
              json_field v ''isSidechain'' \<noteq> JBool True
      then Inl ForeignRecord
      else Inr (message_blocks v))"

section \<open>Pages of the full history\<close>

type_synonym handbacks = "(string \<times> string) list"

definition held_back :: "handbacks \<Rightarrow> bool" where
  "held_back hs \<longleftrightarrow> length hs \<le> 128 \<and> sum_list (map (length \<circ> snd) hs) \<le> MAX_FRAME"

text \<open>What an event does to the handbacks: the handbacks after it, and the report it releases.\<close>

definition handback_step :: "bool \<Rightarrow> event_kind \<Rightarrow> handbacks \<Rightarrow> history_error + handbacks \<times> string option" where
  "handback_step delivered e hs =
     (case e of
        Tool i name input \<Rightarrow>
          if name = ''SubagentHandback''
          then (let hs' = (case json_str (json_field input ''message'') of Some t \<Rightarrow> AList.update i t hs | None \<Rightarrow> hs)
                in if held_back hs' then Inr (hs', None) else Inl HandbacksTooLarge)
          else Inr (hs, None)
      | ToolResult i _ _ \<Rightarrow> Inr (AList.delete i hs, if delivered then map_of hs i else None)
      | _ \<Rightarrow> Inr (hs, None))"

type_synonym redactor = "event_kind \<Rightarrow> string + event_kind"

definition redacted_event :: "redactor \<Rightarrow> event_kind \<Rightarrow> history_error + event_kind" where
  "redacted_event hide e = (case hide e of Inl m \<Rightarrow> Inl (NotRedacted m) | Inr e' \<Rightarrow> Inr e')"

definition child_event :: "string \<Rightarrow> rat \<Rightarrow> rat \<Rightarrow> event_kind \<Rightarrow> event" where
  "child_event sid now num e = \<lparr>ev_seq = num, ev_session_id = sid, ev_at = now, ev_event = e\<rparr>"

fun history_blocks :: "(string \<Rightarrow> json option) \<Rightarrow> redactor \<Rightarrow> (rat \<Rightarrow> event_kind \<Rightarrow> event) \<Rightarrow> string \<Rightarrow> nat \<Rightarrow> nat \<Rightarrow>
    handbacks \<Rightarrow> json list \<Rightarrow> history_error + event list \<times> handbacks" where
  "history_blocks parse hide event kind base index hs [] = Inr ([], hs)"
| "history_blocks parse hide event kind base index hs (block # blocks) =
     (let num = of_nat (base * 4096 + index * 2)
      in case native_event kind block of
           None \<Rightarrow> history_blocks parse hide event kind base (Suc index) hs blocks
         | Some e \<Rightarrow>
             and_then (redacted_event hide e) (\<lambda>e.
             and_then (handback_step (block_delivered parse block) e hs) (\<lambda>(hs, report).
             and_then (history_blocks parse hide event kind base (Suc index) hs blocks) (\<lambda>(es, hs).
               Inr (event num e # (case report of Some t \<Rightarrow> [event (num + 1) (Text t)] | None \<Rightarrow> []) @ es, hs)))))"

definition record_events :: "(bytes \<Rightarrow> json option) \<Rightarrow> (string \<Rightarrow> json option) \<Rightarrow> redactor \<Rightarrow> (rat \<Rightarrow> event_kind \<Rightarrow> event) \<Rightarrow>
    string \<Rightarrow> string \<Rightarrow> nat \<Rightarrow> bytes \<Rightarrow> handbacks \<Rightarrow> history_error + event list \<times> handbacks" where
  "record_events dec parse hide event parent child base line hs =
     (case dec line of
        None \<Rightarrow> Inl RecordInvalid
      | Some v \<Rightarrow>
          and_then (record_blocks parent child v) (\<lambda>blocks.
            if json_list (json_field (json_field v ''message'') ''content'') \<noteq> None \<and> kind_of v \<in> {''assistant'', ''user''} \<and>
               (length blocks > 2048 \<or> base > 9007199254740991 div 4096)
            then Inl RecordTooWide
            else history_blocks parse hide event (kind_of v) base 0 hs blocks))"

text \<open>\<open>split_inclusive\<close> at line feeds.\<close>

fun split_inclusive :: "bytes \<Rightarrow> bytes list" where
  "split_inclusive [] = []"
| "split_inclusive (b # bs) =
     (if b = 10 then [b] # split_inclusive bs
      else case split_inclusive bs of [] \<Rightarrow> [[b]] | l # ls \<Rightarrow> (b # l) # ls)"

fun history_lines :: "(bytes \<Rightarrow> json option) \<Rightarrow> (string \<Rightarrow> json option) \<Rightarrow> redactor \<Rightarrow> (rat \<Rightarrow> event_kind \<Rightarrow> event) \<Rightarrow>
    string \<Rightarrow> string \<Rightarrow> nat \<Rightarrow> handbacks \<Rightarrow> bytes list \<Rightarrow> history_error + event list \<times> nat \<times> handbacks" where
  "history_lines dec parse hide event parent child base hs [] = Inr ([], base, hs)"
| "history_lines dec parse hide event parent child base hs (line # ls) =
     and_then (record_events dec parse hide event parent child base line hs) (\<lambda>(es, hs).
     and_then (history_lines dec parse hide event parent child (base + length line) hs ls) (\<lambda>(rest, out).
       Inr (es @ rest, out)))"

record child_page =
  cp_bytes :: bytes
  cp_cursor :: child_cursor
  cp_has_more :: bool

definition parse_child_history :: "(bytes \<Rightarrow> json option) \<Rightarrow> (string \<Rightarrow> json option) \<Rightarrow> redactor \<Rightarrow> rat \<Rightarrow> child_page \<Rightarrow>
    string \<Rightarrow> string \<Rightarrow> string \<Rightarrow> history_error + event list \<times> child_cursor \<times> bool" where
  "parse_child_history dec parse hide now page parent child sid =
     and_then (history_lines dec parse hide (child_event sid now) parent child (cc_offset (cp_cursor page))
                 (cc_handbacks (cp_cursor page)) (split_inclusive (cp_bytes page))) (\<lambda>(es, offset, hs).
       Inr (es, (cp_cursor page)\<lparr>cc_offset := offset, cc_handbacks := hs, cc_has_more := cp_has_more page\<rparr>, cp_has_more page))"

section \<open>Reading pages\<close>

definition NATIVE_LIMIT :: nat where
  "NATIVE_LIMIT = MAX_FRAME - 4096"

definition PAGE_TARGET :: nat where
  "PAGE_TARGET = 512 * 1024"

text \<open>\<open>take(n)\<close> and \<open>read_until\<close> a line feed.\<close>

fun read_record :: "nat \<Rightarrow> bytes \<Rightarrow> bytes" where
  "read_record 0 bs = []"
| "read_record (Suc n) [] = []"
| "read_record (Suc n) (b # bs) = (if b = 10 then [b] else b # read_record n bs)"

definition record_length :: "bytes \<Rightarrow> nat" where
  "record_length line = (if line \<noteq> [] \<and> last line = 10 then length line - 1 else length line)"

lemma read_record_nonempty: "read_record (Suc n) bs = [] \<longleftrightarrow> bs = []"
  by (cases bs) simp_all

function (sequential) page_records :: "bytes \<Rightarrow> bytes \<Rightarrow> history_error + bytes \<times> bool" where
  "page_records acc bs =
     (if length acc \<ge> PAGE_TARGET then Inr (acc, False)
      else
        (let line = read_record (Suc NATIVE_LIMIT) bs
         in if bs = [] then Inr (acc, False)
            else if record_length line > NATIVE_LIMIT then Inl RecordTooLong
            else if last line \<noteq> 10 then Inr (acc, True)
            else page_records (acc @ line) (drop (length line) bs)))"
  by pat_completeness auto
termination
  by (relation "measure (\<lambda>(acc, bs). length bs)") (auto simp: read_record_nonempty)

declare page_records.simps [simp del]

definition read_child_page :: "string \<Rightarrow> bytes \<Rightarrow> child_cursor \<Rightarrow> history_error + child_page" where
  "read_child_page identity content cursor =
     (if cc_identity cursor \<noteq> [] \<and> cc_identity cursor \<noteq> identity then Inl FileReplaced
      else if cc_offset cursor > length content then Inl FileShrunk
      else
        and_then (page_records [] (drop (cc_offset cursor) content)) (\<lambda>(bs, tail).
          Inr \<lparr>cp_bytes = bs, cp_cursor = cursor\<lparr>cc_identity := identity, cc_pending_tail := tail\<rparr>,
               cp_has_more = (\<not> tail \<and> cc_offset cursor + length bs < length content)\<rparr>))"

section \<open>The bounded transcript\<close>

definition report_truncated :: string where
  "report_truncated = map char_of
    [10 :: nat, 226, 128, 166, 239, 188, 136, 230, 138, 165, 229, 145, 138, 229, 183, 178, 230,
     136, 170, 230, 150, 173, 239, 188, 137]"

text \<open>The loop does not return when a text has no boundary among the first bytes; \<open>ReportEndless\<close> stands for that.\<close>

partial_function (option) split_report :: "string \<Rightarrow> string list option" where
  "split_report rest =
     (if rest = [] then Some []
      else
        (let e = floor_boundary rest (min (length rest) (4 * 1024))
         in Option.bind (split_report (drop e rest)) (\<lambda>pieces. Some (take e rest # pieces))))"

definition report_text :: "string \<Rightarrow> string \<times> bool" where
  "report_text t =
     (if length t > 128 * 1024 then (take (floor_boundary t (128 * 1024)) t @ report_truncated, True) else (t, False))"

definition report_events :: "(rat \<Rightarrow> event_kind \<Rightarrow> event) \<Rightarrow> string \<Rightarrow> rat \<Rightarrow> history_error + event list \<times> bool" where
  "report_events event t num =
     (case report_text t of
        (t, truncated) \<Rightarrow>
          and_then (of_option ReportEndless (split_report t)) (\<lambda>pieces.
            Inr (map (\<lambda>(k, piece). event (num + of_nat (Suc k) / 64) (Text piece)) (enumerate 0 pieces), truncated)))"

type_synonym window = "(event \<times> nat) list"

definition WINDOW_EVENTS :: nat where "WINDOW_EVENTS = 500"
definition WINDOW_BYTES :: nat where "WINDOW_BYTES = 256 * 1024"

definition fits :: "window \<Rightarrow> bool" where
  "fits w \<longleftrightarrow> length w \<le> WINDOW_EVENTS \<and> sum_list (map snd w) \<le> WINDOW_BYTES"

text \<open>The oldest events leave until the rest fits; the flag tells whether one did.\<close>

fun trim_window :: "window \<Rightarrow> window \<times> bool" where
  "trim_window [] = ([], False)"
| "trim_window (x # w) = (if fits (x # w) then (x # w, False) else (fst (trim_window w), True))"

definition sized :: "(event_kind \<Rightarrow> bytes) \<Rightarrow> nat \<Rightarrow> event \<Rightarrow> event \<times> nat" where
  "sized enc extra e = (e, length (enc (ev_event e)) + extra)"

definition bounded_event :: "(json \<Rightarrow> string) \<Rightarrow> event_kind \<Rightarrow> history_error + event_kind \<times> bool" where
  "bounded_event jenc e = (case bounded_subagent_event jenc e of Inl m \<Rightarrow> Inl (EventRefused m) | Inr r \<Rightarrow> Inr r)"

text \<open>A block: the handbacks after it, what it appends to the window and whether anything was cut.\<close>

definition noted_handback :: "string \<Rightarrow> json \<Rightarrow> handbacks \<Rightarrow> handbacks" where
  "noted_handback kind block hs =
     (case (json_str (json_field block ''id''), json_str (json_field (json_field block ''input'') ''message'')) of
        (Some i, Some t) \<Rightarrow>
          if kind = ''assistant'' \<and> json_field block ''type'' = JString ''tool_use'' \<and>
             json_field block ''name'' = JString ''SubagentHandback'' \<and> length i \<le> 256
          then AList.update i t hs else hs
      | _ \<Rightarrow> hs)"

definition released_report :: "(string \<Rightarrow> json option) \<Rightarrow> string \<Rightarrow> json \<Rightarrow> handbacks \<Rightarrow> handbacks \<times> string option" where
  "released_report parse kind block hs =
     (if kind = ''user'' \<and> json_field block ''type'' = JString ''tool_result''
      then (case json_str (json_field block ''tool_use_id'') of
              None \<Rightarrow> (hs, None)
            | Some i \<Rightarrow> (AList.delete i hs, if block_delivered parse block then map_of hs i else None))
      else (hs, None))"

definition transcript_report :: "redactor \<Rightarrow> (event_kind \<Rightarrow> bytes) \<Rightarrow> (rat \<Rightarrow> event_kind \<Rightarrow> event) \<Rightarrow> rat \<Rightarrow> string option \<Rightarrow>
    history_error + window \<times> bool" where
  "transcript_report hide enc event num report =
     (case report of
        None \<Rightarrow> Inr ([], False)
      | Some t \<Rightarrow>
          and_then (redacted_event hide (Text t)) (\<lambda>e.
            case e of
              Text t \<Rightarrow> and_then (report_events event t num) (\<lambda>(es, partial). Inr (map (sized enc 128) es, partial))
            | _ \<Rightarrow> Inl (NotRedacted ''redaction preserves the event kind'')))"

definition transcript_block :: "(string \<Rightarrow> json option) \<Rightarrow> (json \<Rightarrow> string) \<Rightarrow> redactor \<Rightarrow> (event_kind \<Rightarrow> bytes) \<Rightarrow>
    (rat \<Rightarrow> event_kind \<Rightarrow> event) \<Rightarrow> string \<Rightarrow> rat \<Rightarrow> json \<Rightarrow> handbacks \<Rightarrow> history_error + handbacks \<times> window \<times> bool" where
  "transcript_block parse jenc hide enc event kind num block hs =
     (case released_report parse kind block (noted_handback kind block hs) of
        (hs, report) \<Rightarrow>
          (case native_event kind block of
             None \<Rightarrow> Inr (hs, [], False)
           | Some e \<Rightarrow>
               and_then (redacted_event hide e) (\<lambda>e.
               and_then (bounded_event jenc e) (\<lambda>(e, clipped).
               and_then (transcript_report hide enc event num report) (\<lambda>(reports, partial).
                 Inr (hs, sized enc 128 (event num e) # reports, clipped \<or> partial))))))"

text \<open>The state of the parser: the handbacks, the window and whether anything was cut.\<close>

fun transcript_blocks :: "(nat \<Rightarrow> json \<Rightarrow> handbacks \<Rightarrow> history_error + handbacks \<times> window \<times> bool) \<Rightarrow> (window \<Rightarrow> window \<times> bool) \<Rightarrow>
    nat \<Rightarrow> handbacks \<times> window \<times> bool \<Rightarrow> json list \<Rightarrow> history_error + handbacks \<times> window \<times> bool" where
  "transcript_blocks step evict index st [] = Inr st"
| "transcript_blocks step evict index (hs, w, clipped) (block # blocks) =
     and_then (step index block hs) (\<lambda>(hs, added, partial).
       case (if added = [] then (w, False) else evict (w @ added)) of
         (w, dropped) \<Rightarrow> transcript_blocks step evict (Suc index) (hs, w, clipped \<or> partial \<or> dropped) blocks)"

definition transcript_record :: "(bytes \<Rightarrow> json option) \<Rightarrow> (string \<Rightarrow> rat \<Rightarrow> json \<Rightarrow> handbacks \<Rightarrow> history_error + handbacks \<times> window \<times> bool) \<Rightarrow>
    (window \<Rightarrow> window \<times> bool) \<Rightarrow> string \<Rightarrow> string \<Rightarrow> nat \<Rightarrow> bytes \<Rightarrow> handbacks \<times> window \<times> bool \<Rightarrow>
    history_error + handbacks \<times> window \<times> bool" where
  "transcript_record dec step evict parent child base line st =
     (case (dec line, st) of
        (None, (hs, w, clipped)) \<Rightarrow> Inr (hs, w, clipped \<or> (line \<noteq> [] \<and> last line = 10))
      | (Some v, (hs, w, clipped)) \<Rightarrow>
          and_then (record_blocks parent child v) (\<lambda>blocks.
            if json_list (json_field (json_field v ''message'') ''content'') \<noteq> None \<and> kind_of v \<in> {''assistant'', ''user''} \<and>
               base > 9007199254740991 div 128
            then Inl RecordTooWide
            else transcript_blocks (\<lambda>index. step (kind_of v) (of_nat (base * 128 + index))) evict 0
                   (hs, w, clipped \<or> length blocks > 128) (take 128 blocks)))"

fun transcript_lines :: "(nat \<Rightarrow> bytes \<Rightarrow> handbacks \<times> window \<times> bool \<Rightarrow> history_error + handbacks \<times> window \<times> bool) \<Rightarrow> nat \<Rightarrow>
    handbacks \<times> window \<times> bool \<Rightarrow> bytes list \<Rightarrow> history_error + handbacks \<times> window \<times> bool" where
  "transcript_lines rec base st [] = Inr st"
| "transcript_lines rec base st (line # ls) = and_then (rec base line st) (\<lambda>st. transcript_lines rec (base + length line) st ls)"

record child_bytes =
  cb_bytes :: bytes
  cb_start :: nat
  cb_truncated :: bool

definition transcript_with :: "(window \<Rightarrow> window \<times> bool) \<Rightarrow> (bytes \<Rightarrow> json option) \<Rightarrow> (string \<Rightarrow> json option) \<Rightarrow> (json \<Rightarrow> string) \<Rightarrow> redactor \<Rightarrow>
    (event_kind \<Rightarrow> bytes) \<Rightarrow> rat \<Rightarrow> child_bytes \<Rightarrow> string \<Rightarrow> string \<Rightarrow> string \<Rightarrow> history_error + window \<times> bool" where
  "transcript_with evict dec parse jenc hide enc now raw parent child sid =
     and_then (transcript_lines
         (transcript_record dec (transcript_block parse jenc hide enc (child_event sid now)) evict parent child)
         (cb_start raw) ([], [], cb_truncated raw) (split_inclusive (cb_bytes raw))) (\<lambda>(hs, w, clipped). Inr (w, clipped))"

definition parse_child_transcript :: "(bytes \<Rightarrow> json option) \<Rightarrow> (string \<Rightarrow> json option) \<Rightarrow> (json \<Rightarrow> string) \<Rightarrow> redactor \<Rightarrow>
    (event_kind \<Rightarrow> bytes) \<Rightarrow> rat \<Rightarrow> child_bytes \<Rightarrow> string \<Rightarrow> string \<Rightarrow> string \<Rightarrow> history_error + event list \<times> bool" where
  "parse_child_transcript dec parse jenc hide enc now raw parent child sid =
     and_then (transcript_with trim_window dec parse jenc hide enc now raw parent child sid) (\<lambda>(w, clipped). Inr (map fst w, clipped))"

text \<open>\<open>read_child_path\<close>: the tail of the file.\<close>

definition read_child :: "bytes \<Rightarrow> child_bytes" where
  "read_child content =
     (let start = length content - 512 * 1024
      in \<lparr>cb_bytes = take (512 * 1024) (drop start content), cb_start = start, cb_truncated = (start \<noteq> 0)\<rparr>)"

section \<open>Older snapshots\<close>

definition same_text :: "event \<Rightarrow> event \<Rightarrow> bool" where
  "same_text a b = (case (ev_event a, ev_event b) of (Text x, Text y) \<Rightarrow> x = y | _ \<Rightarrow> False)"

definition already_present :: "event list \<Rightarrow> event list \<Rightarrow> bool" where
  "already_present following reports \<longleftrightarrow>
     length reports \<le> length following \<and> list_all2 same_text (take (length reports) following) reports"

definition snapshot_step :: "(string \<Rightarrow> json option) \<Rightarrow> event_kind \<Rightarrow> handbacks \<Rightarrow> handbacks \<times> string option" where
  "snapshot_step parse e hs =
     (case e of
        Tool i name input \<Rightarrow>
          (if name = ''SubagentHandback''
           then (case json_str (json_field input ''message'') of Some t \<Rightarrow> (AList.update i t hs, None) | None \<Rightarrow> (hs, None))
           else (hs, None))
      | ToolResult i content err \<Rightarrow>
          (AList.delete i hs, if handback_delivered parse content err then map_of hs i else None)
      | _ \<Rightarrow> (hs, None))"

fun promoted :: "(string \<Rightarrow> json option) \<Rightarrow> handbacks \<Rightarrow> event list \<Rightarrow> history_error + (event list \<times> bool) list" where
  "promoted parse hs [] = Inr []"
| "promoted parse hs (e # es) =
     (case snapshot_step parse (ev_event e) hs of
        (hs, None) \<Rightarrow> and_then (promoted parse hs es) (\<lambda>rest. Inr (([e], False) # rest))
      | (hs, Some t) \<Rightarrow>
          and_then (report_events (child_event (ev_session_id e) (ev_at e)) t (ev_seq e)) (\<lambda>(reports, partial).
          and_then (promoted parse hs es) (\<lambda>rest.
            Inr ((e # (if already_present es reports then [] else reports), partial) # rest))))"

fun trimmed_groups :: "(event \<Rightarrow> bytes) \<Rightarrow> window \<times> bool \<Rightarrow> (event list \<times> bool) list \<Rightarrow> window \<times> bool" where
  "trimmed_groups enc st [] = st"
| "trimmed_groups enc (w, clipped) ((es, partial) # groups) =
     (case trim_window (w @ map (\<lambda>e. (e, length (enc e))) es) of
        (w', dropped) \<Rightarrow> trimmed_groups enc (w', clipped \<or> partial \<or> dropped) groups)"

definition normalize_child_transcript :: "(string \<Rightarrow> json option) \<Rightarrow> (event \<Rightarrow> bytes) \<Rightarrow> event list \<times> bool \<Rightarrow> history_error + event list \<times> bool" where
  "normalize_child_transcript parse enc snapshot =
     (case snapshot of
        (source, truncated) \<Rightarrow>
          and_then (promoted parse [] source) (\<lambda>groups.
            case trimmed_groups enc ([], truncated) groups of (w, clipped) \<Rightarrow> Inr (map fst w, clipped)))"


section \<open>All pages\<close>

text \<open>Every page from a cursor on; \<open>clock n\<close> is the time of the n-th page. A page that is not the last one moves the
  cursor forward within the file.\<close>

lemma concat_split_inclusive [simp]: "concat (split_inclusive bs) = bs"
  by (induction bs) (auto split: list.split)

lemma history_offset:
  "history_lines dec parse hide event parent child base hs ls = Inr (es, offset, hs') \<Longrightarrow> offset = base + length (concat ls)"
proof (induction ls arbitrary: base hs es)
  case (Cons line ls)
  then obtain e1 h1 e2 where "history_lines dec parse hide event parent child (base + length line) h1 ls = Inr (e2, offset, hs')"
    by (auto simp: and_then_eq_Inr)
  then show ?case using Cons.IH by fastforce
qed simp

lemma page_records_split:
  "page_records acc bs = Inr (out, tail) \<Longrightarrow>
     \<exists>taken rest. out = acc @ taken \<and> bs = taken @ rest \<and> (tail \<longrightarrow> rest \<noteq> []) \<and>
       (\<not> tail \<longrightarrow> rest = [] \<or> length out \<ge> PAGE_TARGET)"
proof (induction acc bs rule: page_records.induct)
  case (1 acc bs)
  let ?line = "read_record (Suc NATIVE_LIMIT) bs"
  have prefix: "read_record n xs = take (length (read_record n xs)) xs" for n xs
    by (induction n xs rule: read_record.induct) auto
  show ?case
  proof (cases "PAGE_TARGET \<le> length acc \<or> bs = [] \<or> record_length ?line > NATIVE_LIMIT \<or> last ?line \<noteq> 10")
    case True
    then show ?thesis using 1(2) by (subst (asm) page_records.simps) (auto simp: Let_def split: if_splits)
  next
    case False
    then have "page_records (acc @ ?line) (drop (length ?line) bs) = Inr (out, tail)"
      using 1(2) by (subst (asm) page_records.simps) (auto simp: Let_def split: if_splits)
    moreover have "bs = ?line @ drop (length ?line) bs" using prefix [of "Suc NATIVE_LIMIT" bs] by (metis append_take_drop_id)
    ultimately show ?thesis using 1(1) [OF _ refl] False by (metis append_assoc)
  qed
qed

lemma page_advances:
  assumes "read_child_page identity content cursor = Inr page"
    and "parse_child_history dec parse hide now page parent child sid = Inr (es, next, True)"
  shows "cc_offset cursor < cc_offset next" and "cc_offset next < length content"
proof -
  obtain bs tail where r: "page_records [] (drop (cc_offset cursor) content) = Inr (bs, tail)"
    and le: "cc_offset cursor \<le> length content"
    and page: "page = \<lparr>cp_bytes = bs, cp_cursor = cursor\<lparr>cc_identity := identity, cc_pending_tail := tail\<rparr>,
               cp_has_more = (\<not> tail \<and> cc_offset cursor + length bs < length content)\<rparr>"
    using assms(1) by (auto simp: read_child_page_def and_then_eq_Inr split: if_splits)
  have n: "cc_offset next = cc_offset cursor + length bs" and more: "\<not> tail" "cc_offset cursor + length bs < length content"
    using assms(2) page by (auto simp: parse_child_history_def and_then_eq_Inr dest!: history_offset)
  have "bs \<noteq> []" using page_records_split [OF r] more le by (auto simp: PAGE_TARGET_def)
  then show "cc_offset cursor < cc_offset next" "cc_offset next < length content" using n more by auto
qed

lemma page_shrinks:
  "read_child_page identity content cursor = Inr page \<Longrightarrow>
   parse_child_history dec parse hide now page parent child sid = Inr (es, next, True) \<Longrightarrow>
   length content - cc_offset next < length content - cc_offset cursor"
  using page_advances [of identity content cursor page dec parse hide now parent child sid es "next"] by simp

function child_pages :: "(bytes \<Rightarrow> json option) \<Rightarrow> (string \<Rightarrow> json option) \<Rightarrow> redactor \<Rightarrow> string \<Rightarrow> string \<Rightarrow> string \<Rightarrow> string \<Rightarrow> bytes \<Rightarrow>
    (nat \<Rightarrow> rat) \<Rightarrow> nat \<Rightarrow> child_cursor \<Rightarrow> history_error + event list \<times> child_cursor" where
  "child_pages dec parse hide parent child sid identity content clock n cursor =
     (case read_child_page identity content cursor of
        Inl e \<Rightarrow> Inl e
      | Inr page \<Rightarrow>
          (case parse_child_history dec parse hide (clock n) page parent child sid of
             Inl e \<Rightarrow> Inl e
           | Inr (es, next, again) \<Rightarrow>
               if \<not> again then Inr (es, next)
               else
                 (case child_pages dec parse hide parent child sid identity content clock (Suc n) next of
                    Inl e \<Rightarrow> Inl e
                  | Inr (rest, final) \<Rightarrow> Inr (es @ rest, final))))"
  by pat_completeness auto
termination
  by (relation "measure (\<lambda>(dec, parse, hide, parent, child, sid, identity, content, clock, n, cursor). length content - cc_offset cursor)")
    (auto intro: page_shrinks)

declare child_pages.simps [simp del]

end
