(* ===== verification/ClaudePages.thy ===== *)
theory ClaudePages
  imports ClaudeHistory
begin

text \<open>
  The pages of a child history are together the whole history: no record is lost, repeated or reordered at a page
  boundary, and a handback confirmed on a later page is promoted as if the file had been read at once.
\<close>

section \<open>Records of a file\<close>

text \<open>A complete record ends with a line feed and is within the limit; the tail of the file has no line feed yet.\<close>

definition complete_record :: "bytes \<Rightarrow> bool" where
  "complete_record line \<longleftrightarrow> line \<noteq> [] \<and> last line = 10 \<and> 10 \<notin> set (butlast line) \<and> length line \<le> Suc NATIVE_LIMIT"

definition partial_record :: "bytes \<Rightarrow> bool" where
  "partial_record tail \<longleftrightarrow> 10 \<notin> set tail \<and> length tail \<le> NATIVE_LIMIT"

lemma complete_recordE:
  assumes "complete_record line"
  obtains body where "line = body @ [10]" and "10 \<notin> set body" and "length body \<le> NATIVE_LIMIT"
  using assms that [of "butlast line"] append_butlast_last_id [of line] by (auto simp: complete_record_def)

lemma split_line: "10 \<notin> set body \<Longrightarrow> split_inclusive (body @ 10 # bs) = (body @ [10]) # split_inclusive bs"
  by (induction body) auto

lemma split_records: "list_all complete_record ls \<Longrightarrow> split_inclusive (concat ls) = ls"
proof (induction ls)
  case (Cons l ls)
  then have "complete_record l" by simp
  then obtain body where "l = body @ [10]" "10 \<notin> set body" by (rule complete_recordE)
  then show ?case using Cons split_line [of body "concat ls"] by simp
qed simp

lemma read_line: "10 \<notin> set body \<Longrightarrow> length body < n \<Longrightarrow> read_record n (body @ 10 # bs) = body @ [10]"
proof (induction body arbitrary: n)
  case Nil
  then show ?case by (cases n) simp_all
next
  case (Cons b body)
  then show ?case by (cases n) simp_all
qed

lemma read_tail: "10 \<notin> set tail \<Longrightarrow> length tail \<le> n \<Longrightarrow> read_record n tail = tail"
proof (induction tail arbitrary: n)
  case Nil
  then show ?case by (cases n) simp_all
next
  case (Cons b tail)
  then show ?case by (cases n) simp_all
qed

lemma page_of_records:
  assumes "list_all complete_record ls" and "partial_record tail"
  shows "\<exists>k \<le> length ls. \<exists>t. page_records acc (concat ls @ tail) = Inr (acc @ concat (take k ls), t) \<and>
    (if t then k = length ls \<and> tail \<noteq> []
     else PAGE_TARGET \<le> length (acc @ concat (take k ls)) \<or> k = length ls \<and> tail = [])"
  using assms(1)
proof (induction ls arbitrary: acc)
  case Nil
  have "read_record (Suc NATIVE_LIMIT) tail = tail" using assms(2) by (intro read_tail) (simp_all add: partial_record_def)
  moreover have "tail \<noteq> [] \<Longrightarrow> last tail \<noteq> 10" using assms(2) by (metis last_in_set partial_record_def)
  ultimately show ?case using assms(2)
    by (subst page_records.simps) (auto simp: Let_def record_length_def partial_record_def)
next
  case (Cons l ls)
  from Cons.prems obtain body where l: "l = body @ [10]" "10 \<notin> set body" "length body \<le> NATIVE_LIMIT"
    by (auto elim: complete_recordE)
  have line: "read_record (Suc NATIVE_LIMIT) (concat (l # ls) @ tail) = l"
    using l read_line [of body "Suc NATIVE_LIMIT" "concat ls @ tail"] by simp
  show ?case
  proof (cases "PAGE_TARGET \<le> length acc")
    case True
    then have "page_records acc (concat (l # ls) @ tail) = Inr (acc @ concat (take 0 (l # ls)), False)"
      by (subst page_records.simps) simp
    then show ?thesis using True by (intro exI [of _ 0]) auto
  next
    case False
    then have e: "page_records acc (concat (l # ls) @ tail) = page_records (acc @ l) (concat ls @ tail)"
      by (subst page_records.simps) (use line l in \<open>simp add: Let_def record_length_def\<close>)
    obtain k t where "k \<le> length ls" and "page_records (acc @ l) (concat ls @ tail) = Inr ((acc @ l) @ concat (take k ls), t)"
      and "if t then k = length ls \<and> tail \<noteq> [] else PAGE_TARGET \<le> length ((acc @ l) @ concat (take k ls)) \<or> k = length ls \<and> tail = []"
      using Cons.IH [of "acc @ l"] Cons.prems by auto
    then show ?thesis unfolding e by (intro exI [of _ "Suc k"] conjI exI [of _ t]) (auto split: if_splits)
  qed
qed

section \<open>Times\<close>

definition undated :: "event \<Rightarrow> event" where
  "undated e = e\<lparr>ev_at := 0\<rparr>"

lemma undated_event [simp]: "undated (child_event sid now n e) = child_event sid 0 n e"
  by (simp add: undated_def child_event_def)

definition undate :: "history_error + event list \<times> 'b \<Rightarrow> history_error + event list \<times> 'b" where
  "undate = map_sum id (map_prod (map undated) id)"

lemma undate_simps [simp]: "undate (Inl e) = Inl e" "undate (Inr (es, x)) = Inr (map undated es, x)"
  by (simp_all add: undate_def)

lemma undate_then:
  "undate (and_then m f) = and_then m (\<lambda>x. undate (f x))"
  by (cases m) simp_all

lemma undate_added:
  "undate (and_then m (\<lambda>(es, h). Inr (a # c @ es, h))) = and_then (undate m) (\<lambda>(es, h). Inr (undated a # map undated c @ es, h))"
  by (cases m) (auto simp: split_beta)

lemma blocks_undated:
  "undate (history_blocks parse hide (child_event sid now) kind base index hs bs) =
     history_blocks parse hide (child_event sid 0) kind base index hs bs"
proof (induction bs arbitrary: index hs)
  case (Cons b bs)
  have report: "map undated (case r of Some t \<Rightarrow> [child_event sid now n (Text t)] | None \<Rightarrow> []) =
      (case r of Some t \<Rightarrow> [child_event sid 0 n (Text t)] | None \<Rightarrow> [])" for r n
    by (cases r) simp_all
  show ?case
  proof (cases "native_event kind b")
    case None
    then show ?thesis by (simp add: Cons.IH)
  next
    case (Some e)
    show ?thesis
    proof (cases "redacted_event hide e")
      case (Inr e')
      then show ?thesis using Some
        by (cases "handback_step (block_delivered parse b) e' hs") (auto simp: Let_def undate_added report Cons.IH)
    qed (simp add: Some)
  qed
qed simp

lemma lines_undated:
  "undate (history_lines dec parse hide (child_event sid now) parent child base hs ls) =
     history_lines dec parse hide (child_event sid 0) parent child base hs ls"
proof (induction ls arbitrary: base hs)
  case (Cons l ls)
  have one: "undate (record_events dec parse hide (child_event sid now) parent child base l hs) =
      record_events dec parse hide (child_event sid 0) parent child base l hs"
    by (cases "dec l"; cases "record_blocks parent child (the (dec l))") (simp_all add: record_events_def blocks_undated)
  have "undate (and_then (history_lines dec parse hide (child_event sid now) parent child b h ls) (\<lambda>(rest, out). Inr (es @ rest, out))) =
      and_then (history_lines dec parse hide (child_event sid 0) parent child b h ls) (\<lambda>(rest, out). Inr (map undated es @ rest, out))" for b h es
    by (cases "history_lines dec parse hide (child_event sid now) parent child b h ls") (auto simp: Cons.IH [of b h, symmetric] split_beta)
  note rest = this
  show ?case
  proof (cases "record_events dec parse hide (child_event sid now) parent child base l hs")
    case (Inl e)
    then show ?thesis by (simp add: one [symmetric])
  next
    case (Inr r)
    obtain es h where "r = (es, h)" by (cases r)
    with Inr show ?thesis by (simp add: one [symmetric] rest)
  qed
qed simp

section \<open>The pages are the history\<close>

lemma history_lines_append:
  "history_lines dec parse hide event parent child base hs (ls @ ms) =
     and_then (history_lines dec parse hide event parent child base hs ls) (\<lambda>(es, b, h).
       and_then (history_lines dec parse hide event parent child b h ms) (\<lambda>(rest, out). Inr (es @ rest, out)))"
proof (induction ls arbitrary: base hs)
  case Nil
  show ?case by (cases "history_lines dec parse hide event parent child base hs ms") (auto simp: split_beta)
next
  case (Cons l ls)
  have "and_then (and_then (history_lines dec parse hide event parent child b h ls) (\<lambda>(es, b, h).
           and_then (history_lines dec parse hide event parent child b h ms) (\<lambda>(rest, out). Inr (es @ rest, out))))
         (\<lambda>(rest, out). Inr (first @ rest, out)) =
       and_then (and_then (history_lines dec parse hide event parent child b h ls) (\<lambda>(rest, out). Inr (first @ rest, out))) (\<lambda>(es, b, h).
           and_then (history_lines dec parse hide event parent child b h ms) (\<lambda>(rest, out). Inr (es @ rest, out)))" for b h first
  proof (cases "history_lines dec parse hide event parent child b h ls")
    case (Inr r)
    obtain es b' h' where "r = (es, b', h')" by (cases r)
    then show ?thesis using Inr by (cases "history_lines dec parse hide event parent child b' h' ms") (auto simp: split_beta)
  qed simp
  note assoc = this
  show ?case
  proof (cases "record_events dec parse hide event parent child base l hs")
    case (Inr r)
    obtain first h where "r = (first, h)" by (cases r)
    with Inr show ?thesis by (simp only: history_lines.simps append_Cons and_then_simps split_conv Cons.IH assoc)
  qed simp
qed

definition finished_pages :: "string \<Rightarrow> bytes \<Rightarrow> child_cursor \<Rightarrow> history_error + event list \<times> nat \<times> handbacks \<Rightarrow> history_error + event list \<times> child_cursor" where
  "finished_pages identity tail cursor r =
     and_then r (\<lambda>(es, offset, hs). Inr (es, cursor\<lparr>cc_offset := offset, cc_identity := identity, cc_has_more := False,
       cc_pending_tail := (tail \<noteq> []), cc_handbacks := hs\<rparr>))"

lemma pages_from:
  assumes "list_all complete_record ls" and "partial_record tail" and "content = before @ concat ls @ tail"
    and "cc_offset cursor = length before" and "cc_identity cursor = [] \<or> cc_identity cursor = identity"
  shows "undate (child_pages dec parse hide parent child sid identity content clock n cursor) =
    finished_pages identity tail cursor
      (history_lines dec parse hide (child_event sid 0) parent child (length before) (cc_handbacks cursor) ls)"
  using assms
proof (induction "length ls" arbitrary: ls before cursor n rule: less_induct)
  case less
  let ?H = "\<lambda>now. history_lines dec parse hide (child_event sid now) parent child"
  obtain k t where k: "k \<le> length ls" and p: "page_records [] (concat ls @ tail) = Inr (concat (take k ls), t)"
    and end_of: "if t then k = length ls \<and> tail \<noteq> [] else PAGE_TARGET \<le> length (concat (take k ls)) \<or> k = length ls \<and> tail = []"
    using page_of_records [OF less.prems(1,2), of "[]"] by (metis append_Nil)
  let ?again = "\<not> t \<and> length before + length (concat (take k ls)) < length content"
  let ?page = "\<lparr>cp_bytes = concat (take k ls), cp_cursor = cursor\<lparr>cc_identity := identity, cc_pending_tail := t\<rparr>, cp_has_more = ?again\<rparr>"
  have page: "read_child_page identity content cursor = Inr ?page"
    using less.prems(3-5) p by (auto simp: read_child_page_def)
  have split: "split_inclusive (concat (take k ls)) = take k ls"
    using less.prems(1) by (intro split_records) (metis append_take_drop_id list_all_append)
  have ls: "ls = take k ls @ drop k ls" by simp
  show ?case
  proof (cases "?H (clock n) (length before) (cc_handbacks cursor) (take k ls)")
    case (Inl e)
    then have "?H 0 (length before) (cc_handbacks cursor) (take k ls) = Inl e"
      using lines_undated [of dec parse hide sid "clock n" parent child "length before" "cc_handbacks cursor" "take k ls"] by simp
    then have "?H 0 (length before) (cc_handbacks cursor) ls = Inl e"
      by (subst ls) (simp only: history_lines_append and_then_simps)
    then show ?thesis
      by (subst child_pages.simps) (simp add: page parse_child_history_def split less.prems(4) Inl finished_pages_def)
  next
    case (Inr r)
    obtain es offset hs where r: "r = (es, offset, hs)" by (cases r)
    have offset: "offset = length before + length (concat (take k ls))" using history_offset [OF Inr [unfolded r]] by simp
    have first: "?H 0 (length before) (cc_handbacks cursor) (take k ls) = Inr (map undated es, offset, hs)"
      using lines_undated [of dec parse hide sid "clock n" parent child "length before" "cc_handbacks cursor" "take k ls"] Inr r by simp
    have all: "?H 0 (length before) (cc_handbacks cursor) ls =
        and_then (?H 0 offset hs (drop k ls)) (\<lambda>(rest, out). Inr (map undated es @ rest, out))"
      by (subst ls) (simp only: history_lines_append first and_then_simps split_conv)
    let ?next = "cursor\<lparr>cc_identity := identity, cc_pending_tail := t, cc_offset := offset, cc_handbacks := hs, cc_has_more := ?again\<rparr>"
    have parsed: "parse_child_history dec parse hide (clock n) ?page parent child sid = Inr (es, ?next, ?again)"
      by (simp add: parse_child_history_def split less.prems(4) Inr r)
    have unfolded: "child_pages dec parse hide parent child sid identity content clock n cursor =
        (if \<not> ?again then Inr (es, ?next)
         else (case child_pages dec parse hide parent child sid identity content clock (Suc n) ?next of
                 Inl e \<Rightarrow> Inl e | Inr (rest, final) \<Rightarrow> Inr (es @ rest, final)))"
      by (subst child_pages.simps) (simp only: page parsed sum.case prod.case)
    show ?thesis
    proof (cases ?again)
      case False
      have lines: "complete_record l \<Longrightarrow> l \<noteq> []" for l by (simp add: complete_record_def)
      have "drop k ls = [] \<and> (\<not> t \<longrightarrow> tail = [])"
      proof (cases t)
        case True
        then show ?thesis using end_of by simp
      next
        case nt: False
        have "length content = length before + length (concat (take k ls)) + length (concat (drop k ls)) + length tail"
          unfolding less.prems(3) by (subst ls, subst concat_append) simp
        then have "concat (drop k ls) = []" and "tail = []" using False nt by auto
        moreover have "\<forall>l \<in> set (drop k ls). l \<noteq> []"
          using less.prems(1) lines by (auto simp: list_all_iff dest: in_set_dropD)
        ultimately show ?thesis by (cases "drop k ls") auto
      qed
      then have "drop k ls = []" and "t = (tail \<noteq> [])" using end_of by (cases t; simp)+
      then have "finished_pages identity tail cursor (?H 0 (length before) (cc_handbacks cursor) ls) = Inr (map undated es, ?next)"
        using False by (simp add: all finished_pages_def)
      then show ?thesis unfolding unfolded using False by simp
    next
      case True
      have "k > 0"
      proof (rule ccontr)
        assume "\<not> k > 0"
        then have "ls = [] \<and> tail = []" using end_of True by (auto simp: PAGE_TARGET_def)
        then show False using True less.prems(3) by simp
      qed
      moreover have "ls \<noteq> [] \<or> k = 0" using k by auto
      ultimately have "length (drop k ls) < length ls" by auto
      moreover have "list_all complete_record (drop k ls)" using less.prems(1) by (metis append_take_drop_id list_all_append)
      moreover have "content = (before @ concat (take k ls)) @ concat (drop k ls) @ tail"
        unfolding less.prems(3) by (subst ls, subst concat_append) simp
      ultimately have "undate (child_pages dec parse hide parent child sid identity content clock (Suc n) ?next) =
          finished_pages identity tail ?next (?H 0 offset hs (drop k ls))"
        using less.hyps [of "drop k ls" "before @ concat (take k ls)" ?next "Suc n"] less.prems(2) by (simp add: offset)
      then show ?thesis using True
        unfolding unfolded
        by (cases "child_pages dec parse hide parent child sid identity content clock (Suc n) ?next";
            cases "?H 0 offset hs (drop k ls)") (auto simp: all finished_pages_def)
    qed
  qed
qed

text \<open>Sequence numbers of the events: an event and its report lie between the records before and after.\<close>

lemma blocks_increase:
  assumes "history_blocks parse hide (child_event sid now) kind base index hs bs = Inr (es, hs')"
  shows "sorted_wrt (<) (map ev_seq es) \<and>
    (\<forall>e \<in> set es. of_nat (base * 4096 + index * 2) \<le> ev_seq e \<and> ev_seq e < of_nat (base * 4096 + (index + length bs) * 2))"
  using assms
proof (induction bs arbitrary: index hs es)
  case (Cons b bs)
  let ?n = "of_nat base * 4096 + of_nat index * 2 :: rat"
  show ?case
  proof (cases "native_event kind b")
    case None
    then have "history_blocks parse hide (child_event sid now) kind base (Suc index) hs bs = Inr (es, hs')"
      using Cons.prems by (simp add: Let_def)
    from Cons.IH [OF this] show ?thesis by (force simp: algebra_simps)
  next
    case (Some e)
    then obtain e' h r rest where rest: "history_blocks parse hide (child_event sid now) kind base (Suc index) h bs = Inr (rest, hs')"
      and es: "es = child_event sid now ?n e' # (case r of Some t \<Rightarrow> [child_event sid now (?n + 1) (Text t)] | None \<Rightarrow> []) @ rest"
      using Cons.prems by (auto simp: Let_def and_then_eq_Inr)
    have two: "of_nat (base * 4096 + Suc index * 2) = ?n + 2" by simp
    from Cons.IH [OF rest] have sorted: "sorted_wrt (<) (map ev_seq rest)"
      and low: "\<And>x. x \<in> set rest \<Longrightarrow> ?n + 2 \<le> ev_seq x" and high: "\<And>x. x \<in> set rest \<Longrightarrow> ev_seq x < of_nat (base * 4096 + (Suc index + length bs) * 2)"
      unfolding two by blast+
    have top: "?n + 1 < of_nat (base * 4096 + (Suc index + length bs) * 2)" by simp
    have "?n < ev_seq x" "?n + 1 < ev_seq x" if "x \<in> set rest" for x using low [OF that] by simp_all
    then show ?thesis using sorted high top low
      by (cases r) (auto simp: es child_event_def intro: order.trans [rotated] less_imp_le)
  qed
qed simp

lemma record_increase:
  assumes "record_events dec parse hide (child_event sid now) parent child base line hs = Inr (es, hs')" and "line \<noteq> []"
  shows "sorted_wrt (<) (map ev_seq es) \<and>
    (\<forall>e \<in> set es. of_nat (base * 4096) \<le> ev_seq e \<and> ev_seq e < of_nat ((base + length line) * 4096))"
proof -
  obtain v bs where v: "dec line = Some v" and bs: "record_blocks parent child v = Inr bs"
    using assms(1) by (cases "dec line"; cases "record_blocks parent child (the (dec line))") (auto simp: record_events_def)
  have blocks: "history_blocks parse hide (child_event sid now) (kind_of v) base 0 hs bs = Inr (es, hs')"
    using assms(1) by (auto simp: record_events_def v bs split: if_splits)
  have "length (message_blocks v) \<le> 2048 \<or> kind_of v \<notin> {''assistant'', ''user''}"
    using assms(1) bs by (cases "json_list (json_field (json_field v ''message'') ''content'') = None")
      (auto simp: record_events_def v message_blocks_def record_blocks_def split: if_splits)
  then have le: "length bs \<le> 2048" using bs by (auto simp: record_blocks_def split: if_splits)
  have "(base * 4096 + (0 + length bs) * 2) \<le> (base + length line) * 4096"
    using le assms(2) by (cases line) auto
  then have "of_nat (base * 4096 + (0 + length bs) * 2) \<le> (of_nat ((base + length line) * 4096) :: rat)" by (rule of_nat_mono)
  with blocks_increase [OF blocks] show ?thesis by fastforce
qed

lemma lines_increase:
  assumes "history_lines dec parse hide (child_event sid now) parent child base hs ls = Inr (es, offset, hs')" and "\<forall>l \<in> set ls. l \<noteq> []"
  shows "sorted_wrt (<) (map ev_seq es) \<and> (\<forall>e \<in> set es. of_nat (base * 4096) \<le> ev_seq e)"
  using assms
proof (induction ls arbitrary: base hs es)
  case (Cons l ls)
  from Cons.prems(1) obtain first h rest where one: "record_events dec parse hide (child_event sid now) parent child base l hs = Inr (first, h)"
    and rest: "history_lines dec parse hide (child_event sid now) parent child (base + length l) h ls = Inr (rest, offset, hs')"
    and es: "es = first @ rest"
    by (auto simp: and_then_eq_Inr)
  have "base * 4096 \<le> (base + length l) * 4096" by simp
  then have "of_nat (base * 4096) \<le> (of_nat ((base + length l) * 4096) :: rat)" by (rule of_nat_mono)
  with record_increase [OF one] Cons.IH [OF rest] Cons.prems(2) show ?case
    unfolding es by (fastforce simp: sorted_wrt_append)
qed simp

lemma undated_seq [simp]: "ev_seq (undated e) = ev_seq e" "ev_event (undated e) = ev_event e" "ev_seq \<circ> undated = ev_seq"
  by (simp_all add: undated_def fun_eq_iff)

text \<open>C21: reading the history of a child in pages loses, repeats and reorders nothing, even if the file grows meanwhile.
  Let a first round of pages have reached the end of a file of complete records \<open>ls\<close> with an unfinished line
  \<open>tail\<close>, and let the file then be \<open>ls @ ms\<close> with \<open>tail'\<close>. The events of the first round are those of
  parsing \<open>ls\<close> at once, up to their times; continuing from the saved cursor gives, put behind them, those of
  parsing \<open>ls @ ms\<close> at once, with the same cursor and the same error if there is one; a report whose
  confirmation is on a later page is not missed. The sequence numbers increase strictly.\<close>

theorem claude_child_pages_complete:
  assumes "list_all complete_record (ls @ ms)" and "partial_record tail" and "partial_record tail'"
    and "cc_offset start = 0" and "cc_handbacks start = []" and "cc_identity start = []"
    and "child_pages dec parse hide parent child sid identity (concat ls @ tail) clock n start = Inr (es, c)"
  shows "(\<exists>hs. history_lines dec parse hide (child_event sid 0) parent child 0 [] ls = Inr (map undated es, cc_offset c, hs)) \<and>
    undate (and_then (child_pages dec parse hide parent child sid identity (concat (ls @ ms) @ tail') clock' n' c)
              (\<lambda>(more, d). Inr (es @ more, d))) =
      finished_pages identity tail' start (history_lines dec parse hide (child_event sid 0) parent child 0 [] (ls @ ms)) \<and>
    sorted_wrt (<) (map ev_seq es)"
proof -
  let ?H = "history_lines dec parse hide (child_event sid 0) parent child"
  have "undate (Inr (es, c)) = finished_pages identity tail start (?H 0 [] ls)"
    using pages_from [of ls tail "concat ls @ tail" "[]" start identity dec parse hide parent child sid clock n] assms by simp
  then obtain offset hs where first: "?H 0 [] ls = Inr (map undated es, offset, hs)"
    and c: "c = start\<lparr>cc_offset := offset, cc_identity := identity, cc_has_more := False, cc_pending_tail := (tail \<noteq> []), cc_handbacks := hs\<rparr>"
    by (cases "?H 0 [] ls") (auto simp: finished_pages_def)
  have offset: "offset = length (concat ls)" using history_offset [OF first] by simp
  let ?more = "child_pages dec parse hide parent child sid identity (concat (ls @ ms) @ tail') clock' n' c"
  have later: "undate ?more = finished_pages identity tail' c (?H offset hs ms)"
    using pages_from [of ms tail' "concat (ls @ ms) @ tail'" "concat ls" c identity dec parse hide parent child sid clock' n'] assms
    by (simp add: c offset)
  have "undate (and_then ?more (\<lambda>(more, d). Inr (es @ more, d))) = and_then (undate ?more) (\<lambda>(more, d). Inr (map undated es @ more, d))"
    by (cases ?more) (auto simp: split_beta)
  also have "\<dots> = finished_pages identity tail' start (?H 0 [] (ls @ ms))"
    unfolding later history_lines_append first by (cases "?H offset hs ms") (auto simp: finished_pages_def c)
  finally have whole: "undate (and_then ?more (\<lambda>(more, d). Inr (es @ more, d))) = finished_pages identity tail' start (?H 0 [] (ls @ ms))" .
  have "\<forall>l \<in> set ls. l \<noteq> []" using assms(1) by (auto simp: list_all_iff complete_record_def)
  with lines_increase [OF first] have "sorted_wrt (<) (map ev_seq es)" by simp
  with first whole show ?thesis by (simp add: c)
qed

text \<open>A report handed over in one record and confirmed in the next one, which the first round finds unfinished.\<close>

definition sample_start :: child_cursor where
  "sample_start = \<lparr>cc_offset = 0, cc_identity = [], cc_has_more = False, cc_pending_tail = False, cc_handbacks = []\<rparr>"

definition sample_record :: "string \<Rightarrow> json \<Rightarrow> json" where
  "sample_record kind block = JObject [(''type'', JString kind), (''sessionId'', JString ''p''), (''agentId'', JString ''c''),
     (''isSidechain'', JBool True), (''message'', JObject [(''content'', JArray [block])])]"

definition sample_records :: "bytes \<Rightarrow> json option" where
  "sample_records line =
     (if line = [49, 10]
      then Some (sample_record ''assistant'' (JObject [(''type'', JString ''tool_use''), (''id'', JString ''t''),
             (''name'', JString ''SubagentHandback''), (''input'', JObject [(''message'', JString ''r'')])]))
      else if line = [50, 10]
      then Some (sample_record ''user'' (JObject [(''type'', JString ''tool_result''), (''tool_use_id'', JString ''t''),
             (''content'', JString ''k'')]))
      else None)"

definition sample_parse :: "string \<Rightarrow> json option" where
  "sample_parse t = Some (JObject [(''success'', JBool True)])"

theorem claude_child_pages_complete_witness:
  "\<exists>es c more d. child_pages sample_records sample_parse Inr ''p'' ''c'' ''s'' ''f'' [49, 10, 50] (\<lambda>k. of_nat k) 0 sample_start = Inr (es, c) \<and>
     child_pages sample_records sample_parse Inr ''p'' ''c'' ''s'' ''f'' [49, 10, 50, 10] (\<lambda>k. of_nat k) 1 c = Inr (more, d) \<and>
     Text ''r'' \<in> ev_event ` set more \<and> cc_offset c = 2 \<and> cc_offset d = 4"
proof -
  let ?P = "child_pages sample_records sample_parse Inr ''p'' ''c'' ''s'' ''f''"
  let ?H = "history_lines sample_records sample_parse Inr (child_event ''s'' 0) ''p'' ''c'' 0 []"
  have limit: "NATIVE_LIMIT \<ge> 2" by (simp add: NATIVE_LIMIT_def MAX_FRAME_def)
  then have records: "list_all complete_record ([[49, 10]] @ [[50, 10]])" "partial_record [50]" "partial_record []"
    by (simp_all add: complete_record_def partial_record_def)
  note eval = sample_records_def record_events_def sample_record_def record_blocks_def kind_of_def message_blocks_def str_or_def
    native_event_def redacted_event_def handback_step_def held_back_def MAX_FRAME_def block_delivered_def handback_delivered_def
    report_success_def tool_content_def sample_parse_def
  have one: "?H [[49, 10]] = Inr ([child_event ''s'' 0 0 (Tool ''t'' ''SubagentHandback'' (JObject [(''message'', JString ''r'')]))], 2, [(''t'', ''r'')])"
    by (simp add: eval)
  have two: "?H ([[49, 10]] @ [[50, 10]]) = Inr ([child_event ''s'' 0 0 (Tool ''t'' ''SubagentHandback'' (JObject [(''message'', JString ''r'')])),
      child_event ''s'' 0 8192 (ToolResult ''t'' (JString ''k'') False), child_event ''s'' 0 8193 (Text ''r'')], 4, [])"
    by (simp add: eval)
  have "undate (?P [49, 10, 50] (\<lambda>k. of_nat k) 0 sample_start) = finished_pages ''f'' [50] sample_start (?H [[49, 10]])"
    using pages_from [of "[[49, 10]]" "[50]" "[49, 10, 50]" "[]" sample_start "''f''"] records by (simp add: sample_start_def)
  then obtain es c where first: "?P [49, 10, 50] (\<lambda>k. of_nat k) 0 sample_start = Inr (es, c)" and c: "cc_offset c = 2"
    and es: "map undated es = [child_event ''s'' 0 0 (Tool ''t'' ''SubagentHandback'' (JObject [(''message'', JString ''r'')]))]"
    unfolding one by (cases "?P [49, 10, 50] (\<lambda>k. of_nat k) 0 sample_start") (auto simp: finished_pages_def)
  have "undate (and_then (?P [49, 10, 50, 10] (\<lambda>k. of_nat k) 1 c) (\<lambda>(more, d). Inr (es @ more, d))) =
      finished_pages ''f'' [] sample_start (?H ([[49, 10]] @ [[50, 10]]))"
    using claude_child_pages_complete [OF records, of sample_start sample_records sample_parse Inr "''p''" "''c''" "''s''" "''f''"] first
    by (simp add: sample_start_def)
  then obtain more d where second: "?P [49, 10, 50, 10] (\<lambda>k. of_nat k) 1 c = Inr (more, d)" and d: "cc_offset d = 4"
    and all: "map undated more = [child_event ''s'' 0 8192 (ToolResult ''t'' (JString ''k'') False), child_event ''s'' 0 8193 (Text ''r'')]"
    unfolding two using es by (cases "?P [49, 10, 50, 10] (\<lambda>k. of_nat k) 1 c") (auto simp: finished_pages_def)
  have "Text ''r'' \<in> ev_event ` set (map undated more)" unfolding all by (simp add: child_event_def)
  then have "Text ''r'' \<in> ev_event ` set more" by (auto simp: image_iff)
  with first second c d show ?thesis by blast
qed

end
