(* ===== verification/Utf8.thy ===== *)
theory Utf8
  imports Events
begin

text \<open>
  Texts of the source are UTF-8: a list of characters, each a byte that is no continuation followed by its
  continuations. Such a text is cut by \<open>floor_boundary\<close> (\<open>is_char_boundary\<close> going down) between two
  characters and at most three bytes early, so what is cut is UTF-8 again.
\<close>

definition utf8_char :: "nat list \<Rightarrow> bool" where
  "utf8_char c \<longleftrightarrow> c \<noteq> [] \<and> sequence_ok (hd c) (tl c) = Utf8Valid \<and> length c = sequence_length (hd c)"

lemma tail_ok_append: "tail_ok n bs = Utf8Valid \<longleftrightarrow> n \<le> length bs \<and> list_all continuation (take n bs)"
  by (induction n bs rule: tail_ok.induct) auto

lemma second_continues: "second_ok a b \<Longrightarrow> continuation b"
  by (auto simp: second_ok_def continuation_def split: if_splits)

lemma sequence_ok_valid:
  "sequence_ok a bs = Utf8Valid \<longleftrightarrow> sequence_length a \<noteq> 0 \<and> sequence_length a - 1 \<le> length bs \<and>
     (sequence_length a > 1 \<longrightarrow> second_ok a (hd bs)) \<and> list_all continuation (take (sequence_length a - 1) bs)"
  unfolding sequence_ok_def
  by (cases "sequence_length a"; cases "sequence_length a - 1"; cases bs)
    (auto simp: tail_ok_append second_continues split: nat.splits)

lemma sequence_length_le: "sequence_length a \<le> 4" "sequence_length a \<noteq> 0 \<Longrightarrow> \<not> continuation a"
  by (auto simp: continuation_def split: if_splits)

declare sequence_length.simps [simp del]

lemma utf8_char_shape:
  assumes "utf8_char c"
  shows "\<not> continuation (hd c)" and "list_all continuation (tl c)" and "length c \<le> 4" and "c \<noteq> []"
  using assms sequence_length_le [of "hd c"] by (cases c; cases "tl c"; auto simp: utf8_char_def sequence_ok_valid)+

lemma from_utf8_char:
  assumes "utf8_char c"
  shows "from_utf8 (c @ rest) = from_utf8 rest"
proof -
  obtain a t where c: "c = a # t" using assms by (cases c) (auto simp: utf8_char_def)
  then have len: "length t = sequence_length a - 1" and ok: "sequence_ok a t = Utf8Valid"
    using assms by (auto simp: utf8_char_def)
  have "hd (t @ rest) = hd t" if "sequence_length a > 1" using that len by (cases t) auto
  then have "sequence_ok a (t @ rest) = Utf8Valid" using ok len by (auto simp: sequence_ok_valid)
  then show ?thesis using len by (simp add: c)
qed

lemma from_utf8_chars: "\<forall>c \<in> set cs. utf8_char (map f c) \<Longrightarrow> from_utf8 (map f (concat cs)) = Utf8Valid"
  by (induction cs) (simp_all add: from_utf8_char)

lemma utf8_chars:
  assumes "from_utf8 (map byte s) = Utf8Valid"
  obtains cs where "s = concat cs" and "\<forall>c \<in> set cs. utf8_char (map byte c)"
proof -
  have "\<exists>cs. s = concat cs \<and> (\<forall>c \<in> set cs. utf8_char (map byte c))"
    using assms
  proof (induction "length s" arbitrary: s rule: less_induct)
    case less
    show ?case
    proof (cases s)
      case Nil
      then show ?thesis by (intro exI [of _ "[]"]) simp
    next
      case (Cons a t)
      let ?n = "sequence_length (byte a) - 1"
      have ok: "sequence_ok (byte a) (map byte t) = Utf8Valid" and rest: "from_utf8 (map byte (drop ?n t)) = Utf8Valid"
        using less.prems by (auto simp: Cons drop_map split: utf8_result.splits)
      have "length (drop ?n t) < length s" by (simp add: Cons)
      from less.hyps [OF this rest] obtain cs where cs: "drop ?n t = concat cs" "\<forall>c \<in> set cs. utf8_char (map byte c)"
        by blast
      have n: "?n \<le> length t" "sequence_length (byte a) \<noteq> 0" using ok by (auto simp: sequence_ok_valid)
      have "hd (map byte (take ?n t)) = hd (map byte t)" if "sequence_length (byte a) > 1" using that n by (cases t) (auto simp: take_Cons split: nat.splits)
      then have "utf8_char (map byte (a # take ?n t))"
        using ok n by (auto simp: utf8_char_def sequence_ok_valid take_map min_def)
      moreover have "s = concat ((a # take ?n t) # cs)" using cs(1) by (simp add: Cons flip: cs(1))
      ultimately show ?thesis using cs(2) by (intro exI [of _ "(a # take ?n t) # cs"]) auto
    qed
  qed
  with that show thesis by blast
qed

section \<open>Cutting\<close>

lemma floor_in_char:
  assumes "list_all continuation (map byte (tl c))" and "n < length c"
  shows "floor_boundary (c @ rest) n = 0"
  using assms(2)
proof (induction n)
  case (Suc n)
  then have "(c @ rest) ! Suc n \<in> set (tl c)" by (cases c) (auto simp: nth_append)
  with assms(1) have "continuation (byte ((c @ rest) ! Suc n))" by (simp add: list_all_iff)
  then show ?case using Suc by simp
qed simp

lemma floor_past_char:
  assumes "rest = [] \<or> \<not> continuation (byte (hd rest))" and "c \<noteq> []"
  shows "floor_boundary (c @ rest) (length c + n) = length c + floor_boundary rest n"
proof (induction n)
  case 0
  obtain k where k: "length c = Suc k" using assms(2) by (cases c) auto
  have "Suc k \<ge> length (c @ rest) \<or> \<not> continuation (byte ((c @ rest) ! Suc k))"
    using assms(1) k [symmetric] by (cases rest) (auto simp: nth_append)
  then have "floor_boundary (c @ rest) (Suc k) = Suc k" by (subst floor_boundary.simps(2)) (simp only: if_True)
  then show ?case by (simp add: k)
next
  case (Suc n)
  have "(c @ rest) ! Suc (length c + n) = rest ! Suc n" by (simp add: nth_append)
  then show ?case using Suc by simp
qed

lemma floor_chars:
  assumes "\<forall>c \<in> set cs. utf8_char (map byte c)" and "n < length (concat cs)"
  shows "\<exists>k. floor_boundary (concat cs) n = length (concat (take k cs)) \<and> length (concat (take k cs)) \<le> n \<and> n < length (concat (take k cs)) + 4"
  using assms
proof (induction cs arbitrary: n)
  case (Cons c cs)
  have c: "list_all continuation (map byte (tl c))" "length c \<le> 4" "c \<noteq> []"
    using utf8_char_shape [of "map byte c"] Cons.prems(1) by (auto simp: map_tl)
  have start: "concat cs = [] \<or> \<not> continuation (byte (hd (concat cs)))"
  proof (cases cs)
    case (Cons d ds)
    then have "utf8_char (map byte d)" using Cons.prems(1) by simp
    from utf8_char_shape(1,4) [OF this] show ?thesis by (auto simp: Cons hd_map)
  qed simp
  show ?case
  proof (cases "n < length c")
    case True
    then have "floor_boundary (concat (c # cs)) n = 0" using floor_in_char [OF c(1) True, of "concat cs"] by simp
    then show ?thesis using True c(2) by (intro exI [of _ 0]) simp
  next
    case False
    then obtain m where m: "n = length c + m" by (metis le_add_diff_inverse not_less)
    then obtain k where "floor_boundary (concat cs) m = length (concat (take k cs)) \<and> length (concat (take k cs)) \<le> m \<and> m < length (concat (take k cs)) + 4"
      using Cons.IH [of m] Cons.prems by auto
    then show ?thesis using floor_past_char [OF start c(3), of m] m by (intro exI [of _ "Suc k"]) simp
  qed
qed simp

lemma floor_whole: "floor_boundary s (length s) = length s"
  by (cases "length s") simp_all

text \<open>Where a text is cut within its length.\<close>

lemma floor_valid:
  assumes "from_utf8 (map byte s) = Utf8Valid" and "n \<le> length s"
  shows "from_utf8 (map byte (take (floor_boundary s n) s)) = Utf8Valid"
    and "from_utf8 (map byte (drop (floor_boundary s n) s)) = Utf8Valid"
    and "floor_boundary s n \<le> n" and "n < floor_boundary s n + 4"
proof -
  obtain cs where cs: "s = concat cs" "\<forall>c \<in> set cs. utf8_char (map byte c)" by (rule utf8_chars [OF assms(1)])
  have "\<exists>k. floor_boundary s n = length (concat (take k cs)) \<and> length (concat (take k cs)) \<le> n \<and> n < length (concat (take k cs)) + 4"
  proof (cases "n = length s")
    case True
    then show ?thesis by (intro exI [of _ "length cs"]) (simp add: floor_whole cs(1))
  next
    case False
    then show ?thesis using floor_chars [OF cs(2), of n] assms(2) by (simp add: cs(1))
  qed
  then obtain k where k: "floor_boundary s n = length (concat (take k cs))" "length (concat (take k cs)) \<le> n" "n < length (concat (take k cs)) + 4"
    by blast
  have s: "s = concat (take k cs) @ concat (drop k cs)" by (simp add: cs(1) flip: concat_append)
  have "take (floor_boundary s n) s = concat (take k cs)" "drop (floor_boundary s n) s = concat (drop k cs)"
    unfolding k(1) by (subst s, simp)+
  moreover have "from_utf8 (map byte (concat (take k cs))) = Utf8Valid" "from_utf8 (map byte (concat (drop k cs))) = Utf8Valid"
    using cs(2) by (auto intro!: from_utf8_chars dest: in_set_takeD in_set_dropD)
  ultimately show "from_utf8 (map byte (take (floor_boundary s n) s)) = Utf8Valid"
    "from_utf8 (map byte (drop (floor_boundary s n) s)) = Utf8Valid" by simp_all
  show "floor_boundary s n \<le> n" "n < floor_boundary s n + 4" using k by simp_all
qed

lemma from_utf8_append:
  assumes "from_utf8 (map byte s) = Utf8Valid"
  shows "from_utf8 (map byte (s @ t)) = from_utf8 (map byte t)"
proof -
  obtain cs where "s = concat cs" "\<forall>c \<in> set cs. utf8_char (map byte c)" by (rule utf8_chars [OF assms])
  moreover have "\<forall>c \<in> set cs. utf8_char (map byte c) \<Longrightarrow> from_utf8 (map byte (concat cs @ t)) = from_utf8 (map byte t)"
    by (induction cs) (simp_all add: from_utf8_char)
  ultimately show ?thesis by simp
qed

text \<open>A clipped text is still a text.\<close>

lemma clip_valid:
  assumes "from_utf8 (map byte s) = Utf8Valid"
  shows "from_utf8 (map byte (fst (clip s limit))) = Utf8Valid"
proof (cases "length s \<le> limit")
  case False
  have suffix: "from_utf8 (map byte truncated_suffix) = Utf8Valid"
    by (simp add: truncated_suffix_def byte_def sequence_ok_def sequence_length.simps second_ok_def continuation_def)
  have "from_utf8 (map byte (take (floor_boundary s limit) s)) = Utf8Valid" using floor_valid(1) [OF assms] False by simp
  from from_utf8_append [OF this, of truncated_suffix] suffix show ?thesis using False by (simp add: clip_def)
qed (simp add: clip_def assms)

end
