(* ===== verification/ClaudeReports.thy ===== *)
theory ClaudeReports
  imports ClaudeHistory Utf8
begin

text \<open>
  The report of a child is cut into events of at most 4 KiB. The loop of \<open>report_events\<close> advances only
  because a text is UTF-8: among any four bytes one begins a character.
\<close>

lemma cut_point:
  assumes "from_utf8 (map byte t) = Utf8Valid" and "t \<noteq> []"
  shows "floor_boundary t (min (length t) 4096) \<le> min (length t) 4096" and "floor_boundary t (min (length t) 4096) > 0"
    and "length t > 4096 \<Longrightarrow> floor_boundary t (min (length t) 4096) \<ge> 4093"
    and "length t \<le> 4096 \<Longrightarrow> drop (floor_boundary t (min (length t) 4096)) t = []"
  using floor_valid(3,4) [OF assms(1), of "min (length t) 4096"] floor_whole [of t] assms(2)
  by (cases "length t \<le> 4096"; simp add: min_def)+

lemma split_returns:
  assumes "from_utf8 (map byte t) = Utf8Valid"
  shows "\<exists>pieces. split_report t = Some pieces \<and> concat pieces = t \<and>
    (\<forall>p \<in> set pieces. p \<noteq> [] \<and> length p \<le> 4096 \<and> from_utf8 (map byte p) = Utf8Valid) \<and>
    (length pieces - 1) * 4093 \<le> length t"
  using assms
proof (induction "length t" arbitrary: t rule: less_induct)
  case less
  show ?case
  proof (cases "t = []")
    case True
    then show ?thesis by (subst split_report.simps) simp
  next
    case False
    let ?e = "floor_boundary t (min (length t) 4096)"
    note cut_at = cut_point [OF less.prems False]
    have "length (drop ?e t) < length t" using cut_at(2) False by simp
    from less.hyps [OF this] floor_valid(2) [OF less.prems, of "min (length t) 4096"]
    obtain ps where ps: "split_report (drop ?e t) = Some ps" "concat ps = drop ?e t"
      "\<forall>p \<in> set ps. p \<noteq> [] \<and> length p \<le> 4096 \<and> from_utf8 (map byte p) = Utf8Valid" "(length ps - 1) * 4093 \<le> length (drop ?e t)"
      by auto
    have "split_report t = Some (take ?e t # ps)"
      using False ps(1) by (subst split_report.simps) (simp add: Let_def)
    moreover have "take ?e t \<noteq> []" "length (take ?e t) \<le> 4096" using cut_at(1,2) False by auto
    moreover have "from_utf8 (map byte (take ?e t)) = Utf8Valid" using floor_valid(1) [OF less.prems] by simp
    moreover have "(length (take ?e t # ps) - 1) * 4093 \<le> length t"
    proof (cases "length t \<le> 4096")
      case True
      then have "ps = []" using ps cut_at(4) by (cases ps) auto
      then show ?thesis by simp
    next
      case f: False
      then have "?e \<ge> 4093" using cut_at(3) by simp
      moreover have "?e \<le> length t" using cut_at(1) by simp
      ultimately show ?thesis using ps(4) by (cases ps) auto
    qed
    ultimately show ?thesis using ps by (intro exI [of _ "take ?e t # ps"]) auto
  qed
qed

lemma report_text_valid:
  assumes "from_utf8 (map byte t) = Utf8Valid"
  shows "from_utf8 (map byte (fst (report_text t))) = Utf8Valid" and "length (fst (report_text t)) \<le> 128 * 1024 + 28"
    and "snd (report_text t) \<longleftrightarrow> length t > 128 * 1024"
proof -
  have suffix: "from_utf8 (map byte report_truncated) = Utf8Valid" "length report_truncated \<le> 28"
    by (simp_all add: report_truncated_def byte_def sequence_ok_def sequence_length.simps second_ok_def continuation_def)
  have "from_utf8 (map byte (fst (report_text t))) = Utf8Valid \<and> length (fst (report_text t)) \<le> 128 * 1024 + 28"
  proof (cases "length t > 128 * 1024")
    case True
    then have "from_utf8 (map byte (take (floor_boundary t (128 * 1024)) t)) = Utf8Valid" "floor_boundary t (128 * 1024) \<le> 128 * 1024"
      using floor_valid(1,3) [OF assms] by simp_all
    with True suffix from_utf8_append [OF this(1), of report_truncated]
    show ?thesis by (simp add: report_text_def)
  qed (simp add: report_text_def assms)
  then show "from_utf8 (map byte (fst (report_text t))) = Utf8Valid" "length (fst (report_text t)) \<le> 128 * 1024 + 28"
    by blast+
  show "snd (report_text t) \<longleftrightarrow> length t > 128 * 1024" by (simp add: report_text_def)
qed

definition text_of :: "event \<Rightarrow> string option" where
  "text_of e = (case ev_event e of Text t \<Rightarrow> Some t | _ \<Rightarrow> None)"

text \<open>C23: the loop that cuts the report of a child into events returns for every text, UTF-8 being what makes it
  advance. The events carry the report, cut to 128 KiB with a note exactly if it is longer, and none of them is
  empty, longer than 4 KiB or ends inside a character; their sequence numbers increase and stay below that of
  the next event.\<close>

theorem claude_report_returns:
  assumes "from_utf8 (map byte t) = Utf8Valid"
  shows "\<exists>es. report_events (child_event sid now) t num = Inr (es, length t > 128 * 1024) \<and>
    (\<exists>ps. map text_of es = map Some ps \<and>
      concat ps = (if length t > 128 * 1024 then take (floor_boundary t (128 * 1024)) t @ report_truncated else t) \<and>
      (\<forall>p \<in> set ps. p \<noteq> [] \<and> length p \<le> 4096 \<and> from_utf8 (map byte p) = Utf8Valid)) \<and>
    sorted_wrt (<) (map ev_seq es) \<and> (\<forall>e \<in> set es. num < ev_seq e \<and> ev_seq e < num + 1)"
proof -
  obtain ps where ps: "split_report (fst (report_text t)) = Some ps" "concat ps = fst (report_text t)"
    "\<forall>p \<in> set ps. p \<noteq> [] \<and> length p \<le> 4096 \<and> from_utf8 (map byte p) = Utf8Valid"
    "(length ps - 1) * 4093 \<le> length (fst (report_text t))"
    using split_returns [OF report_text_valid(1) [OF assms]] by blast
  have few: "length ps < 64" using ps(4) report_text_valid(2) [OF assms] by linarith
  let ?es = "map (\<lambda>(k, piece). child_event sid now (num + of_nat (Suc k) / 64) (Text piece)) (enumerate 0 ps)"
  have "report_events (child_event sid now) t num = Inr (?es, length t > 128 * 1024)"
    using ps(1) report_text_valid(3) [OF assms] by (cases "report_text t") (simp add: report_events_def)
  moreover have "map text_of ?es = map Some ps"
    by (intro nth_equalityI) (auto simp: nth_enumerate_eq text_of_def child_event_def)
  moreover have "concat ps = (if length t > 128 * 1024 then take (floor_boundary t (128 * 1024)) t @ report_truncated else t)"
    unfolding ps(2) by (simp add: report_text_def)
  moreover have "sorted_wrt (<) (map ev_seq ?es)"
    by (auto simp: sorted_wrt_iff_nth_less nth_enumerate_eq child_event_def divide_strict_right_mono)
  moreover have "num < ev_seq e \<and> ev_seq e < num + 1" if "e \<in> set ?es" for e
  proof -
    from that obtain k where "k < length ps" and e: "ev_seq e = num + of_nat (Suc k) / 64"
      by (auto simp: in_set_enumerate_eq child_event_def)
    then have "Suc k < 64" using few by simp
    then have "of_nat (Suc k) < (of_nat 64 :: rat)" by (rule of_nat_less_iff [THEN iffD2])
    then show ?thesis unfolding e by simp
  qed
  ultimately show ?thesis using ps(3) by blast
qed

text \<open>A report with a character of three bytes across the end of the first piece.\<close>

theorem claude_report_returns_witness:
  "\<exists>es. report_events (child_event ''s'' 0) (replicate 4095 CHR ''a'' @ map char_of [230 :: nat, 138, 165]) 7 = Inr (es, False) \<and>
     (\<exists>ps. map text_of es = map Some ps \<and> (\<forall>p \<in> set ps. length p \<le> 4096))"
proof -
  have plain: "from_utf8 (replicate n 97) = Utf8Valid" for n
    by (induction n) (simp_all add: sequence_ok_def sequence_length.simps)
  have "from_utf8 (map byte (replicate 4095 CHR ''a'')) = Utf8Valid" using plain [of 4095] by (simp add: byte_def)
  from from_utf8_append [OF this, of "map char_of [230 :: nat, 138, 165]"]
  have "from_utf8 (map byte (replicate 4095 CHR ''a'' @ map char_of [230 :: nat, 138, 165])) = Utf8Valid"
    by (simp add: byte_def sequence_ok_def sequence_length.simps second_ok_def continuation_def)
  from claude_report_returns [OF this, of "''s''" 0 7] show ?thesis by auto
qed

end
