(* ===== verification/ClaudeWindow.thy ===== *)
theory ClaudeWindow
  imports ClaudeHistory
begin

text \<open>
  The bounded transcript of a child: trimming after every block is the same as parsing everything and keeping the
  longest end that fits; and bringing a stored snapshot into shape twice is the same as once.
\<close>

section \<open>Trimming\<close>

lemma fits_append: "fits (v @ w) \<Longrightarrow> fits v" "fits (v @ w) \<Longrightarrow> fits w"
  by (simp_all add: fits_def)

lemma fits_Nil [simp]: "fits []"
  by (simp add: fits_def)

lemma trim_window_Least: "trim_window w = (drop (LEAST k. fits (drop k w)) w, \<not> fits w)"
proof (induction w)
  case (Cons x w)
  show ?case
  proof (cases "fits (x # w)")
    case True
    then have "(LEAST k. fits (drop k (x # w))) = 0" by (intro Least_equality) simp_all
    then show ?thesis using True by simp
  next
    case False
    have "fits (drop (Suc (length w)) (x # w))" by simp
    then have "(LEAST k. fits (drop k (x # w))) = Suc (LEAST k. fits (drop (Suc k) (x # w)))"
      by (rule Least_Suc) (simp add: False)
    then show ?thesis using False Cons.IH by simp
  qed
qed (simp add: Least_equality)

lemma trim_fits [simp]: "fits w \<Longrightarrow> trim_window w = (w, False)"
  by (cases w) simp_all

lemma trim_window_fits: "fits (fst (trim_window w))"
  by (induction w) simp_all

lemma trim_append:
  "trim_window (w @ a) =
     (fst (trim_window (fst (trim_window w) @ a)), snd (trim_window w) \<or> snd (trim_window (fst (trim_window w) @ a)))"
proof (induction w)
  case (Cons x w)
  then show ?case using fits_append(1) [of "x # w" a] by auto
qed simp

section \<open>One window for the whole transcript\<close>

abbreviation untrimmed :: "window \<Rightarrow> window \<times> bool" where
  "untrimmed w \<equiv> (w, False)"

definition shrink :: "handbacks \<times> window \<times> bool \<Rightarrow> handbacks \<times> window \<times> bool" where
  "shrink st = (case st of (hs, w, clipped) \<Rightarrow> (hs, fst (trim_window w), clipped \<or> snd (trim_window w)))"

lemma shrink_simps: "shrink (hs, w, clipped) = (hs, fst (trim_window w), clipped \<or> snd (trim_window w))"
  by (simp add: shrink_def)

lemma blocks_shrink:
  "transcript_blocks step trim_window index (shrink st) bs =
     and_then (transcript_blocks step untrimmed index st bs) (\<lambda>st. Inr (shrink st))"
proof (induction bs arbitrary: index st)
  case (Cons b bs)
  obtain hs w clipped where st: "st = (hs, w, clipped)" by (cases st) auto
  show ?case
  proof (cases "step index b hs")
    case (Inr r)
    obtain hs' added partial where r: "r = (hs', added, partial)" by (cases r) auto
    let ?st = "(hs', w @ added, clipped \<or> partial)"
    have "(case (if added = [] then (fst (trim_window w), False) else trim_window (fst (trim_window w) @ added)) of
        (v, dropped) \<Rightarrow> transcript_blocks step trim_window (Suc index) (hs', v, (clipped \<or> snd (trim_window w)) \<or> partial \<or> dropped) bs) =
      transcript_blocks step trim_window (Suc index) (shrink ?st) bs"
      by (cases "added = []") (simp_all add: shrink_simps trim_append [of w added] split_beta disj_ac)
    moreover have "(case (if added = [] then (w, False) else (w @ added, False)) of
        (v, dropped) \<Rightarrow> transcript_blocks step untrimmed (Suc index) (hs', v, clipped \<or> partial \<or> dropped) bs) =
      transcript_blocks step untrimmed (Suc index) ?st bs"
      by (cases "added = []") simp_all
    ultimately show ?thesis using Cons.IH [of "Suc index" ?st] by (simp add: st shrink_simps [of hs w clipped] Inr r)
  qed (simp add: st shrink_simps)
qed (cases st, simp)

lemma record_shrink:
  "transcript_record dec step trim_window parent child base line (shrink st) =
     and_then (transcript_record dec step untrimmed parent child base line st) (\<lambda>st. Inr (shrink st))"
proof -
  obtain hs w clipped where st: "st = (hs, w, clipped)" by (cases st) auto
  show ?thesis
  proof (cases "dec line")
    case None
    then show ?thesis by (auto simp: transcript_record_def st shrink_simps)
  next
    case (Some v)
    have "(clipped \<or> snd (trim_window w)) \<or> wide \<longleftrightarrow> (clipped \<or> wide) \<or> snd (trim_window w)" for wide by blast
    then show ?thesis using blocks_shrink [where st = "(hs, w, clipped \<or> wide)" for wide, unfolded shrink_simps]
      by (cases "record_blocks parent child v") (simp_all add: transcript_record_def Some st shrink_simps [of hs w clipped])
  qed
qed

lemma lines_shrink:
  "transcript_lines (transcript_record dec step trim_window parent child) base (shrink st) ls =
     and_then (transcript_lines (transcript_record dec step untrimmed parent child) base st ls) (\<lambda>st. Inr (shrink st))"
proof (induction ls arbitrary: base st)
  case (Cons l ls)
  then show ?case
    by (cases "transcript_record dec step untrimmed parent child base l st") (simp_all add: record_shrink)
qed simp

text \<open>C24: trimming the transcript of a child after every block, as the code does with a queue, gives exactly the window
  one would cut from the transcript parsed as a whole: the longest end of at most 500 events and 256 KiB. The flag
  says that something is missing exactly if it was cut before, a block was clipped, or the whole does not fit.\<close>

theorem claude_transcript_window:
  "parse_child_transcript dec parse jenc hide enc now raw parent child sid =
     and_then (transcript_with untrimmed dec parse jenc hide enc now raw parent child sid)
       (\<lambda>(w, clipped). Inr (map fst (drop (LEAST k. fits (drop k w)) w), if fits w then clipped else True))"
proof -
  have start: "([], [], cb_truncated raw) = shrink ([], [], cb_truncated raw)" by (simp add: shrink_simps)
  have whole: "and_then (and_then (and_then r (\<lambda>st. Inr (shrink st))) (\<lambda>(hs, w, clipped). Inr (w, clipped))) (\<lambda>(w, clipped). Inr (map fst w, clipped)) =
      and_then (and_then r (\<lambda>(hs, w, clipped). Inr (w, clipped)))
        (\<lambda>(w, clipped). Inr (map fst (drop (LEAST k. fits (drop k w)) w), if fits w then clipped else True))"
    for r :: "history_error + handbacks \<times> window \<times> bool"
    by (cases r) (auto simp: shrink_def trim_window_Least)
  show ?thesis unfolding parse_child_transcript_def transcript_with_def
    by (subst start, subst lines_shrink) (rule whole)
qed

section \<open>Stored snapshots\<close>

abbreviation weigh :: "(event \<Rightarrow> bytes) \<Rightarrow> event \<Rightarrow> event \<times> nat" where
  "weigh enc e \<equiv> (e, length (enc e))"

definition is_text :: "event \<Rightarrow> bool" where
  "is_text e \<longleftrightarrow> (\<exists>t. ev_event e = Text t)"

lemma same_textD: "same_text a b \<Longrightarrow> is_text a \<and> is_text b"
  by (auto simp: same_text_def is_text_def split: event_kind.splits)

lemma same_text_refl: "is_text a \<Longrightarrow> same_text a a"
  by (auto simp: same_text_def is_text_def)

lemma reports_are_texts: "report_events (child_event sid now) t num = Inr (reports, partial) \<Longrightarrow> list_all is_text reports"
  by (auto simp: report_events_def and_then_eq_Inr list_all_iff is_text_def child_event_def split: prod.splits)

text \<open>Texts pass; a part of the pending handbacks releases the same reports or none.\<close>

lemma text_step: "is_text e \<Longrightarrow> snapshot_step parse (ev_event e) hs = (hs, None)"
  by (auto simp: is_text_def snapshot_step_def)

lemma promoted_texts:
  "list_all is_text es \<Longrightarrow> promoted parse hs (es @ fs) = and_then (promoted parse hs fs) (\<lambda>rest. Inr (map (\<lambda>e. ([e], False)) es @ rest))"
proof (induction es)
  case Nil
  show ?case by (cases "promoted parse hs fs") simp_all
next
  case (Cons e es)
  then show ?case by (cases "promoted parse hs fs") (simp_all add: text_step)
qed

definition part_of :: "handbacks \<Rightarrow> handbacks \<Rightarrow> bool" where
  "part_of hs' hs \<longleftrightarrow> map_of hs' \<subseteq>\<^sub>m map_of hs"

lemma part_step:
  assumes "part_of hs' hs"
  shows "part_of (fst (snapshot_step parse e hs')) (fst (snapshot_step parse e hs)) \<and>
    snd (snapshot_step parse e hs') \<in> {None, snd (snapshot_step parse e hs)}"
proof -
  have "map_of hs' i = None \<or> map_of hs' i = map_of hs i" for i
    using assms by (cases "map_of hs' i") (auto simp: part_of_def map_le_def dom_def)
  with assms show ?thesis
    by (cases e) (auto simp: snapshot_step_def part_of_def map_le_def update_conv' delete_conv' split: option.splits)
qed

definition flat :: "(event list \<times> bool) list \<Rightarrow> event list" where
  "flat groups = concat (map fst groups)"

lemma flat_simps [simp]: "flat [] = []" "flat ((es, b) # groups) = es @ flat groups" "flat (gs @ hs) = flat gs @ flat hs"
  by (simp_all add: flat_def)

lemma flat_alone [simp]: "flat (map (\<lambda>e. ([e], False)) es) = es"
  by (induction es) simp_all

text \<open>The groups promote nothing, and report no cut that the groups of the first pass did not report.\<close>

definition settled :: "history_error + (event list \<times> bool) list \<Rightarrow> event list \<Rightarrow> (event list \<times> bool) list \<Rightarrow> bool" where
  "settled r es groups \<longleftrightarrow> (\<exists>gs. r = Inr gs \<and> flat gs = es \<and> ((\<exists>g \<in> set gs. snd g) \<longrightarrow> (\<exists>g \<in> set groups. snd g)))"

lemma settled_texts: "list_all is_text es \<Longrightarrow> settled (promoted parse hs fs) fs groups \<Longrightarrow> settled (promoted parse hs (es @ fs)) (es @ fs) groups"
  by (auto simp: settled_def promoted_texts)

lemma texts_kept:
  assumes "promoted parse hs es = Inr groups" and "n \<le> length es" and "list_all is_text (take n es)"
  shows "take n (flat groups) = take n es"
  using assms
proof (induction es arbitrary: hs groups n)
  case (Cons e es)
  show ?case
  proof (cases n)
    case (Suc m)
    then have "snapshot_step parse (ev_event e) hs = (hs, None)" using Cons.prems by (simp add: text_step)
    then obtain rest where "promoted parse hs es = Inr rest" "groups = ([e], False) # rest" using Cons.prems(1) by (auto simp: and_then_eq_Inr)
    then show ?thesis using Cons.IH [of hs rest m] Cons.prems Suc by simp
  qed simp
qed simp

text \<open>A group of the first pass, and what follows it.\<close>

lemma promoted_ConsE:
  assumes "promoted parse hs (e # es) = Inr groups"
  obtains h report added partial rest where "snapshot_step parse (ev_event e) hs = (h, report)"
    and "groups = (e # added, partial) # rest" and "promoted parse h es = Inr rest" and "list_all is_text added"
    and "case report of None \<Rightarrow> added = [] \<and> \<not> partial
         | Some t \<Rightarrow> \<exists>reports. report_events (child_event (ev_session_id e) (ev_at e)) t (ev_seq e) = Inr (reports, partial) \<and>
             added = (if already_present es reports then [] else reports)"
proof -
  obtain h report where step: "snapshot_step parse (ev_event e) hs = (h, report)" by (cases "snapshot_step parse (ev_event e) hs")
  show thesis
  proof (cases report)
    case None
    then show thesis using assms step that [of h None "[]" False] by (auto simp: and_then_eq_Inr)
  next
    case (Some t)
    then obtain reports partial rest where r: "report_events (child_event (ev_session_id e) (ev_at e)) t (ev_seq e) = Inr (reports, partial)"
      and rest: "promoted parse h es = Inr rest"
      and g: "groups = (e # (if already_present es reports then [] else reports), partial) # rest"
      using assms step by (auto simp: and_then_eq_Inr)
    show thesis by (rule that [OF step g rest]) (use r Some reports_are_texts [OF r] in auto)
  qed
qed

lemma promoted_again:
  assumes "promoted parse hs es = Inr groups" and "part_of hs' hs"
  shows "settled (promoted parse hs' (flat groups)) (flat groups) groups"
  using assms
proof (induction es arbitrary: hs hs' groups)
  case (Cons e es)
  obtain h report added partial rest where step: "snapshot_step parse (ev_event e) hs = (h, report)"
    and groups: "groups = (e # added, partial) # rest" and rest: "promoted parse h es = Inr rest" and texts: "list_all is_text added"
    and what: "case report of None \<Rightarrow> added = [] \<and> \<not> partial
         | Some t \<Rightarrow> \<exists>reports. report_events (child_event (ev_session_id e) (ev_at e)) t (ev_seq e) = Inr (reports, partial) \<and>
             added = (if already_present es reports then [] else reports)"
    by (rule promoted_ConsE [OF Cons.prems(1)])
  obtain h' report' where step': "snapshot_step parse (ev_event e) hs' = (h', report')" by (cases "snapshot_step parse (ev_event e) hs'")
  have part: "part_of h' h" and again: "report' \<in> {None, report}"
    using part_step [OF Cons.prems(2), of parse "ev_event e"] by (simp_all add: step step')
  have "settled (promoted parse h' (added @ flat rest)) (added @ flat rest) rest"
    by (rule settled_texts [OF texts Cons.IH [OF rest part]])
  then obtain gs where gs: "promoted parse h' (added @ flat rest) = Inr gs" "flat gs = added @ flat rest"
    and cut_off: "(\<exists>g \<in> set gs. snd g) \<longrightarrow> (\<exists>g \<in> set rest. snd g)" by (auto simp: settled_def)
  show ?case
  proof (cases report')
    case None
    then have "promoted parse hs' (flat groups) = Inr (([e], False) # gs)" by (simp add: groups step' gs)
    then show ?thesis using gs cut_off by (auto simp: settled_def groups)
  next
    case (Some t)
    then obtain reports where r: "report_events (child_event (ev_session_id e) (ev_at e)) t (ev_seq e) = Inr (reports, partial)"
      and added: "added = (if already_present es reports then [] else reports)" using again what by auto
    have "already_present (added @ flat rest) reports"
    proof (cases "already_present es reports")
      case True
      then have n: "length reports \<le> length es" and all: "list_all2 same_text (take (length reports) es) reports"
        by (simp_all add: already_present_def)
      then have "list_all is_text (take (length reports) es)" by (auto simp: list_all2_conv_all_nth list_all_length dest: same_textD)
      from texts_kept [OF rest n this] all have "list_all2 same_text (take (length reports) (flat rest)) reports" by simp
      moreover from this have "length reports \<le> length (flat rest)" by (auto dest: list_all2_lengthD)
      ultimately show ?thesis using True added by (simp add: already_present_def)
    next
      case False
      then have "added = reports" using added by simp
      moreover have "list_all2 same_text reports reports"
        using texts \<open>added = reports\<close> by (auto simp: list_all2_same list_all_iff same_text_refl)
      ultimately show ?thesis by (simp add: already_present_def)
    qed
    then have "promoted parse hs' (flat groups) = Inr (([e], partial) # gs)" using Some r by (simp add: groups step' gs)
    then show ?thesis using gs cut_off by (auto simp: settled_def groups)
  qed
qed (simp add: settled_def)

lemma promoted_suffix:
  assumes "promoted parse hs es = Inr groups"
  shows "settled (promoted parse [] (drop k (flat groups))) (drop k (flat groups)) groups"
  using assms
proof (induction es arbitrary: hs groups k)
  case (Cons e es)
  show ?case
  proof (cases k)
    case 0
    have "part_of [] hs" by (simp add: part_of_def)
    from promoted_again [OF Cons.prems this] show ?thesis by (simp add: 0)
  next
    case (Suc j)
    obtain h added partial rest where groups: "groups = (e # added, partial) # rest"
      and rest: "promoted parse h es = Inr rest" and texts: "list_all is_text added"
      by (rule promoted_ConsE [OF Cons.prems])
    have "list_all is_text (drop j added)" using texts by (auto simp: list_all_iff dest: in_set_dropD)
    from settled_texts [OF this Cons.IH [OF rest, of "j - length added"]] show ?thesis
      by (auto simp: groups Suc settled_def)
  qed
qed (simp add: settled_def)

lemma trimmed_suffix:
  assumes "trimmed_groups enc (w, clipped) groups = (v, clipped')" and "fits w"
  shows "fits v \<and> (\<exists>k. v = drop k (w @ map (weigh enc) (flat groups))) \<and> (clipped \<or> (\<exists>g \<in> set groups. snd g) \<longrightarrow> clipped')"
  using assms
proof (induction groups arbitrary: w clipped)
  case Nil
  then show ?case by (auto intro: exI [of _ 0])
next
  case (Cons g groups)
  obtain es partial where g: "g = (es, partial)" by (cases g)
  let ?a = "w @ map (weigh enc) es"
  obtain u dropped where u: "trim_window ?a = (u, dropped)" by (cases "trim_window ?a")
  have "fits u" using trim_window_fits [of ?a] by (simp add: u)
  moreover have "trimmed_groups enc (u, clipped \<or> partial \<or> dropped) groups = (v, clipped')" using Cons.prems(1) by (simp add: g u)
  ultimately have IH: "fits v" "\<exists>k. v = drop k (u @ map (weigh enc) (flat groups))"
    "clipped \<or> partial \<or> dropped \<or> (\<exists>g \<in> set groups. snd g) \<longrightarrow> clipped'"
    using Cons.IH [of u "clipped \<or> partial \<or> dropped"] by auto
  obtain j where j: "u = drop j ?a" using u unfolding trim_window_Least by blast
  have "u @ map (weigh enc) (flat groups) = drop (min j (length ?a)) (?a @ map (weigh enc) (flat groups))"
    unfolding j by (cases "j \<le> length ?a") simp_all
  with IH(2) obtain k where "v = drop k (drop (min j (length ?a)) (?a @ map (weigh enc) (flat groups)))" by metis
  then have "v = drop (k + min j (length ?a)) (w @ map (weigh enc) (flat (g # groups)))"
    by (simp only: drop_drop g flat_simps map_append append_assoc)
  then have "\<exists>k. v = drop k (w @ map (weigh enc) (flat (g # groups)))" by blast
  moreover have "clipped \<or> (\<exists>g \<in> set (g # groups). snd g) \<longrightarrow> clipped'" using IH(3) by (auto simp: g)
  ultimately show ?case using IH(1) by blast
qed

lemma trimmed_all:
  assumes "fits (w @ map (weigh enc) (flat groups))"
  shows "trimmed_groups enc (w, clipped) groups = (w @ map (weigh enc) (flat groups), clipped \<or> (\<exists>g \<in> set groups. snd g))"
  using assms
proof (induction groups arbitrary: w clipped)
  case (Cons g groups)
  obtain es partial where g: "g = (es, partial)" by (cases g)
  have "fits (w @ map (weigh enc) es)" using Cons.prems fits_append(1) [of "w @ map (weigh enc) es" "map (weigh enc) (flat groups)"] by (simp add: g)
  then show ?case using Cons.IH [of "w @ map (weigh enc) es" "clipped \<or> partial"] Cons.prems by (simp add: g disj_ac)
qed simp

text \<open>C40: bringing the stored snapshot of a child into shape promotes every confirmed report once: the result fits in
  the window, and doing it again, as happens whenever the snapshot is read, changes neither an event nor the flag.\<close>

theorem claude_snapshot_idempotent:
  assumes "normalize_child_transcript parse enc snapshot = Inr (es, clipped)"
  shows "normalize_child_transcript parse enc (es, clipped) = Inr (es, clipped) \<and>
    length es \<le> 500 \<and> (\<Sum>e \<leftarrow> es. length (enc e)) \<le> 256 * 1024"
proof -
  obtain source truncated where s: "snapshot = (source, truncated)" by (cases snapshot)
  obtain groups w where groups: "promoted parse [] source = Inr groups"
    and w: "trimmed_groups enc ([], truncated) groups = (w, clipped)" and es: "es = map fst w"
  proof -
    from assms obtain groups where "promoted parse [] source = Inr groups"
      and "(case trimmed_groups enc ([], truncated) groups of (w, clipped) \<Rightarrow> Inr (map fst w, clipped)) = (Inr (es, clipped) :: history_error + event list \<times> bool)"
      by (auto simp: normalize_child_transcript_def s and_then_eq_Inr)
    then show thesis using that by (cases "trimmed_groups enc ([], truncated) groups") auto
  qed
  have "fits w" and clipped: "(\<exists>g \<in> set groups. snd g) \<longrightarrow> clipped"
    and "\<exists>k. w = drop k (map (weigh enc) (flat groups))" using trimmed_suffix [OF w] by auto
  then obtain k where k: "w = map (weigh enc) (drop k (flat groups))" by (auto simp: drop_map)
  then have flat: "es = drop k (flat groups)" by (simp add: es comp_def)
  obtain gs where gs: "promoted parse [] es = Inr gs" "flat gs = es" "(\<exists>g \<in> set gs. snd g) \<longrightarrow> (\<exists>g \<in> set groups. snd g)"
    using promoted_suffix [OF groups, of k] by (auto simp: settled_def flat)
  have whole: "w = map (weigh enc) es" using k flat by simp
  have "trimmed_groups enc ([], clipped) gs = (w, clipped)"
    using trimmed_all [of "[]" enc gs clipped] \<open>fits w\<close> clipped gs by (auto simp: whole)
  then have "normalize_child_transcript parse enc (es, clipped) = Inr (es, clipped)"
    using gs(1) es by (simp add: normalize_child_transcript_def)
  moreover have "length es \<le> 500 \<and> (\<Sum>e \<leftarrow> es. length (enc e)) \<le> 256 * 1024"
    using \<open>fits w\<close> by (simp add: fits_def whole WINDOW_EVENTS_def WINDOW_BYTES_def comp_def)
  ultimately show ?thesis by blast
qed

text \<open>A snapshot from before reports were promoted.\<close>

definition sample_snapshot :: "event list" where
  "sample_snapshot =
     [child_event ''s'' 0 1 (Tool ''t'' ''SubagentHandback'' (JObject [(''message'', JString ''r'')])),
      child_event ''s'' 0 2 (ToolResult ''t'' (JString ''k'') False)]"

lemma sample_normalized:
  "normalize_child_transcript (\<lambda>_. Some (JObject [(''success'', JBool True)])) (\<lambda>_. []) (sample_snapshot, False) =
     Inr (sample_snapshot @ [child_event ''s'' 0 (129 / 64) (Text ''r'')], False)"
proof -
  have "split_report ''r'' = Some [''r'']" by (subst split_report.simps) (simp add: Let_def split_report.simps [of "[]"])
  then show ?thesis
    by (simp add: normalize_child_transcript_def sample_snapshot_def snapshot_step_def report_events_def report_text_def
        handback_delivered_def report_success_def already_present_def child_event_def fits_def WINDOW_EVENTS_def WINDOW_BYTES_def)
qed

theorem claude_snapshot_idempotent_witness:
  "normalize_child_transcript (\<lambda>_. Some (JObject [(''success'', JBool True)])) (\<lambda>_. [])
     (sample_snapshot @ [child_event ''s'' 0 (129 / 64) (Text ''r'')], False) =
     Inr (sample_snapshot @ [child_event ''s'' 0 (129 / 64) (Text ''r'')], False)"
  using claude_snapshot_idempotent [OF sample_normalized] by blast

end
