(* ===== verification/Worktree.thy ===== *)
theory Worktree
  imports Turns Paths Effects
begin

unbundle bit_operations_syntax

text \<open>
  The directory of a project and the store of immutable objects, as \<open>task_changes.rs\<close> and
  \<open>snapshot_storage.rs\<close> use them, and the capture of a snapshot. A directory is a map from lists of names to
  nodes at one moment; what lies behind a symbolic link in the middle of a path is not part of it and is given
  by \<open>wt_behind\<close> (metadata) and \<open>wt_inside\<close> (whether the canonical path stays in the project). The object
  directory maps a root and a key to contents; \<open>os_puts\<close> is the history of what was saved, which no operation
  reads. SHA-256 is \<open>digest\<close>, serde is \<open>senc\<close> and \<open>sdec\<close>; the paths of an inventory come from git or
  from the directory walk and are an argument.
\<close>

section \<open>Directories\<close>

datatype (plugins only: code size) node = FileNode bytes u32 | DirNode | LinkNode | SpecialNode

datatype (plugins only: code size) io_error = NotFound | OtherIo

datatype (plugins only: code size) task_error =
    Io io_error | PathNotInProject | ProjectInState | SnapshotUnreadable | ObjectKeyInvalid | ObjectRootMissing
  | ObjectMissing | ObjectChanged | ObjectCorrupt | DirectoryChanged | CompareFailed | PageFailed summary_error
  | UndoUnsafe | ModeMissing | GitInternals | PathIsLink | ParentChanged | ChangedSince

record worktree =
  wt_node :: "string list \<Rightarrow> node option"
  wt_identity :: "(nat \<times> nat) option"
  wt_root_link :: bool
  wt_behind :: "string \<Rightarrow> io_error + node"
  wt_inside :: "string \<Rightarrow> bool"

text \<open>A path below the root as a list of names, if it is one.\<close>

fun normal_name :: "component \<Rightarrow> string option" where
  "normal_name (Normal s) = Some s"
| "normal_name _ = None"

definition names :: "string \<Rightarrow> string list option" where
  "names p = those (map normal_name (components p))"

definition parents :: "string list \<Rightarrow> string list list" where
  "parents ns = map (\<lambda>k. take k ns) [1 ..< length ns]"

text \<open>\<open>symlink_metadata\<close>: missing and blocking parents, and links on the way.\<close>

definition lstat :: "worktree \<Rightarrow> string \<Rightarrow> io_error + node" where
  "lstat w p =
     (case names p of
        None \<Rightarrow> wt_behind w p
      | Some ns \<Rightarrow>
          (case List.find (\<lambda>q. wt_node w q \<noteq> Some DirNode) (parents ns) of
             None \<Rightarrow> of_option NotFound (wt_node w ns)
           | Some q \<Rightarrow>
               (case wt_node w q of
                  None \<Rightarrow> Inl NotFound
                | Some LinkNode \<Rightarrow> wt_behind w p
                | Some _ \<Rightarrow> Inl OtherIo)))"

definition through_link :: "worktree \<Rightarrow> string \<Rightarrow> bool" where
  "through_link w p \<longleftrightarrow>
     (case names p of
        None \<Rightarrow> True
      | Some ns \<Rightarrow> map_option (wt_node w) (List.find (\<lambda>q. wt_node w q \<noteq> Some DirNode) (parents ns)) = Some (Some LinkNode))"

definition validate_path :: "string \<Rightarrow> task_error + unit" where
  "validate_path p =
     ensure (p \<noteq> [] \<and> \<not> path_is_absolute p \<and> list_all component_normal (components p)) PathNotInProject"

text \<open>\<open>files::resolve\<close> for an entry that is no link itself.\<close>

definition resolve_entry :: "worktree \<Rightarrow> string \<Rightarrow> io_error + node" where
  "resolve_entry w p =
     (if path_is_absolute p \<or> \<not> list_all (\<lambda>c. component_normal c \<or> c = CurDir) (components p) then Inl OtherIo
      else and_then (lstat w p) (\<lambda>n. if through_link w p \<and> \<not> wt_inside w p then Inl OtherIo else Inr n))"

definition if_present :: "io_error + 'a \<Rightarrow> task_error + 'a option" where
  "if_present r = (case r of Inr x \<Rightarrow> Inr (Some x) | Inl NotFound \<Rightarrow> Inr None | Inl e \<Rightarrow> Inl (Io e))"

section \<open>Objects\<close>

record object_store =
  os_files :: "string \<Rightarrow> string \<Rightarrow> bytes option"
  os_puts :: "(string \<times> bytes) list"

definition hex_digit :: "char \<Rightarrow> bool" where
  "hex_digit c \<longleftrightarrow> c \<in> set ''0123456789abcdefABCDEF''"

definition object_key_ok :: "string \<Rightarrow> bool" where
  "object_key_ok k \<longleftrightarrow> length k = 64 \<and> list_all hex_digit k"

text \<open>\<open>Object::path\<close>: the file of the object, of the recorded size.\<close>

definition object_file :: "object_store \<Rightarrow> snap_object \<Rightarrow> task_error + bytes" where
  "object_file os ob =
     and_then (ensure (object_key_ok (ob_key ob)) ObjectKeyInvalid) (\<lambda>_.
     and_then (ensure (ob_root ob \<noteq> []) ObjectRootMissing) (\<lambda>_.
     and_then (of_option ObjectMissing (os_files os (ob_root ob) (ob_key ob))) (\<lambda>b.
     and_then (ensure (length b = ob_size ob) ObjectChanged) (\<lambda>_. Inr b))))"

text \<open>\<open>CheckedReader\<close>: what was read must have the digest that names it.\<close>

definition read_object :: "(bytes \<Rightarrow> string) \<Rightarrow> object_store \<Rightarrow> snap_object \<Rightarrow> task_error + bytes" where
  "read_object digest os ob =
     and_then (object_file os ob) (\<lambda>b. and_then (ensure (digest b = ob_key ob) ObjectCorrupt) (\<lambda>_. Inr b))"

text \<open>\<open>publish\<close>: an object that is already there is kept.\<close>

definition save_object :: "(bytes \<Rightarrow> string) \<Rightarrow> string \<Rightarrow> bytes \<Rightarrow> object_store \<Rightarrow> task_error + snap_object \<times> object_store" where
  "save_object digest rt b os =
     (let k = digest b; ob = \<lparr>ob_key = k, ob_size = length b, ob_root = rt\<rparr>;
          os' = os\<lparr>os_files := (if os_files os rt k = None then (os_files os)(rt := (os_files os rt)(k \<mapsto> b)) else os_files os),
                   os_puts := os_puts os @ [(rt, b)]\<rparr>
      in and_then (object_file os' ob) (\<lambda>_. Inr (ob, os')))"

definition contents_bytes :: "(bytes \<Rightarrow> string) \<Rightarrow> object_store \<Rightarrow> contents \<Rightarrow> task_error + bytes" where
  "contents_bytes digest os c = (case c of Legacy b \<Rightarrow> Inr b | Object ob \<Rightarrow> read_object digest os ob)"

definition contents_match :: "(bytes \<Rightarrow> string) \<Rightarrow> contents \<Rightarrow> bytes \<Rightarrow> bool" where
  "contents_match digest c b \<longleftrightarrow> length b = contents_len c \<and> digest b = contents_digest digest c"

section \<open>Snapshots\<close>

fun btree_insert :: "string \<Rightarrow> 'v \<Rightarrow> (string \<times> 'v) list \<Rightarrow> (string \<times> 'v) list" where
  "btree_insert k v [] = [(k, v)]"
| "btree_insert k v ((l, u) # m) =
     (if k = l then (k, v) # m else if k < l then (k, v) # (l, u) # m else (l, u) # btree_insert k v m)"

definition recorded :: "snapshot \<Rightarrow> string \<Rightarrow> contents option" where
  "recorded s p = (case map_of (sn_files s) p of Some c \<Rightarrow> c | None \<Rightarrow> None)"

text \<open>One path of the inventory: what it adds to the snapshot.\<close>

definition capture_contents :: "(bytes \<Rightarrow> string) \<Rightarrow> string option \<Rightarrow> bytes \<Rightarrow> object_store \<Rightarrow> task_error + contents \<times> object_store" where
  "capture_contents digest storage b os =
     (case storage of
        None \<Rightarrow> Inr (Legacy b, os)
      | Some st \<Rightarrow> and_then (save_object digest st b os) (\<lambda>(ob, os). Inr (Object ob, os)))"

definition path_missing :: "string \<Rightarrow> snapshot \<Rightarrow> snapshot" where
  "path_missing p s = s\<lparr>sn_files := btree_insert p None (sn_files s)\<rparr>"

definition path_saved :: "string \<Rightarrow> u32 \<Rightarrow> contents \<Rightarrow> snapshot \<Rightarrow> snapshot" where
  "path_saved p mode c s =
     s\<lparr>sn_modes := btree_insert p mode (sn_modes s), sn_files := btree_insert p (Some c) (sn_files s)\<rparr>"

definition capture_found :: "(bytes \<Rightarrow> string) \<Rightarrow> (string \<Rightarrow> bool) \<Rightarrow> string \<Rightarrow> node \<Rightarrow> snapshot \<Rightarrow> object_store \<Rightarrow> task_error + snapshot \<times> object_store" where
  "capture_found digest opens p nd s os =
     (case nd of
        FileNode b mode \<Rightarrow>
          if \<not> opens p then Inl (Io OtherIo)
          else and_then (capture_contents digest (sn_storage s) b os) (\<lambda>(c, os). Inr (path_saved p mode c s, os))
      | _ \<Rightarrow> Inr (s\<lparr>sn_truncated := True\<rparr>, os))"

definition capture_path :: "(bytes \<Rightarrow> string) \<Rightarrow> worktree \<Rightarrow> (string \<Rightarrow> bool) \<Rightarrow> string \<Rightarrow> snapshot \<times> object_store \<Rightarrow> task_error + snapshot \<times> object_store" where
  "capture_path digest w opens p st =
     (case st of
        (s, os) \<Rightarrow>
          if map_of (sn_files s) p \<noteq> None then Inr (s, os)
          else (case lstat w p of
                  Inl NotFound \<Rightarrow> Inr (path_missing p s, os)
                | Inl e \<Rightarrow> Inl (Io e)
                | Inr LinkNode \<Rightarrow> Inr (s\<lparr>sn_truncated := True\<rparr>, os)
                | Inr _ \<Rightarrow>
                    and_then (if_present (resolve_entry w p)) (\<lambda>found.
                      case found of
                        None \<Rightarrow> Inr (path_missing p s, os)
                      | Some nd \<Rightarrow> capture_found digest opens p nd s os)))"

text \<open>A snapshot moves into one object; older servers find a snapshot that is marked unavailable.\<close>

definition separate_storage :: string where
  "separate_storage = map char_of
    [229 :: nat, 191, 171, 231, 133, 167, 228, 189, 191, 231, 148, 168, 231, 139, 172, 231, 171,
     139, 229, 173, 152, 229, 130, 168, 239, 188, 140, 232, 175, 183, 228, 189, 191, 231, 148, 168, 230, 150, 176, 231, 137, 136, 32,
     83, 101, 114, 118, 101, 114, 32, 232, 175, 187, 229, 143, 150, 227, 128, 130]"

definition persist :: "(bytes \<Rightarrow> string) \<Rightarrow> (snapshot \<Rightarrow> bytes) \<Rightarrow> snapshot \<Rightarrow> object_store \<Rightarrow> task_error + snapshot \<times> object_store" where
  "persist digest senc s os =
     (case (sn_manifest s, sn_storage s) of
        (None, Some st) \<Rightarrow>
          and_then (save_object digest st (senc s) os) (\<lambda>(ob, os).
            Inr (s\<lparr>sn_files := [], sn_modes := [], sn_manifest := Some ob, sn_unavailable := Some separate_storage,
                   sn_root_identity := None\<rparr>, os))
      | _ \<Rightarrow> Inr (s, os))"

definition materialized :: "(bytes \<Rightarrow> string) \<Rightarrow> (bytes \<Rightarrow> snapshot option) \<Rightarrow> object_store \<Rightarrow> snapshot \<Rightarrow> task_error + snapshot" where
  "materialized digest sdec os s =
     (case sn_manifest s of
        None \<Rightarrow> Inr s
      | Some ob \<Rightarrow>
          and_then (read_object digest os ob) (\<lambda>b.
          and_then (of_option SnapshotUnreadable (sdec b)) (\<lambda>r.
            Inr ((case sn_storage s of Some st \<Rightarrow> snapshot_attach st r | None \<Rightarrow> r)\<lparr>sn_manifest := None\<rparr>))))"

text \<open>\<open>capture_with\<close> on a directory that does not change meanwhile.\<close>

definition capture :: "(bytes \<Rightarrow> string) \<Rightarrow> (snapshot \<Rightarrow> bytes) \<Rightarrow> rat \<Rightarrow> string option \<Rightarrow> bool \<Rightarrow> (string \<Rightarrow> bool) \<Rightarrow> string list \<times> bool \<Rightarrow>
    worktree \<Rightarrow> object_store \<Rightarrow> task_error + snapshot \<times> object_store" where
  "capture digest senc now storage in_state opens inventory w os =
     and_then (ensure (\<not> in_state) ProjectInState) (\<lambda>_.
     and_then (ensure (wt_identity w \<noteq> None) (Io NotFound)) (\<lambda>_.
     and_then
       (for_each (\<lambda>st p. capture_path digest w opens p st)
          (\<lparr>sn_at = now, sn_root_identity = wt_identity w, sn_files = [], sn_manifest = None, sn_storage = storage,
            sn_modes = [], sn_truncated = snd inventory, sn_unavailable = None\<rparr>, os) (fst inventory)) (\<lambda>(s, os).
       persist digest senc s os)))"

text \<open>\<open>decode_git_paths\<close>: the paths git lists, relative to the project; \<open>excluded\<close> is the state directory.\<close>

definition decode_git_paths :: "string \<Rightarrow> string \<Rightarrow> string \<Rightarrow> string option \<Rightarrow> string list \<times> bool" where
  "decode_git_paths listing prefix dir excluded =
     (let raws = filter (\<lambda>r. r \<noteq> []) (split_on (CHR 0x00) listing);
          valid = (\<lambda>r. from_utf8 (map byte r) = Utf8Valid);
          joined = (\<lambda>p. if path_is_absolute p then p else dir @ ''/'' @ p)
      in (filter (\<lambda>p. \<not> (\<exists>e \<in> set_option excluded. path_starts_with (joined p) e))
            (List.map_filter (strip_prefix prefix) (filter valid raws)), list_ex (\<lambda>r. \<not> valid r) raws))"

end
