(* ===== verification/Undo.thy ===== *)
theory Undo
  imports Worktree
begin

text \<open>
  The comparison of two snapshots, the frozen turn, and undoing a turn (\<open>task_changes.rs\<close>). \<open>numstat\<close> is the
  output of \<open>git diff --no-index --numstat -z\<close> on two directories whose files are named by index, or nothing
  if git fails. Sums of lines are 32-bit and wrap, as in a release build.
\<close>

section \<open>Numbers and fields\<close>

definition decimal :: "string \<Rightarrow> nat option" where
  "decimal s =
     (let t = (case s of [] \<Rightarrow> [] | c # cs \<Rightarrow> if c = CHR ''+'' then cs else s)
      in if t \<noteq> [] \<and> list_all (\<lambda>c. 48 \<le> byte c \<and> byte c \<le> 57) t
         then Some (foldl (\<lambda>n c. 10 * n + (byte c - 48)) 0 t) else None)"

definition parse_u32 :: "string \<Rightarrow> u32 option" where
  "parse_u32 s = (case decimal s of Some n \<Rightarrow> if n < 2 ^ 32 then Some (of_nat n) else None | None \<Rightarrow> None)"

definition parse_usize :: "string \<Rightarrow> nat option" where
  "parse_usize s = (case decimal s of Some n \<Rightarrow> if n < 2 ^ 64 then Some n else None | None \<Rightarrow> None)"

text \<open>\<open>splitn(3, '\t')\<close>\<close>

definition three_fields :: "string \<Rightarrow> (string \<times> string \<times> string) option" where
  "three_fields s =
     (case split_once [CHR 0x09] s of
        Some (a, r) \<Rightarrow> (case split_once [CHR 0x09] r of Some (b, c) \<Rightarrow> Some (a, b, c) | None \<Rightarrow> None)
      | None \<Rightarrow> None)"

section \<open>Comparing\<close>

definition empty_summary :: "snapshot \<Rightarrow> change_summary" where
  "empty_summary s =
     \<lparr>cs_entries = [], cs_total_files = None, cs_next_offset = None, cs_offset = None, cs_added = 0, cs_removed = 0,
      cs_binary_files = 0, cs_truncated = sn_truncated s, cs_baseline_at = Some (sn_at s),
      cs_unavailable = sn_unavailable s\<rparr>"

text \<open>Missing from a partial snapshot is unknown, never a deletion.\<close>

definition unknown_change :: "snapshot \<Rightarrow> snapshot \<Rightarrow> string \<Rightarrow> bool" where
  "unknown_change before after p \<longleftrightarrow>
     recorded before p \<noteq> None \<and> map_of (sn_files after) p = None \<and> sn_truncated after \<or>
     recorded after p \<noteq> None \<and> map_of (sn_files before) p = None \<and> sn_truncated before"

definition same_contents :: "(bytes \<Rightarrow> string) \<Rightarrow> contents option \<Rightarrow> contents option \<Rightarrow> bool" where
  "same_contents digest a b = (case (a, b) of (None, None) \<Rightarrow> True | (Some x, Some y) \<Rightarrow> contents_eq digest x y | _ \<Rightarrow> False)"

definition change_status :: "contents option \<Rightarrow> contents option \<Rightarrow> string" where
  "change_status old new = (if old = None then ''A'' else if new = None then ''D'' else ''M'')"

definition side_bytes :: "(bytes \<Rightarrow> string) \<Rightarrow> object_store \<Rightarrow> contents option \<Rightarrow> task_error + bytes option" where
  "side_bytes digest os c =
     (case c of None \<Rightarrow> Inr None | Some c \<Rightarrow> and_then (contents_bytes digest os c) (\<lambda>b. Inr (Some b)))"

type_synonym changed = "task_change \<times> bytes option \<times> bytes option"

fun changed_paths :: "(bytes \<Rightarrow> string) \<Rightarrow> object_store \<Rightarrow> snapshot \<Rightarrow> snapshot \<Rightarrow> string list \<Rightarrow> task_error + changed list \<times> bool" where
  "changed_paths digest os before after [] = Inr ([], False)"
| "changed_paths digest os before after (p # ps) =
     (let old = recorded before p; new = recorded after p
      in if same_contents digest old new then changed_paths digest os before after ps
         else if unknown_change before after p
         then and_then (changed_paths digest os before after ps) (\<lambda>(es, _). Inr (es, True))
         else and_then (side_bytes digest os old) (\<lambda>x.
              and_then (side_bytes digest os new) (\<lambda>y.
              and_then (changed_paths digest os before after ps) (\<lambda>(es, partial).
                Inr ((\<lparr>tc_path = p, tc_status = change_status old new, tc_added = None, tc_removed = None\<rparr>, x, y) # es, partial)))))"

definition side_files :: "bytes option list \<Rightarrow> (nat \<times> bytes) list" where
  "side_files sides = List.map_filter (\<lambda>(k, b). map_option (Pair k) b) (enumerate 0 sides)"

definition stat_record :: "string \<Rightarrow> string \<Rightarrow> string \<Rightarrow> change_summary \<Rightarrow> change_summary" where
  "stat_record added removed path s =
     (case parse_usize (last (split_on (CHR ''/'') path)) of
        Some i \<Rightarrow>
          if i < length (cs_entries s)
          then
            (let e = (cs_entries s ! i)\<lparr>tc_added := parse_u32 added, tc_removed := parse_u32 removed\<rparr>;
                 s = s\<lparr>cs_entries := (cs_entries s)[i := e]\<rparr>
             in case (tc_added e, tc_removed e) of
                  (Some a, Some r) \<Rightarrow> s\<lparr>cs_added := cs_added s + a, cs_removed := cs_removed s + r\<rparr>
                | _ \<Rightarrow> s\<lparr>cs_binary_files := cs_binary_files s + 1\<rparr>)
          else s\<lparr>cs_truncated := True\<rparr>
      | None \<Rightarrow> s\<lparr>cs_truncated := True\<rparr>)"

fun stat_records :: "string list \<Rightarrow> change_summary \<Rightarrow> change_summary" where
  "stat_records [] s = s"
| "stat_records (line # rs) s =
     (if line = [] then s
      else case three_fields line of
             None \<Rightarrow> s\<lparr>cs_truncated := True\<rparr>
           | Some (added, removed, path) \<Rightarrow>
               if path \<noteq> [] then stat_records rs (stat_record added removed path s)
               else (case rs of
                       old # new # rest \<Rightarrow>
                         stat_records rest (stat_record added removed (if new = ''/dev/null'' then old else new) s)
                     | _ \<Rightarrow> s\<lparr>cs_truncated := True\<rparr>))"

definition compare_loaded :: "(bytes \<Rightarrow> string) \<Rightarrow> ((nat \<times> bytes) list \<Rightarrow> (nat \<times> bytes) list \<Rightarrow> string option) \<Rightarrow> object_store \<Rightarrow>
    snapshot \<Rightarrow> snapshot \<Rightarrow> task_error + change_summary" where
  "compare_loaded digest numstat os before current =
     (if sn_root_identity before \<noteq> None \<and> sn_root_identity current \<noteq> None \<and> sn_root_identity before \<noteq> sn_root_identity current
      then Inl DirectoryChanged
      else
        let result = (empty_summary before)\<lparr>cs_truncated := sn_truncated before \<or> sn_truncated current\<rparr>
        in if sn_unavailable before \<noteq> None \<or> sn_unavailable current \<noteq> None
           then Inr (result\<lparr>cs_unavailable := (case sn_unavailable before of Some m \<Rightarrow> Some m | None \<Rightarrow> sn_unavailable current)\<rparr>)
           else
             and_then (changed_paths digest os before current
                         (remdups (sort (map fst (sn_files before) @ map fst (sn_files current))))) (\<lambda>(es, partial).
             let result = result\<lparr>cs_entries := map fst es, cs_truncated := cs_truncated result \<or> partial\<rparr>
             in if es = [] then Inr result
                else and_then (of_option CompareFailed (numstat (side_files (map (fst \<circ> snd) es)) (side_files (map (snd \<circ> snd) es)))) (\<lambda>text.
                       Inr (stat_records (split_on (CHR 0x00) text) result))))"

section \<open>Freezing\<close>

definition keep_paths :: "string list \<Rightarrow> snapshot \<Rightarrow> snapshot" where
  "keep_paths ps s =
     (let files = filter (\<lambda>(p, _). p \<in> set ps) (sn_files s)
      in s\<lparr>sn_files := files, sn_modes := filter (\<lambda>(p, _). p \<in> fst ` set files) (sn_modes s)\<rparr>)"

definition page_result :: "summary_error + 'a \<Rightarrow> task_error + 'a" where
  "page_result r = (case r of Inl e \<Rightarrow> Inl (PageFailed e) | Inr x \<Rightarrow> Inr x)"

definition saved_summary :: "(bytes \<Rightarrow> string) \<Rightarrow> (change_summary \<Rightarrow> bytes) \<Rightarrow> string option \<Rightarrow> change_summary \<Rightarrow> object_store \<Rightarrow>
    task_error + summary_data \<times> object_store" where
  "saved_summary digest cenc storage summary os =
     (case storage of
        Some st \<Rightarrow> and_then (save_object digest st (cenc summary) os) (\<lambda>(ob, os). Inr (SummaryObject ob, os))
      | None \<Rightarrow> Inr (SummaryInline summary, os))"

definition freeze_turn :: "(bytes \<Rightarrow> string) \<Rightarrow> (snapshot \<Rightarrow> bytes) \<Rightarrow> (bytes \<Rightarrow> snapshot option) \<Rightarrow> (change_summary \<Rightarrow> bytes) \<Rightarrow>
    (task_change \<Rightarrow> string) \<Rightarrow> ((nat \<times> bytes) list \<Rightarrow> (nat \<times> bytes) list \<Rightarrow> string option) \<Rightarrow> string \<Rightarrow> snapshot \<Rightarrow> snapshot \<Rightarrow>
    bool \<Rightarrow> bool \<Rightarrow> object_store \<Rightarrow> task_error + frozen_turn \<times> object_store" where
  "freeze_turn digest senc sdec cenc eenc numstat rid before after interrupted background os =
     and_then (materialized digest sdec os before) (\<lambda>before.
     and_then (materialized digest sdec os after) (\<lambda>after.
     and_then (compare_loaded digest numstat os before after) (\<lambda>summary.
     let ps = map tc_path (cs_entries summary)
     in and_then (page_result (summary_page eenc summary 0)) (\<lambda>page.
        and_then (if cs_next_offset page \<noteq> None
                  then and_then (saved_summary digest cenc (sn_storage before) summary os) (\<lambda>(full, os). Inr (Some full, os))
                  else Inr (None, os)) (\<lambda>(full, os).
        and_then (persist digest senc (keep_paths ps before) os) (\<lambda>(before, os).
        and_then (persist digest senc (keep_paths ps after) os) (\<lambda>(after, os).
          Inr (\<lparr>ft_full_summary = full,
                ft_changes = \<lparr>tch_request_id = rid, tch_summary = page, tch_interrupted = interrupted,
                              tch_background_pending = background, tch_undo = UndoReady\<rparr>,
                ft_before = before, ft_after = after\<rparr>, os))))))))"

definition read_summary :: "(bytes \<Rightarrow> string) \<Rightarrow> (bytes \<Rightarrow> change_summary option) \<Rightarrow> object_store \<Rightarrow> summary_data \<Rightarrow> task_error + change_summary" where
  "read_summary digest cdec os d =
     (case d of
        SummaryInline s \<Rightarrow> Inr s
      | SummaryObject ob \<Rightarrow> and_then (read_object digest os ob) (\<lambda>b. of_option SnapshotUnreadable (cdec b)))"

definition turn_materialized :: "(bytes \<Rightarrow> string) \<Rightarrow> (bytes \<Rightarrow> snapshot option) \<Rightarrow> (bytes \<Rightarrow> change_summary option) \<Rightarrow> object_store \<Rightarrow>
    frozen_turn \<Rightarrow> task_error + frozen_turn" where
  "turn_materialized digest sdec cdec os t =
     and_then (case ft_full_summary t of
                 None \<Rightarrow> Inr (tch_summary (ft_changes t))
               | Some d \<Rightarrow> read_summary digest cdec os d) (\<lambda>full.
     and_then (materialized digest sdec os (ft_before t)) (\<lambda>before.
     and_then (materialized digest sdec os (ft_after t)) (\<lambda>after.
       Inr (t\<lparr>ft_changes := (ft_changes t)\<lparr>tch_summary := full\<rparr>, ft_before := before, ft_after := after\<rparr>))))"

section \<open>Undoing\<close>

definition root_unchanged :: "frozen_turn \<Rightarrow> worktree \<Rightarrow> bool" where
  "root_unchanged t w \<longleftrightarrow> sn_root_identity (ft_before t) = wt_identity w \<and> \<not> wt_root_link w"

text \<open>The walk along a path: no link, no file in the place of a directory, nothing of git.\<close>

fun verify_names :: "worktree \<Rightarrow> string list \<Rightarrow> string list \<Rightarrow> task_error + unit" where
  "verify_names w before [] = Inr ()"
| "verify_names w before (n # ns) =
     (if n = ''.git'' then Inl GitInternals
      else case wt_node w (before @ [n]) of
             None \<Rightarrow> if ns = [] then Inr () else Inl (Io NotFound)
           | Some LinkNode \<Rightarrow> Inl PathIsLink
           | Some nd \<Rightarrow> if ns \<noteq> [] \<and> nd \<noteq> DirNode then Inl ParentChanged else verify_names w (before @ [n]) ns)"

definition as_left :: "(bytes \<Rightarrow> string) \<Rightarrow> frozen_turn \<Rightarrow> string \<Rightarrow> node option \<Rightarrow> bool" where
  "as_left digest t p nd \<longleftrightarrow>
     (case (nd, recorded (ft_after t) p) of
        (None, None) \<Rightarrow> True
      | (Some (FileNode b mode), Some c) \<Rightarrow> contents_match digest c b \<and> map_of (sn_modes (ft_after t)) p = Some mode
      | _ \<Rightarrow> False)"

definition verify_current :: "(bytes \<Rightarrow> string) \<Rightarrow> frozen_turn \<Rightarrow> worktree \<Rightarrow> string \<Rightarrow> task_error + string list" where
  "verify_current digest t w p =
     and_then (ensure (wt_identity w \<noteq> None) (Io NotFound)) (\<lambda>_.
     and_then (ensure (root_unchanged t w) DirectoryChanged) (\<lambda>_.
     and_then (validate_path p) (\<lambda>_.
     and_then (of_option PathNotInProject (names p)) (\<lambda>ns.
     and_then (verify_names w [] ns) (\<lambda>_.
     and_then (ensure (as_left digest t p (wt_node w ns)) ChangedSince) (\<lambda>_. Inr ns))))))"

definition turn_undoable :: "frozen_turn \<Rightarrow> bool" where
  "turn_undoable t \<longleftrightarrow>
     (let c = ft_changes t
      in tch_undo c = UndoReady \<and> \<not> cs_truncated (tch_summary c) \<and> cs_unavailable (tch_summary c) = None \<and>
         \<not> tch_background_pending c \<and> cs_entries (tch_summary c) \<noteq> [])"

definition validate_entry :: "(bytes \<Rightarrow> string) \<Rightarrow> frozen_turn \<Rightarrow> worktree \<Rightarrow> string \<Rightarrow> task_error + unit" where
  "validate_entry digest t w p =
     and_then (ensure (recorded (ft_before t) p = None \<or> map_of (sn_modes (ft_before t)) p \<noteq> None) ModeMissing) (\<lambda>_.
     and_then (verify_current digest t w p) (\<lambda>_. Inr ()))"

definition validate_loaded :: "(bytes \<Rightarrow> string) \<Rightarrow> frozen_turn \<Rightarrow> worktree \<Rightarrow> task_error + unit" where
  "validate_loaded digest t w =
     and_then (ensure (turn_undoable t) UndoUnsafe) (\<lambda>_.
     and_then (ensure (wt_identity w \<noteq> None) (Io NotFound)) (\<lambda>_.
     and_then (ensure (root_unchanged t w \<and> sn_root_identity (ft_after t) = sn_root_identity (ft_before t)) DirectoryChanged) (\<lambda>_.
       for_each (\<lambda>_ p. validate_entry digest t w p) () (map tc_path (cs_entries (tch_summary (ft_changes t)))))))"

text \<open>The temporary file, with the permissions of the baseline; \<open>disk\<close> says whether writing it and putting it in
  place succeed.\<close>

definition restored_mode :: "u32 \<Rightarrow> u32" where
  "restored_mode mode = 0x8000 OR (mode AND 0x1FF)"

definition set_node :: "string list \<Rightarrow> node option \<Rightarrow> worktree \<Rightarrow> worktree" where
  "set_node ns nd w = w\<lparr>wt_node := (wt_node w)(ns := nd)\<rparr>"

record disk =
  dk_temporary :: "string \<Rightarrow> bool"
  dk_replace :: "string \<Rightarrow> bool"

definition restore_file :: "(bytes \<Rightarrow> string) \<Rightarrow> object_store \<Rightarrow> disk \<Rightarrow> frozen_turn \<Rightarrow> string \<Rightarrow> contents \<Rightarrow> (worktree, task_error, unit) eff" where
  "restore_file digest os disk t p c =
     seq (from_result (of_option ModeMissing (map_of (sn_modes (ft_before t)) p))) (\<lambda>mode.
     seq (require (dk_temporary disk p) (Io OtherIo)) (\<lambda>_.
     seq (from_result (contents_bytes digest os c)) (\<lambda>b.
     seq (look (\<lambda>w. verify_current digest t w p)) (\<lambda>checked.
     seq (from_result checked) (\<lambda>ns.
     seq (look (\<lambda>w. wt_node w ns)) (\<lambda>nd.
     seq (require (dk_replace disk p \<and> (recorded (ft_after t) p = None \<longrightarrow> nd = None)) (Io OtherIo)) (\<lambda>_.
       change (set_node ns (Some (FileNode b (restored_mode mode)))))))))))"

definition restore_entry :: "(bytes \<Rightarrow> string) \<Rightarrow> object_store \<Rightarrow> disk \<Rightarrow> frozen_turn \<Rightarrow> string \<Rightarrow> (worktree, task_error, unit) eff" where
  "restore_entry digest os disk t p =
     seq (look (\<lambda>w. verify_current digest t w p)) (\<lambda>checked.
     seq (from_result checked) (\<lambda>ns.
       case recorded (ft_before t) p of
         Some c \<Rightarrow> restore_file digest os disk t p c
       | None \<Rightarrow>
           seq (look (\<lambda>w. wt_node w ns)) (\<lambda>nd.
           seq (require (nd \<noteq> None) (Io NotFound)) (\<lambda>_.
           seq (require (dk_replace disk p) (Io OtherIo)) (\<lambda>_.
             change (set_node ns None))))))"

definition restore_loaded :: "(bytes \<Rightarrow> string) \<Rightarrow> object_store \<Rightarrow> disk \<Rightarrow> frozen_turn \<Rightarrow> (worktree, task_error, unit) eff" where
  "restore_loaded digest os disk t =
     each (restore_entry digest os disk t) (map tc_path (cs_entries (tch_summary (ft_changes t))))"

definition validate_undo :: "(bytes \<Rightarrow> string) \<Rightarrow> (bytes \<Rightarrow> snapshot option) \<Rightarrow> (bytes \<Rightarrow> change_summary option) \<Rightarrow> object_store \<Rightarrow>
    frozen_turn \<Rightarrow> worktree \<Rightarrow> task_error + unit" where
  "validate_undo digest sdec cdec os t w =
     and_then (turn_materialized digest sdec cdec os t) (\<lambda>t. validate_loaded digest t w)"

definition restore :: "(bytes \<Rightarrow> string) \<Rightarrow> (bytes \<Rightarrow> snapshot option) \<Rightarrow> (bytes \<Rightarrow> change_summary option) \<Rightarrow> object_store \<Rightarrow>
    disk \<Rightarrow> frozen_turn \<Rightarrow> (worktree, task_error, unit) eff" where
  "restore digest sdec cdec os disk t =
     seq (from_result (turn_materialized digest sdec cdec os t)) (\<lambda>t. restore_loaded digest os disk t)"

end
