(* ===== verification/UndoLaws.thy ===== *)
theory UndoLaws
  imports Undo
begin

text \<open>
  Undoing a turn: what a restoration may touch, and that it brings back the contents captured before the turn.
\<close>

section \<open>One path\<close>

text \<open>What the baseline has at a path.\<close>

definition undone :: "(bytes \<Rightarrow> string) \<Rightarrow> object_store \<Rightarrow> frozen_turn \<Rightarrow> string \<Rightarrow> node option \<Rightarrow> bool" where
  "undone digest os t p nd \<longleftrightarrow>
     (case recorded (ft_before t) p of
        None \<Rightarrow> nd = None
      | Some c \<Rightarrow> \<exists>b mode. contents_bytes digest os c = Inr b \<and> map_of (sn_modes (ft_before t)) p = Some mode \<and>
                     nd = Some (FileNode b (restored_mode mode)))"

lemma verified:
  "verify_current digest t w p = Inr ns \<Longrightarrow> names p = Some ns \<and> as_left digest t p (wt_node w ns)"
  by (auto simp: verify_current_def result_simps)

text \<open>A step leaves the directory alone, or replaces what the turn left at one path by what was there before.\<close>

definition path_undone :: "(bytes \<Rightarrow> string) \<Rightarrow> object_store \<Rightarrow> frozen_turn \<Rightarrow> string \<Rightarrow> worktree \<Rightarrow> worktree \<Rightarrow> bool" where
  "path_undone digest os t p w w' \<longleftrightarrow>
     (\<exists>ns nd. names p = Some ns \<and> as_left digest t p (wt_node w ns) \<and> undone digest os t p nd \<and> w' = set_node ns nd w)"

lemma restore_file_step:
  assumes "restore_file digest os disk t p c w = (r, w')" and "recorded (ft_before t) p = Some c"
  shows "case r of Inl e \<Rightarrow> w' = w | Inr _ \<Rightarrow> path_undone digest os t p w w'"
  using assms
  by (auto simp: restore_file_def eff_simps of_option_def path_undone_def undone_def dest!: verified
      split: sum.splits option.splits if_splits)

lemma restore_entry_step:
  assumes "restore_entry digest os disk t p w = (r, w')"
  shows "case r of Inl e \<Rightarrow> w' = w | Inr _ \<Rightarrow> path_undone digest os t p w w'"
proof (cases "verify_current digest t w p")
  case (Inl e)
  then show ?thesis using assms by (auto simp: restore_entry_def eff_simps)
next
  case (Inr ns)
  show ?thesis
  proof (cases "recorded (ft_before t) p")
    case None
    then show ?thesis using assms Inr verified [OF Inr]
      by (auto simp: restore_entry_def eff_simps path_undone_def undone_def split: if_splits)
  next
    case (Some c)
    then have "restore_file digest os disk t p c w = (r, w')" using assms Inr by (simp add: restore_entry_def eff_simps)
    from restore_file_step [OF this Some] show ?thesis .
  qed
qed

section \<open>The whole turn\<close>

definition entry_paths :: "frozen_turn \<Rightarrow> string list" where
  "entry_paths t = map tc_path (cs_entries (tch_summary (ft_changes t)))"

definition touched :: "(bytes \<Rightarrow> string) \<Rightarrow> object_store \<Rightarrow> frozen_turn \<Rightarrow> string list \<Rightarrow> worktree \<Rightarrow> worktree \<Rightarrow> bool" where
  "touched digest os t ps w w' \<longleftrightarrow> w' = w\<lparr>wt_node := wt_node w'\<rparr> \<and>
     (\<forall>ns. wt_node w' ns = wt_node w ns \<or>
        (\<exists>p \<in> set ps. names p = Some ns \<and> as_left digest t p (wt_node w ns)) \<and>
        (\<exists>p \<in> set ps. names p = Some ns \<and> undone digest os t p (wt_node w' ns)))"

lemma touched_refl: "touched digest os t ps w w"
  by (simp add: touched_def)

lemma touched_step:
  assumes "path_undone digest os t p w u" and "touched digest os t ps u w'"
  shows "touched digest os t (p # ps) w w'"
proof -
  obtain at_p nd where p: "names p = Some at_p" "as_left digest t p (wt_node w at_p)" "undone digest os t p nd" and u: "u = set_node at_p nd w"
    using assms(1) by (auto simp: path_undone_def)
  have "wt_node w' ns = wt_node w ns \<or>
      (\<exists>p \<in> set (p # ps). names p = Some ns \<and> as_left digest t p (wt_node w ns)) \<and>
      (\<exists>p \<in> set (p # ps). names p = Some ns \<and> undone digest os t p (wt_node w' ns))" for ns
  proof (cases "ns = at_p")
    case True
    have "wt_node w' ns = wt_node u ns \<or> (\<exists>q \<in> set ps. names q = Some ns \<and> undone digest os t q (wt_node w' ns))"
      using assms(2) unfolding touched_def by blast
    moreover have "wt_node u ns = nd" by (simp add: True u set_node_def)
    ultimately show ?thesis using p True by auto
  next
    case False
    then have "wt_node u ns = wt_node w ns" by (simp add: u set_node_def)
    moreover have "wt_node w' ns = wt_node u ns \<or> (\<exists>q \<in> set ps. names q = Some ns \<and> as_left digest t q (wt_node u ns)) \<and>
        (\<exists>q \<in> set ps. names q = Some ns \<and> undone digest os t q (wt_node w' ns))"
      using assms(2) unfolding touched_def by blast
    ultimately show ?thesis by auto
  qed
  moreover have "w' = w\<lparr>wt_node := wt_node w'\<rparr>" using assms(2) by (cases w) (simp add: touched_def u set_node_def)
  ultimately show ?thesis unfolding touched_def by blast
qed

lemma restore_steps:
  assumes "each (restore_entry digest os disk t) ps w = (r, w')"
  shows "touched digest os t ps w w' \<and>
    (r = Inr () \<longrightarrow> (\<forall>p \<in> set ps. \<exists>ns. names p = Some ns \<and> (\<exists>q \<in> set ps. names q = Some ns \<and> undone digest os t q (wt_node w' ns))))"
  using assms
proof (induction ps arbitrary: w)
  case Nil
  then show ?case by (simp add: eff_simps touched_refl)
next
  case (Cons p ps)
  obtain a u where one: "restore_entry digest os disk t p w = (a, u)" by (cases "restore_entry digest os disk t p w")
  note first = restore_entry_step [OF one]
  show ?case
  proof (cases a)
    case (Inl e)
    then show ?thesis using Cons.prems one first Inl by (auto simp: eff_simps touched_refl)
  next
    case (Inr x)
    then have rest: "each (restore_entry digest os disk t) ps u = (r, w')" using Cons.prems one by (simp add: eff_simps)
    have step: "path_undone digest os t p w u" using first Inr by simp
    then obtain ns nd where ns: "names p = Some ns" and nd: "undone digest os t p nd" and u: "wt_node u ns = nd"
      by (auto simp: path_undone_def set_node_def)
    note IH = Cons.IH [OF rest]
    have "wt_node w' ns = wt_node u ns \<or> (\<exists>q \<in> set ps. names q = Some ns \<and> undone digest os t q (wt_node w' ns))"
      using conjunct1 [OF IH] unfolding touched_def by blast
    then have "\<exists>q \<in> set (p # ps). names q = Some ns \<and> undone digest os t q (wt_node w' ns)" using ns nd u by auto
    moreover have "touched digest os t (p # ps) w w'" using touched_step [OF step] IH by blast
    ultimately show ?thesis using conjunct2 [OF IH] ns by (metis (no_types, lifting) list.set_intros(2) set_ConsD)
  qed
qed

section \<open>Objects are found again\<close>

text \<open>What was ever saved is what the object directory has under its digest: nothing was removed or altered, and no
  two different contents that were saved have the same digest.\<close>

definition intact :: "(bytes \<Rightarrow> string) \<Rightarrow> object_store \<Rightarrow> bool" where
  "intact digest os \<longleftrightarrow> list_all (\<lambda>(rt, b). os_files os rt (digest b) = Some b) (os_puts os)"

definition grows :: "object_store \<Rightarrow> object_store \<Rightarrow> bool" where
  "grows a b \<longleftrightarrow> (\<forall>rt. os_files a rt \<subseteq>\<^sub>m os_files b rt) \<and> set (os_puts a) \<subseteq> set (os_puts b)"

lemma grows_refl [simp]: "grows a a" and grows_trans: "grows a b \<Longrightarrow> grows b c \<Longrightarrow> grows a c"
  by (auto simp: grows_def intro: map_le_trans)

definition refers :: "(bytes \<Rightarrow> string) \<Rightarrow> object_store \<Rightarrow> string \<Rightarrow> snap_object \<Rightarrow> bytes \<Rightarrow> bool" where
  "refers digest os rt ob b \<longleftrightarrow> ob = \<lparr>ob_key = digest b, ob_size = length b, ob_root = rt\<rparr> \<and> (rt, b) \<in> set (os_puts os)"

lemma refers_grows: "refers digest os rt ob b \<Longrightarrow> grows os os' \<Longrightarrow> refers digest os' rt ob b"
  by (auto simp: refers_def grows_def)

lemma save_object_refers:
  assumes "save_object digest rt b os = Inr (ob, os')"
  shows "grows os os'" and "refers digest os' rt ob b"
  using assms by (auto simp: save_object_def Let_def grows_def refers_def map_le_def and_then_eq_Inr)

lemma refers_file: "intact digest os \<Longrightarrow> refers digest os rt ob b \<Longrightarrow> os_files os rt (ob_key ob) = Some b"
  by (auto simp: intact_def refers_def list_all_iff)

text \<open>A read that succeeds, at any time before, gives what was saved.\<close>

lemma refers_read:
  assumes "read_object digest os ob = Inr x" and "grows os os'" and "intact digest os'" and "refers digest os' rt ob b"
  shows "x = b"
proof -
  have "os_files os rt (ob_key ob) = Some x"
    using assms(1,4) by (auto simp: read_object_def object_file_def result_simps refers_def)
  then have "os_files os' rt (ob_key ob) = Some x" using assms(2) by (auto simp: grows_def map_le_def dom_def)
  with refers_file [OF assms(3,4)] show ?thesis by simp
qed

section \<open>What a snapshot records\<close>

definition detached :: "snapshot \<Rightarrow> snapshot" where
  "detached s = (snapshot_attach [] s)\<lparr>sn_storage := None\<rparr>"

text \<open>Every recorded path is as the directory has it, and every path of the inventory is recorded or the snapshot partial.\<close>

definition file_recorded :: "(bytes \<Rightarrow> string) \<Rightarrow> object_store \<Rightarrow> string \<Rightarrow> worktree \<Rightarrow> (string \<times> u32) list \<Rightarrow> string \<Rightarrow> contents option \<Rightarrow> bool" where
  "file_recorded digest os st w modes p c \<longleftrightarrow>
     (case c of
        None \<Rightarrow> lstat w p = Inl NotFound
      | Some (Legacy _) \<Rightarrow> False
      | Some (Object ob) \<Rightarrow> \<exists>b mode. lstat w p = Inr (FileNode b mode) \<and> map_of modes p = Some mode \<and> refers digest os st ob b)"

definition records :: "(bytes \<Rightarrow> string) \<Rightarrow> object_store \<Rightarrow> string \<Rightarrow> worktree \<Rightarrow> string list \<Rightarrow> snapshot \<Rightarrow> bool" where
  "records digest os st w ps s \<longleftrightarrow> sn_storage s = Some st \<and> sn_manifest s = None \<and> sn_unavailable s = None \<and>
     sn_root_identity s = wt_identity w \<and> fst ` set (sn_files s) \<subseteq> set ps \<and>
     (\<forall>(p, c) \<in> set (sn_files s). file_recorded digest os st w (sn_modes s) p c) \<and>
     (\<forall>p \<in> set ps. map_of (sn_files s) p = None \<longrightarrow> sn_truncated s)"

lemma map_of_btree_insert [simp]: "map_of (btree_insert k v m) = (map_of m)(k \<mapsto> v)"
  by (induction k v m rule: btree_insert.induct) auto

lemma set_btree_insert: "x \<in> set (btree_insert k v m) \<Longrightarrow> x = (k, v) \<or> x \<in> set m"
  by (induction k v m rule: btree_insert.induct) (auto split: if_splits)

lemma keys_btree_insert [simp]: "fst ` set (btree_insert k v m) = insert k (fst ` set m)"
  by (induction k v m rule: btree_insert.induct) auto

lemma file_recorded_simps:
  "file_recorded digest os st w modes p None \<longleftrightarrow> lstat w p = Inl NotFound"
  "file_recorded digest os st w modes p (Some (Object ob)) \<longleftrightarrow>
     (\<exists>b mode. lstat w p = Inr (FileNode b mode) \<and> map_of modes p = Some mode \<and> refers digest os st ob b)"
  by (simp_all add: file_recorded_def)

lemma file_recorded_mono:
  "file_recorded digest os st w modes p c \<Longrightarrow> grows os os' \<Longrightarrow> map_of modes' p = map_of modes p \<Longrightarrow>
   file_recorded digest os' st w modes' p c"
  by (auto simp: file_recorded_def split: option.splits contents.splits intro: refers_grows)

lemma records_grows: "records digest os st w ps s \<Longrightarrow> grows os os' \<Longrightarrow> records digest os' st w ps s"
  unfolding records_def by (blast intro: file_recorded_mono [OF _ _ refl])

lemma records_missing:
  assumes "records digest os st w ps s" and "map_of (sn_files s) p = None" and "lstat w p = Inl NotFound"
  shows "records digest os st w (ps @ [p]) (path_missing p s)"
  using assms by (auto simp: records_def path_missing_def file_recorded_simps dest!: set_btree_insert)

lemma records_skipped: "records digest os st w ps s \<Longrightarrow> records digest os st w (ps @ [p]) (s\<lparr>sn_truncated := True\<rparr>)"
  by (auto simp: records_def)

lemma records_saved:
  assumes "records digest os st w ps s" and "lstat w p = Inr (FileNode b mode)" and "save_object digest st b os = Inr (ob, os')"
    and "map_of (sn_files s) p = None"
  shows "records digest os' st w (ps @ [p]) (path_saved p mode (Object ob) s)"
proof -
  have "file_recorded digest os' st w (btree_insert p mode (sn_modes s)) q c"
    if "file_recorded digest os st w (sn_modes s) q c" "q \<noteq> p" for q c
    using that(1) save_object_refers(1) [OF assms(3)] by (rule file_recorded_mono) (use that(2) in simp)
  moreover have "q \<noteq> p" if "(q, c) \<in> set (sn_files s)" for q c
    using that assms(4) by (auto simp: map_of_eq_None_iff image_iff)
  ultimately show ?thesis using assms save_object_refers(2) [OF assms(3)]
    by (auto simp: records_def file_recorded_simps path_saved_def dest!: set_btree_insert)
qed

lemma resolve_entry_lstat:
  "resolve_entry w p = Inr n \<Longrightarrow> lstat w p = Inr n" "resolve_entry w p = Inl NotFound \<Longrightarrow> lstat w p = Inl NotFound"
  by (auto simp: resolve_entry_def and_then_def split: if_splits sum.splits)

lemma capture_found_records:
  assumes "records digest os st w ps s" and "lstat w p = Inr n" and "capture_found digest opens p n s os = Inr (s', os')"
    and "map_of (sn_files s) p = None"
  shows "records digest os' st w (ps @ [p]) s' \<and> grows os os'"
proof (cases n)
  case (FileNode b mode)
  have "sn_storage s = Some st" using assms(1) by (simp add: records_def)
  then obtain ob where "save_object digest st b os = Inr (ob, os')" and "s' = path_saved p mode (Object ob) s"
    using assms(3) FileNode by (auto simp: capture_found_def capture_contents_def and_then_eq_Inr split: if_splits)
  then show ?thesis using records_saved [OF assms(1)] assms(2,4) FileNode save_object_refers(1) by auto
qed (use assms records_skipped [OF assms(1)] in \<open>auto simp: capture_found_def\<close>)

lemma capture_path_records:
  assumes "records digest os st w ps s" and "capture_path digest w opens p (s, os) = Inr (s', os')"
  shows "records digest os' st w (ps @ [p]) s' \<and> grows os os'"
proof (cases "map_of (sn_files s) p = None")
  case False
  then show ?thesis using assms by (auto simp: capture_path_def records_def)
next
  case True
  have after: "records digest os' st w (ps @ [p]) s' \<and> grows os os'"
    if "lstat w p = Inr n" and "and_then (if_present (resolve_entry w p)) (case_option (Inr (path_missing p s, os))
          (\<lambda>nd. capture_found digest opens p nd s os)) = Inr (s', os')" for n
  proof (cases "resolve_entry w p")
    case (Inl e)
    then show ?thesis using that resolve_entry_lstat(2) [of w p] by (cases e) (auto simp: if_present_def)
  next
    case (Inr m)
    then show ?thesis using that(2) capture_found_records [OF assms(1) resolve_entry_lstat(1) [OF Inr]] True by (simp add: if_present_def)
  qed
  show ?thesis
  proof (cases "lstat w p")
    case (Inl e)
    then show ?thesis using assms True records_missing [OF assms(1) True] by (cases e) (auto simp: capture_path_def)
  next
    case (Inr n)
    then show ?thesis using assms(2) True after records_skipped [OF assms(1)]
      by (cases n) (auto simp: capture_path_def)
  qed
qed

lemma capture_paths_records:
  assumes "for_each (\<lambda>st p. capture_path digest w opens p st) (s, os) qs = Inr (s', os')" and "records digest os st w ps s"
  shows "records digest os' st w (ps @ qs) s' \<and> grows os os'"
  using assms
proof (induction qs arbitrary: ps s os)
  case (Cons q qs)
  then obtain u ou where one: "capture_path digest w opens q (s, os) = Inr (u, ou)"
    and rest: "for_each (\<lambda>st p. capture_path digest w opens p st) (u, ou) qs = Inr (s', os')" by (auto simp: and_then_eq_Inr)
  from capture_path_records [OF Cons.prems(2) one] Cons.IH [OF rest, of "ps @ [q]"] show ?case by (auto intro: grows_trans)
qed simp

text \<open>A captured snapshot is a reference to one that records the directory.\<close>

definition stored_as :: "(bytes \<Rightarrow> string) \<Rightarrow> (snapshot \<Rightarrow> bytes) \<Rightarrow> object_store \<Rightarrow> string \<Rightarrow> snapshot \<Rightarrow> snapshot \<Rightarrow> bool" where
  "stored_as digest senc os st s m \<longleftrightarrow> sn_storage s = Some st \<and>
     (\<exists>ob. sn_manifest s = Some ob \<and> refers digest os st ob (senc m))"

lemma persist_stored:
  assumes "persist digest senc m os = Inr (s, os')" and "sn_storage m = Some st" and "sn_manifest m = None"
  shows "stored_as digest senc os' st s m" and "grows os os'"
proof -
  obtain ob where "save_object digest st (senc m) os = Inr (ob, os')" and "sn_manifest s = Some ob" "sn_storage s = Some st"
    using assms by (auto simp: persist_def and_then_eq_Inr)
  then show "stored_as digest senc os' st s m" "grows os os'"
    using save_object_refers by (auto simp: stored_as_def)
qed

lemma capture_stored:
  assumes "capture digest senc now (Some st) in_state opens inventory w os = Inr (s, os')"
  obtains m where "records digest os' st w (fst inventory) m" and "stored_as digest senc os' st s m" and "grows os os'"
proof -
  let ?s = "\<lparr>sn_at = now, sn_root_identity = wt_identity w, sn_files = [], sn_manifest = None, sn_storage = Some st,
      sn_modes = [], sn_truncated = snd inventory, sn_unavailable = None\<rparr>"
  obtain m om where loop: "for_each (\<lambda>st p. capture_path digest w opens p st) (?s, os) (fst inventory) = Inr (m, om)"
    and last: "persist digest senc m om = Inr (s, os')"
    using assms by (auto simp: capture_def result_simps)
  have "records digest os st w [] ?s" by (simp add: records_def)
  from capture_paths_records [OF loop this] have m: "records digest om st w (fst inventory) m" and g: "grows os om" by simp_all
  have "sn_storage m = Some st" "sn_manifest m = None" using m by (simp_all add: records_def)
  note p = persist_stored [OF last this]
  have "records digest os' st w (fst inventory) m" using records_grows [OF m p(2)] .
  with p grows_trans [OF g p(2)] that show thesis by blast
qed

text \<open>What is stored is read back as it was.\<close>

definition attached :: "string \<Rightarrow> snapshot \<Rightarrow> bool" where
  "attached st m \<longleftrightarrow> sn_storage m = Some st \<and> sn_manifest m = None \<and>
     (\<forall>(p, c) \<in> set (sn_files m). map_option (contents_attach st) c = c)"

lemma file_recorded_attach:
  assumes "file_recorded digest os st w modes p c"
  shows "map_option (contents_attach st) c = c"
proof (cases c)
  case (Some d)
  show ?thesis
  proof (cases d)
    case (Object ob)
    then show ?thesis using assms Some by (auto simp: file_recorded_simps contents_attach_def refers_def)
  qed (use assms Some in \<open>simp add: file_recorded_def\<close>)
qed simp

lemma records_attached: "records digest os st w ps m \<Longrightarrow> attached st m"
  unfolding records_def attached_def by (auto dest!: bspec intro: file_recorded_attach)

lemma attached_keep: "attached st m \<Longrightarrow> attached st (keep_paths ps m)"
  by (auto simp: attached_def keep_paths_def Let_def)

lemma attach_detached:
  assumes "attached st m"
  shows "(snapshot_attach st (detached m))\<lparr>sn_manifest := None\<rparr> = m"
proof -
  have twice: "contents_attach st (contents_attach r c) = contents_attach st c" for r c
    by (cases c) (simp_all add: contents_attach_def)
  have "map (\<lambda>(p, c). (p, map_option (contents_attach st) c)) (map (\<lambda>(p, c). (p, map_option (contents_attach []) c)) (sn_files m)) = sn_files m"
    using assms by (auto simp: attached_def option.map_comp comp_def twice intro!: map_idI)
  then show ?thesis using assms by (cases m) (simp add: snapshot_attach_def detached_def attached_def)
qed

text \<open>\<open>dec\<close> reads back what \<open>enc\<close> wrote, for everything that was saved.\<close>

definition reads_back :: "object_store \<Rightarrow> ('a \<Rightarrow> bytes) \<Rightarrow> (bytes \<Rightarrow> 'a option) \<Rightarrow> ('a \<Rightarrow> 'a) \<Rightarrow> bool" where
  "reads_back os enc dec canon \<longleftrightarrow> (\<forall>x. enc x \<in> snd ` set (os_puts os) \<longrightarrow> dec (enc x) = Some (canon x))"

lemma refers_reads_back:
  assumes "refers digest os rt ob (enc x)" and "reads_back os enc dec canon"
  shows "dec (enc x) = Some (canon x)"
proof -
  have "snd (rt, enc x) \<in> snd ` set (os_puts os)" using assms(1) unfolding refers_def by (intro imageI) simp
  then show ?thesis using assms(2) by (simp add: reads_back_def)
qed

lemma stored_grows: "stored_as digest senc os st s m \<Longrightarrow> grows os os' \<Longrightarrow> stored_as digest senc os' st s m"
  by (auto simp: stored_as_def intro: refers_grows)

lemma materialized_stored:
  assumes "materialized digest sdec os s = Inr r" and "stored_as digest senc os' st s m" and "grows os os'" and "intact digest os'"
    and "attached st m" and "reads_back os' senc sdec detached"
  shows "r = m"
proof -
  obtain ob where ob: "sn_manifest s = Some ob" "sn_storage s = Some st" "refers digest os' st ob (senc m)"
    using assms(2) by (auto simp: stored_as_def)
  then obtain b u where b: "read_object digest os ob = Inr b" "sdec b = Some u"
    and r: "r = (snapshot_attach st u)\<lparr>sn_manifest := None\<rparr>"
    using assms(1) by (auto simp: materialized_def result_simps)
  have "b = senc m" by (rule refers_read [OF b(1) assms(3,4) ob(3)])
  then have "u = detached m" using b(2) refers_reads_back [OF ob(3) assms(6)] by simp
  then show ?thesis using attach_detached [OF assms(5)] r by simp
qed

section \<open>The summary\<close>

lemma changed_paths_are:
  assumes "changed_paths digest os before after ps = Inr (es, partial)"
  shows "map (tc_path \<circ> fst) es = filter (\<lambda>p. \<not> same_contents digest (recorded before p) (recorded after p) \<and> \<not> unknown_change before after p) ps \<and>
    (\<forall>e \<in> set es. tc_status (fst e) = change_status (recorded before (tc_path (fst e))) (recorded after (tc_path (fst e)))) \<and>
    (partial \<longleftrightarrow> (\<exists>p \<in> set ps. \<not> same_contents digest (recorded before p) (recorded after p) \<and> unknown_change before after p))"
  using assms
proof (induction ps arbitrary: es partial)
  case (Cons p ps)
  let ?old = "recorded before p" and ?new = "recorded after p"
  consider (same) "same_contents digest ?old ?new"
    | (unknown) "\<not> same_contents digest ?old ?new" "unknown_change before after p"
    | (changed) "\<not> same_contents digest ?old ?new" "\<not> unknown_change before after p" by blast
  then show ?case
  proof cases
    case same
    then show ?thesis using Cons.prems Cons.IH [of es partial] by simp
  next
    case unknown
    then obtain q where "changed_paths digest os before after ps = Inr (es, q)" and partial
      using Cons.prems by (auto simp: Let_def and_then_eq_Inr)
    then show ?thesis using Cons.IH [of es q] unknown by simp
  next
    case changed
    then obtain x y ds where "changed_paths digest os before after ps = Inr (ds, partial)"
      and es: "es = (\<lparr>tc_path = p, tc_status = change_status ?old ?new, tc_added = None, tc_removed = None\<rparr>, x, y) # ds"
      using Cons.prems by (auto simp: Let_def and_then_eq_Inr)
    then show ?thesis using Cons.IH [of ds partial] changed by simp
  qed
qed simp

lemma stat_record_keeps:
  "map tc_path (cs_entries (stat_record a r p s)) = map tc_path (cs_entries s) \<and>
   map tc_status (cs_entries (stat_record a r p s)) = map tc_status (cs_entries s) \<and>
   (cs_truncated s \<longrightarrow> cs_truncated (stat_record a r p s))"
proof -
  have "map f (xs[i := y]) = map f xs" if "i < length xs" "f y = f (xs ! i)" for f :: "task_change \<Rightarrow> string" and xs i y
    using that by (metis list_update_id map_update)
  then show ?thesis by (auto simp: stat_record_def Let_def split: option.split)
qed

lemma stat_records_keep:
  "map tc_path (cs_entries (stat_records rs s)) = map tc_path (cs_entries s) \<and>
   map tc_status (cs_entries (stat_records rs s)) = map tc_status (cs_entries s) \<and>
   (cs_truncated s \<longrightarrow> cs_truncated (stat_records rs s))"
  by (induction rs s rule: stat_records.induct) (auto simp: stat_record_keeps split: option.split list.split)

end
