(* ===== verification/UndoTurns.thy ===== *)
theory UndoTurns
  imports UndoLaws
begin

text \<open>
  The way of a turn through the object store: what its two captures saw is what the frozen turn lists and what is
  read back when it is undone; and the steps of a restoration do not get into each other's way.
\<close>

section \<open>From a turn to its frozen form and back\<close>

text \<open>The content a capture sees at a path, and what undoing puts there.\<close>

definition seen :: "worktree \<Rightarrow> string list \<Rightarrow> string \<Rightarrow> bytes option" where
  "seen w ps p = (if p \<in> set ps then (case lstat w p of Inr (FileNode b _) \<Rightarrow> Some b | _ \<Rightarrow> None) else None)"

definition brought_back :: "worktree \<Rightarrow> string list \<Rightarrow> string \<Rightarrow> node option" where
  "brought_back w ps p =
     (if p \<in> set ps then (case lstat w p of Inr (FileNode b mode) \<Rightarrow> Some (FileNode b (restored_mode mode)) | _ \<Rightarrow> None) else None)"

lemma records_at:
  assumes "records digest os st w ps s" and "\<not> sn_truncated s"
  shows "case recorded s p of
      None \<Rightarrow> seen w ps p = None \<and> brought_back w ps p = None
    | Some c \<Rightarrow> \<exists>ob b mode. c = Object ob \<and> seen w ps p = Some b \<and> refers digest os st ob b \<and>
                 map_of (sn_modes s) p = Some mode \<and> brought_back w ps p = Some (FileNode b (restored_mode mode))"
proof (cases "map_of (sn_files s) p")
  case None
  then have "p \<notin> set ps" using assms by (auto simp: records_def)
  then show ?thesis using None by (simp add: recorded_def seen_def brought_back_def)
next
  case (Some c)
  then have mem: "(p, c) \<in> set (sn_files s)" by (rule map_of_SomeD)
  then have inv: "p \<in> set ps" using assms(1) by (force simp: records_def)
  have f: "file_recorded digest os st w (sn_modes s) p c" using mem assms(1) by (auto simp: records_def)
  show ?thesis
  proof (cases c)
    case None
    then show ?thesis using f Some inv by (simp add: recorded_def seen_def brought_back_def file_recorded_simps)
  next
    case (Some d)
    then obtain ob where "d = Object ob" using f by (cases d) (simp_all add: file_recorded_def)
    then show ?thesis using f \<open>c = Some d\<close> \<open>map_of (sn_files s) p = Some c\<close> inv
      by (auto simp: recorded_def seen_def brought_back_def file_recorded_simps)
  qed
qed

lemma refers_same:
  assumes "intact digest os" and "refers digest os rt a x" and "refers digest os rt b y"
  shows "contents_eq digest (Object a) (Object b) \<longleftrightarrow> x = y"
proof -
  have "x = y" if "digest x = digest y"
    using assms that refers_file [OF assms(1,2)] refers_file [OF assms(1,3)] by (simp add: refers_def)
  then show ?thesis using assms by (auto simp: contents_eq_def contents_digest_def refers_def)
qed

lemma same_contents_seen:
  assumes "intact digest os" and "records digest os st w0 ps0 a" "\<not> sn_truncated a" and "records digest os st w1 ps1 b" "\<not> sn_truncated b"
  shows "same_contents digest (recorded a p) (recorded b p) \<longleftrightarrow> seen w0 ps0 p = seen w1 ps1 p"
    and "change_status (recorded a p) (recorded b p) =
      (if seen w0 ps0 p = None then ''A'' else if seen w1 ps1 p = None then ''D'' else ''M'')"
  using records_at [OF assms(2,3), of p] records_at [OF assms(4,5), of p] refers_same [OF assms(1)]
  by (auto simp: same_contents_def change_status_def split: option.splits)

text \<open>The keys of two snapshots, in the order of the map.\<close>

lemma remdups_sort: "remdups (sort xs) = sorted_list_of_set (set xs)" for xs :: "string list"
  by (rule sorted_distinct_set_unique) (auto intro: sorted_remdups)

lemma records_keys:
  "records digest os st w ps s \<Longrightarrow> \<not> sn_truncated s \<Longrightarrow> fst ` set (sn_files s) = set ps"
  unfolding records_def by (force simp: map_of_eq_None_iff)

definition headline :: "task_change \<Rightarrow> string \<times> string" where
  "headline e = (tc_path e, tc_status e)"

lemma headline_fun: "(\<lambda>e. (tc_path e, tc_status e)) = headline"
  by (rule ext) (simp add: headline_def)

lemma headlines: "map headline es = zip (map tc_path es) (map tc_status es)"
  by (induction es) (simp_all add: headline_def)

lemma stat_records_headlines: "map headline (cs_entries (stat_records rs s)) = map headline (cs_entries s)"
  using stat_records_keep [of rs s] by (simp add: headlines)

lemma stat_record_unavailable: "cs_unavailable (stat_record a r p s) = cs_unavailable s"
  by (auto simp: stat_record_def Let_def split: option.split)

lemma stat_records_unavailable: "cs_unavailable (stat_records rs s) = cs_unavailable s"
  by (induction rs s rule: stat_records.induct) (auto simp: stat_record_unavailable split: option.split list.split)

lemma changed_headlines:
  assumes "changed_paths digest os a b ps = Inr (es, partial)"
  shows "map (headline \<circ> fst) es = map (\<lambda>p. (p, change_status (recorded a p) (recorded b p))) (map (tc_path \<circ> fst) es)"
  using conjunct1 [OF conjunct2 [OF changed_paths_are [OF assms]]] by (simp add: headline_def)

lemma compare_loaded_are:
  assumes "compare_loaded digest numstat os a b = Inr s" and "\<not> cs_truncated s" and "sn_unavailable a = None" "sn_unavailable b = None"
  shows "\<not> sn_truncated a" and "\<not> sn_truncated b" and "cs_unavailable s = None"
    and "map headline (cs_entries s) = map (\<lambda>p. (p, change_status (recorded a p) (recorded b p)))
           (filter (\<lambda>p. \<not> same_contents digest (recorded a p) (recorded b p))
              (sorted_list_of_set (fst ` set (sn_files a) \<union> fst ` set (sn_files b))))"
proof -
  let ?ps = "sorted_list_of_set (fst ` set (sn_files a) \<union> fst ` set (sn_files b))"
  let ?r = "(empty_summary a)\<lparr>cs_truncated := sn_truncated a \<or> sn_truncated b\<rparr>"
  have ps: "remdups (sort (map fst (sn_files a) @ map fst (sn_files b))) = ?ps" by (simp add: remdups_sort)
  obtain es partial rs where es: "changed_paths digest os a b ?ps = Inr (es, partial)"
    and s: "s = stat_records rs (?r\<lparr>cs_entries := map fst es, cs_truncated := (sn_truncated a \<or> sn_truncated b) \<or> partial\<rparr>) \<or>
            s = ?r\<lparr>cs_entries := map fst es, cs_truncated := (sn_truncated a \<or> sn_truncated b) \<or> partial\<rparr>"
    using assms(1,3,4) by (auto simp: compare_loaded_def Let_def ps result_simps split: if_splits)
  have no: "\<not> ((sn_truncated a \<or> sn_truncated b) \<or> partial)"
    using s assms(2) stat_records_keep [of rs "?r\<lparr>cs_entries := map fst es, cs_truncated := (sn_truncated a \<or> sn_truncated b) \<or> partial\<rparr>"]
    by auto
  then show "\<not> sn_truncated a" "\<not> sn_truncated b" by simp_all
  then have known: "\<not> unknown_change a b p" for p by (simp add: unknown_change_def)
  show "cs_unavailable s = None" using s assms(3) by (auto simp: stat_records_unavailable empty_summary_def)
  have "map headline (cs_entries s) = map (headline \<circ> fst) es" using s by (auto simp: stat_records_headlines)
  then show "map headline (cs_entries s) = map (\<lambda>p. (p, change_status (recorded a p) (recorded b p)))
      (filter (\<lambda>p. \<not> same_contents digest (recorded a p) (recorded b p)) ?ps)"
    using changed_headlines [OF es] changed_paths_are [OF es] known by simp
qed

text \<open>A first page without a next one has every entry.\<close>

lemma summary_loop_all: "summary_loop eenc es acc n = Inr shown \<Longrightarrow> \<exists>k. shown = acc @ take k es"
proof (induction es arbitrary: acc n)
  case (Cons e es)
  show ?case
  proof (cases "n + length (eenc e) > 64 * 1024")
    case True
    then show ?thesis using Cons.prems by (auto simp: Let_def result_simps intro: exI [of _ 0])
  next
    case False
    then have "summary_loop eenc es (acc @ [e]) (n + length (eenc e)) = Inr shown"
      using Cons.prems by (auto simp: Let_def result_simps)
    from Cons.IH [OF this] obtain k where "shown = (acc @ [e]) @ take k es" by blast
    then show ?thesis by (intro exI [of _ "Suc k"]) simp
  qed
qed simp

lemma first_page_all:
  assumes "summary_page eenc s 0 = Inr page" and "cs_next_offset page = None"
  shows "cs_entries page = cs_entries s" and "cs_truncated page = cs_truncated s" and "cs_unavailable page = cs_unavailable s"
proof -
  obtain shown where shown: "summary_loop eenc (take 64 (cs_entries s)) [] 0 = Inr shown"
    using assms(1) by (auto simp: summary_page_def Let_def and_then_eq_Inr)
  have len: "\<not> length shown < length (cs_entries s)"
  proof
    assume "length shown < length (cs_entries s)"
    then obtain k where "cs_next_offset page = Some k"
      using assms(1) shown by (auto simp: summary_page_def Let_def and_then_eq_Inr)
    with assms(2) show False by simp
  qed
  then have page: "cs_entries page = shown" "cs_truncated page = cs_truncated s" "cs_unavailable page = cs_unavailable s"
    using assms(1) shown by (auto simp: summary_page_def Let_def)
  from summary_loop_all [OF shown] obtain k where "shown = take k (take 64 (cs_entries s))" by auto
  then have "shown = cs_entries s" using len by (simp add: min_def split: if_splits)
  with page show "cs_entries page = cs_entries s" "cs_truncated page = cs_truncated s" "cs_unavailable page = cs_unavailable s"
    by simp_all
qed

text \<open>The summary and the snapshots of a frozen turn are read back as they were when it was frozen.\<close>

lemma kept_summary:
  assumes "summary_page eenc s 0 = Inr page"
    and "(if cs_next_offset page \<noteq> None
          then and_then (saved_summary digest cenc (Some st) s os) (\<lambda>(full, os). Inr (Some full, os)) else Inr (None, os)) = Inr (full, os')"
    and "(case full of None \<Rightarrow> Inr page | Some d \<Rightarrow> read_summary digest cdec later d) = Inr r"
    and "grows os' later" "intact digest later" and "reads_back later cenc cdec id"
  shows "grows os os' \<and> cs_entries r = cs_entries s \<and> cs_truncated r = cs_truncated s \<and> cs_unavailable r = cs_unavailable s"
proof (cases "cs_next_offset page")
  case None
  then show ?thesis using assms(2,3) first_page_all [OF assms(1)] by auto
next
  case (Some k)
  then obtain ob where ob: "save_object digest st (cenc s) os = Inr (ob, os')" and full: "full = Some (SummaryObject ob)"
    using assms(2) by (auto simp: saved_summary_def and_then_eq_Inr)
  obtain b where b: "read_object digest later ob = Inr b" "cdec b = Some r"
    using assms(3) full by (auto simp: read_summary_def result_simps)
  have ref: "refers digest later st ob (cenc s)" using save_object_refers(2) [OF ob] assms(4) by (rule refers_grows)
  have "b = cenc s" by (rule refers_read [OF b(1) grows_refl assms(5) ref])
  then show ?thesis using b(2) refers_reads_back [OF ref assms(6)] save_object_refers(1) [OF ob] by simp
qed

lemma page_result_eq_Inr [simp]: "page_result r = Inr x \<longleftrightarrow> r = Inr x"
  by (cases r) (simp_all add: page_result_def)

lemma freeze_parts:
  assumes "freeze_turn digest senc sdec cenc eenc numstat rid before after interrupted background os = Inr (t, os')"
  obtains a b s page full o1 o2 x y where "materialized digest sdec os before = Inr a" and "materialized digest sdec os after = Inr b"
    and "compare_loaded digest numstat os a b = Inr s" and "summary_page eenc s 0 = Inr page"
    and "(if cs_next_offset page \<noteq> None
          then and_then (saved_summary digest cenc (sn_storage a) s os) (\<lambda>(full, os). Inr (Some full, os)) else Inr (None, os)) = Inr (full, o1)"
    and "persist digest senc (keep_paths (map tc_path (cs_entries s)) a) o1 = Inr (x, o2)"
    and "persist digest senc (keep_paths (map tc_path (cs_entries s)) b) o2 = Inr (y, os')"
    and "t = \<lparr>ft_full_summary = full,
         ft_changes = \<lparr>tch_request_id = rid, tch_summary = page, tch_interrupted = interrupted,
                       tch_background_pending = background, tch_undo = UndoReady\<rparr>,
         ft_before = x, ft_after = y\<rparr>"
  using assms unfolding freeze_turn_def Let_def and_then_eq_Inr page_result_eq_Inr
  by (elim exE conjE) (auto simp: and_then_eq_Inr)

lemma frozen_read:
  assumes freeze: "freeze_turn digest senc sdec cenc eenc numstat rid before after interrupted background os = Inr (t, os')"
    and before: "stored_as digest senc os st before a" "attached st a" and after: "stored_as digest senc os st after b" "attached st b"
    and read: "turn_materialized digest sdec cdec later t = Inr m"
    and fin: "grows os' later" "intact digest later" "reads_back later senc sdec detached" "reads_back later cenc cdec id"
    and kept: "grows os later"
  obtains s where "compare_loaded digest numstat os a b = Inr s"
    and "cs_entries (tch_summary (ft_changes m)) = cs_entries s"
    and "cs_truncated (tch_summary (ft_changes m)) = cs_truncated s"
    and "cs_unavailable (tch_summary (ft_changes m)) = cs_unavailable s"
    and "ft_before m = keep_paths (map tc_path (cs_entries s)) a" and "ft_after m = keep_paths (map tc_path (cs_entries s)) b"
proof -
  obtain a' b' s page full o1 o2 x y where a': "materialized digest sdec os before = Inr a'" and b': "materialized digest sdec os after = Inr b'"
    and s: "compare_loaded digest numstat os a' b' = Inr s" and page: "summary_page eenc s 0 = Inr page"
    and full: "(if cs_next_offset page \<noteq> None
          then and_then (saved_summary digest cenc (sn_storage a') s os) (\<lambda>(full, os). Inr (Some full, os)) else Inr (None, os)) = Inr (full, o1)"
    and x: "persist digest senc (keep_paths (map tc_path (cs_entries s)) a') o1 = Inr (x, o2)"
    and y: "persist digest senc (keep_paths (map tc_path (cs_entries s)) b') o2 = Inr (y, os')"
    and t: "t = \<lparr>ft_full_summary = full,
         ft_changes = \<lparr>tch_request_id = rid, tch_summary = page, tch_interrupted = interrupted,
                       tch_background_pending = background, tch_undo = UndoReady\<rparr>,
         ft_before = x, ft_after = y\<rparr>"
    by (rule freeze_parts [OF freeze])
  let ?ps = "map tc_path (cs_entries s)"
  have a: "a' = a" by (rule materialized_stored [OF a' stored_grows [OF before(1) kept] kept fin(2) before(2) fin(3)])
  have b: "b' = b" by (rule materialized_stored [OF b' stored_grows [OF after(1) kept] kept fin(2) after(2) fin(3)])
  have sa: "sn_storage (keep_paths ?ps a) = Some st" "sn_manifest (keep_paths ?ps a) = None"
    and sb: "sn_storage (keep_paths ?ps b) = Some st" "sn_manifest (keep_paths ?ps b) = None"
    using before(2) after(2) by (simp_all add: attached_def keep_paths_def Let_def)
  note px = persist_stored [OF x [unfolded a] sa] and py = persist_stored [OF y [unfolded b] sb]
  have o2: "grows o2 later" using py(2) fin(1) by (rule grows_trans)
  have o1: "grows o1 later" using px(2) o2 by (rule grows_trans)
  have st: "sn_storage a' = Some st" using before(2) a by (simp add: attached_def)
  obtain r a'' b'' where r: "(case full of None \<Rightarrow> Inr page | Some d \<Rightarrow> read_summary digest cdec later d) = Inr r"
    and a'': "materialized digest sdec later x = Inr a''" and b'': "materialized digest sdec later y = Inr b''"
    and m: "tch_summary (ft_changes m) = r" "ft_before m = a''" "ft_after m = b''"
    using read by (cases full) (auto simp: turn_materialized_def t and_then_eq_Inr)
  have "a'' = keep_paths ?ps a"
    by (rule materialized_stored [OF a'' stored_grows [OF px(1) o2] grows_refl fin(2) attached_keep [OF before(2)] fin(3)])
  moreover have "b'' = keep_paths ?ps b"
    by (rule materialized_stored [OF b'' stored_grows [OF py(1) fin(1)] grows_refl fin(2) attached_keep [OF after(2)] fin(3)])
  moreover note kept_summary [OF page full [unfolded st] r o1 fin(2,4)]
  ultimately show thesis using that [of s] s a b m by simp
qed

lemma freeze_grows:
  assumes "freeze_turn digest senc sdec cenc eenc numstat rid before after interrupted background os = Inr (t, os')"
  shows "grows os os'"
proof -
  have persisted: "grows u u'" if "persist digest senc s u = Inr (x, u')" for s u x u'
    using that save_object_refers(1) by (auto simp: persist_def and_then_eq_Inr split: option.splits)
  have saved: "grows u u'" if "saved_summary digest cenc st s u = Inr (x, u')" for st s u x u'
    using that save_object_refers(1) by (auto simp: saved_summary_def and_then_eq_Inr split: option.splits)
  show ?thesis
  proof (rule freeze_parts [OF assms])
    fix a b s page full o1 o2 x y
    assume full: "(if cs_next_offset page \<noteq> None
          then and_then (saved_summary digest cenc (sn_storage a) s os) (\<lambda>(full, os). Inr (Some full, os)) else Inr (None, os)) = Inr (full, o1)"
      and x: "persist digest senc (keep_paths (map tc_path (cs_entries s)) a) o1 = Inr (x, o2)"
      and y: "persist digest senc (keep_paths (map tc_path (cs_entries s)) b) o2 = Inr (y, os')"
    have "grows os o1"
    proof (cases "cs_next_offset page")
      case (Some k)
      then obtain d where "saved_summary digest cenc (sn_storage a) s os = Inr (d, o1)"
        using full by (auto simp: and_then_eq_Inr)
      then show ?thesis by (rule saved)
    qed (use full in simp)
    from grows_trans [OF grows_trans [OF this persisted [OF x]] persisted [OF y]] show ?thesis .
  qed
qed

text \<open>Restricting a snapshot to the paths that changed keeps what it says of them.\<close>

lemma recorded_kept: "p \<in> set ps \<Longrightarrow> recorded (keep_paths ps s) p = recorded s p"
proof -
  assume p: "p \<in> set ps"
  have "map_of (filter (\<lambda>(q, _). q \<in> set ps) m) p = map_of m p" for m :: "(string \<times> contents option) list"
    by (induction m) (use p in auto)
  then show ?thesis by (simp add: recorded_def keep_paths_def Let_def)
qed

lemma mode_kept:
  assumes "p \<in> set ps" and "recorded s p = Some c"
  shows "map_of (sn_modes (keep_paths ps s)) p = map_of (sn_modes s) p"
proof -
  have "map_of (sn_files s) p = Some (Some c)" using assms(2) by (auto simp: recorded_def split: option.splits)
  then have "p \<in> fst ` set (filter (\<lambda>(q, _). q \<in> set ps) (sn_files s))" using assms(1) map_of_SomeD by force
  moreover have "map_of (filter (\<lambda>(q, _). q \<in> Q) m) p = map_of m p" if "p \<in> Q" for Q and m :: "(string \<times> u32) list"
    by (induction m) (use that in auto)
  ultimately show ?thesis by (simp add: keep_paths_def Let_def)
qed

text \<open>The directory changed by a turn, as the two captures see it.\<close>

definition turn_differences :: "worktree \<Rightarrow> string list \<Rightarrow> worktree \<Rightarrow> string list \<Rightarrow> string list" where
  "turn_differences w0 ps0 w1 ps1 =
     filter (\<lambda>p. seen w0 ps0 p \<noteq> seen w1 ps1 p) (sorted_list_of_set (set ps0 \<union> set ps1))"

text \<open>A frozen turn that was read back, from its two captures.\<close>

lemma frozen_turn_is:
  assumes first: "capture digest senc at0 (Some st) in0 opens0 inv0 w0 os0 = Inr (before, os1)" and "grows os1 os2"
    and second: "capture digest senc at1 (Some st) in1 opens1 inv1 w1 os2 = Inr (after, os3)" and "grows os3 os4"
    and freeze: "freeze_turn digest senc sdec cenc eenc numstat rid before after interrupted background os4 = Inr (t, os5)"
    and "grows os5 later" and later: "intact digest later" and codecs: "reads_back later senc sdec detached" "reads_back later cenc cdec id"
    and read: "turn_materialized digest sdec cdec later t = Inr m" and whole: "\<not> cs_truncated (tch_summary (ft_changes m))"
  obtains a b where "records digest later st w0 (fst inv0) a" and "\<not> sn_truncated a"
    and "records digest later st w1 (fst inv1) b" and "\<not> sn_truncated b"
    and "ft_before m = keep_paths (entry_paths m) a" and "ft_after m = keep_paths (entry_paths m) b"
    and "map headline (cs_entries (tch_summary (ft_changes m))) =
      map (\<lambda>p. (p, if seen w0 (fst inv0) p = None then ''A'' else if seen w1 (fst inv1) p = None then ''D'' else ''M''))
        (turn_differences w0 (fst inv0) w1 (fst inv1))"
proof -
  have os5: "grows os4 os5" by (rule freeze_grows [OF freeze])
  have os4: "grows os4 later" using os5 assms(6) by (rule grows_trans)
  have os3: "grows os3 later" using assms(4) os4 by (rule grows_trans)
  show thesis
  proof (rule capture_stored [OF first], rule capture_stored [OF second])
    fix a b
    assume a: "records digest os1 st w0 (fst inv0) a" "stored_as digest senc os1 st before a"
      and b: "records digest os3 st w1 (fst inv1) b" "stored_as digest senc os3 st after b" "grows os2 os3"
    have os1: "grows os1 os4" using grows_trans [OF assms(2) grows_trans [OF b(3) assms(4)]] .
    note ra = records_grows [OF a(1) grows_trans [OF os1 os4]] and rb = records_grows [OF b(1) os3]
    show thesis
    proof (rule frozen_read [OF freeze stored_grows [OF a(2) os1] records_attached [OF ra] stored_grows [OF b(2) assms(4)]
          records_attached [OF rb] read assms(6) later codecs os4])
      fix s
      assume s: "compare_loaded digest numstat os4 a b = Inr s" and e: "cs_entries (tch_summary (ft_changes m)) = cs_entries s"
        and tr: "cs_truncated (tch_summary (ft_changes m)) = cs_truncated s"
        and ps: "ft_before m = keep_paths (map tc_path (cs_entries s)) a" "ft_after m = keep_paths (map tc_path (cs_entries s)) b"
      have "sn_unavailable a = None" "sn_unavailable b = None" using a(1) b(1) by (simp_all add: records_def)
      note c = compare_loaded_are [OF s _ this]
      have na: "\<not> sn_truncated a" and nb: "\<not> sn_truncated b" using c(1,2) whole tr by simp_all
      note same = same_contents_seen [OF later ra na rb nb]
      have "map headline (cs_entries s) =
          map (\<lambda>p. (p, if seen w0 (fst inv0) p = None then ''A'' else if seen w1 (fst inv1) p = None then ''D'' else ''M''))
            (turn_differences w0 (fst inv0) w1 (fst inv1))"
        using c(4) whole tr by (simp add: same records_keys [OF ra na] records_keys [OF rb nb] turn_differences_def)
      then show thesis using that [OF ra na rb nb] ps e by (simp add: entry_paths_def)
    qed
  qed
qed

lemma entry_paths_are: "map headline (cs_entries (tch_summary (ft_changes m))) = map (\<lambda>p. (p, f p)) ps \<Longrightarrow> entry_paths m = ps"
proof -
  assume "map headline (cs_entries (tch_summary (ft_changes m))) = map (\<lambda>p. (p, f p)) ps"
  then have "map fst (map headline (cs_entries (tch_summary (ft_changes m)))) = map fst (map (\<lambda>p. (p, f p)) ps)" by simp
  then show ?thesis by (simp add: entry_paths_def headline_def comp_def)
qed

lemma undone_brought_back:
  assumes "records digest os st w ps a" and "\<not> sn_truncated a" and "intact digest os"
    and "ft_before m = keep_paths (entry_paths m) a" and "p \<in> set (entry_paths m)" and "undone digest os m p nd"
  shows "nd = brought_back w ps p"
proof (cases "recorded a p")
  case None
  then show ?thesis using assms(4-6) records_at [OF assms(1,2), of p] by (simp add: undone_def recorded_kept)
next
  case (Some c)
  then obtain ob b mode where c: "c = Object ob" and ref: "refers digest os st ob b" and mode: "map_of (sn_modes a) p = Some mode"
    and nb: "brought_back w ps p = Some (FileNode b (restored_mode mode))"
    using records_at [OF assms(1,2), of p] by auto
  obtain x where x: "contents_bytes digest os c = Inr x" and nd: "nd = Some (FileNode x (restored_mode mode))"
    using assms(4-6) Some mode mode_kept [OF assms(5) Some] by (auto simp: undone_def recorded_kept)
  have "read_object digest os ob = Inr x" using x c by (simp add: contents_bytes_def)
  from refers_read [OF this grows_refl assms(3) ref] show ?thesis using nd nb by simp
qed

section \<open>A restoration that was checked goes through\<close>

lemma verify_names_other:
  assumes "verify_names w before ns = Inr ()" and "at_p \<noteq> before @ ns" and "wt_node w at_p \<noteq> Some DirNode"
  shows "verify_names (set_node at_p nd w) before ns = Inr ()"
  using assms
proof (induction ns arbitrary: before)
  case (Cons n ns)
  show ?case
  proof (cases "at_p = before @ [n]")
    case True
    then show ?thesis using Cons.prems by (cases "wt_node w at_p") (auto split: node.splits if_splits)
  next
    case False
    then have "wt_node (set_node at_p nd w) (before @ [n]) = wt_node w (before @ [n])" by (simp add: set_node_def)
    then show ?thesis using Cons.prems Cons.IH [of "before @ [n]"] by (auto split: option.splits node.splits if_splits)
  qed
qed simp

lemma verify_current_other:
  assumes "verify_current digest t w p = Inr ns" and "verify_current digest t w q = Inr at_q" and "ns \<noteq> at_q"
  shows "verify_current digest t (set_node at_q nd w) p = Inr ns"
proof -
  have "wt_node w at_q \<noteq> Some DirNode" using verified [OF assms(2)] by (auto simp: as_left_def split: option.splits)
  then have "verify_names (set_node at_q nd w) [] ns = Inr ()"
    using assms(1,3) by (intro verify_names_other) (auto simp: verify_current_def result_simps)
  moreover have "wt_node (set_node at_q nd w) ns = wt_node w ns" "wt_identity (set_node at_q nd w) = wt_identity w"
    "root_unchanged t (set_node at_q nd w) = root_unchanged t w"
    using assms(3) by (simp_all add: set_node_def root_unchanged_def)
  ultimately show ?thesis using assms(1) by (auto simp: verify_current_def result_simps)
qed

lemma for_each_unit: "for_each (\<lambda>_ x. f x) () xs = Inr () \<longleftrightarrow> list_all (\<lambda>x. f x = Inr ()) xs"
  by (induction xs) (auto simp: and_then_eq_Inr)

definition restorable :: "(bytes \<Rightarrow> string) \<Rightarrow> object_store \<Rightarrow> frozen_turn \<Rightarrow> string \<Rightarrow> bool" where
  "restorable digest os t p \<longleftrightarrow>
     (case recorded (ft_before t) p of
        None \<Rightarrow> recorded (ft_after t) p \<noteq> None
      | Some c \<Rightarrow> map_of (sn_modes (ft_before t)) p \<noteq> None \<and> (case contents_bytes digest os c of Inl _ \<Rightarrow> False | Inr _ \<Rightarrow> True))"

lemma restore_entry_ok:
  assumes "verify_current digest t w p = Inr ns" and "restorable digest os t p" and "dk_temporary disk p" "dk_replace disk p"
  obtains nd where "restore_entry digest os disk t p w = (Inr (), set_node ns nd w)"
proof (cases "recorded (ft_before t) p")
  case None
  then have "wt_node w ns \<noteq> None" using assms(2) verified [OF assms(1)] by (cases "wt_node w ns") (auto simp: restorable_def as_left_def)
  then show thesis using None assms that by (simp add: restore_entry_def eff_simps)
next
  case (Some c)
  then obtain mode b where mode: "map_of (sn_modes (ft_before t)) p = Some mode" and b: "contents_bytes digest os c = Inr b"
    using assms(2) by (auto simp: restorable_def split: sum.splits)
  have "recorded (ft_after t) p = None \<longrightarrow> wt_node w ns = None"
    using verified [OF assms(1)] by (auto simp: as_left_def split: option.splits node.splits)
  then show thesis using Some mode b assms that by (simp add: restore_entry_def restore_file_def eff_simps)
qed

lemma restore_all_ok:
  assumes "\<forall>p \<in> set ps. dk_temporary disk p \<and> dk_replace disk p \<and> restorable digest os t p \<and> verify_current digest t w p = Inr (at_path p)"
    and "distinct ps" and "inj_on at_path (set ps)"
  shows "fst (each (restore_entry digest os disk t) ps w) = Inr ()"
  using assms
proof (induction ps arbitrary: w)
  case (Cons p ps)
  obtain nd where one: "restore_entry digest os disk t p w = (Inr (), set_node (at_path p) nd w)"
    using restore_entry_ok [of digest t w p "at_path p" os disk] Cons.prems(1) by auto
  have "verify_current digest t (set_node (at_path p) nd w) q = Inr (at_path q)" if q: "q \<in> set ps" for q
  proof (rule verify_current_other)
    show "at_path q \<noteq> at_path p" using Cons.prems(2,3) q by (auto simp: inj_on_def)
  qed (use Cons.prems(1) q in auto)
  then have "fst (each (restore_entry digest os disk t) ps (set_node (at_path p) nd w)) = Inr ()"
    using Cons.prems by (intro Cons.IH) auto
  then show ?case using one by (simp add: eff_simps)
qed (simp add: eff_simps)

end
