(* ===== verification/UndoSample.thy ===== *)
theory UndoSample
  imports UndoTurns
begin

text \<open>
  A turn that changes one file and adds another, on concrete stand-ins for the hash, the encodings and git: its
  captures, its frozen form, the check and the restoration. The claims are applied to it.
\<close>

definition ex_digest :: "bytes \<Rightarrow> string" where
  "ex_digest b = (let n = length b mod 64 in replicate n (CHR ''a'') @ replicate (64 - n) (CHR ''b''))"

definition ex_object :: "bytes \<Rightarrow> snap_object" where
  "ex_object b = \<lparr>ob_key = ex_digest b, ob_size = length b, ob_root = ''objects''\<rparr>"

definition ex_first :: snapshot where
  "ex_first = \<lparr>sn_at = 0, sn_root_identity = Some (1, 1), sn_files = [(''a'', Some (Object (ex_object [1])))], sn_manifest = None,
     sn_storage = Some ''objects'', sn_modes = [(''a'', 0x81A4)], sn_truncated = False, sn_unavailable = None\<rparr>"

definition ex_second :: snapshot where
  "ex_second = \<lparr>sn_at = 1, sn_root_identity = Some (1, 1), sn_files = [(''a'', Some (Object (ex_object [1, 2]))), (''b'', Some (Object (ex_object [1, 2, 3])))],
     sn_manifest = None, sn_storage = Some ''objects'', sn_modes = [(''a'', 0x81A4), (''b'', 0x81ED)], sn_truncated = False,
     sn_unavailable = None\<rparr>"

definition ex_senc :: "snapshot \<Rightarrow> bytes" where
  "ex_senc s = (if s = ex_first then [0, 0, 0, 1] else if s = ex_second then [0, 0, 0, 0, 2] else [])"

definition ex_sdec :: "bytes \<Rightarrow> snapshot option" where
  "ex_sdec b = (if length b = 4 then Some (detached ex_first) else if length b = 5 then Some (detached ex_second) else None)"

definition ex_tree :: "(string list \<times> node) list \<Rightarrow> worktree" where
  "ex_tree nodes = \<lparr>wt_node = map_of nodes, wt_identity = Some (1, 1), wt_root_link = False, wt_behind = (\<lambda>_. Inl OtherIo), wt_inside = (\<lambda>_. False)\<rparr>"

definition ex_old :: worktree where
  "ex_old = ex_tree [([''a''], FileNode [1] 0x81A4)]"

definition ex_new :: worktree where
  "ex_new = ex_tree [([''a''], FileNode [1, 2] 0x81A4), ([''b''], FileNode [1, 2, 3] 0x81ED)]"

definition ex_text :: string where
  "ex_text = ''1'' @ [CHR 0x09] @ ''1'' @ [CHR 0x09] @ ''after/0'' @ [CHR 0x00] @
     ''2'' @ [CHR 0x09] @ ''0'' @ [CHR 0x09] @ [CHR 0x00] @ ''/dev/null'' @ [CHR 0x00] @ ''after/1'' @ [CHR 0x00]"

definition ex_numstat :: "(nat \<times> bytes) list \<Rightarrow> (nat \<times> bytes) list \<Rightarrow> string option" where
  "ex_numstat a b = Some ex_text"

definition ex_store :: "bytes list \<Rightarrow> object_store" where
  "ex_store bs = \<lparr>os_files = (\<lambda>rt. if rt = ''objects'' then map_of (map (\<lambda>b. (ex_digest b, b)) bs) else (\<lambda>_. None)),
     os_puts = map (Pair ''objects'') bs\<rparr>"

lemma ex_digest_key: "object_key_ok (ex_digest b)"
proof -
  have "hex_digit (CHR ''a'')" "hex_digit (CHR ''b'')" by (simp_all add: hex_digit_def)
  moreover have "length b mod 64 < 64" by simp
  ultimately show ?thesis by (simp add: object_key_ok_def ex_digest_def list_all_iff Let_def)
qed

lemma ex_digest_eq: "length a < 16 \<Longrightarrow> length b < 16 \<Longrightarrow> ex_digest a = ex_digest b \<longleftrightarrow> length a = length b"
proof -
  assume short: "length a < 16" "length b < 16"
  have "length (takeWhile (\<lambda>c. c = CHR ''a'') (ex_digest x)) = length x" if "length x < 16" for x
    using that by (simp add: ex_digest_def Let_def takeWhile_append)
  with short show ?thesis by (metis ex_digest_def)
qed

definition ex_told :: "bytes list \<Rightarrow> bool" where
  "ex_told bs \<longleftrightarrow> (\<forall>b \<in> set bs. length b < 16 \<and> (\<forall>c \<in> set bs. length b = length c \<longrightarrow> b = c))"

lemma ex_find: "ex_told bs \<Longrightarrow> b \<in> set bs \<Longrightarrow> map_of (map (\<lambda>b. (ex_digest b, b)) bs) (ex_digest b) = Some b"
  by (induction bs) (auto simp: ex_told_def ex_digest_eq)

lemma ex_file: "ex_told bs \<Longrightarrow> b \<in> set bs \<Longrightarrow> object_file (ex_store bs) (ex_object b) = Inr b"
  by (simp add: object_file_def ex_object_def ex_store_def ex_digest_key ex_find)

lemma ex_read: "ex_told bs \<Longrightarrow> b \<in> set bs \<Longrightarrow> read_object ex_digest (ex_store bs) (ex_object b) = Inr b"
  by (simp add: read_object_def ex_file) (simp add: ex_object_def)

lemma ex_save:
  assumes "ex_told (bs @ [b])"
  shows "save_object ex_digest ''objects'' b (ex_store bs) = Inr (ex_object b, ex_store (bs @ [b]))"
proof -
  let ?m = "\<lambda>bs. map_of (map (\<lambda>b. (ex_digest b, b)) bs)" and ?k = "ex_digest b"
  have files: "(if os_files (ex_store bs) ''objects'' ?k = None
      then (os_files (ex_store bs))(''objects'' := (os_files (ex_store bs) ''objects'')(?k \<mapsto> b)) else os_files (ex_store bs)) =
      os_files (ex_store (bs @ [b]))"
  proof (cases "?m bs ?k")
    case None
    then have "?m (bs @ [b]) = (?m bs)(?k \<mapsto> b)" by (intro ext) (simp add: map_add_def split: option.split)
    then show ?thesis using None by (intro ext) (simp add: ex_store_def del: map_append)
  next
    case (Some c)
    then have "?m (bs @ [b]) = ?m bs" by (intro ext) (simp add: map_add_def split: option.split)
    then show ?thesis using Some by (intro ext) (simp add: ex_store_def del: map_append)
  qed
  have puts: "os_puts (ex_store bs) @ [(''objects'', b)] = os_puts (ex_store (bs @ [b]))" by (simp add: ex_store_def)
  have "(ex_store bs)\<lparr>os_files := (if os_files (ex_store bs) ''objects'' ?k = None
      then (os_files (ex_store bs))(''objects'' := (os_files (ex_store bs) ''objects'')(?k \<mapsto> b)) else os_files (ex_store bs)),
      os_puts := os_puts (ex_store bs) @ [(''objects'', b)]\<rparr> = ex_store (bs @ [b])"
    unfolding files puts by (simp add: ex_store_def)
  then show ?thesis using ex_file [OF assms, of b] unfolding save_object_def Let_def ex_object_def by simp
qed

definition ex_stored :: "snapshot \<Rightarrow> snapshot" where
  "ex_stored s = s\<lparr>sn_files := [], sn_modes := [], sn_manifest := Some (ex_object (ex_senc s)),
     sn_unavailable := Some separate_storage, sn_root_identity := None\<rparr>"

lemma ex_persist:
  "ex_told (bs @ [ex_senc s]) \<Longrightarrow> sn_storage s = Some ''objects'' \<Longrightarrow> sn_manifest s = None \<Longrightarrow>
   persist ex_digest ex_senc s (ex_store bs) = Inr (ex_stored s, ex_store (bs @ [ex_senc s]))"
  by (simp add: persist_def ex_save ex_stored_def)

lemma ex_encodings: "ex_senc ex_first = [0, 0, 0, 1]" "ex_senc ex_second = [0, 0, 0, 0, 2]"
  by (simp_all add: ex_senc_def) (simp add: ex_first_def ex_second_def)

lemma ex_lstat:
  "lstat ex_old ''a'' = Inr (FileNode [1] 0x81A4)" "lstat ex_new ''a'' = Inr (FileNode [1, 2] 0x81A4)"
  "lstat ex_new ''b'' = Inr (FileNode [1, 2, 3] 0x81ED)"
  by code_simp+

lemma ex_resolved:
  "resolve_entry ex_old ''a'' = Inr (FileNode [1] 0x81A4)" "resolve_entry ex_new ''a'' = Inr (FileNode [1, 2] 0x81A4)"
  "resolve_entry ex_new ''b'' = Inr (FileNode [1, 2, 3] 0x81ED)"
  by code_simp+

lemma ex_path:
  assumes "sn_storage s = Some ''objects''" and "map_of (sn_files s) p = None" and "lstat w p = Inr (FileNode b mode)"
    and "resolve_entry w p = Inr (FileNode b mode)" and "ex_told (bs @ [b])"
  shows "capture_path ex_digest w (\<lambda>_. True) p (s, ex_store bs) = Inr (path_saved p mode (Object (ex_object b)) s, ex_store (bs @ [b]))"
  using assms by (simp add: capture_path_def capture_found_def capture_contents_def if_present_def ex_save)

definition ex_empty :: "rat \<Rightarrow> snapshot" where
  "ex_empty now = \<lparr>sn_at = now, sn_root_identity = Some (1, 1), sn_files = [], sn_manifest = None, sn_storage = Some ''objects'',
     sn_modes = [], sn_truncated = False, sn_unavailable = None\<rparr>"

lemma ex_capture:
  assumes "for_each (\<lambda>st p. capture_path ex_digest w (\<lambda>_. True) p st) (ex_empty now, ex_store bs) ps = Inr (s, ex_store cs)"
    and "wt_identity w = Some (1, 1)" and "ex_told (cs @ [ex_senc s])" and "sn_storage s = Some ''objects''" "sn_manifest s = None"
  shows "capture ex_digest ex_senc now (Some ''objects'') False (\<lambda>_. True) (ps, False) w (ex_store bs) =
    Inr (ex_stored s, ex_store (cs @ [ex_senc s]))"
  using assms by (simp add: capture_def ex_empty_def ex_persist)

lemma ex_captures:
  "capture ex_digest ex_senc 0 (Some ''objects'') False (\<lambda>_. True) ([''a''], False) ex_old (ex_store []) =
     Inr (ex_stored ex_first, ex_store [[1], [0, 0, 0, 1]])"
  "capture ex_digest ex_senc 1 (Some ''objects'') False (\<lambda>_. True) ([''b'', ''a''], False) ex_new (ex_store [[1], [0, 0, 0, 1]]) =
     Inr (ex_stored ex_second, ex_store [[1], [0, 0, 0, 1], [1, 2, 3], [1, 2], [0, 0, 0, 0, 2]])"
proof -
  have ids: "wt_identity ex_old = Some (1, 1)" "wt_identity ex_new = Some (1, 1)"
    by (simp_all add: ex_old_def ex_new_def ex_tree_def)
  have first: "for_each (\<lambda>st p. capture_path ex_digest ex_old (\<lambda>_. True) p st) (ex_empty 0, ex_store []) [''a''] = Inr (ex_first, ex_store [[1]])"
    by (simp add: ex_path ex_lstat ex_resolved ex_empty_def ex_told_def ex_first_def path_saved_def)
  have "for_each (\<lambda>st p. capture_path ex_digest ex_new (\<lambda>_. True) p st) (ex_empty 1, ex_store [[1], [0, 0, 0, 1]]) [''b'', ''a''] =
      Inr (ex_second, ex_store [[1], [0, 0, 0, 1], [1, 2, 3], [1, 2]])"
    by (simp add: ex_path ex_lstat ex_resolved ex_empty_def ex_told_def ex_second_def path_saved_def)
  from ex_capture [OF first ids(1)] ex_capture [OF this ids(2)]
  show "capture ex_digest ex_senc 0 (Some ''objects'') False (\<lambda>_. True) ([''a''], False) ex_old (ex_store []) =
     Inr (ex_stored ex_first, ex_store [[1], [0, 0, 0, 1]])"
   "capture ex_digest ex_senc 1 (Some ''objects'') False (\<lambda>_. True) ([''b'', ''a''], False) ex_new (ex_store [[1], [0, 0, 0, 1]]) =
     Inr (ex_stored ex_second, ex_store [[1], [0, 0, 0, 1], [1, 2, 3], [1, 2], [0, 0, 0, 0, 2]])"
    by (simp_all add: ex_encodings ex_told_def) (simp_all add: ex_first_def ex_second_def)
qed

text \<open>The turn that these captures freeze, and what undoing it does.\<close>

definition ex_disk :: disk where
  "ex_disk = \<lparr>dk_temporary = (\<lambda>_. True), dk_replace = (\<lambda>_. True)\<rparr>"

definition ex_summary :: change_summary where
  "ex_summary =
     \<lparr>cs_entries = [\<lparr>tc_path = ''a'', tc_status = ''M'', tc_added = Some 1, tc_removed = Some 1\<rparr>,
                    \<lparr>tc_path = ''b'', tc_status = ''A'', tc_added = Some 2, tc_removed = Some 0\<rparr>],
      cs_total_files = None, cs_next_offset = None, cs_offset = None, cs_added = 3, cs_removed = 1,
      cs_binary_files = 0, cs_truncated = False, cs_baseline_at = Some 0, cs_unavailable = None\<rparr>"

definition ex_turn :: "snapshot \<Rightarrow> snapshot \<Rightarrow> frozen_turn" where
  "ex_turn before after =
     \<lparr>ft_full_summary = None,
      ft_changes = \<lparr>tch_request_id = ''r'', tch_summary = ex_summary, tch_interrupted = False, tch_background_pending = False, tch_undo = UndoReady\<rparr>,
      ft_before = before, ft_after = after\<rparr>"

definition ex_objects :: object_store where
  "ex_objects = ex_store [[1], [0, 0, 0, 1], [1, 2, 3], [1, 2], [0, 0, 0, 0, 2], [0, 0, 0, 1], [0, 0, 0, 0, 2]]"

lemma ex_told: "ex_told [[1], [0, 0, 0, 1], [1, 2, 3], [1, 2], [0, 0, 0, 0, 2], [0, 0, 0, 1], [0, 0, 0, 0, 2]]"
  by (simp add: ex_told_def)

lemma ex_told_take: "ex_told (take k [[1], [0, 0, 0, 1], [1, 2, 3], [1, 2], [0, 0, 0, 0, 2], [0, 0, 0, 1], [0, 0, 0, 0, 2]])"
  using ex_told set_take_subset unfolding ex_told_def by fast

lemma ex_attached: "attached ''objects'' ex_first" "attached ''objects'' ex_second"
  by (simp_all add: attached_def ex_first_def ex_second_def contents_attach_def ex_object_def)

lemma ex_sdec: "ex_sdec [0, 0, 0, 1] = Some (detached ex_first)" "ex_sdec [0, 0, 0, 0, 2] = Some (detached ex_second)"
  by (simp_all add: ex_sdec_def)

lemma ex_materialized:
  assumes "ex_told bs" and "ex_senc s \<in> set bs" and "ex_sdec (ex_senc s) = Some (detached s)" and "attached ''objects'' s"
  shows "materialized ex_digest ex_sdec (ex_store bs) (ex_stored s) = Inr s"
proof -
  have "sn_manifest (ex_stored s) = Some (ex_object (ex_senc s))" "sn_storage (ex_stored s) = Some ''objects''"
    using assms(4) by (simp_all add: ex_stored_def attached_def)
  then show ?thesis using assms attach_detached [OF assms(4)] by (simp add: materialized_def ex_read)
qed

lemma ex_materialized_both:
  assumes "ex_told bs" and "[0, 0, 0, 1] \<in> set bs" "[0, 0, 0, 0, 2] \<in> set bs"
  shows "materialized ex_digest ex_sdec (ex_store bs) (ex_stored ex_first) = Inr ex_first"
    and "materialized ex_digest ex_sdec (ex_store bs) (ex_stored ex_second) = Inr ex_second"
  using assms by (simp_all add: ex_materialized ex_attached ex_encodings ex_sdec)

definition ex_five :: "bytes list" where
  "ex_five = [[1], [0, 0, 0, 1], [1, 2, 3], [1, 2], [0, 0, 0, 0, 2]]"

lemma ex_told_five: "ex_told ex_five"
  by (simp add: ex_five_def ex_told_def)

lemma ex_changes:
  "changed_paths ex_digest (ex_store ex_five) ex_first ex_second [''a'', ''b''] =
     Inr ([(\<lparr>tc_path = ''a'', tc_status = ''M'', tc_added = None, tc_removed = None\<rparr>, Some [1], Some [1, 2]),
           (\<lparr>tc_path = ''b'', tc_status = ''A'', tc_added = None, tc_removed = None\<rparr>, None, Some [1, 2, 3])], False)"
proof -
  have r: "recorded ex_first ''a'' = Some (Object (ex_object [1]))" "recorded ex_first ''b'' = None"
    "recorded ex_second ''a'' = Some (Object (ex_object [1, 2]))" "recorded ex_second ''b'' = Some (Object (ex_object [1, 2, 3]))"
    "\<not> sn_truncated ex_first" "\<not> sn_truncated ex_second"
    by (simp_all add: recorded_def ex_first_def ex_second_def)
  have "[1] \<in> set ex_five" "[1, 2] \<in> set ex_five" "[1, 2, 3] \<in> set ex_five" by (simp_all add: ex_five_def)
  then have s: "side_bytes ex_digest (ex_store ex_five) (Some (Object (ex_object [1]))) = Inr (Some [1])"
    "side_bytes ex_digest (ex_store ex_five) (Some (Object (ex_object [1, 2]))) = Inr (Some [1, 2])"
    "side_bytes ex_digest (ex_store ex_five) (Some (Object (ex_object [1, 2, 3]))) = Inr (Some [1, 2, 3])"
    "side_bytes ex_digest (ex_store ex_five) None = Inr None"
    by (simp_all add: side_bytes_def contents_bytes_def ex_read [OF ex_told_five])
  have "ex_digest [1] \<noteq> ex_digest [1, 2]" by (simp add: ex_digest_eq)
  then have "\<not> same_contents ex_digest (Some (Object (ex_object [1]))) (Some (Object (ex_object [1, 2])))"
    "\<not> same_contents ex_digest None (Some (Object (ex_object [1, 2, 3])))"
    by (simp_all add: same_contents_def contents_eq_def contents_digest_def ex_object_def)
  then show ?thesis by (simp add: r s unknown_change_def change_status_def)
qed

lemma ex_compared: "compare_loaded ex_digest ex_numstat (ex_store ex_five) ex_first ex_second = Inr ex_summary"
proof -
  have paths: "remdups (sort (map fst (sn_files ex_first) @ map fst (sn_files ex_second))) = [''a'', ''b'']"
    by code_simp
  let ?es = "[\<lparr>tc_path = ''a'', tc_status = ''M'', tc_added = None, tc_removed = None\<rparr>, \<lparr>tc_path = ''b'', tc_status = ''A'', tc_added = None, tc_removed = None\<rparr>]"
  have lines: "split_on (CHR 0x00) ex_text =
      [''1'' @ [CHR 0x09] @ ''1'' @ [CHR 0x09] @ ''after/0'', ''2'' @ [CHR 0x09] @ ''0'' @ [CHR 0x09], ''/dev/null'', ''after/1'', []]"
    by code_simp
  have parts: "three_fields (''1'' @ [CHR 0x09] @ ''1'' @ [CHR 0x09] @ ''after/0'') = Some (''1'', ''1'', ''after/0'')"
    "three_fields (''2'' @ [CHR 0x09] @ ''0'' @ [CHR 0x09]) = Some (''2'', ''0'', [])"
    "split_on (CHR ''/'') ''after/0'' = [''after'', ''0'']" "split_on (CHR ''/'') ''after/1'' = [''after'', ''1'']"
    "decimal ''0'' = Some 0" "decimal ''1'' = Some 1" "decimal ''2'' = Some 2" by code_simp+
  have nums: "parse_usize ''0'' = Some 0" "parse_usize ''1'' = Some 1" "parse_u32 ''0'' = Some 0" "parse_u32 ''1'' = Some 1" "parse_u32 ''2'' = Some 2"
    by (simp_all add: parse_usize_def parse_u32_def parts)
  have stats: "stat_records (split_on (CHR 0x00) ex_text) ((empty_summary ex_first)\<lparr>cs_truncated := False, cs_entries := ?es\<rparr>) = ex_summary"
    unfolding lines
    by (simp add: parts nums stat_record_def del: append.simps) (simp add: empty_summary_def ex_first_def ex_summary_def)
  have "sn_unavailable ex_first = None" "sn_unavailable ex_second = None" "sn_root_identity ex_first = sn_root_identity ex_second"
    "\<not> sn_truncated ex_first" "\<not> sn_truncated ex_second"
    by (simp_all add: ex_first_def ex_second_def empty_summary_def)
  moreover have "\<not> cs_truncated (empty_summary ex_first)" by (simp add: ex_first_def empty_summary_def)
  ultimately show ?thesis unfolding stats [symmetric]
    by (simp add: compare_loaded_def paths ex_changes ex_numstat_def del: changed_paths.simps)
qed

lemma ex_frozen:
  "freeze_turn ex_digest ex_senc ex_sdec (\<lambda>_. []) (\<lambda>_. []) ex_numstat ''r'' (ex_stored ex_first) (ex_stored ex_second) False False
     (ex_store [[1], [0, 0, 0, 1], [1, 2, 3], [1, 2], [0, 0, 0, 0, 2]]) =
   Inr (ex_turn (ex_stored ex_first) (ex_stored ex_second), ex_objects)"
proof -
  have page: "summary_page (\<lambda>_. []) ex_summary 0 = Inr ex_summary"
    by (simp add: summary_page_def ex_summary_def Let_def)
  have "keep_paths [''a'', ''b''] ex_first = ex_first" "keep_paths [''a'', ''b''] ex_second = ex_second"
    by (simp_all add: keep_paths_def ex_first_def ex_second_def)
  then have kept: "keep_paths (map tc_path (cs_entries ex_summary)) ex_first = ex_first"
    "keep_paths (map tc_path (cs_entries ex_summary)) ex_second = ex_second" by (simp_all add: ex_summary_def)
  have p: "persist ex_digest ex_senc ex_first (ex_store ex_five) = Inr (ex_stored ex_first, ex_store (ex_five @ [[0, 0, 0, 1]]))"
    "persist ex_digest ex_senc ex_second (ex_store (ex_five @ [[0, 0, 0, 1]])) =
       Inr (ex_stored ex_second, ex_store ((ex_five @ [[0, 0, 0, 1]]) @ [[0, 0, 0, 0, 2]]))"
    using ex_told_take [of 6] ex_told ex_attached
    by (simp_all add: ex_persist ex_encodings ex_five_def attached_def)
  have m: "materialized ex_digest ex_sdec (ex_store ex_five) (ex_stored ex_first) = Inr ex_first"
    "materialized ex_digest ex_sdec (ex_store ex_five) (ex_stored ex_second) = Inr ex_second"
    using ex_materialized_both [OF ex_told_five] by (simp_all add: ex_five_def)
  have "cs_next_offset ex_summary = None" by (simp add: ex_summary_def)
  then show ?thesis unfolding ex_five_def [symmetric]
    by (simp add: freeze_turn_def m ex_compared page page_result_def kept p ex_turn_def) (simp add: ex_five_def ex_objects_def)
qed

lemma ex_intact_store: "ex_told bs \<Longrightarrow> intact ex_digest (ex_store bs)"
  by (simp add: intact_def ex_store_def list_all_iff ex_find)

lemma ex_intact: "intact ex_digest ex_objects"
  using ex_intact_store [OF ex_told] by (simp add: ex_objects_def)

lemma ex_codecs: "reads_back ex_objects ex_senc ex_sdec detached" "reads_back ex_objects (\<lambda>_. []) (\<lambda>_. None) id"
proof -
  have puts: "snd ` set (os_puts ex_objects) = {[1], [0, 0, 0, 1], [1, 2, 3], [1, 2], [0, 0, 0, 0, 2]}"
    by (auto simp: ex_objects_def ex_store_def)
  show "reads_back ex_objects ex_senc ex_sdec detached" "reads_back ex_objects (\<lambda>_. []) (\<lambda>_. None) id"
    unfolding reads_back_def puts by (auto simp: ex_senc_def ex_sdec_def split: if_splits)
qed

lemma ex_turn_read:
  "turn_materialized ex_digest ex_sdec (\<lambda>_. None) ex_objects (ex_turn (ex_stored ex_first) (ex_stored ex_second)) = Inr (ex_turn ex_first ex_second)"
  using ex_materialized_both [OF ex_told] by (simp add: turn_materialized_def ex_turn_def ex_objects_def)

lemma ex_verify:
  "verify_current ex_digest (ex_turn ex_first ex_second) ex_new ''a'' = Inr [''a'']"
  "verify_current ex_digest (ex_turn ex_first ex_second) ex_new ''b'' = Inr [''b'']"
proof -
  have n: "names ''a'' = Some [''a'']" "names ''b'' = Some [''b'']" "validate_path ''a'' = Inr ()" "validate_path ''b'' = Inr ()"
    by code_simp+
  have t: "wt_node ex_new [''a''] = Some (FileNode [1, 2] 0x81A4)" "wt_node ex_new [''b''] = Some (FileNode [1, 2, 3] 0x81ED)"
    "wt_identity ex_new = Some (1, 1)" "\<not> wt_root_link ex_new"
    by (simp_all add: ex_new_def ex_tree_def)
  have r: "recorded ex_second ''a'' = Some (Object (ex_object [1, 2]))" "recorded ex_second ''b'' = Some (Object (ex_object [1, 2, 3]))"
    "map_of (sn_modes ex_second) ''a'' = Some 0x81A4" "map_of (sn_modes ex_second) ''b'' = Some 0x81ED"
    "sn_root_identity ex_first = Some (1, 1)"
    by (simp_all add: recorded_def ex_second_def ex_first_def)
  have "root_unchanged (ex_turn ex_first ex_second) ex_new" by (simp add: root_unchanged_def ex_turn_def t r)
  moreover have "as_left ex_digest (ex_turn ex_first ex_second) ''a'' (Some (FileNode [1, 2] 0x81A4))"
    "as_left ex_digest (ex_turn ex_first ex_second) ''b'' (Some (FileNode [1, 2, 3] 0x81ED))"
    by (simp_all add: as_left_def ex_turn_def r contents_match_def contents_len_def contents_digest_def ex_object_def)
  ultimately show "verify_current ex_digest (ex_turn ex_first ex_second) ex_new ''a'' = Inr [''a'']"
    "verify_current ex_digest (ex_turn ex_first ex_second) ex_new ''b'' = Inr [''b'']"
    by (simp_all add: verify_current_def n t)
qed

lemma ex_entry_paths: "entry_paths (ex_turn b a) = [''a'', ''b'']"
  by (simp add: entry_paths_def ex_turn_def ex_summary_def)

lemma ex_restorable: "list_all (restorable ex_digest ex_objects (ex_turn ex_first ex_second)) [''a'', ''b'']"
proof -
  have "[1] \<in> set [[1], [0, 0, 0, 1], [1, 2, 3], [1, 2], [0, 0, 0, 0, 2], [0, 0, 0, 1], [0, 0, 0, 0, 2]]" by simp
  from ex_read [OF ex_told this] show ?thesis unfolding ex_objects_def
    by (simp add: restorable_def recorded_def ex_turn_def ex_first_def ex_second_def contents_bytes_def)
qed

lemma ex_checked: "validate_undo ex_digest ex_sdec (\<lambda>_. None) ex_objects (ex_turn (ex_stored ex_first) (ex_stored ex_second)) ex_new = Inr ()"
proof -
  let ?t = "ex_turn ex_first ex_second"
  have "turn_undoable ?t" by (simp add: turn_undoable_def ex_turn_def ex_summary_def)
  moreover have "root_unchanged ?t ex_new \<and> sn_root_identity (ft_after ?t) = sn_root_identity (ft_before ?t)" "wt_identity ex_new \<noteq> None"
    by (simp_all add: root_unchanged_def ex_turn_def ex_first_def ex_second_def ex_new_def ex_tree_def)
  moreover have "validate_entry ex_digest ?t ex_new ''a'' = Inr ()" "validate_entry ex_digest ?t ex_new ''b'' = Inr ()"
    by (simp_all add: validate_entry_def ex_verify) (simp_all add: ex_turn_def ex_first_def recorded_def)
  ultimately show ?thesis using ex_entry_paths [of ex_first ex_second]
    by (simp add: validate_undo_def ex_turn_read validate_loaded_def entry_paths_def)
qed

definition ex_undone :: worktree where
  "ex_undone = snd (restore ex_digest ex_sdec (\<lambda>_. None) ex_objects ex_disk (ex_turn (ex_stored ex_first) (ex_stored ex_second)) ex_new)"

lemma ex_restored:
  "restore ex_digest ex_sdec (\<lambda>_. None) ex_objects ex_disk (ex_turn (ex_stored ex_first) (ex_stored ex_second)) ex_new = (Inr (), ex_undone)"
proof -
  have "fst (each (restore_entry ex_digest ex_objects ex_disk (ex_turn ex_first ex_second)) [''a'', ''b''] ex_new) = Inr ()"
    using ex_restorable by (intro restore_all_ok [where at_path = "\<lambda>p. [p]"]) (simp_all add: ex_disk_def ex_verify inj_on_def)
  then have "fst (restore ex_digest ex_sdec (\<lambda>_. None) ex_objects ex_disk (ex_turn (ex_stored ex_first) (ex_stored ex_second)) ex_new) = Inr ()"
    using ex_entry_paths [of ex_first ex_second] by (simp add: restore_def restore_loaded_def entry_paths_def ex_turn_read eff_simps)
  then show ?thesis by (simp add: ex_undone_def prod_eq_iff)
qed

lemma ex_attach: "snapshot_attach ''objects'' (ex_stored ex_first) = ex_stored ex_first"
  "snapshot_attach ''objects'' (ex_stored ex_second) = ex_stored ex_second"
  by (simp_all add: snapshot_attach_def ex_stored_def ex_object_def ex_first_def ex_second_def)

text \<open>
  The inventory of git leaves out ignored files. A file that was ignored before the turn and is listed after it, since
  the turn removed the rule, counts as added; undoing the turn deletes it, although it was there before and unchanged.
\<close>

definition ex_ignored :: worktree where
  "ex_ignored = ex_tree [([''a''], FileNode [1] 0x81A4), ([''b''], FileNode [1, 2, 3] 0x81ED)]"

lemma newly_listed_file_removed:
  "capture ex_digest ex_senc 0 (Some ''objects'') False (\<lambda>_. True) ([''a''], False) ex_ignored (ex_store []) =
     Inr (ex_stored ex_first, ex_store [[1], [0, 0, 0, 1]]) \<and>
   wt_node ex_ignored [''b''] = Some (FileNode [1, 2, 3] 0x81ED) \<and> wt_node ex_new [''b''] = wt_node ex_ignored [''b''] \<and>
   wt_node ex_undone [''b''] = None"
proof -
  have "lstat ex_ignored ''a'' = Inr (FileNode [1] 0x81A4)" "resolve_entry ex_ignored ''a'' = Inr (FileNode [1] 0x81A4)" by code_simp+
  then have "for_each (\<lambda>st p. capture_path ex_digest ex_ignored (\<lambda>_. True) p st) (ex_empty 0, ex_store []) [''a''] = Inr (ex_first, ex_store [[1]])"
    by (simp add: ex_path ex_empty_def ex_told_def ex_first_def path_saved_def)
  from ex_capture [OF this] have first: "capture ex_digest ex_senc 0 (Some ''objects'') False (\<lambda>_. True) ([''a''], False) ex_ignored (ex_store []) =
     Inr (ex_stored ex_first, ex_store [[1], [0, 0, 0, 1]])"
    by (simp add: ex_encodings ex_told_def) (simp add: ex_ignored_def ex_tree_def ex_first_def)
  have "names ''a'' = Some [''a'']" "names ''b'' = Some [''b'']" by code_simp+
  moreover have "each (restore_entry ex_digest ex_objects ex_disk (ex_turn ex_first ex_second)) [''a'', ''b''] ex_new = (Inr (), ex_undone)"
    using ex_restored ex_entry_paths [of ex_first ex_second]
    by (simp add: restore_def restore_loaded_def entry_paths_def ex_turn_read eff_simps)
  from restore_steps [OF this] have "\<forall>p \<in> {''a'', ''b''}. \<exists>ns. names p = Some ns \<and>
      (\<exists>q \<in> {''a'', ''b''}. names q = Some ns \<and> undone ex_digest ex_objects (ex_turn ex_first ex_second) q (wt_node ex_undone ns))" by simp
  ultimately have "undone ex_digest ex_objects (ex_turn ex_first ex_second) ''b'' (wt_node ex_undone [''b''])" by auto
  then have "wt_node ex_undone [''b''] = None" by (simp add: undone_def ex_turn_def recorded_def ex_first_def)
  then show ?thesis using first by (simp add: ex_ignored_def ex_new_def ex_tree_def)
qed

end
