(* ===== verification/UndoClaims.thy ===== *)
theory UndoClaims
  imports UndoSample
begin

text \<open>
  The contract of a turn's changes: what the frozen turn lists, what undoing it may touch, what it brings back, and
  that it succeeds when its check passed.
\<close>

text \<open>C7: Undoing a turn, whether it succeeds or fails half-way, changes a path only if the turn lists it and it is
  exactly as the turn left it, and then to what was there before the turn; nothing else of the directory changes. If
  it succeeds, every listed path is as before the turn, and if the record cannot be read nothing changes.\<close>

theorem undo_safe:
  "case restore digest sdec cdec os disk t w of (r, w') \<Rightarrow>
     (case turn_materialized digest sdec cdec os t of
        Inl e \<Rightarrow> r = Inl e \<and> w' = w
      | Inr m \<Rightarrow> w' = w\<lparr>wt_node := wt_node w'\<rparr> \<and>
          (\<forall>ns. if wt_node w' ns = wt_node w ns then True
                else list_ex (\<lambda>p. names p = Some ns \<and> as_left digest m p (wt_node w ns)) (entry_paths m) \<and>
                     list_ex (\<lambda>p. names p = Some ns \<and> undone digest os m p (wt_node w' ns)) (entry_paths m)) \<and>
          (case r of
             Inl _ \<Rightarrow> True
           | Inr _ \<Rightarrow> list_all (\<lambda>p. \<exists>ns. names p = Some ns \<and>
                        list_ex (\<lambda>q. names q = Some ns \<and> undone digest os m q (wt_node w' ns)) (entry_paths m)) (entry_paths m)))"
proof -
  obtain r w' where u: "restore digest sdec cdec os disk t w = (r, w')" by (cases "restore digest sdec cdec os disk t w")
  show ?thesis
  proof (cases "turn_materialized digest sdec cdec os t")
    case (Inl e)
    then show ?thesis by (simp add: restore_def eff_simps)
  next
    case (Inr m)
    then have "each (restore_entry digest os disk m) (entry_paths m) w = (r, w')"
      using u by (simp add: restore_def restore_loaded_def entry_paths_def eff_simps)
    from restore_steps [OF this] show ?thesis
      unfolding touched_def using u Inr by (auto simp: list_ex_iff list_all_iff split: sum.split)
  qed
qed

text \<open>C8: If the two captures around a turn were complete, the frozen turn, read back at any later time from an
  object store that lost nothing, lists exactly the paths whose content the captures saw differ, in order, as added,
  removed or modified.\<close>

theorem turn_changes_exact:
  assumes "capture digest senc at0 (Some st) in0 opens0 inv0 w0 os0 = Inr (before, os1)" and "grows os1 os2"
    and "capture digest senc at1 (Some st) in1 opens1 inv1 w1 os2 = Inr (after, os3)" and "grows os3 os4"
    and "freeze_turn digest senc sdec cenc eenc numstat rid before after interrupted background os4 = Inr (t, os5)"
    and "grows os5 later" and "intact digest later" and "reads_back later senc sdec detached" and "reads_back later cenc cdec id"
    and "turn_materialized digest sdec cdec later t = Inr m" and "\<not> cs_truncated (tch_summary (ft_changes m))"
  shows "map (\<lambda>e. (tc_path e, tc_status e)) (cs_entries (tch_summary (ft_changes m))) =
    map (\<lambda>p. (p, if seen w0 (fst inv0) p = None then ''A'' else if seen w1 (fst inv1) p = None then ''D'' else ''M''))
      (filter (\<lambda>p. seen w0 (fst inv0) p \<noteq> seen w1 (fst inv1) p)
         (sorted_list_of_set (set (fst inv0) \<union> set (fst inv1))))"
  by (rule frozen_turn_is [OF assms]) (simp add: headline_fun turn_differences_def)

theorem turn_changes_exact_witness:
  "map (\<lambda>e. (tc_path e, tc_status e)) (cs_entries (tch_summary (ft_changes (ex_turn ex_first ex_second)))) =
    map (\<lambda>p. (p, if seen ex_old [''a''] p = None then ''A'' else if seen ex_new [''b'', ''a''] p = None then ''D'' else ''M''))
      (filter (\<lambda>p. seen ex_old [''a''] p \<noteq> seen ex_new [''b'', ''a''] p)
         (sorted_list_of_set (set [''a''] \<union> set [''b'', ''a''])))"
  using turn_changes_exact [OF ex_captures(1) grows_refl ex_captures(2) grows_refl ex_frozen grows_refl ex_intact ex_codecs ex_turn_read]
  by (simp only: fst_conv) (simp add: ex_turn_def ex_summary_def)

text \<open>C9: If undoing a turn succeeds, every path the turn changed holds again the content and permissions captured
  before it, or is gone if it was not there, and every other place of the directory is as it was.\<close>

theorem undo_restores:
  assumes "capture digest senc at0 (Some st) in0 opens0 inv0 w0 os0 = Inr (before, os1)" and "grows os1 os2"
    and "capture digest senc at1 (Some st) in1 opens1 inv1 w1 os2 = Inr (after, os3)" and "grows os3 os4"
    and "freeze_turn digest senc sdec cenc eenc numstat rid before after interrupted background os4 = Inr (t, os5)"
    and "grows os5 later" and "intact digest later" and "reads_back later senc sdec detached" and "reads_back later cenc cdec id"
    and "validate_undo digest sdec cdec later t w = Inr ()" and "restore digest sdec cdec later disk t w = (Inr (), w')"
    and "inj_on names (set (fst inv0) \<union> set (fst inv1))"
  shows "(\<forall>p. if seen w0 (fst inv0) p = seen w1 (fst inv1) p then True
               else \<exists>ns. names p = Some ns \<and> wt_node w' ns = brought_back w0 (fst inv0) p) \<and>
    (\<forall>ns. if \<exists>p. names p = Some ns \<and> seen w0 (fst inv0) p \<noteq> seen w1 (fst inv1) p then True
          else wt_node w' ns = wt_node w ns)"
proof -
  obtain m where m: "turn_materialized digest sdec cdec later t = Inr m" and ok: "\<not> cs_truncated (tch_summary (ft_changes m))"
    using assms(10) by (auto simp: validate_undo_def validate_loaded_def turn_undoable_def Let_def result_simps)
  show ?thesis
  proof (rule frozen_turn_is [OF assms(1-9) m ok])
    fix a b
    assume a: "records digest later st w0 (fst inv0) a" "\<not> sn_truncated a" and before: "ft_before m = keep_paths (entry_paths m) a"
      and heads: "map headline (cs_entries (tch_summary (ft_changes m))) =
        map (\<lambda>p. (p, if seen w0 (fst inv0) p = None then ''A'' else if seen w1 (fst inv1) p = None then ''D'' else ''M''))
          (turn_differences w0 (fst inv0) w1 (fst inv1))"
    have ps: "set (entry_paths m) = {p. seen w0 (fst inv0) p \<noteq> seen w1 (fst inv1) p}"
      unfolding entry_paths_are [OF heads] by (auto simp: turn_differences_def seen_def)
    have sub: "set (entry_paths m) \<subseteq> set (fst inv0) \<union> set (fst inv1)"
      unfolding entry_paths_are [OF heads] by (auto simp: turn_differences_def)
    have "each (restore_entry digest later disk m) (entry_paths m) w = (Inr (), w')"
      using assms(11) m by (simp add: restore_def restore_loaded_def entry_paths_def eff_simps)
    note steps = restore_steps [OF this]
    have "\<exists>ns. names p = Some ns \<and> wt_node w' ns = brought_back w0 (fst inv0) p" if p: "p \<in> set (entry_paths m)" for p
    proof -
      obtain ns q where ns: "names p = Some ns" and q: "q \<in> set (entry_paths m)" "names q = Some ns" "undone digest later m q (wt_node w' ns)"
        using steps p by blast
      have "q = p" by (rule inj_onD [OF assms(12)]) (use ns q(1,2) p sub in auto)
      then show ?thesis using undone_brought_back [OF a assms(7) before q(1,3)] ns by blast
    qed
    moreover have "wt_node w' ns = wt_node w ns" if "\<not> (\<exists>p \<in> set (entry_paths m). names p = Some ns)" for ns
      using steps that unfolding touched_def by blast
    ultimately show ?thesis using ps by auto
  qed
qed

theorem undo_restores_witness:
  "(\<exists>ns. names ''a'' = Some ns \<and> wt_node ex_undone ns = brought_back ex_old [''a''] ''a'') \<and>
   (\<exists>ns. names ''b'' = Some ns \<and> wt_node ex_undone ns = brought_back ex_old [''a''] ''b'') \<and>
   wt_node ex_undone [''c''] = wt_node ex_new [''c'']"
proof -
  have n: "names ''a'' = Some [''a'']" "names ''b'' = Some [''b'']" by code_simp+
  have inj: "inj_on names (set (fst ([''a''], False)) \<union> set (fst ([''b'', ''a''], False)))" by (simp add: inj_on_def n)
  have s: "seen ex_old [''a''] ''a'' \<noteq> seen ex_new [''b'', ''a''] ''a''" "seen ex_old [''a''] ''b'' \<noteq> seen ex_new [''b'', ''a''] ''b''"
    by (simp_all add: seen_def ex_lstat)
  have "\<not> (\<exists>p. names p = Some [''c''] \<and> seen ex_old [''a''] p \<noteq> seen ex_new [''b'', ''a''] p)"
    using n by (auto simp: seen_def)
  then show ?thesis
    using undo_restores [OF ex_captures(1) grows_refl ex_captures(2) grows_refl ex_frozen grows_refl ex_intact ex_codecs
        ex_checked ex_restored inj] s unfolding fst_conv by meson
qed

text \<open>C10: If the check of a turn passes, its recorded contents are readable and the file system does what it is
  asked, undoing the turn succeeds: putting back one path never spoils another.\<close>

theorem undo_completes:
  assumes "validate_undo digest sdec cdec os t w = Inr ()" and "turn_materialized digest sdec cdec os t = Inr m"
    and "list_all (restorable digest os m) (entry_paths m)" and "list_all (\<lambda>p. dk_temporary disk p \<and> dk_replace disk p) (entry_paths m)"
    and "distinct (map names (entry_paths m))"
  shows "fst (restore digest sdec cdec os disk t w) = Inr ()"
proof -
  have checked: "\<exists>ns. verify_current digest m w p = Inr ns" if "p \<in> set (entry_paths m)" for p
    using assms(1,2) that
    by (auto simp: validate_undo_def validate_loaded_def validate_entry_def entry_paths_def for_each_unit list_all_iff result_simps)
  have "verify_current digest m w p = Inr (the (names p))" if "p \<in> set (entry_paths m)" for p
    using checked [OF that] verified by fastforce
  moreover have "inj_on (the \<circ> names) (set (entry_paths m))"
    using assms(5) checked verified by (auto simp: distinct_map inj_on_def) (metis option.sel)
  ultimately have "fst (each (restore_entry digest os disk m) (entry_paths m) w) = Inr ()"
    using assms(3-5) by (intro restore_all_ok [where at_path = "the \<circ> names"]) (auto simp: list_all_iff distinct_map)
  then show ?thesis using assms(2) by (simp add: restore_def restore_loaded_def entry_paths_def eff_simps)
qed

theorem undo_completes_witness:
  "fst (restore ex_digest ex_sdec (\<lambda>_. None) ex_objects ex_disk (ex_turn (ex_stored ex_first) (ex_stored ex_second)) ex_new) = Inr ()"
proof (rule undo_completes [OF ex_checked ex_turn_read])
  have "names ''a'' = Some [''a'']" "names ''b'' = Some [''b'']" by code_simp+
  then show "distinct (map names (entry_paths (ex_turn ex_first ex_second)))" by (simp add: ex_entry_paths)
qed (use ex_restorable in \<open>simp_all add: ex_entry_paths ex_disk_def\<close>)

end
