(* ===== verification/Garbage.thy ===== *)
theory Garbage
  imports UndoSample
begin

text \<open>
  The garbage collection of snapshot objects at start-up (\<open>collect_snapshot_garbage\<close> of \<open>store.rs\<close>,
  \<open>referenced_objects\<close> of \<open>task_changes.rs\<close>): what the rows of the store refer to is kept, so that every frozen
  turn is read, checked and restored after a restart as before it.
\<close>

section \<open>Collecting\<close>

definition file_object :: "string \<times> contents option \<Rightarrow> string option" where
  "file_object f = (case snd f of Some (Object ob) \<Rightarrow> Some (ob_key ob) | _ \<Rightarrow> None)"

definition referenced_objects :: "(bytes \<Rightarrow> string) \<Rightarrow> (bytes \<Rightarrow> snapshot option) \<Rightarrow> object_store \<Rightarrow> snapshot \<Rightarrow> task_error + string list" where
  "referenced_objects digest sdec os s =
     and_then (materialized digest sdec os s) (\<lambda>m.
       Inr ((case sn_manifest s of None \<Rightarrow> [] | Some ob \<Rightarrow> [ob_key ob]) @ List.map_filter file_object (sn_files m)))"

definition turn_objects :: "(bytes \<Rightarrow> string) \<Rightarrow> (bytes \<Rightarrow> snapshot option) \<Rightarrow> object_store \<Rightarrow> frozen_turn \<Rightarrow> task_error + string list" where
  "turn_objects digest sdec os t =
     and_then (referenced_objects digest sdec os (ft_before t)) (\<lambda>a.
     and_then (referenced_objects digest sdec os (ft_after t)) (\<lambda>b.
       Inr (a @ b @ (case ft_full_summary t of Some (SummaryObject ob) \<Rightarrow> [ob_key ob] | _ \<Rightarrow> []))))"

fun gather :: "('a \<Rightarrow> 'e + 'b list) \<Rightarrow> 'a list \<Rightarrow> 'e + 'b list" where
  "gather f [] = Inr []"
| "gather f (x # xs) = and_then (f x) (\<lambda>a. and_then (gather f xs) (\<lambda>b. Inr (a @ b)))"

text \<open>Files whose names are no keys are never touched.\<close>

definition remove_unreferenced :: "string \<Rightarrow> string list \<Rightarrow> object_store \<Rightarrow> object_store" where
  "remove_unreferenced dir keys os =
     os\<lparr>os_files := (os_files os)(dir := (\<lambda>k. if object_key_ok k \<and> k \<notin> set keys then None else os_files os dir k))\<rparr>"

definition stored_snapshots :: "store \<Rightarrow> snapshot list" where
  "stored_snapshots st = map snd (db_task_baselines st) @ List.map_filter tr_baseline (db_turn_changes st)"

definition stored_turns :: "store \<Rightarrow> frozen_turn list" where
  "stored_turns st = List.map_filter tr_data (db_turn_changes st)"

definition collect_snapshot_garbage :: "(bytes \<Rightarrow> string) \<Rightarrow> (bytes \<Rightarrow> snapshot option) \<Rightarrow> string \<Rightarrow> store \<Rightarrow> object_store \<Rightarrow> task_error + object_store" where
  "collect_snapshot_garbage digest sdec dir st os =
     and_then (gather (\<lambda>s. referenced_objects digest sdec os (snapshot_attach dir s)) (stored_snapshots st)) (\<lambda>a.
     and_then (gather (\<lambda>t. turn_objects digest sdec os (turn_attach dir t)) (stored_turns st)) (\<lambda>b.
       Inr (remove_unreferenced dir (a @ b) os)))"

section \<open>What is referred to is kept\<close>

lemma gather_has: "gather f xs = Inr ys \<Longrightarrow> x \<in> set xs \<Longrightarrow> \<exists>y. f x = Inr y \<and> set y \<subseteq> set ys"
proof (induction xs arbitrary: ys)
  case (Cons z zs)
  from Cons.prems(1) obtain a b where p: "f z = Inr a" "gather f zs = Inr b" "ys = a @ b" by (auto simp: and_then_eq_Inr)
  show ?case using Cons.IH [OF p(2)] Cons.prems(2) p by auto
qed simp

definition keeps_read :: "string \<Rightarrow> string set \<Rightarrow> object_store \<Rightarrow> object_store \<Rightarrow> bool" where
  "keeps_read dir keys os os' \<longleftrightarrow> (\<forall>digest ob. ob_root ob = dir \<longrightarrow> ob_key ob \<in> keys \<longrightarrow> read_object digest os' ob = read_object digest os ob)"

lemma remove_unreferenced_keeps: "keeps_read dir (set keys) os (remove_unreferenced dir keys os)"
  by (simp add: keeps_read_def remove_unreferenced_def read_object_def object_file_def)

lemma keeps_read_subset: "keeps_read dir ks os os' \<Longrightarrow> ls \<subseteq> ks \<Longrightarrow> keeps_read dir ls os os'"
  unfolding keeps_read_def by blast

lemma attached_root: "Some (Object ob) = map_option (contents_attach dir) c \<Longrightarrow> ob_root ob = dir"
  by (cases c) (auto simp: contents_attach_def split: contents.splits)

lemma materialized_kept:
  assumes "referenced_objects digest sdec os (snapshot_attach dir s) = Inr keys" and "keeps_read dir (set keys) os os'"
  obtains m where "materialized digest sdec os (snapshot_attach dir s) = Inr m" and "materialized digest sdec os' (snapshot_attach dir s) = Inr m"
    and "\<forall>f \<in> set (sn_files m). case snd f of Some c \<Rightarrow> contents_bytes digest os' c = contents_bytes digest os c | None \<Rightarrow> True"
proof -
  let ?s = "snapshot_attach dir s"
  obtain m where m: "materialized digest sdec os ?s = Inr m"
    and keys: "keys = (case sn_manifest ?s of None \<Rightarrow> [] | Some ob \<Rightarrow> [ob_key ob]) @ List.map_filter file_object (sn_files m)"
    using assms(1) by (auto simp: referenced_objects_def and_then_eq_Inr)
  have same: "materialized digest sdec os' ?s = materialized digest sdec os ?s"
  proof (cases "sn_manifest ?s")
    case (Some ob)
    then have "ob_root ob = dir" by (auto simp: snapshot_attach_def)
    then show ?thesis using assms(2) Some keys by (simp add: materialized_def keeps_read_def)
  qed (simp add: materialized_def)
  have roots: "\<forall>(p, c) \<in> set (sn_files m). \<forall>ob. c = Some (Object ob) \<longrightarrow> ob_root ob = dir"
    using m by (cases "sn_manifest ?s")
      (auto simp: materialized_def and_then_eq_Inr snapshot_attach_def dest!: attached_root)
  have "contents_bytes digest os' c = contents_bytes digest os c" if f: "(p, Some c) \<in> set (sn_files m)" for p c
  proof (cases c)
    case (Object ob)
    have "ob_root ob = dir" using roots f Object by auto
    moreover have "ob_key ob \<in> set keys" using f Object by (force simp: keys map_filter_def file_object_def)
    ultimately show ?thesis using assms(2) Object by (simp add: contents_bytes_def keeps_read_def)
  qed (simp add: contents_bytes_def)
  then have "\<forall>f \<in> set (sn_files m). case snd f of Some c \<Rightarrow> contents_bytes digest os' c = contents_bytes digest os c | None \<Rightarrow> True"
    by (auto split: option.split)
  then show thesis using that [OF m] same m by simp
qed

lemma restore_entry_cong:
  assumes "case recorded (ft_before t) p of Some c \<Rightarrow> contents_bytes digest os' c = contents_bytes digest os c | None \<Rightarrow> True"
  shows "restore_entry digest os' disk t p = restore_entry digest os disk t p"
  using assms by (cases "recorded (ft_before t) p") (simp_all add: restore_entry_def restore_file_def)

lemma each_cong: "(\<And>x. x \<in> set xs \<Longrightarrow> f x = g x) \<Longrightarrow> each f xs = each g xs"
  by (induction xs) auto

lemma restore_loaded_cong:
  assumes "\<forall>f \<in> set (sn_files (ft_before t)). case snd f of Some c \<Rightarrow> contents_bytes digest os' c = contents_bytes digest os c | None \<Rightarrow> True"
  shows "restore_loaded digest os' disk t = restore_loaded digest os disk t"
proof -
  have "restore_entry digest os' disk t p = restore_entry digest os disk t p" for p
  proof (rule restore_entry_cong)
    show "case recorded (ft_before t) p of Some c \<Rightarrow> contents_bytes digest os' c = contents_bytes digest os c | None \<Rightarrow> True"
      using assms map_of_SomeD [of "sn_files (ft_before t)" p] by (fastforce simp: recorded_def split: option.split)
  qed
  then show ?thesis by (simp add: restore_loaded_def cong: each_cong)
qed

lemma turn_kept:
  assumes "turn_objects digest sdec os (turn_attach dir t) = Inr keys" and "keeps_read dir (set keys) os os'"
  shows "turn_materialized digest sdec cdec os' (turn_attach dir t) = turn_materialized digest sdec cdec os (turn_attach dir t)"
    and "validate_undo digest sdec cdec os' (turn_attach dir t) w = validate_undo digest sdec cdec os (turn_attach dir t) w"
    and "restore digest sdec cdec os' disk (turn_attach dir t) = restore digest sdec cdec os disk (turn_attach dir t)"
proof -
  let ?t = "turn_attach dir t"
  obtain a b where a: "referenced_objects digest sdec os (snapshot_attach dir (ft_before t)) = Inr a"
    and b: "referenced_objects digest sdec os (snapshot_attach dir (ft_after t)) = Inr b"
    and keys: "keys = a @ b @ (case ft_full_summary ?t of Some (SummaryObject ob) \<Rightarrow> [ob_key ob] | _ \<Rightarrow> [])"
    using assms(1) by (auto simp: turn_objects_def turn_attach_def and_then_eq_Inr)
  have "keeps_read dir (set a) os os'" "keeps_read dir (set b) os os'"
    using assms(2) by (auto intro: keeps_read_subset simp: keys)
  note ka = materialized_kept [OF a this(1)] and kb = materialized_kept [OF b this(2)]
  obtain m where m: "materialized digest sdec os (ft_before ?t) = Inr m" "materialized digest sdec os' (ft_before ?t) = Inr m"
    and bytes: "\<forall>f \<in> set (sn_files m). case snd f of Some c \<Rightarrow> contents_bytes digest os' c = contents_bytes digest os c | None \<Rightarrow> True"
    by (rule ka) (simp add: turn_attach_def)
  obtain n where n: "materialized digest sdec os (ft_after ?t) = Inr n" "materialized digest sdec os' (ft_after ?t) = Inr n"
    by (rule kb) (simp add: turn_attach_def)
  have "read_summary digest cdec os' d = read_summary digest cdec os d" if "ft_full_summary ?t = Some d" for d
  proof (cases d)
    case (SummaryObject ob)
    have "ob_root ob = dir"
    proof (cases "ft_full_summary t")
      case (Some z)
      then show ?thesis using that SummaryObject by (cases z) (auto simp: turn_attach_def)
    qed (use that in \<open>simp add: turn_attach_def\<close>)
    moreover have "ob_key ob \<in> set keys" using that SummaryObject by (simp add: keys)
    ultimately show ?thesis using assms(2) SummaryObject by (simp add: read_summary_def keeps_read_def)
  qed (simp add: read_summary_def)
  then show same: "turn_materialized digest sdec cdec os' ?t = turn_materialized digest sdec cdec os ?t"
    by (cases "ft_full_summary ?t") (simp_all add: turn_materialized_def m n)
  then show "validate_undo digest sdec cdec os' ?t w = validate_undo digest sdec cdec os ?t w" by (simp add: validate_undo_def)
  show "restore digest sdec cdec os' disk ?t = restore digest sdec cdec os disk ?t"
  proof (cases "turn_materialized digest sdec cdec os ?t")
    case (Inl e)
    then show ?thesis using same by (intro ext) (simp add: restore_def eff_simps)
  next
    case (Inr u)
    then have "ft_before u = m" by (auto simp: turn_materialized_def m and_then_eq_Inr)
    then have "restore_loaded digest os' disk u = restore_loaded digest os disk u" using bytes by (simp add: restore_loaded_cong)
    then show ?thesis using same Inr by (intro ext) (simp add: restore_def eff_simps)
  qed
qed

section \<open>Claim\<close>

text \<open>C12: Collecting the garbage at start-up removes only files that are named like objects and that no row refers to.
  Every frozen turn of the store is read, checked and restored with the result it would have had before, and every
  baseline is read as before.\<close>

theorem garbage_keeps_undo:
  assumes "collect_snapshot_garbage digest sdec dir st os = Inr os'"
  shows "(\<forall>rt k. os_files os' rt k \<noteq> os_files os rt k \<longrightarrow> rt = dir \<and> object_key_ok k \<and> os_files os' rt k = None) \<and>
    list_all (\<lambda>t. validate_undo digest sdec cdec os' (turn_attach dir t) w = validate_undo digest sdec cdec os (turn_attach dir t) w \<and>
                  restore digest sdec cdec os' disk (turn_attach dir t) w = restore digest sdec cdec os disk (turn_attach dir t) w) (stored_turns st) \<and>
    list_all (\<lambda>s. materialized digest sdec os' (snapshot_attach dir s) = materialized digest sdec os (snapshot_attach dir s)) (stored_snapshots st)"
proof -
  obtain a b where a: "gather (\<lambda>s. referenced_objects digest sdec os (snapshot_attach dir s)) (stored_snapshots st) = Inr a"
    and b: "gather (\<lambda>t. turn_objects digest sdec os (turn_attach dir t)) (stored_turns st) = Inr b"
    and os': "os' = remove_unreferenced dir (a @ b) os"
    using assms by (auto simp: collect_snapshot_garbage_def and_then_eq_Inr)
  have keep: "keeps_read dir ks os os'" if "ks \<subseteq> set (a @ b)" for ks
    using remove_unreferenced_keeps that unfolding os' by (rule keeps_read_subset)
  have "restore digest sdec cdec os' disk (turn_attach dir t) w = restore digest sdec cdec os disk (turn_attach dir t) w \<and>
      validate_undo digest sdec cdec os' (turn_attach dir t) w = validate_undo digest sdec cdec os (turn_attach dir t) w"
    if t: "t \<in> set (stored_turns st)" for t
  proof -
    obtain ks where "turn_objects digest sdec os (turn_attach dir t) = Inr ks" "set ks \<subseteq> set b" using gather_has [OF b t] by blast
    moreover from this have "keeps_read dir (set ks) os os'" by (intro keep) auto
    ultimately show ?thesis using turn_kept by simp
  qed
  moreover have "materialized digest sdec os' (snapshot_attach dir s) = materialized digest sdec os (snapshot_attach dir s)"
    if s: "s \<in> set (stored_snapshots st)" for s
  proof -
    obtain ks where k: "referenced_objects digest sdec os (snapshot_attach dir s) = Inr ks" "set ks \<subseteq> set a" using gather_has [OF a s] by blast
    then have "keeps_read dir (set ks) os os'" by (intro keep) auto
    from materialized_kept [OF k(1) this] show ?thesis by metis
  qed
  moreover have "os_files os' rt k \<noteq> os_files os rt k \<longrightarrow> rt = dir \<and> object_key_ok k \<and> os_files os' rt k = None" for rt k
    by (simp add: os' remove_unreferenced_def)
  ultimately show ?thesis by (simp add: list_all_iff)
qed

text \<open>An object that no row refers to goes, the turn of the example stays.\<close>

definition ex_rows :: store where
  "ex_rows = (empty_store (\<lambda>_. 0))\<lparr>db_turn_changes := [\<lparr>tr_session_id = ''s'', tr_request_id = ''r'', tr_baseline = None,
     tr_data = Some (ex_turn (ex_stored ex_first) (ex_stored ex_second))\<rparr>]\<rparr>"

definition ex_littered :: object_store where
  "ex_littered = ex_store [[1], [0, 0, 0, 1], [1, 2, 3], [1, 2], [0, 0, 0, 0, 2], [7, 7, 7, 7, 7, 7]]"

definition ex_collected :: object_store where
  "ex_collected = projr (collect_snapshot_garbage ex_digest ex_sdec ''objects'' ex_rows ex_littered)"

lemma ex_collects: "collect_snapshot_garbage ex_digest ex_sdec ''objects'' ex_rows ex_littered = Inr ex_collected"
proof -
  have told: "ex_told [[1], [0, 0, 0, 1], [1, 2, 3], [1, 2], [0, 0, 0, 0, 2], [7, 7, 7, 7, 7, 7]]" by (simp add: ex_told_def)
  have m: "materialized ex_digest ex_sdec ex_littered (ex_stored ex_first) = Inr ex_first"
    "materialized ex_digest ex_sdec ex_littered (ex_stored ex_second) = Inr ex_second"
    using ex_materialized_both [OF told] by (simp_all add: ex_littered_def)
  have "stored_snapshots ex_rows = []" "stored_turns ex_rows = [ex_turn (ex_stored ex_first) (ex_stored ex_second)]"
    by (simp_all add: stored_snapshots_def stored_turns_def ex_rows_def empty_store_def map_filter_def)
  then have "\<not> isl (collect_snapshot_garbage ex_digest ex_sdec ''objects'' ex_rows ex_littered)"
    by (simp add: collect_snapshot_garbage_def turn_objects_def referenced_objects_def turn_attach_def ex_turn_def ex_attach m)
  then show ?thesis unfolding ex_collected_def by (metis sum.collapse(2))
qed

theorem garbage_keeps_undo_witness:
  "list_all (\<lambda>t. validate_undo ex_digest ex_sdec (\<lambda>_. None) ex_collected (turn_attach ''objects'' t) ex_new =
       validate_undo ex_digest ex_sdec (\<lambda>_. None) ex_littered (turn_attach ''objects'' t) ex_new) (stored_turns ex_rows)"
  using garbage_keeps_undo [OF ex_collects, of "\<lambda>_. None" ex_new] by (simp add: list_all_iff)

end
