(* ===== verification/UndoRequest.thy ===== *)
theory UndoRequest
  imports UndoSample
begin

text \<open>
  The request that undoes a turn (\<open>Request::UndoTurnChanges\<close> in \<open>main.rs\<close>). The handler holds the exclusive side of
  the admission lock, so one runs at a time; between its steps the rest of the server goes on and the directories and
  the object store may change. The history \<open>uh_restored\<close> is not read.
\<close>

section \<open>The handler\<close>

datatype (plugins only: code size) undo_error = UndoStore error | UndoTask task_error | NotLatestTurn | HostBusy

record undo_env =
  ue_digest :: "bytes \<Rightarrow> string"
  ue_sdec :: "bytes \<Rightarrow> snapshot option"
  ue_cdec :: "bytes \<Rightarrow> change_summary option"
  ue_fenc :: "frozen_turn \<Rightarrow> string"
  ue_enc :: "event_kind \<Rightarrow> string"
  ue_dir :: string

datatype (plugins only: code size) undo_phase =
    UndoFree | UndoChecked string string frozen_turn | UndoMarked string string frozen_turn | UndoDone string frozen_turn

record undo_host =
  uh_store :: store
  uh_objects :: object_store
  uh_trees :: "string \<Rightarrow> worktree"
  uh_phase :: undo_phase
  uh_restored :: "(string \<times> string \<times> bool) list"

definition lift_error :: "('e \<Rightarrow> 'f) \<Rightarrow> 'e + 'a \<Rightarrow> 'f + 'a" where
  "lift_error f r = (case r of Inl e \<Rightarrow> Inl (f e) | Inr x \<Rightarrow> Inr x)"

definition set_undo :: "turn_undo_status \<Rightarrow> frozen_turn \<Rightarrow> frozen_turn" where
  "set_undo u t = t\<lparr>ft_changes := (ft_changes t)\<lparr>tch_undo := u\<rparr>\<rparr>"

definition turn_id :: "frozen_turn \<Rightarrow> string" where
  "turn_id t = tch_request_id (ft_changes t)"

definition undo_check :: "undo_env \<Rightarrow> undo_host \<Rightarrow> string \<Rightarrow> frozen_turn \<Rightarrow> undo_error + unit" where
  "undo_check env h path t =
     lift_error UndoTask (validate_undo (ue_digest env) (ue_sdec env) (ue_cdec env) (uh_objects h) t (uh_trees h path))"

text \<open>Up to the first check: a turn that was undone answers at once; \<open>idle\<close> says that every process may be closed and
  no terminal is open.\<close>

definition undo_begin :: "undo_env \<Rightarrow> bool \<Rightarrow> undo_host \<Rightarrow> string \<Rightarrow> string \<Rightarrow> undo_error + turn_changes + string \<times> frozen_turn" where
  "undo_begin env idle h i rid =
     and_then (lift_error UndoStore (turn_changes_of (ue_dir env) (uh_store h) i rid)) (\<lambda>t.
     if tch_undo (ft_changes t) = UndoReverted then Inr (Inl (ft_changes t))
     else
       and_then (lift_error UndoStore (latest_request (uh_store h) i)) (\<lambda>latest.
       and_then (ensure (latest = rid) NotLatestTurn) (\<lambda>_.
       and_then (ensure (\<not> has_active_sessions (uh_store h) \<and> idle) HostBusy) (\<lambda>_.
       and_then (lift_error UndoStore (session_by_id (uh_store h) i)) (\<lambda>s.
       and_then (lift_error UndoStore (project_by_id (uh_store h) (ses_project_id s))) (\<lambda>p.
       and_then (undo_check env h (prj_path p) t) (\<lambda>_. Inr (Inr (prj_path p, t)))))))))"

text \<open>The second check, and the durable intent.\<close>

definition undo_mark :: "undo_env \<Rightarrow> undo_host \<Rightarrow> string \<Rightarrow> string \<Rightarrow> frozen_turn \<Rightarrow> undo_error + store" where
  "undo_mark env h i path t =
     and_then (undo_check env h path t) (\<lambda>_.
       lift_error UndoStore (update_turn (ue_fenc env) (ue_enc env) (uh_store h) i (set_undo UndoUnknown t)))"

definition undo_restore :: "undo_env \<Rightarrow> disk \<Rightarrow> undo_host \<Rightarrow> string \<Rightarrow> string \<Rightarrow> frozen_turn \<Rightarrow> undo_host" where
  "undo_restore env disk h i path t =
     (case restore (ue_digest env) (ue_sdec env) (ue_cdec env) (uh_objects h) disk t (uh_trees h path) of
        (r, w) \<Rightarrow>
          h\<lparr>uh_trees := (uh_trees h)(path := w), uh_restored := uh_restored h @ [(i, turn_id t, \<not> isl r)],
            uh_phase := (case r of Inl _ \<Rightarrow> UndoFree | Inr _ \<Rightarrow> UndoDone i t)\<rparr>)"

definition undo_finish :: "undo_env \<Rightarrow> undo_host \<Rightarrow> string \<Rightarrow> frozen_turn \<Rightarrow> undo_error + store" where
  "undo_finish env h i t = lift_error UndoStore (update_turn (ue_fenc env) (ue_enc env) (uh_store h) i (set_undo UndoReverted t))"

section \<open>What the rest of the server keeps\<close>

definition stored_status :: "store \<Rightarrow> string \<Rightarrow> string \<Rightarrow> turn_undo_status option" where
  "stored_status st i rid =
     (case List.find (turn_key i rid) (db_turn_changes st) of
        None \<Rightarrow> None | Some r \<Rightarrow> map_option (\<lambda>t. tch_undo (ft_changes t)) (tr_data r))"

definition turn_rows_ok :: "store \<Rightarrow> bool" where
  "turn_rows_ok st \<longleftrightarrow>
     distinct (map (\<lambda>r. (tr_session_id r, tr_request_id r)) (db_turn_changes st)) \<and>
     (\<forall>r \<in> set (db_turn_changes st). case tr_data r of
        None \<Rightarrow> True | Some t \<Rightarrow> turn_id t = tr_request_id r \<and> tr_baseline r = None)"

text \<open>A frozen turn keeps its status, and a newly frozen one is ready.\<close>

definition turns_kept :: "store \<Rightarrow> store \<Rightarrow> bool" where
  "turns_kept st st' \<longleftrightarrow> (turn_rows_ok st \<longrightarrow> turn_rows_ok st' \<and>
     (\<forall>i rid. stored_status st' i rid = stored_status st i rid \<or>
              stored_status st i rid = None \<and> stored_status st' i rid = Some UndoReady))"

inductive undo_step :: "undo_env \<Rightarrow> undo_host \<Rightarrow> undo_host \<Rightarrow> bool" for env where
  start: "uh_phase h = UndoFree \<Longrightarrow> undo_begin env idle h i rid = Inr (Inr (path, t)) \<Longrightarrow>
    undo_step env h (h\<lparr>uh_phase := UndoChecked i path t\<rparr>)"
| mark: "uh_phase h = UndoChecked i path t \<Longrightarrow> undo_mark env h i path t = Inr st \<Longrightarrow>
    undo_step env h (h\<lparr>uh_store := st, uh_phase := UndoMarked i path (set_undo UndoUnknown t)\<rparr>)"
| restored: "uh_phase h = UndoMarked i path t \<Longrightarrow> undo_step env h (undo_restore env disk h i path t)"
| finish: "uh_phase h = UndoDone i t \<Longrightarrow> undo_finish env h i t = Inr st \<Longrightarrow> undo_step env h (h\<lparr>uh_store := st, uh_phase := UndoFree\<rparr>)"
| given_up: "undo_step env h (h\<lparr>uh_phase := UndoFree\<rparr>)"
| others: "turns_kept (uh_store h) st \<Longrightarrow> undo_step env h (h\<lparr>uh_store := st, uh_objects := os, uh_trees := trees\<rparr>)"

inductive_cases undo_stepE: "undo_step env h h'"

section \<open>Rows of turns\<close>

lemma find_distinct:
  "distinct (map key rs) \<Longrightarrow> r \<in> set rs \<Longrightarrow> List.find (\<lambda>x. key x = key r) rs = Some r"
  by (induction rs) auto

lemma turn_key_is: "turn_key i rid = (\<lambda>r. (tr_session_id r, tr_request_id r) = (i, rid))"
  by (rule ext) (auto simp: turn_key_def)

lemma status_row:
  assumes "turn_rows_ok st"
  shows "stored_status st i rid = Some u \<longleftrightarrow>
    (\<exists>r \<in> set (db_turn_changes st). \<exists>t. turn_key i rid r \<and> tr_data r = Some t \<and> tch_undo (ft_changes t) = u)"
proof -
  have d: "distinct (map (\<lambda>r. (tr_session_id r, tr_request_id r)) (db_turn_changes st))" using assms by (simp add: turn_rows_ok_def)
  have found: "List.find (turn_key i rid) (db_turn_changes st) = Some r \<longleftrightarrow> r \<in> set (db_turn_changes st) \<and> turn_key i rid r" for r
    using find_distinct [OF d, of r] by (auto simp: find_Some_iff turn_key_is)
  have "stored_status st i rid = Some u \<longleftrightarrow>
      (\<exists>r t. List.find (turn_key i rid) (db_turn_changes st) = Some r \<and> tr_data r = Some t \<and> tch_undo (ft_changes t) = u)"
    by (simp add: stored_status_def split: option.split)
  then show ?thesis unfolding found by blast
qed

lemma turn_event_rows: "turn_event enc st i c = Inr st' \<Longrightarrow> db_turn_changes st' = db_turn_changes st"
  by (auto simp: turn_event_def read_clock_def small_json_def insert_event_def Let_def result_simps)

lemma status_same:
  assumes "turn_rows_ok st" and "turn_rows_ok st'" and "\<And>u. stored_status st' i rid = Some u \<longleftrightarrow> stored_status st i rid = Some u"
  shows "stored_status st' i rid = stored_status st i rid"
  using assms(3) by (metis option.exhaust)

text \<open>An update of a turn changes the status of that turn only.\<close>

lemma update_turn_status:
  assumes "update_turn fenc enc st i t = Inr st'" and ok: "turn_rows_ok st"
  shows "turn_rows_ok st'" and "stored_status st' i (turn_id t) = Some (tch_undo (ft_changes t))"
    and "(j, rid) \<noteq> (i, turn_id t) \<Longrightarrow> stored_status st' j rid = stored_status st j rid"
proof -
  let ?key = "\<lambda>r. turn_key i (turn_id t) r \<and> tr_data r \<noteq> None"
  have rows: "db_turn_changes st' = map (\<lambda>r. if ?key r then r\<lparr>tr_data := Some t\<rparr> else r) (db_turn_changes st)"
    and one: "count_where ?key (db_turn_changes st) = 1"
    using assms(1) by (auto simp: update_turn_def Let_def small_json_def result_simps update_where_def turn_id_def dest!: turn_event_rows)
  have keys: "map (\<lambda>r. (tr_session_id r, tr_request_id r)) (db_turn_changes st') = map (\<lambda>r. (tr_session_id r, tr_request_id r)) (db_turn_changes st)"
    by (simp add: rows)
  have "case tr_data r of None \<Rightarrow> True | Some t \<Rightarrow> turn_id t = tr_request_id r \<and> tr_baseline r = None"
    if mem: "r \<in> set (db_turn_changes st')" for r
  proof -
    obtain q where q: "q \<in> set (db_turn_changes st)" "r = (if ?key q then q\<lparr>tr_data := Some t\<rparr> else q)" using mem rows by auto
    have "case tr_data q of None \<Rightarrow> True | Some t \<Rightarrow> turn_id t = tr_request_id q \<and> tr_baseline q = None"
      using ok q(1) by (auto simp: turn_rows_ok_def)
    then show ?thesis using q(2) by (auto simp: turn_key_def)
  qed
  then show ok': "turn_rows_ok st'" using ok unfolding turn_rows_ok_def keys by blast
  have "filter ?key (db_turn_changes st) \<noteq> []" using one by (auto simp: count_where_def)
  then obtain r where r: "r \<in> set (db_turn_changes st)" "?key r" by (auto simp: filter_empty_conv)
  then have "r\<lparr>tr_data := Some t\<rparr> \<in> set (db_turn_changes st')" unfolding rows by (auto intro!: image_eqI [of _ _ r])
  then show "stored_status st' i (turn_id t) = Some (tch_undo (ft_changes t))"
    using r(2) unfolding status_row [OF ok'] by (intro bexI [of _ "r\<lparr>tr_data := Some t\<rparr>"] exI [of _ t]) (simp_all add: turn_key_def)
  show "stored_status st' j rid = stored_status st j rid" if "(j, rid) \<noteq> (i, turn_id t)"
  proof (rule status_same [OF ok ok'])
    fix u
    have "\<not> (turn_key j rid r \<and> ?key r)" for r using that by (auto simp: turn_key_def)
    then show "stored_status st' j rid = Some u \<longleftrightarrow> stored_status st j rid = Some u"
      unfolding status_row [OF ok] status_row [OF ok'] rows by (auto simp: turn_key_def split: if_splits)
  qed
qed

text \<open>The other writers of the table: a baseline is added, a pending turn is frozen.\<close>

lemma save_turn_baseline_kept:
  assumes "save_turn_baseline senc st i rid s = Inr st'"
  shows "turns_kept st st'"
proof (cases "list_ex (turn_key i rid) (db_turn_changes st)")
  case True
  then show ?thesis using assms by (auto simp: save_turn_baseline_def small_json_def turns_kept_def result_simps)
next
  case False
  then have rows: "db_turn_changes st' = db_turn_changes st @ [\<lparr>tr_session_id = i, tr_request_id = rid, tr_baseline = Some s, tr_data = None\<rparr>]"
    using assms by (auto simp: save_turn_baseline_def small_json_def result_simps)
  show ?thesis unfolding turns_kept_def
  proof (intro impI conjI allI)
    assume ok: "turn_rows_ok st"
    show ok': "turn_rows_ok st'" using ok False by (auto simp: turn_rows_ok_def rows list_ex_iff turn_key_def)
    fix j k
    have "stored_status st' j k = stored_status st j k"
      by (rule status_same [OF ok ok']) (auto simp: status_row [OF ok] status_row [OF ok'] rows)
    then show "stored_status st' j k = stored_status st j k \<or> stored_status st j k = None \<and> stored_status st' j k = Some UndoReady" ..
  qed
qed

lemma finish_turn_kept:
  assumes "finish_turn fenc enc st i t = Inr st'" and ready: "tch_undo (ft_changes t) = UndoReady"
  shows "turns_kept st st'"
  unfolding turns_kept_def
proof (intro impI conjI allI)
  assume ok: "turn_rows_ok st"
  let ?key = "\<lambda>r. turn_key i (turn_id t) r \<and> tr_baseline r \<noteq> None" and ?f = "\<lambda>r. r\<lparr>tr_baseline := None, tr_data := Some t\<rparr>"
  have rows: "db_turn_changes st' = map (\<lambda>r. if ?key r then ?f r else r) (db_turn_changes st)"
    using assms(1)
    by (auto simp: finish_turn_def Let_def small_json_def result_simps update_where_def turn_id_def dest!: turn_event_rows split: if_splits)
  have fields: "tr_session_id (if c then ?f r else r) = tr_session_id r" "tr_request_id (if c then ?f r else r) = tr_request_id r" for c r by simp_all
  have keys: "map (\<lambda>r. (tr_session_id r, tr_request_id r)) (db_turn_changes st') = map (\<lambda>r. (tr_session_id r, tr_request_id r)) (db_turn_changes st)"
    by (simp add: rows fields)
  have pending: "tr_data r = None" if "r \<in> set (db_turn_changes st)" "?key r" for r
    using ok that by (auto simp: turn_rows_ok_def split: option.splits)
  have "case tr_data (if ?key r then ?f r else r) of None \<Rightarrow> True
      | Some t \<Rightarrow> turn_id t = tr_request_id (if ?key r then ?f r else r) \<and> tr_baseline (if ?key r then ?f r else r) = None"
    if "r \<in> set (db_turn_changes st)" for r
    using ok that by (auto simp: turn_rows_ok_def turn_key_def)
  then have "\<forall>r \<in> set (db_turn_changes st'). case tr_data r of None \<Rightarrow> True | Some t \<Rightarrow> turn_id t = tr_request_id r \<and> tr_baseline r = None"
    unfolding rows set_map by blast
  then show ok': "turn_rows_ok st'" using ok unfolding turn_rows_ok_def keys by blast
  fix j k
  have old: "stored_status st' j k = Some u" if some: "stored_status st j k = Some u" for u
  proof -
    obtain r s where r: "r \<in> set (db_turn_changes st)" "turn_key j k r" "tr_data r = Some s" "tch_undo (ft_changes s) = u"
      using some unfolding status_row [OF ok] by blast
    have "\<not> ?key r" using pending [OF r(1)] r(3) by (cases "tr_baseline r") auto
    then have "(if ?key r then ?f r else r) = r" by (rule if_not_P)
    then have "r \<in> set (db_turn_changes st')" using imageI [OF r(1), of "\<lambda>r. if ?key r then ?f r else r"] by (simp only: rows set_map)
    then show ?thesis using r unfolding status_row [OF ok'] by blast
  qed
  have new: "stored_status st j k = Some u \<or> u = UndoReady" if some: "stored_status st' j k = Some u" for u
  proof -
    obtain q s where q: "q \<in> set (db_turn_changes st)" "turn_key j k (if ?key q then ?f q else q)"
      "tr_data (if ?key q then ?f q else q) = Some s" "tch_undo (ft_changes s) = u"
      using some unfolding status_row [OF ok'] rows by auto
    show ?thesis
    proof (cases "?key q")
      case True
      then show ?thesis using q ready by simp
    next
      case False
      then show ?thesis using q unfolding status_row [OF ok] by auto
    qed
  qed
  show "stored_status st' j k = stored_status st j k \<or> stored_status st j k = None \<and> stored_status st' j k = Some UndoReady"
    using old new by (metis option.exhaust)
qed

section \<open>At most one attempt\<close>

lemma checked_ready: "undo_check env h path t = Inr () \<Longrightarrow> tch_undo (ft_changes t) = UndoReady"
  by (auto simp: undo_check_def lift_error_def validate_undo_def turn_materialized_def validate_loaded_def turn_undoable_def Let_def
      result_simps split: sum.splits)

lemma lift_error_eq [simp]: "lift_error f r = Inr x \<longleftrightarrow> r = Inr x"
  by (cases r) (simp_all add: lift_error_def)

lemma fetched:
  assumes "turn_changes_of dir st i rid = Inr t" and "turn_rows_ok st"
  shows "turn_id t = rid" and "stored_status st i rid = Some (tch_undo (ft_changes t))"
proof -
  obtain r u where r: "List.find (turn_key i rid) (db_turn_changes st) = Some r" "tr_data r = Some u" and t: "t = turn_attach dir u"
    using assms(1) by (auto simp: turn_changes_of_def result_simps split: option.splits)
  then have "r \<in> set (db_turn_changes st)" "turn_key i rid r" by (auto simp: find_Some_iff)
  then show "turn_id t = rid" using assms(2) r t by (auto simp: turn_rows_ok_def turn_id_def turn_attach_def turn_key_def)
  show "stored_status st i rid = Some (tch_undo (ft_changes t))" using r t by (simp add: stored_status_def turn_attach_def)
qed

definition attempted :: "undo_host \<Rightarrow> (string \<times> string) set" where
  "attempted h = (\<lambda>(i, rid, _). (i, rid)) ` set (uh_restored h)"

lemma attempted_updates [simp]:
  "attempted (h\<lparr>uh_store := st\<rparr>) = attempted h" "attempted (h\<lparr>uh_phase := p\<rparr>) = attempted h"
  "attempted (h\<lparr>uh_objects := os\<rparr>) = attempted h" "attempted (h\<lparr>uh_trees := ts\<rparr>) = attempted h"
  by (simp_all add: attempted_def)

text \<open>The invariant: what the phase says of the stored status, and that a status of an attempt is final.\<close>

definition phase_ok :: "undo_host \<Rightarrow> bool" where
  "phase_ok h \<longleftrightarrow>
     (case uh_phase h of
        UndoFree \<Rightarrow> True
      | UndoChecked i _ t \<Rightarrow> stored_status (uh_store h) i (turn_id t) = Some UndoReady
      | UndoMarked i _ t \<Rightarrow> stored_status (uh_store h) i (turn_id t) = Some UndoUnknown \<and> (i, turn_id t) \<notin> attempted h
      | UndoDone i t \<Rightarrow> stored_status (uh_store h) i (turn_id t) = Some UndoUnknown \<and> (i, turn_id t, True) \<in> set (uh_restored h))"

definition undo_ok :: "(string \<times> string) set \<Rightarrow> undo_host \<Rightarrow> bool" where
  "undo_ok old h \<longleftrightarrow> turn_rows_ok (uh_store h) \<and> phase_ok h \<and>
     distinct (map (\<lambda>(i, rid, _). (i, rid)) (uh_restored h)) \<and>
     (\<forall>(i, rid) \<in> attempted h. stored_status (uh_store h) i rid = Some UndoUnknown \<or> stored_status (uh_store h) i rid = Some UndoReverted) \<and>
     (\<forall>i rid. stored_status (uh_store h) i rid = Some UndoReverted \<longrightarrow> (i, rid) \<in> old \<or> (i, rid, True) \<in> set (uh_restored h))"

lemma undo_ok_free: "undo_ok old h \<Longrightarrow> undo_ok old (h\<lparr>uh_phase := UndoFree\<rparr>)"
  by (simp add: undo_ok_def phase_ok_def attempted_def)

lemma undo_ok_start:
  assumes "undo_ok old h" and "undo_begin env idle h i rid = Inr (Inr (path, t))"
  shows "undo_ok old (h\<lparr>uh_phase := UndoChecked i path t\<rparr>)"
proof -
  have ok: "turn_rows_ok (uh_store h)" using assms(1) by (simp add: undo_ok_def)
  obtain d where t: "turn_changes_of d (uh_store h) i rid = Inr t" and c: "undo_check env h path t = Inr ()"
    using assms(2) by (auto simp: undo_begin_def result_simps split: if_splits)
  show ?thesis using assms(1) fetched [OF t ok] checked_ready [OF c] by (simp add: undo_ok_def phase_ok_def attempted_def)
qed

lemma undo_ok_update:
  assumes ok: "undo_ok old h" and up: "update_turn fenc enc (uh_store h) i (set_undo u t) = Inr st" and u: "u \<noteq> UndoReady"
    and log: "u = UndoReverted \<Longrightarrow> (i, turn_id t, True) \<in> set (uh_restored h)" and phase: "phase_ok (h\<lparr>uh_store := st, uh_phase := p\<rparr>)"
  shows "undo_ok old (h\<lparr>uh_store := st, uh_phase := p\<rparr>)"
proof -
  have id: "turn_id (set_undo u t) = turn_id t" by (simp add: turn_id_def set_undo_def)
  have rows: "turn_rows_ok (uh_store h)" using ok by (simp add: undo_ok_def)
  note s = update_turn_status [OF up rows, unfolded id]
  have here: "stored_status st i (turn_id t) = Some u" using s(2) by (simp add: set_undo_def)
  have "stored_status st j k = Some UndoUnknown \<or> stored_status st j k = Some UndoReverted" if jk: "(j, k) \<in> attempted h" for j k
  proof (cases "(j, k) = (i, turn_id t)")
    case True
    then show ?thesis using here u by (cases u) auto
  next
    case False
    then show ?thesis using s(3) [OF False] ok jk by (auto simp: undo_ok_def)
  qed
  moreover have "(j, k) \<in> old \<or> (j, k, True) \<in> set (uh_restored h)" if jk: "stored_status st j k = Some UndoReverted" for j k
  proof (cases "(j, k) = (i, turn_id t)")
    case True
    then show ?thesis using here jk log by auto
  next
    case False
    then show ?thesis using s(3) [OF False] ok jk by (simp add: undo_ok_def)
  qed
  ultimately show ?thesis using ok s(1) phase by (simp add: undo_ok_def) blast
qed

lemma undo_ok_mark:
  assumes ok: "undo_ok old h" and phase: "uh_phase h = UndoChecked i path t" and m: "undo_mark env h i path t = Inr st"
  shows "undo_ok old (h\<lparr>uh_store := st, uh_phase := UndoMarked i path (set_undo UndoUnknown t)\<rparr>)"
proof -
  have up: "update_turn (ue_fenc env) (ue_enc env) (uh_store h) i (set_undo UndoUnknown t) = Inr st"
    using m by (auto simp: undo_mark_def result_simps)
  have id: "turn_id (set_undo UndoUnknown t) = turn_id t" by (simp add: turn_id_def set_undo_def)
  have ready: "stored_status (uh_store h) i (turn_id t) = Some UndoReady" using ok phase by (simp add: undo_ok_def phase_ok_def)
  then have "(i, turn_id t) \<notin> attempted h" using ok by (auto simp: undo_ok_def)
  moreover have "stored_status st i (turn_id t) = Some UndoUnknown"
    using update_turn_status(2) [OF up] ok by (simp add: undo_ok_def id) (simp add: set_undo_def)
  ultimately have "phase_ok (h\<lparr>uh_store := st, uh_phase := UndoMarked i path (set_undo UndoUnknown t)\<rparr>)"
    by (simp add: phase_ok_def attempted_def id)
  then show ?thesis using undo_ok_update [OF ok up] by simp
qed

lemma undo_ok_restore:
  assumes ok: "undo_ok old h" and phase: "uh_phase h = UndoMarked i path t"
  shows "undo_ok old (undo_restore env disk h i path t)"
proof -
  obtain r w where rw: "restore (ue_digest env) (ue_sdec env) (ue_cdec env) (uh_objects h) disk t (uh_trees h path) = (r, w)"
    by fastforce
  let ?h = "undo_restore env disk h i path t"
  have h: "uh_store ?h = uh_store h" "uh_restored ?h = uh_restored h @ [(i, turn_id t, \<not> isl r)]"
    "uh_phase ?h = (case r of Inl _ \<Rightarrow> UndoFree | Inr _ \<Rightarrow> UndoDone i t)"
    by (simp_all add: undo_restore_def rw)
  have p: "stored_status (uh_store h) i (turn_id t) = Some UndoUnknown" "(i, turn_id t) \<notin> attempted h"
    using ok phase by (simp_all add: undo_ok_def phase_ok_def)
  have a: "attempted ?h = insert (i, turn_id t) (attempted h)" by (auto simp: attempted_def h)
  have "phase_ok ?h" using p by (cases r) (simp_all add: phase_ok_def h)
  moreover have "distinct (map (\<lambda>(i, rid, _). (i, rid)) (uh_restored ?h))" using ok p(2) by (simp add: undo_ok_def h attempted_def)
  ultimately show ?thesis using ok p(1) unfolding undo_ok_def a h(1) by (auto simp: h(2))
qed

lemma undo_ok_others:
  assumes ok: "undo_ok old h" and kept: "turns_kept (uh_store h) st"
  shows "undo_ok old (h\<lparr>uh_store := st, uh_objects := os, uh_trees := trees\<rparr>)"
proof -
  have rows: "turn_rows_ok st" and same: "\<And>i rid. stored_status st i rid = stored_status (uh_store h) i rid \<or>
      stored_status (uh_store h) i rid = None \<and> stored_status st i rid = Some UndoReady"
    using ok kept by (simp_all add: undo_ok_def turns_kept_def)
  have keep: "stored_status st i rid = Some u" if "stored_status (uh_store h) i rid = Some u" for i rid u
    using same [of i rid] that by auto
  have past: "stored_status (uh_store h) i rid = Some UndoReverted" if "stored_status st i rid = Some UndoReverted" for i rid
    using same [of i rid] that by auto
  have "phase_ok (h\<lparr>uh_store := st, uh_objects := os, uh_trees := trees\<rparr>)"
    using ok by (cases "uh_phase h") (simp_all add: undo_ok_def phase_ok_def attempted_def keep)
  moreover have "\<forall>(i, rid) \<in> attempted h. stored_status st i rid = Some UndoUnknown \<or> stored_status st i rid = Some UndoReverted"
    using ok keep unfolding undo_ok_def by fast
  moreover have "\<forall>i rid. stored_status st i rid = Some UndoReverted \<longrightarrow> (i, rid) \<in> old \<or> (i, rid, True) \<in> set (uh_restored h)"
    using ok past unfolding undo_ok_def by blast
  ultimately show ?thesis using ok rows by (simp add: undo_ok_def)
qed

lemma undo_ok_step: "undo_step env h h' \<Longrightarrow> undo_ok old h \<Longrightarrow> undo_ok old h'"
proof (induction rule: undo_step.induct)
  case (finish h i t st)
  have up: "update_turn (ue_fenc env) (ue_enc env) (uh_store h) i (set_undo UndoReverted t) = Inr st"
    using finish.hyps(2) by (simp add: undo_finish_def)
  have "(i, turn_id t, True) \<in> set (uh_restored h)" using finish by (simp add: undo_ok_def phase_ok_def)
  then show ?case using undo_ok_update [OF finish.prems up, of UndoFree] by (simp add: phase_ok_def)
qed (blast intro: undo_ok_start undo_ok_mark undo_ok_restore undo_ok_free undo_ok_others)+

text \<open>C11: However requests to undo, their failures, crashes and the rest of the server interleave, the restoration of
  a turn is attempted at most once: from the first attempt on its durable status says so, and a turn is shown as
  reverted only after a restoration that succeeded.\<close>

theorem undo_attempted_once:
  assumes "(undo_step env)\<^sup>*\<^sup>* h h'" and "turn_rows_ok (uh_store h)" and "uh_phase h = UndoFree" and "uh_restored h = []"
  shows "distinct (map (\<lambda>(i, rid, _). (i, rid)) (uh_restored h')) \<and>
    list_all (\<lambda>(i, rid, _). stored_status (uh_store h') i rid \<in> {Some UndoUnknown, Some UndoReverted}) (uh_restored h') \<and>
    (\<forall>i rid. stored_status (uh_store h') i rid = Some UndoReverted \<longrightarrow>
       stored_status (uh_store h) i rid = Some UndoReverted \<or> (i, rid, True) \<in> set (uh_restored h'))"
proof -
  let ?old = "{(i, rid). stored_status (uh_store h) i rid = Some UndoReverted}"
  have "undo_ok ?old h" using assms(2-4) by (simp add: undo_ok_def phase_ok_def attempted_def)
  with assms(1) have "undo_ok ?old h'" by (induction rule: rtranclp_induct) (auto intro: undo_ok_step)
  then show ?thesis by (force simp: undo_ok_def attempted_def list_all_iff)
qed

text \<open>The turn of the example, undone by a request.\<close>

definition ex_undo :: undo_env where
  "ex_undo = \<lparr>ue_digest = ex_digest, ue_sdec = ex_sdec, ue_cdec = (\<lambda>_. None), ue_fenc = (\<lambda>_. []), ue_enc = (\<lambda>_. []), ue_dir = ''objects''\<rparr>"

definition ex_host :: undo_host where
  "ex_host = \<lparr>uh_store = sample_store\<lparr>db_requests := [\<lparr>rq_id = ''r'', rq_session_id = ''s'', rq_text = [], rq_model = None, rq_effort = None,
        rq_provider_fingerprint = None, rq_permission_mode = None\<rparr>],
        db_turn_changes := [\<lparr>tr_session_id = ''s'', tr_request_id = ''r'', tr_baseline = None,
          tr_data = Some (ex_turn (ex_stored ex_first) (ex_stored ex_second))\<rparr>]\<rparr>,
     uh_objects = ex_objects, uh_trees = (\<lambda>_. ex_new), uh_phase = UndoFree, uh_restored = []\<rparr>"

lemma ex_begun:
  "undo_begin ex_undo True ex_host ''s'' ''r'' = Inr (Inr (''/w'', ex_turn (ex_stored ex_first) (ex_stored ex_second)))"
proof -
  let ?t = "ex_turn (ex_stored ex_first) (ex_stored ex_second)"
  have "turn_attach ''objects'' ?t = ?t" by (simp add: turn_attach_def ex_turn_def ex_attach)
  then have "turn_changes_of ''objects'' (uh_store ex_host) ''s'' ''r'' = Inr ?t"
    by (simp add: turn_changes_of_def ex_host_def sample_store_def session_by_id_def turn_key_def)
  moreover have "tch_undo (ft_changes ?t) = UndoReady" by (simp add: ex_turn_def)
  moreover have "latest_request (uh_store ex_host) ''s'' = Inr ''r''" "\<not> has_active_sessions (uh_store ex_host)"
    "session_by_id (uh_store ex_host) ''s'' = Inr sample_session"
    by (simp_all add: ex_host_def latest_request_def has_active_sessions_def sample_store_def sample_session_def session_by_id_def)
  moreover have "project_by_id (uh_store ex_host) (ses_project_id sample_session) = Inr \<lparr>prj_id = ''p'', prj_name = ''work'', prj_path = ''/w''\<rparr>"
    by (simp add: ex_host_def project_by_id_def all_projects_def sample_store_def sample_session_def)
  moreover have "undo_check ex_undo ex_host ''/w'' ?t = Inr ()" by (simp add: undo_check_def ex_undo_def ex_host_def ex_checked)
  ultimately show ?thesis by (simp add: undo_begin_def ex_undo_def [THEN arg_cong, of ue_dir] lift_error_def)
qed

lemma ex_update:
  assumes "session_exists st ''s''" and "db_turn_changes st = [\<lparr>tr_session_id = ''s'', tr_request_id = ''r'', tr_baseline = None, tr_data = Some u\<rparr>]"
    and "turn_id t = ''r''"
  obtains st' where "update_turn (\<lambda>_. []) (\<lambda>_. []) st ''s'' t = Inr st'" and "session_exists st' ''s''"
    and "db_turn_changes st' = [\<lparr>tr_session_id = ''s'', tr_request_id = ''r'', tr_baseline = None, tr_data = Some t\<rparr>]"
proof -
  have "\<exists>st'. update_turn (\<lambda>_. []) (\<lambda>_. []) st ''s'' t = Inr st' \<and> session_exists st' ''s'' \<and>
      db_turn_changes st' = [\<lparr>tr_session_id = ''s'', tr_request_id = ''r'', tr_baseline = None, tr_data = Some t\<rparr>]"
    using assms by (simp add: update_turn_def small_json_def turn_event_def read_clock_def insert_event_def turn_key_def count_where_def
        session_exists_def turn_id_def Let_def)
  then show thesis using that by blast
qed

lemma set_undo_verifies: "verify_current digest (set_undo u t) = verify_current digest t"
proof -
  have "as_left digest (set_undo u t) = as_left digest t"
    by (intro ext) (auto simp: as_left_def set_undo_def split: option.split node.split)
  moreover have "root_unchanged (set_undo u t) = root_unchanged t" by (rule ext) (simp add: root_unchanged_def set_undo_def)
  ultimately show ?thesis by (intro ext) (simp add: verify_current_def)
qed

lemma set_undo_restores: "restore_entry digest os disk (set_undo u t) p = restore_entry digest os disk t p"
proof -
  have fields: "ft_before (set_undo u t) = ft_before t" "ft_after (set_undo u t) = ft_after t" by (simp_all add: set_undo_def)
  have "restore_file digest os disk (set_undo u t) = restore_file digest os disk t"
    by (intro ext) (simp only: restore_file_def set_undo_verifies fields)
  then show ?thesis by (simp only: restore_entry_def set_undo_verifies fields)
qed

lemma set_undo_restore_loaded: "restore_loaded digest os disk (set_undo u t) = restore_loaded digest os disk t"
proof -
  have "restore_entry digest os disk (set_undo u t) = restore_entry digest os disk t" by (rule ext) (rule set_undo_restores)
  then show ?thesis by (simp add: restore_loaded_def) (simp add: set_undo_def)
qed

lemma ex_undo_runs:
  obtains h where "(undo_step ex_undo)\<^sup>*\<^sup>* ex_host h" and "uh_restored h = [(''s'', ''r'', True)]"
    and "stored_status (uh_store h) ''s'' ''r'' = Some UndoReverted"
proof -
  let ?t = "ex_turn (ex_stored ex_first) (ex_stored ex_second)" and ?h = ex_host
  let ?u = "set_undo UndoUnknown ?t"
  have id: "turn_id (set_undo v ?t) = ''r''" for v by (simp add: turn_id_def set_undo_def ex_turn_def)
  let ?h1 = "?h\<lparr>uh_phase := UndoChecked ''s'' ''/w'' ?t\<rparr>"
  have s1: "undo_step ex_undo ?h ?h1" by (rule undo_step.start [OF _ ex_begun]) (simp add: ex_host_def)
  have "session_exists (uh_store ?h1) ''s''" by (simp add: ex_host_def sample_store_def session_exists_def)
  then obtain st where st: "update_turn (\<lambda>_. []) (\<lambda>_. []) (uh_store ?h1) ''s'' ?u = Inr st" "session_exists st ''s''"
    "db_turn_changes st = [\<lparr>tr_session_id = ''s'', tr_request_id = ''r'', tr_baseline = None, tr_data = Some ?u\<rparr>]"
    by (rule ex_update [where t = ?u]) (simp_all add: ex_host_def id)
  have check: "undo_check ex_undo ?h1 ''/w'' ?t = Inr ()" by (simp add: undo_check_def ex_undo_def ex_host_def ex_checked)
  have m: "undo_mark ex_undo ?h1 ''s'' ''/w'' ?t = Inr st"
    using st(1) by (simp add: undo_mark_def check) (simp add: ex_undo_def)
  let ?h2 = "?h1\<lparr>uh_store := st, uh_phase := UndoMarked ''s'' ''/w'' ?u\<rparr>"
  have s2: "undo_step ex_undo ?h1 ?h2" by (rule undo_step.mark [OF _ m]) simp
  let ?h3 = "undo_restore ex_undo ex_disk ?h2 ''s'' ''/w'' ?u"
  have s3: "undo_step ex_undo ?h2 ?h3" by (rule undo_step.restored) simp
  have "restore ex_digest ex_sdec (\<lambda>_. None) ex_objects ex_disk ?u ex_new = (Inr (), ex_undone)"
  proof -
    have "turn_materialized ex_digest ex_sdec (\<lambda>_. None) ex_objects ?u = Inr (set_undo UndoUnknown (ex_turn ex_first ex_second))"
      using ex_turn_read by (simp add: turn_materialized_def set_undo_def ex_turn_def and_then_eq_Inr)
    then show ?thesis using ex_restored by (simp add: restore_def set_undo_restore_loaded ex_turn_read eff_simps)
  qed
  then have h3: "uh_restored ?h3 = [(''s'', ''r'', True)]" "uh_store ?h3 = st" "uh_phase ?h3 = UndoDone ''s'' ?u"
    by (simp_all add: undo_restore_def ex_undo_def ex_host_def id)
  obtain st' where st': "update_turn (\<lambda>_. []) (\<lambda>_. []) st ''s'' (set_undo UndoReverted ?u) = Inr st'"
    "db_turn_changes st' = [\<lparr>tr_session_id = ''s'', tr_request_id = ''r'', tr_baseline = None, tr_data = Some (set_undo UndoReverted ?u)\<rparr>]"
    by (rule ex_update [OF st(2,3), where t = "set_undo UndoReverted ?u"]) (simp_all add: turn_id_def set_undo_def ex_turn_def)
  have f: "undo_finish ex_undo ?h3 ''s'' ?u = Inr st'" using st'(1) unfolding undo_finish_def h3(2) by (simp add: ex_undo_def)
  have s4: "undo_step ex_undo ?h3 (?h3\<lparr>uh_store := st', uh_phase := UndoFree\<rparr>)" by (rule undo_step.finish [OF h3(3) f])
  have "(undo_step ex_undo)\<^sup>*\<^sup>* ex_host (?h3\<lparr>uh_store := st', uh_phase := UndoFree\<rparr>)"
    by (rule converse_rtranclp_into_rtranclp [OF s1 converse_rtranclp_into_rtranclp [OF s2
          converse_rtranclp_into_rtranclp [OF s3 r_into_rtranclp [of "undo_step ex_undo", OF s4]]]])
  then show thesis
  proof (rule that)
    show "uh_restored (?h3\<lparr>uh_store := st', uh_phase := UndoFree\<rparr>) = [(''s'', ''r'', True)]" using h3(1) by simp
    show "stored_status (uh_store (?h3\<lparr>uh_store := st', uh_phase := UndoFree\<rparr>)) ''s'' ''r'' = Some UndoReverted"
      using st'(2) by (simp add: stored_status_def turn_key_def) (simp add: set_undo_def)
  qed
qed

theorem undo_attempted_once_witness:
  "\<exists>h. (undo_step ex_undo)\<^sup>*\<^sup>* ex_host h \<and> distinct (map (\<lambda>(i, rid, _). (i, rid)) (uh_restored h)) \<and>
     uh_restored h = [(''s'', ''r'', True)] \<and> stored_status (uh_store h) ''s'' ''r'' = Some UndoReverted"
proof (rule ex_undo_runs)
  fix h
  assume h: "(undo_step ex_undo)\<^sup>*\<^sup>* ex_host h" "uh_restored h = [(''s'', ''r'', True)]"
    "stored_status (uh_store h) ''s'' ''r'' = Some UndoReverted"
  have start: "turn_rows_ok (uh_store ex_host)" "uh_phase ex_host = UndoFree" "uh_restored ex_host = []"
    by (simp_all add: ex_host_def turn_rows_ok_def turn_id_def ex_turn_def)
  show ?thesis using undo_attempted_once [OF h(1) start] h by blast
qed

end
