(* ===== verification/Recovery.thy ===== *)
theory Recovery
  imports Turns "HOL-Library.Sublist"
begin

text \<open>
  What opening the database changes: exactly the rows that claim something is still running, and the log. One relation
  per table says how a row may change (\<open>row_lost\<close>, \<open>turn_closed\<close>, \<open>session_lost\<close>); a loop of the recovery moves every
  row along it, and what \<open>Turns\<close> shows of the end of the loop makes the result exact.
\<close>

section \<open>Events of the recovery\<close>

definition only_recovers :: "store \<Rightarrow> store \<Rightarrow> bool" where
  "only_recovers a b \<longleftrightarrow>
     b = a\<lparr>db_sessions := db_sessions b, db_events := db_events b, db_event_seq := db_event_seq b, db_subagents := db_subagents b,
           db_queue := db_queue b, db_queue_state := db_queue_state b, db_turn_changes := db_turn_changes b,
           db_clock_reads := db_clock_reads b\<rparr> \<and>
     prefix (db_events a) (db_events b)"

lemma only_recovers_refl [simp]: "only_recovers a a"
  by (simp add: only_recovers_def)

lemma only_recovers_trans: "only_recovers a b \<Longrightarrow> only_recovers b c \<Longrightarrow> only_recovers a c"
  by (cases a; cases b; cases c) (auto simp: only_recovers_def)

lemma for_each_recovers:
  assumes "for_each f st xs = Inr st'" and "\<And>st x st'. f st x = Inr st' \<Longrightarrow> only_recovers st st'"
  shows "only_recovers st st'"
  by (rule for_each_invariant [OF assms(1)]) (auto dest: assms(2) intro: only_recovers_trans)

fun recovery_event :: "event_kind \<Rightarrow> bool" where
  "recovery_event (Notice _) = True"
| "recovery_event (State _ _) = True"
| "recovery_event (TurnChanges _) = True"
| "recovery_event _ = False"

lemma store_event_recovers:
  assumes "store_event enc parse st i e = Inr st'" and "recovery_event e"
  shows "only_recovers st st'" "db_subagents st' = db_subagents st" "same_core st st'"
proof -
  show "only_recovers st st'" "db_subagents st' = db_subagents st"
    using assms by (cases e; auto simp: store_event_def result_simps read_clock_def insert_event_Inr index_event_def event_sources_def
        only_recovers_def)+
  show "same_core st st'" using assms(1) by (rule store_event_core)
qed

lemma index_subagent [simp]: "index_event parse st i (SubagentEv u) = Inr st"
  by (simp add: index_event_def event_sources_def)

lemma store_subagent:
  assumes "store_event enc parse st i (SubagentEv u) = Inr st'"
  shows "\<exists>t task. task = update_subagent (case latest_subagent (subagent_matches i (su_id u) (su_tool_use_id u)) st of
             Some r \<Rightarrow> sbr_data r | None \<Rightarrow> new_subagent u t) u t \<and>
           db_subagents st' = db_subagents (upsert_subagent st i task t)" and "only_recovers st st'"
proof -
  have latest: "latest_subagent p (st\<lparr>db_clock_reads := n\<rparr>) = latest_subagent p st" for p n
    by (simp add: latest_subagent_def)
  have upsert: "db_subagents (upsert_subagent (st\<lparr>db_clock_reads := n\<rparr>) i task t) = db_subagents (upsert_subagent st i task t)" for n task t
    by (simp add: upsert_subagent_def Let_def)
  from assms show "\<exists>t task. task = update_subagent (case latest_subagent (subagent_matches i (su_id u) (su_tool_use_id u)) st of
             Some r \<Rightarrow> sbr_data r | None \<Rightarrow> new_subagent u t) u t \<and>
           db_subagents st' = db_subagents (upsert_subagent st i task t)"
    by (auto simp: store_event_def result_simps read_clock_def insert_event_Inr track_subagent_def Let_def latest upsert)
  have "only_recovers st (upsert_subagent (st\<lparr>db_clock_reads := n\<rparr>) i task t)" for n task t
    by (simp add: only_recovers_def upsert_subagent_def Let_def)
  moreover have "only_recovers a (a\<lparr>db_events := db_events a @ es, db_event_seq := n\<rparr>)" for a es n
    by (simp add: only_recovers_def)
  ultimately have "only_recovers st (a\<lparr>db_events := db_events a @ es, db_event_seq := k\<rparr>)"
    if "a = upsert_subagent (st\<lparr>db_clock_reads := n\<rparr>) i task t" for a n task t es k
    using that only_recovers_trans by metis
  then show "only_recovers st st'" using assms
    by (auto simp: store_event_def result_simps read_clock_def insert_event_Inr track_subagent_def Let_def)
qed

section \<open>Rows\<close>

text \<open>A relation on rows that every step of a loop moves a table along.\<close>

lemma for_each_rows:
  assumes "for_each f st xs = Inr st'"
    and "\<And>a b c. R a b \<Longrightarrow> R b c \<Longrightarrow> R a c" and "\<And>a. R a a"
    and "\<And>x st st'. x \<in> set xs \<Longrightarrow> f st x = Inr st' \<Longrightarrow> list_all2 R (tab st) (tab st')"
  shows "list_all2 R (tab st) (tab st')"
proof (rule for_each_invariant [OF assms(1), where P = "\<lambda>s. list_all2 R (tab st) (tab s)"])
  show "list_all2 R (tab st) (tab st)" using assms(3) by (simp add: list_all2_refl)
next
  fix s x s'
  assume "x \<in> set xs" "list_all2 R (tab st) (tab s)" "f s x = Inr s'"
  then show "list_all2 R (tab st) (tab s')"
    using list_all2_trans [of R R R "tab st" "tab s" "tab s'"] assms(2,4) by blast
qed

lemma rows_exact:
  assumes "list_all2 R as bs" and "\<And>a b. a \<in> set as \<Longrightarrow> b \<in> set bs \<Longrightarrow> R a b \<Longrightarrow> b = g a"
  shows "bs = map g as"
  using assms by (induction rule: list_all2_induct) auto

lemma update_rows: "(\<And>r. R r r) \<Longrightarrow> (\<And>r. p r \<Longrightarrow> R r (f r)) \<Longrightarrow> list_all2 R rs (update_where p f rs)"
  by (induction rs) (simp_all add: update_where_def)

definition row_lost :: "queue_row \<Rightarrow> queue_row \<Rightarrow> bool" where
  "row_lost r r' \<longleftrightarrow> r' = r \<or> q_status r = Forwarded \<and> r' = r\<lparr>q_status := Uncertain\<rparr>"

definition turn_closed :: "turn_row \<Rightarrow> turn_row \<Rightarrow> bool" where
  "turn_closed r r' \<longleftrightarrow> r' = r \<or> r' = r\<lparr>tr_baseline := None\<rparr>"

definition session_lost :: "session_row \<Rightarrow> session_row \<Rightarrow> bool" where
  "session_lost r r' \<longleftrightarrow> r' = r \<or> status_active (ses_status (sr_data r)) \<and> r' = r\<lparr>sr_data := (sr_data r)\<lparr>ses_status := Unknown\<rparr>\<rparr>"

lemma row_relations:
  "row_lost r r" "row_lost a b \<Longrightarrow> row_lost b c \<Longrightarrow> row_lost a c"
  "turn_closed x x" "turn_closed x y \<Longrightarrow> turn_closed y z \<Longrightarrow> turn_closed x z"
  by (auto simp: row_lost_def turn_closed_def)

text \<open>Handed-over messages.\<close>

lemma uncertain_recovers:
  assumes "uncertain_forwarded enc parse st i = Inr st'"
  shows "only_recovers st st'" "list_all2 row_lost (db_queue st) (db_queue st')" "db_queue_state st' = db_queue_state st"
    "db_turn_changes st' = db_turn_changes st" "db_subagents st' = db_subagents st"
proof -
  let ?p = "\<lambda>r. q_session_id r = i \<and> q_status r = Forwarded"
  define st1 where "st1 = st\<lparr>db_queue := update_where ?p (\<lambda>r. r\<lparr>q_status := Uncertain\<rparr>) (db_queue st)\<rparr>"
  have s: "only_recovers st1 st' \<and> db_subagents st' = db_subagents st1 \<and> same_core st1 st'"
    using assms store_event_recovers [of enc parse st1 i _ st']
    by (auto simp: uncertain_forwarded_def st1_def Let_def split: if_splits)
  have "only_recovers st st1" by (simp add: st1_def only_recovers_def)
  with s show "only_recovers st st'" by (blast intro: only_recovers_trans)
  have "list_all2 row_lost (db_queue st) (db_queue st1)" by (auto simp: st1_def row_lost_def intro!: update_rows)
  with s show "list_all2 row_lost (db_queue st) (db_queue st')" "db_queue_state st' = db_queue_state st"
    "db_turn_changes st' = db_turn_changes st" "db_subagents st' = db_subagents st"
    by (auto simp: same_core_def st1_def)
qed

definition paused_rows :: "store \<Rightarrow> store \<Rightarrow> bool" where
  "paused_rows a b \<longleftrightarrow> (\<forall>s \<in> set (db_queue_state a). \<exists>s' \<in> set (db_queue_state b). qs_session_id s' = qs_session_id s \<and> (s' = s \<or> qs_paused s'))"

lemma paused_rows_trans: "paused_rows a b \<Longrightarrow> paused_rows b c \<Longrightarrow> paused_rows a c"
  unfolding paused_rows_def by metis

definition is_paused :: "store \<Rightarrow> string \<Rightarrow> bool" where
  "is_paused st i \<longleftrightarrow> (\<exists>s \<in> set (db_queue_state st). qs_session_id s = i \<and> qs_paused s)"

lemma paused_stays: "paused_rows a b \<Longrightarrow> is_paused a i \<Longrightarrow> is_paused b i"
  unfolding paused_rows_def is_paused_def by metis

lemma updated_row: "r \<in> set rs \<Longrightarrow> (if p r then f r else r) \<in> set (update_where p f rs)"
  unfolding update_where_def by auto

lemma pause_recovers:
  assumes "pause_queue st i (Some m) = Inr st'"
  shows "only_recovers st st'" "db_queue st' = db_queue st" "db_turn_changes st' = db_turn_changes st" "db_subagents st' = db_subagents st"
    "paused_rows st st'" "is_paused st' i"
proof -
  show "only_recovers st st'" "db_queue st' = db_queue st" "db_turn_changes st' = db_turn_changes st" "db_subagents st' = db_subagents st"
    using assms by (auto simp: pause_queue_def write_queue_state_def result_simps only_recovers_def split: if_splits)
  let ?f = "\<lambda>r. r\<lparr>qs_paused := True, qs_reason := Some m\<rparr>"
  have "paused_rows st st' \<and> is_paused st' i"
  proof (cases "list_ex (\<lambda>r. qs_session_id r = i) (db_queue_state st)")
    case True
    with assms have q: "db_queue_state st' = update_where (\<lambda>r. qs_session_id r = i) ?f (db_queue_state st)"
      by (auto simp: pause_queue_def write_queue_state_def)
    have "\<exists>s' \<in> set (db_queue_state st'). qs_session_id s' = qs_session_id s \<and> (s' = s \<or> qs_paused s') \<and> (qs_session_id s = i \<longrightarrow> qs_paused s')"
      if "s \<in> set (db_queue_state st)" for s
      using updated_row [OF that, of "\<lambda>r. qs_session_id r = i" ?f] by (intro bexI) (auto simp: q)
    with True show ?thesis by (fastforce simp: paused_rows_def is_paused_def list_ex_iff)
  next
    case False
    with assms show ?thesis by (auto simp: pause_queue_def write_queue_state_def result_simps paused_rows_def is_paused_def)
  qed
  then show "paused_rows st st'" "is_paused st' i" by blast+
qed

lemma recover_forwarded_parts:
  assumes "recover_forwarded enc parse st = Inr st'"
  shows "only_recovers st st'" "db_turn_changes st' = db_turn_changes st" "db_subagents st' = db_subagents st"
    "db_queue st' = map (\<lambda>r. if q_status r = Forwarded then r\<lparr>q_status := Uncertain\<rparr> else r) (db_queue st)"
    "paused_rows st st'" "\<And>r. r \<in> set (db_queue st) \<Longrightarrow> q_status r = Forwarded \<Longrightarrow> is_paused st' (q_session_id r)"
proof -
  note run = assms [unfolded recover_forwarded_def]
  let ?ids = "remdups (map q_session_id (filter (\<lambda>r. q_status r = Forwarded) (db_queue st)))"
  have step: "only_recovers a b \<and> db_turn_changes b = db_turn_changes a \<and> db_subagents b = db_subagents a \<and>
      list_all2 row_lost (db_queue a) (db_queue b) \<and> paused_rows a b \<and> is_paused b i"
    if e: "and_then (uncertain_forwarded enc parse a i) (\<lambda>st. pause_queue st i (Some restart_forwarded)) = Inr b" for a b i
  proof -
    from e obtain c where c: "uncertain_forwarded enc parse a i = Inr c" "pause_queue c i (Some restart_forwarded) = Inr b"
      by (auto simp: result_simps)
    note u = uncertain_recovers [OF c(1)] and p = pause_recovers [OF c(2)]
    have "paused_rows a c" using u(3) by (auto simp: paused_rows_def)
    with u p show ?thesis by (auto intro: only_recovers_trans paused_rows_trans)
  qed
  show "only_recovers st st'" using for_each_recovers [OF run] step by blast
  show "db_turn_changes st' = db_turn_changes st" "db_subagents st' = db_subagents st"
    by (rule for_each_invariant [OF run]; use step in \<open>simp | metis\<close>)+
  have rows: "list_all2 row_lost (db_queue st) (db_queue st')"
    by (rule for_each_rows [OF run row_relations(2,1)]) (assumption | use step in blast)+
  have "list_all (\<lambda>r. q_status r \<noteq> Forwarded) (db_queue st')"
    using recover_forwarded_none(1) [OF assms] recovered_iff(1) by blast
  then show "db_queue st' = map (\<lambda>r. if q_status r = Forwarded then r\<lparr>q_status := Uncertain\<rparr> else r) (db_queue st)"
    by (intro rows_exact [OF rows]) (auto simp: row_lost_def list_all_iff)
  show "paused_rows st st'"
  proof (rule for_each_invariant [OF run])
    show "paused_rows st st" by (auto simp: paused_rows_def)
  next
    fix a i b
    assume "paused_rows st a" "and_then (uncertain_forwarded enc parse a i) (\<lambda>st. pause_queue st i (Some restart_forwarded)) = Inr b"
    then show "paused_rows st b" using step paused_rows_trans by blast
  qed
  have all: "is_paused b i" if "for_each (\<lambda>st i. and_then (uncertain_forwarded enc parse st i) (\<lambda>st. pause_queue st i (Some restart_forwarded))) a xs = Inr b"
    "i \<in> set xs" for a b xs i
    using that
  proof (induction xs arbitrary: a)
    case (Cons x xs)
    then obtain c where c: "and_then (uncertain_forwarded enc parse a x) (\<lambda>st. pause_queue st x (Some restart_forwarded)) = Inr c"
      "for_each (\<lambda>st i. and_then (uncertain_forwarded enc parse st i) (\<lambda>st. pause_queue st i (Some restart_forwarded))) c xs = Inr b"
      by (auto simp: result_simps)
    have "paused_rows c b"
    proof (rule for_each_invariant [OF c(2)])
      show "paused_rows c c" by (auto simp: paused_rows_def)
    next
      fix a j d
      assume "paused_rows c a" "and_then (uncertain_forwarded enc parse a j) (\<lambda>st. pause_queue st j (Some restart_forwarded)) = Inr d"
      then show "paused_rows c d" using step paused_rows_trans by blast
    qed
    moreover have "is_paused c x" using step [OF c(1)] by blast
    ultimately have "is_paused b x" by (rule paused_stays)
    then show ?case using Cons.IH [OF c(2)] Cons.prems(2) by auto
  qed simp
  show "is_paused st' (q_session_id r)" if "r \<in> set (db_queue st)" "q_status r = Forwarded" for r
    by (rule all [OF run]) (use that in auto)
qed

section \<open>Subagents\<close>

text \<open>
  The update that ends a task finds its row by native id or tool call. It is the right row if no other row of the session
  matches these: \<open>unambiguous\<close>. (Two rows can share a native id if an agent reports one with the tool call of another.)
\<close>

definition unambiguous :: "store \<Rightarrow> bool" where
  "unambiguous st \<longleftrightarrow> subagent_rows_ok st \<and>
     (\<forall>r \<in> set (db_subagents st). sbr_native_id r = sa_native_id (sbr_data r) \<and> sbr_tool_use_id r = sa_tool_use_id (sbr_data r) \<and>
        (sbr_active r \<longrightarrow> filter (subagent_matches (sbr_session_id r) (sbr_native_id r) (sbr_tool_use_id r)) (db_subagents st) = [r]))"

definition ended :: "subagent_row \<Rightarrow> rat \<Rightarrow> subagent_row" where
  "ended r t = r\<lparr>sbr_active := False, sbr_at := t, sbr_data := (sbr_data r)\<lparr>sa_status := SubUnknown, sa_updated_at := t\<rparr>\<rparr>"

definition ends_in :: "(subagent_row \<Rightarrow> bool) \<Rightarrow> subagent_row \<Rightarrow> subagent_row \<Rightarrow> bool" where
  "ends_in P q q' \<longleftrightarrow> (if sbr_active q \<and> P q then \<exists>t. q' = ended q t else q' = q)"

lemma ended_keys [simp]: "sbr_session_id (ended r t) = sbr_session_id r" "sbr_id (ended r t) = sbr_id r"
    "subagent_matches i a b (ended r t) = subagent_matches i a b r" "\<not> sbr_active (ended r t)"
  by (simp_all add: ended_def subagent_matches_def)

lemma ends_in_trans: "ends_in P a b \<Longrightarrow> ends_in Q b c \<Longrightarrow> (\<And>t. Q (ended a t) \<longleftrightarrow> Q a) \<Longrightarrow> ends_in (\<lambda>q. P q \<or> Q q) a c"
  by (auto simp: ends_in_def split: if_splits)

lemma ended_task:
  assumes "sbr_native_id r = sa_native_id (sbr_data r)"
  shows "update_subagent (sbr_data r) (end_update (sbr_data r) SubUnknown) t = (sbr_data r)\<lparr>sa_status := SubUnknown, sa_updated_at := t\<rparr>"
  by (cases "sa_tool_use_id (sbr_data r)") (simp_all add: update_subagent_def end_update_def or_else_def Let_def)

lemma end_one:
  assumes "unambiguous st" and "r \<in> set (db_subagents st)" and "sbr_active r"
    and "store_event enc parse st (sbr_session_id r) (SubagentEv (end_update (sbr_data r) SubUnknown)) = Inr st'"
  shows "\<exists>t. db_subagents st' = map (\<lambda>q. if q = r then ended r t else q) (db_subagents st)" and "unambiguous st'"
proof -
  note ok = assms(1) [unfolded unambiguous_def]
  let ?u = "end_update (sbr_data r) SubUnknown"
  have keys: "sbr_native_id r = sa_native_id (sbr_data r)" "sbr_tool_use_id r = sa_tool_use_id (sbr_data r)" "sbr_id r = sa_id (sbr_data r)"
    using ok assms(2) by (auto simp: subagent_rows_ok_def)
  have "filter (subagent_matches (sbr_session_id r) (su_id ?u) (su_tool_use_id ?u)) (db_subagents st) = [r]"
    using ok assms(2,3) keys by (auto simp: end_update_def)
  then have "latest_subagent (subagent_matches (sbr_session_id r) (su_id ?u) (su_tool_use_id ?u)) st = Some r"
    by (simp add: latest_subagent_def)
  with store_subagent(1) [OF assms(4)] obtain t where
    t: "db_subagents st' = db_subagents (upsert_subagent st (sbr_session_id r) ((sbr_data r)\<lparr>sa_status := SubUnknown, sa_updated_at := t\<rparr>) t)"
    using ended_task [OF keys(1)] by auto
  have only: "sbr_session_id q = sbr_session_id r \<and> sbr_id q = sa_id (sbr_data r) \<longleftrightarrow> q = r" if "q \<in> set (db_subagents st)" for q
    using ok assms(2) that keys(3) by (auto simp: subagent_rows_ok_def distinct_map inj_on_def)
  let ?f = "\<lambda>q. if q = r then ended r t else q"
  have new: "db_subagents st' = map ?f (db_subagents st)"
    using only assms(2) keys
    by (auto simp: t upsert_subagent_cases update_where_def ended_def)
  then show "\<exists>t. db_subagents st' = map (\<lambda>q. if q = r then ended r t else q) (db_subagents st)" by blast
  have "subagent_rows_ok st'"
    using upsert_subagent_ok [of st "sbr_session_id r" "(sbr_data r)\<lparr>sa_status := SubUnknown, sa_updated_at := t\<rparr>" t] ok
      settled_row_cong [OF t] by blast
  moreover have "filter (subagent_matches i a b) (db_subagents st') = map ?f (filter (subagent_matches i a b) (db_subagents st))" for i a b
    by (auto simp: new filter_map comp_def intro!: arg_cong [where f = "map _"] filter_cong)
  ultimately show "unambiguous st'"
    using ok keys by (auto simp: unambiguous_def new ended_def)
qed

lemma end_rows:
  assumes "for_each (\<lambda>st task. store_event enc parse st i (SubagentEv (end_update task SubUnknown))) st (map sbr_data rs) = Inr st'"
    and "unambiguous st" and "\<forall>r \<in> set rs. r \<in> set (db_subagents st) \<and> sbr_active r \<and> sbr_session_id r = i" and "distinct rs"
  shows "unambiguous st' \<and> only_recovers st st' \<and> list_all2 (ends_in (\<lambda>q. q \<in> set rs)) (db_subagents st) (db_subagents st')"
  using assms
proof (induction rs arbitrary: st)
  case Nil
  then show ?case by (simp add: ends_in_def list_all2_refl)
next
  case (Cons r rs)
  have r: "r \<in> set (db_subagents st)" "sbr_active r" "sbr_session_id r = i" "r \<notin> set rs" "distinct rs"
    using Cons.prems(3,4) by simp_all
  from Cons.prems(1) obtain st1 where st1: "store_event enc parse st i (SubagentEv (end_update (sbr_data r) SubUnknown)) = Inr st1"
    "for_each (\<lambda>st task. store_event enc parse st i (SubagentEv (end_update task SubUnknown))) st1 (map sbr_data rs) = Inr st'"
    by (auto simp: result_simps)
  note e = st1(1) [folded r(3)]
  from end_one(1) [OF Cons.prems(2) r(1,2) e] obtain t where
    t: "db_subagents st1 = map (\<lambda>q. if q = r then ended r t else q) (db_subagents st)" by blast
  note u = end_one(2) [OF Cons.prems(2) r(1,2) e]
  have "\<forall>q \<in> set rs. q \<in> set (db_subagents st1) \<and> sbr_active q \<and> sbr_session_id q = i"
    using Cons.prems(3) r(4) by (auto simp: t image_iff)
  with Cons.IH [OF st1(2) u _ r(5)]
  have ih: "unambiguous st'" "only_recovers st1 st'" "list_all2 (ends_in (\<lambda>q. q \<in> set rs)) (db_subagents st1) (db_subagents st')" by blast+
  have "list_all2 (ends_in (\<lambda>q. q \<in> set (r # rs))) (db_subagents st) (db_subagents st')"
    using ih(3) r(2) unfolding t list_all2_conv_all_nth
    by (auto simp: ends_in_def split: if_splits)
  moreover have "only_recovers st st'" using store_subagent(2) [OF st1(1)] ih(2) by (rule only_recovers_trans)
  ultimately show ?case using ih(1) by blast
qed

lemma unambiguous_cong: "db_subagents st' = db_subagents st \<Longrightarrow> unambiguous st' \<longleftrightarrow> unambiguous st"
  using settled_row_cong [of st' st] by (simp only: unambiguous_def)

lemma distinct_subagents: "unambiguous st \<Longrightarrow> distinct (db_subagents st)"
  by (auto simp: unambiguous_def subagent_rows_ok_def distinct_map)

lemma end_session:
  assumes "end_subagents enc parse st i SubUnknown = Inr st'" and "unambiguous st"
  shows "unambiguous st' \<and> only_recovers st st' \<and> list_all2 (ends_in (\<lambda>q. sbr_session_id q = i)) (db_subagents st) (db_subagents st')"
proof -
  let ?rs = "filter (\<lambda>r. sbr_session_id r = i \<and> sbr_active r) (db_subagents st)"
  have e: "unambiguous st' \<and> only_recovers st st' \<and> list_all2 (ends_in (\<lambda>q. q \<in> set ?rs)) (db_subagents st) (db_subagents st')"
    using assms distinct_subagents [OF assms(2)] by (intro end_rows) (auto simp: end_subagents_def)
  then have "list_all2 (ends_in (\<lambda>q. sbr_session_id q = i)) (db_subagents st) (db_subagents st')"
    by (auto simp: ends_in_def list_all2_conv_all_nth)
  with e show ?thesis by blast
qed

lemma recover_subagents_rows:
  assumes "recover_subagents enc parse st = Inr st'" and "unambiguous st"
  shows "list_all2 (ends_in (\<lambda>_. True)) (db_subagents st) (db_subagents st')"
proof -
  have loop: "list_all2 (ends_in (\<lambda>q. sbr_session_id q \<in> set xs)) (db_subagents a) (db_subagents b)"
    if "for_each (\<lambda>st i. end_subagents enc parse st i SubUnknown) a xs = Inr b" "unambiguous a" for xs a b
    using that
  proof (induction xs arbitrary: a)
    case Nil
    then show ?case by (simp add: ends_in_def list_all2_refl)
  next
    case (Cons x xs)
    then obtain c where c: "end_subagents enc parse a x SubUnknown = Inr c"
      "for_each (\<lambda>st i. end_subagents enc parse st i SubUnknown) c xs = Inr b" by (auto simp: result_simps)
    note e = end_session [OF c(1) Cons.prems(2)]
    have l: "list_all2 (ends_in (\<lambda>q. sbr_session_id q \<in> set xs)) (db_subagents c) (db_subagents b)"
      using Cons.IH [OF c(2)] e by blast
    show ?case
      by (rule list_all2_trans [OF _ conjunct2 [OF conjunct2 [OF e]] l], drule (1) ends_in_trans)
        (auto simp: ends_in_def split: if_splits)
  qed
  have "list_all2 (ends_in (\<lambda>q. sbr_session_id q \<in> set (map sbr_session_id (filter sbr_active (db_subagents st))))) (db_subagents st) (db_subagents st')"
    using loop assms by (fastforce simp: recover_subagents_def)
  then show ?thesis by (auto simp: ends_in_def list_all2_conv_all_nth)
qed

lemma recover_subagents_only: "recover_subagents enc parse st = Inr st' \<Longrightarrow> only_recovers st st' \<and> db_queue_state st' = db_queue_state st"
proof
  assume r: "recover_subagents enc parse st = Inr st'"
  have "only_recovers a b" if "end_subagents enc parse a i SubUnknown = Inr b" for a b i
    using for_each_recovers [OF that [unfolded end_subagents_def]] store_subagent(2) by blast
  then show "only_recovers st st'" using for_each_recovers [OF r [unfolded recover_subagents_def]] by blast
  show "db_queue_state st' = db_queue_state st" using recover_subagents_core [OF r] by (simp add: same_core_def)
qed

section \<open>Turns and sessions\<close>

lemma recover_turns_parts:
  assumes "recover_turns enc parse st = Inr st'"
  shows "only_recovers st st'" "db_queue st' = db_queue st" "db_queue_state st' = db_queue_state st" "db_subagents st' = db_subagents st"
    "db_turn_changes st' = map (\<lambda>r. r\<lparr>tr_baseline := None\<rparr>) (db_turn_changes st)"
proof -
  note run = assms [unfolded recover_turns_def]
  have step: "only_recovers a b \<and> db_queue b = db_queue a \<and> db_queue_state b = db_queue_state a \<and> db_subagents b = db_subagents a \<and>
      list_all2 turn_closed (db_turn_changes a) (db_turn_changes b)" if e: "recover_turn enc parse a x = Inr b" for a b x
  proof -
    obtain i rid where x: "x = (i, rid)" by (cases x)
    from e obtain c where c: "store_event enc parse a i (TurnChanges (restart_changes rid)) = Inr c"
      and b: "b = c\<lparr>db_turn_changes := update_where (turn_key i rid) (\<lambda>r. r\<lparr>tr_baseline := None\<rparr>) (db_turn_changes c)\<rparr>"
      by (auto simp: recover_turn_def x result_simps)
    note s = store_event_recovers [OF c]
    have "only_recovers c b" by (simp add: b only_recovers_def)
    then have "only_recovers a b" using s(1) only_recovers_trans by simp
    moreover have "list_all2 turn_closed (db_turn_changes c) (db_turn_changes b)"
      by (auto simp: b turn_closed_def intro!: update_rows)
    ultimately show ?thesis using s(2,3) by (simp add: b same_core_def)
  qed
  show "only_recovers st st'" using for_each_recovers [OF run] step by blast
  show "db_queue st' = db_queue st" "db_queue_state st' = db_queue_state st" "db_subagents st' = db_subagents st"
    by (rule for_each_invariant [OF run, where P = "\<lambda>s. db_queue s = db_queue st"]
          for_each_invariant [OF run, where P = "\<lambda>s. db_queue_state s = db_queue_state st"]
          for_each_invariant [OF run, where P = "\<lambda>s. db_subagents s = db_subagents st"]; use step in \<open>simp | metis\<close>)+
  have rows: "list_all2 turn_closed (db_turn_changes st) (db_turn_changes st')"
    by (rule for_each_rows [OF run row_relations(4,3)]) (assumption | use step in blast)+
  have "list_all (\<lambda>r. tr_baseline r = None) (db_turn_changes st')"
    using recover_turns_none(1) [OF assms] recovered_iff(2) by blast
  then show "db_turn_changes st' = map (\<lambda>r. r\<lparr>tr_baseline := None\<rparr>) (db_turn_changes st)"
    by (intro rows_exact [OF rows]) (auto simp: turn_closed_def list_all_iff)
qed

lemma recover_session_parts:
  assumes "recover_session enc parse st s = Inr st'"
  shows "only_recovers st st'" "db_queue st' = db_queue st" "db_queue_state st' = db_queue_state st" "db_subagents st' = db_subagents st"
    "db_turn_changes st' = db_turn_changes st"
    "db_sessions st' = update_where (\<lambda>r. sr_id r = ses_id s) (\<lambda>r. r\<lparr>sr_data := s\<lparr>ses_status := Unknown\<rparr>\<rparr>) (db_sessions st)"
proof -
  note s = store_event_recovers [OF assms [unfolded recover_session_def]]
  have "only_recovers st (save st (s\<lparr>ses_status := Unknown\<rparr>))" by (simp add: only_recovers_def save_def)
  then show "only_recovers st st'" using s(1) only_recovers_trans by simp
  show "db_queue st' = db_queue st" "db_queue_state st' = db_queue_state st" "db_subagents st' = db_subagents st"
    "db_turn_changes st' = db_turn_changes st"
    "db_sessions st' = update_where (\<lambda>r. sr_id r = ses_id s) (\<lambda>r. r\<lparr>sr_data := s\<lparr>ses_status := Unknown\<rparr>\<rparr>) (db_sessions st)"
    using s(2,3) by (simp_all add: same_core_def save_def)
qed

lemma recover_sessions_parts:
  assumes "recover_sessions enc parse st = Inr st'" and "session_rows_ok st" and "distinct (map sr_id (db_sessions st))"
  shows "only_recovers st st'" "db_queue st' = db_queue st" "db_queue_state st' = db_queue_state st" "db_subagents st' = db_subagents st"
    "db_turn_changes st' = db_turn_changes st" "list_all2 session_lost (db_sessions st) (db_sessions st')"
proof -
  note run = assms(1) [unfolded recover_sessions_def]
  note step = recover_session_parts
  show "only_recovers st st'" using for_each_recovers [OF run] step(1) by blast
  show "db_queue st' = db_queue st" "db_queue_state st' = db_queue_state st" "db_subagents st' = db_subagents st"
    "db_turn_changes st' = db_turn_changes st"
    by (rule for_each_invariant [OF run, where P = "\<lambda>s. db_queue s = db_queue st"]
          for_each_invariant [OF run, where P = "\<lambda>s. db_queue_state s = db_queue_state st"]
          for_each_invariant [OF run, where P = "\<lambda>s. db_subagents s = db_subagents st"]
          for_each_invariant [OF run, where P = "\<lambda>s. db_turn_changes s = db_turn_changes st"]; use step(2-5) in \<open>simp | metis\<close>)+
  show "list_all2 session_lost (db_sessions st) (db_sessions st')"
  proof (rule for_each_invariant [OF run])
    show "list_all2 session_lost (db_sessions st) (db_sessions st)" by (simp add: session_lost_def list_all2_refl)
  next
    fix a s b
    assume s: "s \<in> set (filter (\<lambda>s. status_active (ses_status s)) (all_sessions st))" and b: "recover_session enc parse a s = Inr b"
      and rows: "list_all2 session_lost (db_sessions st) (db_sessions a)"
    from s obtain q where q: "q \<in> set (db_sessions st)" "sr_data q = s" "status_active (ses_status s)" by (auto simp: all_sessions_def)
    then have id: "ses_id s = sr_id q" using assms(2) by (auto simp: session_rows_ok_def)
    have "session_lost r (if sr_id r' = ses_id s then r'\<lparr>sr_data := s\<lparr>ses_status := Unknown\<rparr>\<rparr> else r')"
      if "r \<in> set (db_sessions st)" "session_lost r r'" for r r'
    proof (cases "sr_id r' = ses_id s")
      case True
      then have "sr_id r = sr_id q" using that(2) id by (auto simp: session_lost_def)
      then have "r = q" using assms(3) that(1) q(1) by (auto simp: distinct_map inj_on_def)
      with that(2) q True show ?thesis by (auto simp: session_lost_def)
    qed (use that in simp)
    then show "list_all2 session_lost (db_sessions st) (db_sessions b)"
      using rows by (auto simp: step(6) [OF b] update_where_def list_all2_conv_all_nth)
  qed
qed

lemma initialize_recovers:
  "only_recovers st (initialize st)" "db_queue (initialize st) = db_queue st" "db_turn_changes (initialize st) = db_turn_changes st"
  "db_subagents (initialize st) = db_subagents st" "db_sessions (initialize st) = db_sessions st" "paused_rows st (initialize st)"
proof -
  show "only_recovers st (initialize st)" "db_queue (initialize st) = db_queue st" "db_turn_changes (initialize st) = db_turn_changes st"
    "db_subagents (initialize st) = db_subagents st" "db_sessions (initialize st) = db_sessions st"
    by (simp_all add: initialize_def only_recovers_def)
  let ?p = "\<lambda>s. list_ex (\<lambda>r. q_session_id r = qs_session_id s \<and> q_status r = Pending) (db_queue st)"
  let ?f = "\<lambda>s. s\<lparr>qs_paused := True, qs_reason := Some restart_reason\<rparr>"
  have "db_queue_state (initialize st) = update_where ?p ?f (db_queue_state st)" by (simp add: initialize_def)
  then have upd: "(if ?p s then ?f s else s) \<in> set (db_queue_state (initialize st))" if "s \<in> set (db_queue_state st)" for s
    using updated_row [OF that, of ?p ?f] by simp
  show "paused_rows st (initialize st)"
    unfolding paused_rows_def
  proof
    fix s assume s: "s \<in> set (db_queue_state st)"
    show "\<exists>s' \<in> set (db_queue_state (initialize st)). qs_session_id s' = qs_session_id s \<and> (s' = s \<or> qs_paused s')"
      by (rule bexI [OF _ upd [OF s]]) auto
  qed
qed

text \<open>C25: opening the database, migrations of old formats aside, leaves nothing that claims to be running, and changes nothing
  else. Exactly the handed-over messages become uncertain and their queues are paused; exactly the open turn baselines are
  dropped; exactly the active sessions become unknown; exactly the active subagents end as unknown, if no other task of their
  session goes by the same native id or tool call; a queue state changes only by being paused. Everything else that is
  stored stays: projects, admitted requests, child outputs, sources, grants, baselines of sessions; the log only grows.\<close>

theorem open_recovers:
  assumes "open_store enc parse st = Inr st'" and "session_rows_ok st" and "distinct (map sr_id (db_sessions st))"
  shows "db_queue st' = map (\<lambda>r. if q_status r = Forwarded then r\<lparr>q_status := Uncertain\<rparr> else r) (db_queue st) \<and>
    (\<forall>r \<in> set (db_queue st). q_status r = Forwarded \<longrightarrow> is_paused st' (q_session_id r)) \<and>
    (\<forall>s \<in> set (db_queue_state st). \<exists>s' \<in> set (db_queue_state st'). qs_session_id s' = qs_session_id s \<and> (s' = s \<or> qs_paused s')) \<and>
    db_turn_changes st' = map (\<lambda>r. r\<lparr>tr_baseline := None\<rparr>) (db_turn_changes st) \<and>
    db_sessions st' = map (\<lambda>r. if status_active (ses_status (sr_data r)) then r\<lparr>sr_data := (sr_data r)\<lparr>ses_status := Unknown\<rparr>\<rparr> else r)
      (db_sessions st) \<and>
    (unambiguous st \<longrightarrow>
       list_all2 (\<lambda>q q'. if sbr_active q then \<exists>t. q' = ended q t else q' = q) (db_subagents st) (db_subagents st')) \<and>
    st' = st\<lparr>db_sessions := db_sessions st', db_events := db_events st', db_event_seq := db_event_seq st', db_subagents := db_subagents st',
      db_queue := db_queue st', db_queue_state := db_queue_state st', db_turn_changes := db_turn_changes st',
      db_clock_reads := db_clock_reads st'\<rparr> \<and>
    prefix (db_events st) (db_events st')"
proof -
  from assms(1) obtain st1 st2 st3 where s1: "recover_forwarded enc parse (initialize st) = Inr st1"
    and s2: "recover_subagents enc parse st1 = Inr st2" and s3: "recover_turns enc parse st2 = Inr st3"
    and s4: "recover_sessions enc parse st3 = Inr st'" by (auto simp: open_store_def result_simps)
  note f = recover_forwarded_parts [OF s1] and c = recover_subagents_core [OF s2] and only2 = recover_subagents_only [OF s2]
    and t = recover_turns_parts [OF s3] and init = initialize_recovers [of st]
  have ses: "db_sessions st3 = db_sessions st"
    using recover_forwarded_none(2) [OF s1] recover_turns_none(3) [OF s3] c init(5) by (simp add: same_core_def)
  then have ok3: "session_rows_ok st3" "distinct (map sr_id (db_sessions st3))" using assms(2,3) by (simp_all add: session_rows_ok_def)
  note s = recover_sessions_parts [OF s4 ok3]
  have "active_ids st' = {}"
  proof -
    let ?xs = "filter (\<lambda>s. status_active (ses_status s)) (all_sessions st3)"
    have "active_ids st' \<subseteq> active_ids st3 - ses_id ` set ?xs"
      by (rule for_each_removes [OF s4 [unfolded recover_sessions_def]]) (rule recover_session_sets(1))
    moreover have "active_ids st3 \<subseteq> ses_id ` set ?xs"
      using ok3(1) by (force simp: active_ids_def all_sessions_def session_rows_ok_def)
    ultimately show ?thesis by blast
  qed
  then have sessions: "db_sessions st' = map (\<lambda>r. if status_active (ses_status (sr_data r)) then r\<lparr>sr_data := (sr_data r)\<lparr>ses_status := Unknown\<rparr>\<rparr> else r)
      (db_sessions st)"
    unfolding ses [symmetric] by (intro rows_exact [OF s(6)]) (auto simp: session_lost_def active_ids_def)
  have queue: "db_queue st' = map (\<lambda>r. if q_status r = Forwarded then r\<lparr>q_status := Uncertain\<rparr> else r) (db_queue st)"
    using f(4) c s(2) t(2) init(2) by (simp add: same_core_def)
  have state: "db_queue_state st' = db_queue_state st1" using s(3) t(3) only2 by simp
  then have paused: "is_paused st' (q_session_id r)" if "r \<in> set (db_queue st)" "q_status r = Forwarded" for r
    using f(6) that init(2) by (simp add: is_paused_def)
  have "paused_rows st st'" using paused_rows_trans [OF init(6) f(5)] by (simp add: paused_rows_def state)
  note states = this [unfolded paused_rows_def]
  have turns: "db_turn_changes st' = map (\<lambda>r. r\<lparr>tr_baseline := None\<rparr>) (db_turn_changes st)"
    using f(2) t(5) c s(5) init(3) by (simp add: same_core_def)
  have tasks: "list_all2 (\<lambda>q q'. if sbr_active q then \<exists>t. q' = ended q t else q' = q) (db_subagents st) (db_subagents st')" if "unambiguous st"
  proof -
    have same: "db_subagents st1 = db_subagents st" using f(3) init(4) by simp
    then have "unambiguous st1" using that unambiguous_cong [OF same] by simp
    from recover_subagents_rows [OF s2 this]
    have "list_all2 (\<lambda>q q'. if sbr_active q then \<exists>t. q' = ended q t else q' = q) (db_subagents st1) (db_subagents st2)"
      by (rule list_all2_mono) (simp add: ends_in_def)
    then show ?thesis using same t(4) s(4) by simp
  qed
  have only: "only_recovers st st'"
    using init(1) f(1) only2 t(1) s(1) by (meson only_recovers_trans)
  show ?thesis
    using only [unfolded only_recovers_def] by (intro conjI impI ballI queue paused states [rule_format] turns sessions tasks) blast+
qed

definition sample_lost :: store where
  "sample_lost = sample_store
     \<lparr>db_sessions := [\<lparr>sr_id = ''s'', sr_project_id = ''p'', sr_data = sample_session\<lparr>ses_status := Running\<rparr>\<rparr>],
      db_subagents := [\<lparr>sbr_session_id = ''s'', sbr_id = ''a'', sbr_native_id = ''n'', sbr_tool_use_id = None,
        sbr_active = True, sbr_at = 1, sbr_data =
          \<lparr>sa_id = ''a'', sa_native_id = ''n'', sa_tool_use_id = None, sa_title = ''t'',
           sa_agent_type = None, sa_status = SubRunning, sa_summary = None, sa_last_tool = None,
           sa_started_at = Some 0, sa_updated_at = 1\<rparr>\<rparr>]\<rparr>"

lemma sample_lost_opens: "\<exists>st'. open_store (\<lambda>_. []) (\<lambda>_. None) sample_lost = Inr st'"
  by (simp add: open_store_def sample_lost_def sample_store_def empty_store_def initialize_def
      recover_forwarded_def recover_subagents_def end_subagents_def recover_turns_def recover_sessions_def all_sessions_def
      recover_session_def sample_session_def store_event_def read_clock_def save_def insert_event_def track_subagent_def upsert_subagent_def
      latest_subagent_def subagent_matches_def update_subagent_def end_update_def
      session_exists_def index_event_def event_sources_def Let_def)

theorem open_recovers_witness:
  "\<exists>st'. open_store (\<lambda>_. []) (\<lambda>_. None) sample_lost = Inr st' \<and> map (ses_status \<circ> sr_data) (db_sessions st') = [Unknown] \<and>
     map (sa_status \<circ> sbr_data) (db_subagents st') = [SubUnknown]"
proof -
  obtain st' where st': "open_store (\<lambda>_. []) (\<lambda>_. None) sample_lost = Inr st'" using sample_lost_opens by blast
  have ok: "session_rows_ok sample_lost" "distinct (map sr_id (db_sessions sample_lost))" "unambiguous sample_lost"
    by (simp_all add: session_rows_ok_def sample_lost_def sample_session_def unambiguous_def subagent_rows_ok_def subagent_matches_def)
  from open_recovers [OF st' ok(1,2)] ok(3)
  have "db_sessions st' = map (\<lambda>r. if status_active (ses_status (sr_data r)) then r\<lparr>sr_data := (sr_data r)\<lparr>ses_status := Unknown\<rparr>\<rparr> else r)
      (db_sessions sample_lost)"
    "list_all2 (\<lambda>q q'. if sbr_active q then \<exists>t. q' = ended q t else q' = q) (db_subagents sample_lost) (db_subagents st')" by blast+
  with st' show ?thesis
    by (auto simp: sample_lost_def list_all2_Cons1 ended_def)
qed

end
