(* ===== verification/Spec2Isabelle.thy ===== *)
theory Spec2Isabelle
  imports Requests Events Children History MessageQueue Recents References Turns Sources ToolContent
    Attachments Questions ProviderValidation Terminals Tracking TraexCredential ClaudeClaims ClaudePages ClaudeReports ClaudeWindow UndoClaims Garbage UndoRequest
    Recovery
begin

text \<open>
  A verification development for latte-work, a server that runs coding agents for desktop clients. A session is
  one conversation with an agent; its history, its queue of messages and the changes of every turn are rows of
  a SQLite database; one actor per session owns the agent process and serves the requests of the clients.

  \<^bold>\<open>The data.\<close> \<open>Protocol\<close> holds what is exchanged with clients and stored
  (\<open>latte-work-protocol/src/lib.rs\<close>, \<open>lifecycle.rs\<close>): structs are records, tagged enums are
  datatypes with the constructors of the source. \<open>Store\<close> holds the tables as lists of row records in
  rowid order, and the operations on projects and sessions (\<open>store.rs\<close>). \<open>Prelude\<close> has what
  all theories share: \<open>Result\<close> as a sum (\<open>Inl\<close> the error), UTF-8 strings as byte lists, 64-bit
  floats, checked \<open>u32\<close>, and lemmas on keyed lists.

  \<^bold>\<open>The store.\<close> \<open>Requests\<close>: the transaction that admits a turn. \<open>Events\<close>: the log,
  subagent tracking, polling. \<open>Children\<close>: the output of subagents (stream, snapshot, native cache).
  \<open>History\<close>: reverse pages with joined texts. \<open>MessageQueue\<close>: the durable queue with its
  compare-and-swap operations and the life cycle of a message. \<open>Recents\<close>, \<open>References\<close>,
  \<open>Turns\<close>: the recent list, the preview grants, the frozen turns and the recovery at start-up; \<open>Recovery\<close>: exactly
  what that recovery changes, table by table, and that nothing else does.
  \<open>Sources\<close>, \<open>Indexing\<close>, \<open>Snapshots\<close>, \<open>Paging\<close>, \<open>Paths\<close>,
  \<open>ToolContent\<close>: what the store records about files, tools and contents. A transaction is a function
  from a store to \<open>error + store\<close>: an error leaves no trace, as SQLite rolls back.

  \<^bold>\<open>The actor.\<close> \<open>Effects\<close>: code that mutates shared state and may fail half-way, without a
  rollback; frames (\<open>framed\<close>) and postconditions (\<open>ends\<close>) of such code. \<open>Runtime\<close>: the
  state of an actor and of its process, the interface of an agent adapter, the primitive effects.
  \<open>Supervision\<close>: \<open>TurnState::apply\<close>, \<open>Process::apply\<close>, \<open>finish_turn\<close>,
  \<open>accept_turn\<close>, \<open>receive_turn\<close> of \<open>runtime.rs\<close>. \<open>Actor\<close>: one definition per
  branch of the \<open>select!\<close> of \<open>actor\<close>, the recovery from errors, the boundary of turns, and
  \<open>actor_round\<close>, one turn of its loop. \<open>Frames\<close>, \<open>Supervised\<close>, \<open>Actors\<close>: what these
  effects keep, proved once in the locale \<open>supervision\<close> for any preorder that quiet store steps satisfy, and
  interpreted on several. \<open>Rounds\<close>: rounds interleaved with the steps of others (\<open>actor_reaches\<close>,
  a rely-guarantee relation: a round of one actor is shown to be an allowed step of every other), nothing
  durable is lost, a turn is admitted once, the automatic dispatch is first in, first out. \<open>Tracking\<close>: every
  message the agent holds is one the actor waits for; what the flag for closing promises; recovery.

  \<^bold>\<open>The Traex adapter\<close> (\<open>agents/traex.rs\<close>, \<open>traex_provider.rs\<close>). \<open>Traex\<close> has the state
  of the adapter and one definition per method or branch, from the launch command to every request, response and
  notification of the protocol. \<open>TraexLaws\<close>: the recursion equations of the source, what a method leaves alone,
  the order of its outputs (\<open>delivers\<close>) and the account of inputs (\<open>reports\<close>). \<open>TraexSession\<close>: the
  invariant of its tables and the life cycle of its phases (\<open>led\<close>). \<open>TraexClaims\<close>: reachability
  (\<open>tx_reaches\<close>) and the claims, among them \<open>orderly\<close>, the premise of \<open>Tracking\<close>.
  \<open>TraexCredential\<close>: the provider credential as a non-interference of the adapter.

  \<^bold>\<open>The Claude adapter\<close> (\<open>agents/claude.rs\<close>). \<open>Claude\<close> has its state and one definition per method or
  branch of \<open>advance\<close> and \<open>decode\<close>: the queue of inputs, results, autonomous turns, children, tasks, approvals,
  questions, the launch command. \<open>ClaudeLaws\<close>: frames and the order of outputs. \<open>ClaudeClaims\<close>: reachability
  and the claims; with \<open>TraexClaims\<close> it discharges the contract of the actor for both agents. \<open>ClaudeHistory\<close>:
  the history of a child, in pages of its file (\<open>read_child_page\<close>, \<open>parse_child_history\<close>), as a window
  (\<open>parse_child_transcript\<close>) and the normalisation of a stored window. \<open>ClaudePages\<close>: pages put together are
  the whole file read at once, while it grows. \<open>ClaudeReports\<close>: the loop that cuts a report returns. \<open>ClaudeWindow\<close>:
  the window is the longest fitting end. \<open>Utf8\<close>: cutting at a character boundary keeps text valid.

  \<^bold>\<open>Changes of a turn\<close> (\<open>task_changes.rs\<close>, \<open>snapshot_storage.rs\<close>). \<open>Worktree\<close>: a project directory, the
  store of immutable objects, the capture of a snapshot. \<open>Undo\<close>: comparing two snapshots, freezing a turn, the
  check and the restoration. \<open>UndoLaws\<close>: what one step of a restoration does, what is found again in the object
  store. \<open>UndoTurns\<close>: from two captures to the frozen turn and back. \<open>UndoClaims\<close>: the turn lists what changed,
  undoing touches nothing else, brings back the captured contents, and succeeds if its check passed; \<open>UndoSample\<close>
  runs them on an example. \<open>UndoRequest\<close>: the handler of an undo request (\<open>main.rs\<close>) step by step, with the rest of the
  server and crashes between its steps. \<open>Garbage\<close>: the collection of unreferenced objects keeps what an undo needs.

  \<^bold>\<open>Other parts.\<close> \<open>Attachments\<close> (upload slots, with restarts on the files that are left), \<open>Questions\<close> (validation of answers),
  \<open>ProviderValidation\<close> (profiles), \<open>Terminals\<close> (output ring and limits).

  \<^bold>\<open>Parameters.\<close> What is not code of the repository is an argument: serde encodings and the JSON parser
  (\<open>enc\<close>, \<open>parse\<close>, ...), the clock (\<open>db_clock\<close> at the number of reads so far), hashes,
  random identifiers, and for the actor the fields of \<open>runtime_env\<close> (does the k-th write to the agent succeed,
  what does the k-th capture of the worktree contain, ...). An adapter is a record of functions over a state; the
  only law assumed of it is \<open>orderly\<close>, and only where it is a premise. For Traex, serde is \<open>enc\<close>,
  \<open>str\<close> and \<open>dec\<close>, and \<open>tx_command\<close> takes the url crate, the skills directory, a fresh
  identifier and the initial command as arguments; for Claude \<open>uuid\<close> is the supply of identifiers, and the history
  functions take the JSON parser, the clock and the encoder. For the changes of a turn, \<open>digest\<close> is SHA-256,
  \<open>senc\<close>/\<open>sdec\<close> and \<open>cenc\<close>/\<open>cdec\<close> are the codecs of snapshots and summaries, \<open>numstat\<close> is git,
  the inventory is what git or the directory walk lists, and \<open>disk\<close> says which writes succeed. Where a claim needs it,
  its premises say that the object store lost nothing and confused no two contents (\<open>intact\<close>) and that the codecs
  read what they wrote (\<open>reads_back\<close>).

  \<^bold>\<open>Bounds.\<close> Page sizes and limits are those of the source and appear in the definitions. Loops are structural
  recursion on the rows or, where they follow offsets in a file, end by a measure; \<open>split_report\<close>, which might not
  end for a limit below one character, is option-valued and shown to return. Clients that follow cursors
  (\<open>collect\<close>) have fuel, and the claims say how much is enough.

  \<^bold>\<open>Not modelled.\<close> SQLite, WAL and the column migrations; the migration of oversized old snapshot rows at start-up
  (\<open>snapshot_migration.rs\<close>), which may replace one by a row whose undo is unknown; the check at the end of a capture that
  the project directory is still the same one, as a capture sees a directory that stands still; the rounding of the 64-bit
  floats that number the pieces of a report, which are exact rationals here; process groups, pipes and sockets; edits of a
  project between the last check of a file and its replacement; the dispatcher of \<open>main.rs\<close> except its undo handler; git,
  skills and provider files, which mostly run other programs or do file I/O; the desktop client. In a round, an error of
  the file system appears only where the environment has a field for it; the failure of SQLite itself does not.
\<close>

end
